(* ===== verification/Prelude.thy ===== *)
theory Prelude imports Complex_Main "HOL-Library.Word" begin

text \<open>
  Shared vocabulary of the development: Python exceptions as values, the error-passing
  combinators every operation is written with, and small facts about lists that several
  components use. A Python function that may raise is a function into \<open>exc + 'a\<close>: \<open>Inl\<close> is the
  exception, \<open>Inr\<close> the returned value. \<open>bindE\<close> sequences two such steps (the second runs only
  when the first returned), \<open>check b e\<close> is the statement \<open>if not b: raise e\<close>.
\<close>

section \<open>Exceptions\<close>

datatype exc =
    ValueError string
  | RuntimeError string
  | LookupError string
  | KeyError string
  | OSError string
  | OtherError string string

text \<open>
  \<open>OtherError name message\<close> is any other class of exception: the conflict errors of the stores, and
  whatever an injected port raises. \<open>exc_name\<close> is \<open>type(exc).__name__\<close>.
\<close>

fun exc_name :: "exc \<Rightarrow> string" where
  "exc_name (ValueError _) = ''ValueError''"
| "exc_name (RuntimeError _) = ''RuntimeError''"
| "exc_name (LookupError _) = ''LookupError''"
| "exc_name (KeyError _) = ''KeyError''"
| "exc_name (OSError _) = ''OSError''"
| "exc_name (OtherError name _) = name"

type_synonym uuid = "128 word"

section \<open>Error passing\<close>

named_theorems res_simps \<open>when a fallible step returns: guards and intermediate results\<close>

definition bindE :: "'e + 'a \<Rightarrow> ('a \<Rightarrow> 'e + 'b) \<Rightarrow> 'e + 'b" where
  "bindE m f = (case m of Inl e \<Rightarrow> Inl e | Inr x \<Rightarrow> f x)"

definition check :: "bool \<Rightarrow> 'e \<Rightarrow> 'e + unit" where
  "check b e = (if b then Inr () else Inl e)"

definition mapE :: "('a \<Rightarrow> 'b) \<Rightarrow> 'e + 'a \<Rightarrow> 'e + 'b" where
  "mapE f m = (case m of Inl e \<Rightarrow> Inl e | Inr x \<Rightarrow> Inr (f x))"

definition isOk :: "'e + 'a \<Rightarrow> bool" where
  "isOk m = (case m of Inl _ \<Rightarrow> False | Inr _ \<Rightarrow> True)"

lemma bindE_simps [simp]:
  "bindE (Inl e) f = Inl e"
  "bindE (Inr x) f = f x"
  by (simp_all add: bindE_def)

lemma check_simps [simp]:
  "check True e = Inr ()"
  "check False e = Inl e"
  by (simp_all add: check_def)

lemma mapE_simps [simp]:
  "mapE f (Inl e) = Inl e"
  "mapE f (Inr x) = Inr (f x)"
  by (simp_all add: mapE_def)

lemma isOk_simps [simp]: "isOk (Inr x)" "\<not> isOk (Inl e)"
  by (simp_all add: isOk_def)

lemma isOk_iff: "isOk m \<longleftrightarrow> (\<exists>x. m = Inr x)"
  by (cases m) simp_all

lemma bindE_Inr_iff [res_simps]: "(bindE step next_step = Inr out) = (\<exists>v. step = Inr v \<and> next_step v = Inr out)"
  unfolding bindE_def by (simp split: sum.split)

lemma bindE_Inl_iff:
  "(bindE step next_step = Inl e) = (step = Inl e \<or> (\<exists>v. step = Inr v \<and> next_step v = Inl e))"
  unfolding bindE_def by (simp split: sum.split)

lemma check_Inr_iff [res_simps]: "check b e = Inr u \<longleftrightarrow> b"
  by (simp add: check_def)

lemma check_Inl_iff: "check b e = Inl e' \<longleftrightarrow> \<not> b \<and> e' = e"
  by (auto simp: check_def)

lemma mapE_Inr_iff [res_simps]: "mapE f m = Inr y \<longleftrightarrow> (\<exists>x. m = Inr x \<and> y = f x)"
  by (cases m) auto

lemma bindE_cong [fundef_cong]:
  "m = m' \<Longrightarrow> (\<And>x. m' = Inr x \<Longrightarrow> f x = g x) \<Longrightarrow> bindE m f = bindE m' g"
  by (cases m') simp_all

text \<open>Validating every element of a tuple, left to right, keeping the first exception.\<close>

fun mapM :: "('a \<Rightarrow> 'e + 'b) \<Rightarrow> 'a list \<Rightarrow> 'e + 'b list" where
  "mapM f [] = Inr []"
| "mapM f (x # xs) = bindE (f x) (\<lambda>y. bindE (mapM f xs) (\<lambda>ys. Inr (y # ys)))"

lemma mapM_cong [fundef_cong]:
  "xs = ys \<Longrightarrow> (\<And>x. x \<in> set ys \<Longrightarrow> f x = g x) \<Longrightarrow> mapM f xs = mapM g ys"
  by (induction ys arbitrary: xs) auto

lemma mapM_Inr_iff: "mapM f xs = Inr ys \<longleftrightarrow> list_all2 (\<lambda>x y. f x = Inr y) xs ys"
  by (induction xs arbitrary: ys) (auto simp: res_simps list_all2_Cons1)

section \<open>Lists\<close>

text \<open>\<open>dict.fromkeys\<close>: the elements without repetition, in the order of first occurrence.\<close>

fun uniq :: "'a list \<Rightarrow> 'a list" where
  "uniq [] = []"
| "uniq (x # xs) = x # filter (\<lambda>y. y \<noteq> x) (uniq xs)"

lemma set_uniq [simp]: "set (uniq xs) = set xs"
  by (induction xs) auto

lemma distinct_uniq [simp]: "distinct (uniq xs)"
  by (induction xs) auto

lemma uniq_distinct: "distinct xs \<Longrightarrow> uniq xs = xs"
  by (induction xs) (auto intro!: filter_True)

lemma uniq_uniq [simp]: "uniq (uniq xs) = uniq xs"
  by (simp add: uniq_distinct)

text \<open>Replacing, in a list keyed by \<open>key\<close>, the entries of one key.\<close>

definition replace_by :: "('a \<Rightarrow> 'k) \<Rightarrow> 'a \<Rightarrow> 'a list \<Rightarrow> 'a list" where
  "replace_by key v xs = map (\<lambda>x. if key x = key v then v else x) xs"

lemma map_key_replace_by [simp]: "map key (replace_by key v xs) = map key xs"
  by (simp add: replace_by_def)

lemma length_replace_by [simp]: "length (replace_by key v xs) = length xs"
  by (simp add: replace_by_def)

lemma set_replace_by:
  "set (replace_by key v xs) =
    {x \<in> set xs. key x \<noteq> key v} \<union> (if key v \<in> key ` set xs then {v} else {})"
  by (induction xs) (auto simp: replace_by_def)

lemma replace_by_memD:
  "x \<in> set (replace_by key v xs) \<Longrightarrow> x = v \<or> (x \<in> set xs \<and> key x \<noteq> key v)"
  by (auto simp: replace_by_def split: if_splits)

lemma find_replace_by_same:
  "find (\<lambda>x. key x = k) (replace_by key v xs) =
    (if key v = k \<and> k \<in> key ` set xs then Some v else find (\<lambda>x. key x = k) xs)"
  by (induction xs) (auto simp: replace_by_def find_None_iff image_iff)

lemma find_Some_mem: "find P xs = Some x \<Longrightarrow> x \<in> set xs \<and> P x"
  by (induction xs) (auto split: if_splits)

lemma find_key_distinct:
  "distinct (map key xs) \<Longrightarrow> x \<in> set xs \<Longrightarrow> find (\<lambda>y. key y = key x) xs = Some x"
  by (induction xs) (auto simp: image_iff split: if_splits)

lemma map_replace_by_same:
  assumes "distinct (map key xs)" "t \<in> set xs" "key v = key t" "f v = f t"
  shows "map f (replace_by key v xs) = map f xs"
proof -
  have "x = t" if "x \<in> set xs" "key x = key v" for x
    using that assms by (auto simp: distinct_map dest: inj_onD)
  then show ?thesis using assms(4) by (auto simp: replace_by_def)
qed

lemma sum_list_replace_by:
  fixes f :: "'a \<Rightarrow> int"
  assumes "distinct (map key xs)" "x \<in> set xs" "key x = key v"
  shows "(\<Sum>y\<leftarrow>replace_by key v xs. f y) = (\<Sum>y\<leftarrow>xs. f y) - f x + f v"
  using assms
proof (induction xs)
  case Nil
  then show ?case by simp
next
  case (Cons a xs)
  show ?case
  proof (cases "key a = key v")
    case True
    with Cons.prems have "a = x" by (auto simp: image_iff)
    moreover have "replace_by key v xs = xs"
      using Cons.prems True by (auto simp: replace_by_def image_iff intro!: map_idI)
    ultimately show ?thesis using True by (simp add: replace_by_def)
  next
    case False
    then have "a \<noteq> x" using Cons.prems by auto
    with Cons.prems have "x \<in> set xs" by simp
    with Cons False show ?thesis by (simp add: replace_by_def)
  qed
qed

end
