(* ===== verification/PyStr.thy ===== *)
theory PyStr imports Prelude "HOL-Library.Sublist" "HOL-Library.Char_ord" "HOL-Library.List_Lexorder" begin

text \<open>
  The part of Python's \<open>str\<close> the program uses. A Python string is represented by its UTF-8
  encoding, a list of bytes (\<open>char\<close> is exactly a byte), so that \<open>encode('utf-8')\<close> is the identity
  and searching, splitting and prefix tests are the tests of the source: no UTF-8 sequence
  starts inside another one. Strings with lone surrogates, which have no encoding, are outside
  the model. \<open>strip\<close> and \<open>splitlines\<close> know every Unicode white-space character and line
  boundary; \<open>lower\<close> maps ASCII, Latin-1 and the two further characters whose lower case
  holds an ASCII letter (the Kelvin sign and the dotted capital I), and leaves other letters alone.
\<close>

type_synonym pystr = string

abbreviation code :: "char \<Rightarrow> nat" where
  "code c \<equiv> of_char c"

section \<open>White space\<close>

definition ws_codes :: "string list" where
  "ws_codes =
    [[CHR 0x20], [CHR 0x09], [CHR 0x0A], [CHR 0x0B], [CHR 0x0C], [CHR 0x0D], [CHR 0x1C],
     [CHR 0x1D], [CHR 0x1E], [CHR 0x1F], [CHR 0xC2, CHR 0x85], [CHR 0xC2, CHR 0xA0],
     [CHR 0xE1, CHR 0x9A, CHR 0x80], [CHR 0xE2, CHR 0x80, CHR 0x80],
     [CHR 0xE2, CHR 0x80, CHR 0x81], [CHR 0xE2, CHR 0x80, CHR 0x82],
     [CHR 0xE2, CHR 0x80, CHR 0x83], [CHR 0xE2, CHR 0x80, CHR 0x84],
     [CHR 0xE2, CHR 0x80, CHR 0x85], [CHR 0xE2, CHR 0x80, CHR 0x86],
     [CHR 0xE2, CHR 0x80, CHR 0x87], [CHR 0xE2, CHR 0x80, CHR 0x88],
     [CHR 0xE2, CHR 0x80, CHR 0x89], [CHR 0xE2, CHR 0x80, CHR 0x8A],
     [CHR 0xE2, CHR 0x80, CHR 0xA8], [CHR 0xE2, CHR 0x80, CHR 0xA9],
     [CHR 0xE2, CHR 0x80, CHR 0xAF], [CHR 0xE2, CHR 0x81, CHR 0x9F],
     [CHR 0xE3, CHR 0x80, CHR 0x80]]"

function strip_left :: "string list \<Rightarrow> string \<Rightarrow> string" where
  "strip_left ws s =
    (case find (\<lambda>w. w \<noteq> [] \<and> prefix w s) ws of
       None \<Rightarrow> s
     | Some w \<Rightarrow> strip_left ws (drop (length w) s))"
  by pat_completeness auto
termination
proof (relation "measure (\<lambda>(ws, s). length s)", simp)
  fix ws :: "string list" and s w :: string
  assume "find (\<lambda>w. w \<noteq> [] \<and> prefix w s) ws = Some w"
  then have "w \<noteq> []" "prefix w s" by (auto dest: find_Some_mem)
  then show "((ws, drop (length w) s), ws, s) \<in> measure (\<lambda>(ws, s). length s)"
    by (cases s; cases w) auto
qed

declare strip_left.simps [simp del]

definition lstrip :: "pystr \<Rightarrow> pystr" where
  "lstrip s = strip_left ws_codes s"

definition rstrip :: "pystr \<Rightarrow> pystr" where
  "rstrip s = rev (strip_left (map rev ws_codes) (rev s))"

definition strip :: "pystr \<Rightarrow> pystr" where
  "strip s = rstrip (lstrip s)"

definition blank :: "pystr \<Rightarrow> bool" where
  "blank s \<longleftrightarrow> strip s = []"

section \<open>Case\<close>

definition is_upper :: "char \<Rightarrow> bool" where
  "is_upper c \<longleftrightarrow> 65 \<le> code c \<and> code c \<le> 90"

definition is_lower :: "char \<Rightarrow> bool" where
  "is_lower c \<longleftrightarrow> 97 \<le> code c \<and> code c \<le> 122"

definition is_alpha :: "char \<Rightarrow> bool" where
  "is_alpha c \<longleftrightarrow> is_upper c \<or> is_lower c"

definition is_digit :: "char \<Rightarrow> bool" where
  "is_digit c \<longleftrightarrow> 48 \<le> code c \<and> code c \<le> 57"

definition is_hex :: "char \<Rightarrow> bool" where
  "is_hex c \<longleftrightarrow> is_digit c \<or> (65 \<le> code c \<and> code c \<le> 70) \<or> (97 \<le> code c \<and> code c \<le> 102)"

definition is_lower_hex :: "char \<Rightarrow> bool" where
  "is_lower_hex c \<longleftrightarrow> is_digit c \<or> (97 \<le> code c \<and> code c \<le> 102)"

definition ascii_lower :: "char \<Rightarrow> char" where
  "ascii_lower c = (if is_upper c then char_of (code c + 32) else c)"

definition ascii_upper :: "char \<Rightarrow> char" where
  "ascii_upper c = (if is_lower c then char_of (code c - 32) else c)"

definition lower_special :: "(string \<times> string) list" where
  "lower_special =
    [([CHR 0xE2, CHR 0x84, CHR 0xAA], ''k''),
     ([CHR 0xC4, CHR 0xB0], ''i'' @ [CHR 0xCC, CHR 0x87])] @
    map (\<lambda>n. ([CHR 0xC3, char_of n], [CHR 0xC3, char_of (n + 32 :: nat)]))
      ([0x80..<0x97] @ [0x98..<0x9F])"

function lower :: "pystr \<Rightarrow> pystr" where
  "lower [] = []"
| "lower (c # s) =
    (if code c < 128 then ascii_lower c # lower s
     else (case find (\<lambda>(u, l). u \<noteq> [] \<and> prefix u (c # s)) lower_special of
             None \<Rightarrow> c # lower s
           | Some (u, l) \<Rightarrow> l @ lower (drop (length u) (c # s))))"
  by pat_completeness auto
termination
proof (relation "measure length", simp, simp, simp)
  fix c and s u l :: string and p
  assume "find (\<lambda>(u, l). u \<noteq> [] \<and> prefix u (c # s)) lower_special = Some p" and "(u, l) = p"
  then have "u \<noteq> []" by (auto dest: find_Some_mem)
  then show "(drop (length u) (c # s), c # s) \<in> measure length"
    by (cases u) auto
qed

definition is_ascii :: "pystr \<Rightarrow> bool" where
  "is_ascii s \<longleftrightarrow> list_all (\<lambda>c. code c < 128) s"

section \<open>Splitting\<close>

text \<open>\<open>s.split(c)\<close> for a one-character separator.\<close>

fun split_on :: "char \<Rightarrow> pystr \<Rightarrow> pystr list" where
  "split_on d [] = [[]]"
| "split_on d (c # s) =
    (if c = d then [] # split_on d s
     else (case split_on d s of [] \<Rightarrow> [[c]] | p # ps \<Rightarrow> (c # p) # ps))"

text \<open>\<open>s.partition(c)\<close>: the part before, whether the separator was found, the part after.\<close>

fun partition1 :: "char \<Rightarrow> pystr \<Rightarrow> pystr \<times> bool \<times> pystr" where
  "partition1 d [] = ([], False, [])"
| "partition1 d (c # s) =
    (if c = d then ([], True, s)
     else (case partition1 d s of (a, b, r) \<Rightarrow> (c # a, b, r)))"

text \<open>\<open>s.rpartition(c)\<close>: the last separator splits; without one everything is in the last part.\<close>

definition rpartition1 :: "char \<Rightarrow> pystr \<Rightarrow> pystr \<times> bool \<times> pystr" where
  "rpartition1 d s =
    (case partition1 d (rev s) of (a, b, r) \<Rightarrow>
       if b then (rev r, True, rev a) else ([], False, s))"

definition has_char :: "char \<Rightarrow> pystr \<Rightarrow> bool" where
  "has_char c s \<longleftrightarrow> List.member s c"

text \<open>\<open>sep.join(parts)\<close>.\<close>

fun join :: "pystr \<Rightarrow> pystr list \<Rightarrow> pystr" where
  "join d [] = []"
| "join d [p] = p"
| "join d (p # q # ps) = p @ d @ join d (q # ps)"

lemma split_on_nonempty [simp]: "split_on d s \<noteq> []"
  by (induction s) (auto split: list.splits)

lemma split_on_append:
  "split_on d (s @ d # t) = split_on d s @ split_on d t"
  by (induction s) (auto split: list.splits simp: append_eq_Cons_conv)

lemma join_split_on: "join [d] (split_on d s) = s"
proof (induction s)
  case Nil
  then show ?case by simp
next
  case (Cons c s)
  obtain p ps where "split_on d s = p # ps" using split_on_nonempty by (meson list.exhaust)
  with Cons show ?case by (cases ps) auto
qed

lemma split_on_inject: "split_on d s = split_on d t \<longleftrightarrow> s = t"
  by (metis join_split_on)

lemma join_append:
  "xs \<noteq> [] \<Longrightarrow> ys \<noteq> [] \<Longrightarrow> join d (xs @ ys) = join d xs @ d @ join d ys"
proof (induction xs)
  case Nil
  then show ?case by simp
next
  case (Cons x xs)
  then show ?case by (cases xs; cases ys) auto
qed

text \<open>\<open>s.find(needle, start)\<close>; \<open>None\<close> is Python's \<open>-1\<close>.\<close>

fun find_sub :: "pystr \<Rightarrow> pystr \<Rightarrow> nat option" where
  "find_sub n [] = (if n = [] then Some 0 else None)"
| "find_sub n (c # s) = (if prefix n (c # s) then Some 0 else map_option Suc (find_sub n s))"

definition find_from :: "pystr \<Rightarrow> pystr \<Rightarrow> nat \<Rightarrow> nat option" where
  "find_from n s i =
    (if length s < i then None else map_option (\<lambda>k. k + i) (find_sub n (drop i s)))"

section \<open>Decimal numbers\<close>

definition digit_char :: "nat \<Rightarrow> char" where
  "digit_char d = char_of (48 + d)"

fun nat_str :: "nat \<Rightarrow> pystr" where
  "nat_str n = (if n < 10 then [digit_char n] else nat_str (n div 10) @ [digit_char (n mod 10)])"

declare nat_str.simps [simp del]

definition int_str :: "int \<Rightarrow> pystr" where
  "int_str i = (if i < 0 then ''-'' @ nat_str (nat (- i)) else nat_str (nat i))"

definition digits_val :: "pystr \<Rightarrow> nat" where
  "digits_val s = fold (\<lambda>c n. 10 * n + (code c - 48)) s 0"

definition hex_val :: "char \<Rightarrow> nat" where
  "hex_val c =
    (if is_digit c then code c - 48 else if code c \<le> 70 then code c - 55 else code c - 87)"

definition hex_digit :: "nat \<Rightarrow> char" where
  "hex_digit d = (if d < 10 then char_of (48 + d) else char_of (87 + d))"

end
