(* ===== verification/PyIp.thy ===== *)
theory PyIp imports PyStr begin

text \<open>
  Python's \<open>ipaddress.ip_address\<close> on strings: parsing of IPv4 and IPv6 text, canonical printing,
  and the classification properties (\<open>is_global\<close>, \<open>is_private\<close>, \<dots>) the acquisition policy asks for.
  Addresses are their integer value; an IPv6 address keeps its scope id.
\<close>

datatype ip_address = IPv4 int | IPv6 int "pystr option"

section \<open>Parsing\<close>

definition parse_octet :: "pystr \<Rightarrow> int option" where
  "parse_octet s =
    (if s = [] \<or> \<not> list_all is_digit s \<or> 3 < length s \<or> (s \<noteq> ''0'' \<and> hd s = CHR ''0'') then None
     else (let n = int (digits_val s) in if 255 < n then None else Some n))"

definition ipv4_parse :: "pystr \<Rightarrow> int option" where
  "ipv4_parse s =
    (if has_char CHR ''/'' s then None
     else (case map parse_octet (split_on CHR ''.'' s) of
             [Some a, Some b, Some c, Some d] \<Rightarrow> Some (((a * 256 + b) * 256 + c) * 256 + d)
           | _ \<Rightarrow> None))"

definition parse_hextet :: "pystr \<Rightarrow> int option" where
  "parse_hextet s =
    (if s = [] \<or> \<not> list_all is_hex s \<or> 4 < length s then None
     else Some (fold (\<lambda>c n. 16 * n + int (hex_val c)) s 0))"

function hex_str :: "int \<Rightarrow> pystr" where
  "hex_str n =
    (if n < 16 then [hex_digit (nat n)] else hex_str (n div 16) @ [hex_digit (nat (n mod 16))])"
  by pat_completeness auto
termination
  by (relation "measure nat") auto

declare hex_str.simps [simp del]

definition hextets_val :: "pystr list \<Rightarrow> int option" where
  "hextets_val ps =
    (if list_all (\<lambda>p. parse_hextet p \<noteq> None) ps
     then Some (fold (\<lambda>p n. 65536 * n + the (parse_hextet p)) ps 0) else None)"

text \<open>A trailing IPv4 part stands for two hextets.\<close>

definition expand_ipv4_tail :: "pystr list \<Rightarrow> pystr list option" where
  "expand_ipv4_tail ps =
    (if has_char CHR ''.'' (last ps)
     then (case ipv4_parse (last ps) of
             None \<Rightarrow> None
           | Some v \<Rightarrow> Some (butlast ps @ [hex_str (v div 65536 mod 65536), hex_str (v mod 65536)]))
     else Some ps)"

definition ipv6_of_parts :: "pystr list \<Rightarrow> int option" where
  "ipv6_of_parts ps =
    (let n = length ps; skips = filter (\<lambda>i. ps ! i = []) [1..<n - 1]
     in if 9 < n \<or> 1 < length skips then None
        else (case skips of
          k # _ \<Rightarrow>
            (let hi = (if hd ps = [] then k - 1 else k);
                 lo = (if last ps = [] then n - k - 2 else n - k - 1)
             in if (hd ps = [] \<and> hi \<noteq> 0) \<or> (last ps = [] \<and> lo \<noteq> 0) \<or> 7 < hi + lo then None
                else (case (hextets_val (take hi ps), hextets_val (drop (n - lo) ps)) of
                        (Some h, Some l) \<Rightarrow> Some (h * 65536 ^ (8 - hi) + l)
                      | _ \<Rightarrow> None))
        | [] \<Rightarrow>
            (if n \<noteq> 8 \<or> hd ps = [] \<or> last ps = [] then None else hextets_val ps)))"

definition ipv6_int_parse :: "pystr \<Rightarrow> int option" where
  "ipv6_int_parse s =
    (let ps = split_on CHR '':'' s
     in if s = [] \<or> length ps < 3 then None
        else Option.bind (expand_ipv4_tail ps) ipv6_of_parts)"

definition ipv6_parse :: "pystr \<Rightarrow> (int \<times> pystr option) option" where
  "ipv6_parse s =
    (if has_char CHR ''/'' s then None
     else (case partition1 CHR ''%'' s of (a, b, z) \<Rightarrow>
             if b \<and> (z = [] \<or> has_char CHR ''%'' z) then None
             else map_option (\<lambda>v. (v, if b then Some z else None)) (ipv6_int_parse a)))"

text \<open>\<open>ip_address(s)\<close>; \<open>None\<close> stands for its \<open>ValueError\<close>.\<close>

definition ip_address_parse :: "pystr \<Rightarrow> ip_address option" where
  "ip_address_parse s =
    (case ipv4_parse s of
       Some v \<Rightarrow> Some (IPv4 v)
     | None \<Rightarrow> map_option (\<lambda>(v, z). IPv6 v z) (ipv6_parse s))"

section \<open>Printing\<close>

definition ipv4_str :: "int \<Rightarrow> pystr" where
  "ipv4_str v =
    join ''.'' (map int_str [v div 16777216 mod 256, v div 65536 mod 256, v div 256 mod 256, v mod 256])"

text \<open>The longest run of zero hextets, the first of those of equal length: (start, length).\<close>

fun best_run :: "nat \<Rightarrow> pystr list \<Rightarrow> nat \<times> nat \<Rightarrow> nat \<times> nat \<Rightarrow> nat \<times> nat" where
  "best_run i [] cur best = best"
| "best_run i (h # hs) (cs, cl) (bs, bl) =
    (if h = ''0''
     then (let cs' = (if cl = 0 then i else cs); cl' = cl + 1
           in best_run (i + 1) hs (cs', cl') (if bl < cl' then (cs', cl') else (bs, bl)))
     else best_run (i + 1) hs (0, 0) (bs, bl))"

definition compress_hextets :: "pystr list \<Rightarrow> pystr list" where
  "compress_hextets hs =
    (case best_run 0 hs (0, 0) (0, 0) of (s, l) \<Rightarrow>
      if 1 < l
      then (if s = 0 then [[]] else []) @ take s hs @ [[]] @ drop (s + l) hs @
           (if s + l = length hs then [[]] else [])
      else hs)"

definition ipv6_str :: "int \<Rightarrow> pystr" where
  "ipv6_str v =
    join '':'' (compress_hextets (map (\<lambda>i. hex_str (v div 65536 ^ i mod 65536)) (rev [0..<8])))"

fun ip_str :: "ip_address \<Rightarrow> pystr" where
  "ip_str (IPv4 v) = ipv4_str v"
| "ip_str (IPv6 v z) = ipv6_str v @ (case z of None \<Rightarrow> [] | Some s \<Rightarrow> ''%'' @ s)"

section \<open>Classification\<close>

text \<open>\<open>addr in net\<close> for a network given by its base and the number of free low bits.\<close>

definition in_net :: "int \<Rightarrow> int \<times> nat \<Rightarrow> bool" where
  "in_net v n = (v div 2 ^ snd n = fst n div 2 ^ snd n)"

definition ip4 :: "int \<Rightarrow> int \<Rightarrow> int \<Rightarrow> int \<Rightarrow> int" where
  "ip4 a b c d = ((a * 256 + b) * 256 + c) * 256 + d"

definition v4_private_nets :: "(int \<times> nat) list" where
  "v4_private_nets =
    [(ip4 0 0 0 0, 24), (ip4 10 0 0 0, 24), (ip4 127 0 0 0, 24), (ip4 169 254 0 0, 16),
     (ip4 172 16 0 0, 20), (ip4 192 0 0 0, 8), (ip4 192 0 0 170, 1), (ip4 192 0 2 0, 8),
     (ip4 192 168 0 0, 16), (ip4 198 18 0 0, 17), (ip4 198 51 100 0, 8), (ip4 203 0 113 0, 8),
     (ip4 240 0 0 0, 28), (ip4 255 255 255 255, 0)]"

definition v4_private_exceptions :: "(int \<times> nat) list" where
  "v4_private_exceptions = [(ip4 192 0 0 9, 0), (ip4 192 0 0 10, 0)]"

definition v6_private_nets :: "(int \<times> nat) list" where
  "v6_private_nets =
    [(1, 0), (0, 0), (0xffff00000000, 32), (0x0064ff9b000100000000000000000000, 80),
     (0x01000000000000000000000000000000, 64), (0x20010000000000000000000000000000, 105),
     (0x20010db8000000000000000000000000, 96), (0x20020000000000000000000000000000, 112),
     (0xfc000000000000000000000000000000, 121), (0xfe800000000000000000000000000000, 118)]"

definition v6_private_exceptions :: "(int \<times> nat) list" where
  "v6_private_exceptions =
    [(0x20010001000000000000000000000001, 0), (0x20010001000000000000000000000002, 0),
     (0x20010003000000000000000000000000, 96), (0x20010004011200000000000000000000, 80),
     (0x20010020000000000000000000000000, 100), (0x20010030000000000000000000000000, 100)]"

definition v6_reserved_nets :: "(int \<times> nat) list" where
  "v6_reserved_nets =
    [(0, 120), (0x01000000000000000000000000000000, 120), (0x02000000000000000000000000000000, 121),
     (0x04000000000000000000000000000000, 122), (0x08000000000000000000000000000000, 123),
     (0x10000000000000000000000000000000, 124), (0x40000000000000000000000000000000, 125),
     (0x60000000000000000000000000000000, 125), (0x80000000000000000000000000000000, 125),
     (0xA0000000000000000000000000000000, 125), (0xC0000000000000000000000000000000, 125),
     (0xE0000000000000000000000000000000, 124), (0xF0000000000000000000000000000000, 123),
     (0xF8000000000000000000000000000000, 122), (0xFE000000000000000000000000000000, 119)]"

definition v4_is_private :: "int \<Rightarrow> bool" where
  "v4_is_private v \<longleftrightarrow>
    list_ex (in_net v) v4_private_nets \<and> list_all (\<lambda>n. \<not> in_net v n) v4_private_exceptions"

text \<open>\<open>ipv4_mapped\<close>: the addresses \<open>::ffff:a.b.c.d\<close>.\<close>

definition v4_mapped :: "int \<Rightarrow> int option" where
  "v4_mapped v = (if v div 2 ^ 32 = 0xffff then Some (v mod 2 ^ 32) else None)"

fun is_private :: "ip_address \<Rightarrow> bool" where
  "is_private (IPv4 v) = v4_is_private v"
| "is_private (IPv6 v z) =
    (case v4_mapped v of
       Some w \<Rightarrow> v4_is_private w
     | None \<Rightarrow> list_ex (in_net v) v6_private_nets \<and>
               list_all (\<lambda>n. \<not> in_net v n) v6_private_exceptions)"

fun is_global :: "ip_address \<Rightarrow> bool" where
  "is_global (IPv4 v) \<longleftrightarrow> \<not> in_net v (ip4 100 64 0 0, 22) \<and> \<not> v4_is_private v"
| "is_global (IPv6 v z) \<longleftrightarrow> \<not> is_private (IPv6 v z)"

fun is_multicast :: "ip_address \<Rightarrow> bool" where
  "is_multicast (IPv4 v) = in_net v (ip4 224 0 0 0, 28)"
| "is_multicast (IPv6 v z) = in_net v (0xff000000000000000000000000000000, 120)"

text \<open>A scoped IPv6 zero address is still unspecified, a scoped \<open>::1\<close> still loopback.\<close>

fun is_unspecified :: "ip_address \<Rightarrow> bool" where
  "is_unspecified (IPv4 v) \<longleftrightarrow> v = 0"
| "is_unspecified (IPv6 v z) \<longleftrightarrow> v = 0"

fun is_link_local :: "ip_address \<Rightarrow> bool" where
  "is_link_local (IPv4 v) = in_net v (ip4 169 254 0 0, 16)"
| "is_link_local (IPv6 v z) = in_net v (0xfe800000000000000000000000000000, 118)"

fun is_reserved :: "ip_address \<Rightarrow> bool" where
  "is_reserved (IPv4 v) = in_net v (ip4 240 0 0 0, 28)"
| "is_reserved (IPv6 v z) = list_ex (in_net v) v6_reserved_nets"

fun is_loopback :: "ip_address \<Rightarrow> bool" where
  "is_loopback (IPv4 v) = in_net v (ip4 127 0 0 0, 24)"
| "is_loopback (IPv6 v z) \<longleftrightarrow> v = 1"

section \<open>Parsed addresses are in range\<close>

lemma hex_val_less: "is_hex c \<Longrightarrow> hex_val c < 16"
  by (auto simp: is_hex_def is_digit_def hex_val_def)

lemma fold_base_bound:
  fixes f :: "'a \<Rightarrow> int"
  assumes "\<And>x. x \<in> set xs \<Longrightarrow> 0 \<le> f x \<and> f x < B" "0 \<le> a"
  shows "0 \<le> fold (\<lambda>x n. B * n + f x) xs a \<and> fold (\<lambda>x n. B * n + f x) xs a < B ^ length xs * (a + 1)"
  using assms
proof (induction xs arbitrary: a)
  case Nil
  then show ?case by simp
next
  case (Cons x xs)
  have x: "0 \<le> f x" "f x < B" using Cons.prems(1)[of x] by auto
  then have B: "0 \<le> B" by simp
  have a': "0 \<le> B * a + f x" using x B Cons.prems(2) by simp
  have "B * a + f x + 1 \<le> B * (a + 1)" using x by (simp add: distrib_left)
  then have "B ^ length xs * (B * a + f x + 1) \<le> B ^ length xs * (B * (a + 1))"
    using B by (intro mult_left_mono) simp_all
  then show ?case using Cons.IH[OF Cons.prems(1) a'] by (simp add: mult.assoc mult.left_commute)
qed

lemma parse_hextet_range: "parse_hextet s = Some n \<Longrightarrow> 0 \<le> n \<and> n < 65536"
proof -
  assume a: "parse_hextet s = Some n"
  then have h: "list_all is_hex s" "length s \<le> 4" and n: "n = fold (\<lambda>c n. 16 * n + int (hex_val c)) s 0"
    by (auto simp: parse_hextet_def split: if_splits)
  have "0 \<le> n \<and> n < 16 ^ length s * (0 + 1)"
    unfolding n by (rule fold_base_bound) (use h(1) hex_val_less in \<open>fastforce simp: list_all_iff\<close>)+
  moreover have "(16::int) ^ length s \<le> 16 ^ 4" using h(2) by (intro power_increasing) auto
  ultimately show ?thesis by simp
qed

lemma hextets_val_range: "hextets_val ps = Some v \<Longrightarrow> 0 \<le> v \<and> v < 65536 ^ length ps"
proof -
  assume a: "hextets_val ps = Some v"
  then have h: "list_all (\<lambda>p. parse_hextet p \<noteq> None) ps"
    and v: "v = fold (\<lambda>p n. 65536 * n + the (parse_hextet p)) ps 0"
    by (auto simp: hextets_val_def split: if_splits)
  have "0 \<le> v \<and> v < 65536 ^ length ps * (0 + 1)"
    unfolding v by (rule fold_base_bound) (use h parse_hextet_range in \<open>fastforce simp: list_all_iff\<close>)+
  then show ?thesis by simp
qed

lemma ipv6_of_parts_range: "ipv6_of_parts ps = Some v \<Longrightarrow> 0 \<le> v \<and> v < 2 ^ 128"
proof -
  assume a: "ipv6_of_parts ps = Some v"
  have two: "(2::int) ^ 128 = 65536 ^ 8" by simp
  consider "hextets_val ps = Some v" "length ps = 8"
    | hi lo h l where "hi + lo \<le> 7" "lo \<le> length ps" "hextets_val (take hi ps) = Some h"
        "hextets_val (drop (length ps - lo) ps) = Some l" "v = h * 65536 ^ (8 - hi) + l"
  proof (cases "filter (\<lambda>i. ps ! i = []) [1..<length ps - 1]")
    case Nil
    then show ?thesis using a that(1)
      by (auto simp: ipv6_of_parts_def Let_def split: if_splits)
  next
    case (Cons k ks)
    define hi where "hi = (if hd ps = [] then k - 1 else k)"
    define lo where "lo = (if last ps = [] then length ps - k - 2 else length ps - k - 1)"
    have lo: "lo \<le> length ps" by (simp add: lo_def)
    from a have "hi + lo \<le> 7 \<and> (\<exists>h l. hextets_val (take hi ps) = Some h \<and>
        hextets_val (drop (length ps - lo) ps) = Some l \<and> v = h * 65536 ^ (8 - hi) + l)"
      unfolding ipv6_of_parts_def Let_def Cons list.case hi_def[symmetric] lo_def[symmetric]
      by (auto simp: not_less split: if_splits option.splits)
    then show ?thesis using that(2) lo by blast
  qed
  then show ?thesis
  proof cases
    case 1
    then show ?thesis unfolding two using hextets_val_range by fastforce
  next
    case 2
    have h: "0 \<le> h" "h < 65536 ^ length (take hi ps)" and l: "0 \<le> l" "l < 65536 ^ length (drop (length ps - lo) ps)"
      using hextets_val_range[OF 2(3)] hextets_val_range[OF 2(4)] by auto
    have "(65536::int) ^ length (take hi ps) \<le> 65536 ^ hi" by (intro power_increasing) auto
    then have h': "h + 1 \<le> 65536 ^ hi" using h(2) by linarith
    have "(65536::int) ^ length (drop (length ps - lo) ps) \<le> 65536 ^ (8 - hi)"
      using 2(1,2) by (intro power_increasing) auto
    then have l': "l < 65536 ^ (8 - hi)" using l(2) by linarith
    have "(h + 1) * 65536 ^ (8 - hi) \<le> 65536 ^ hi * 65536 ^ (8 - hi)"
      using h' by (intro mult_right_mono) simp_all
    also have "\<dots> = 65536 ^ 8" using 2(1) by (simp flip: power_add)
    finally show ?thesis unfolding two 2(5) using h(1) l l' by (simp add: distrib_right)
  qed
qed

lemma parse_octet_range: "parse_octet s = Some n \<Longrightarrow> 0 \<le> n \<and> n \<le> 255"
  by (auto simp: parse_octet_def Let_def split: if_splits)

fun ip_in_range :: "ip_address \<Rightarrow> bool" where
  "ip_in_range (IPv4 v) \<longleftrightarrow> 0 \<le> v \<and> v < 2 ^ 32"
| "ip_in_range (IPv6 v z) \<longleftrightarrow> 0 \<le> v \<and> v < 2 ^ 128"

lemma ipv4_parse_range:
  assumes "ipv4_parse s = Some v"
  shows "0 \<le> v \<and> v < 2 ^ 32"
proof -
  from assms obtain a b c d where o: "map parse_octet (split_on CHR ''.'' s) = [Some a, Some b, Some c, Some d]"
    and v: "v = ((a * 256 + b) * 256 + c) * 256 + d"
    by (auto simp: ipv4_parse_def split: if_splits list.splits option.splits)
  have "Some x \<in> set (map parse_octet (split_on CHR ''.'' s)) \<Longrightarrow> 0 \<le> x \<and> x \<le> 255" for x
    using parse_octet_range by fastforce
  from this[of a] this[of b] this[of c] this[of d] show ?thesis unfolding o v by simp
qed

lemma ip_address_parse_range: "ip_address_parse s = Some ip \<Longrightarrow> ip_in_range ip"
  using ipv4_parse_range ipv6_of_parts_range
  by (fastforce simp: ip_address_parse_def ipv6_parse_def ipv6_int_parse_def Let_def bind_eq_Some_conv
      split: option.splits if_splits prod.splits)

end
