(* ===== verification/PyUrl.thy ===== *)
theory PyUrl imports PyIp begin

text \<open>
  The functions of Python's \<open>urllib.parse\<close> the program uses (\<open>urlsplit\<close>, \<open>urlunsplit\<close>, \<open>urljoin\<close>, \<open>quote\<close>,
  \<open>unquote\<close>, \<open>parse_qsl\<close>, \<open>urlencode\<close>) and the ASCII path of the \<open>idna\<close> codec, as in CPython 3.11
  and 3.12. \<open>None\<close> stands for \<open>ValueError\<close>. Host names are ASCII in the model: the NFKC check of
  \<open>urlsplit\<close> on other authorities always passes, and \<open>idna\<close> refuses them.
\<close>

section \<open>Splitting\<close>

record split =
  sp_scheme :: pystr
  sp_netloc :: pystr
  sp_path :: pystr
  sp_query :: pystr
  sp_fragment :: pystr

definition is_scheme_char :: "char \<Rightarrow> bool" where
  "is_scheme_char c \<longleftrightarrow> is_alpha c \<or> is_digit c \<or> c \<in> set ''+-.''"

definition check_bracketed_host :: "pystr \<Rightarrow> bool" where
  "check_bracketed_host h =
    (if prefix ''v'' h
     then (case partition1 CHR ''.'' (tl h) of (a, b, r) \<Rightarrow>
             b \<and> a \<noteq> [] \<and> list_all is_hex a \<and> r \<noteq> [] \<and> \<not> has_char CHR 0x0A r)
     else (case ip_address_parse h of Some (IPv6 v z) \<Rightarrow> True | _ \<Rightarrow> False))"

text \<open>The authority ends at the first of \<open>/ ? #\<close>.\<close>

definition splitnetloc :: "pystr \<Rightarrow> pystr \<times> pystr" where
  "splitnetloc s =
    (takeWhile (\<lambda>c. c \<notin> set ''/?#'') s, dropWhile (\<lambda>c. c \<notin> set ''/?#'') s)"

definition split_scheme :: "pystr \<Rightarrow> pystr \<times> pystr" where
  "split_scheme url =
    (case partition1 CHR '':'' url of (a, b, r) \<Rightarrow>
       if b \<and> a \<noteq> [] \<and> is_alpha (hd a) \<and> list_all is_scheme_char a then (lower a, r)
       else ([], url))"

text \<open>Leading control characters and every tab and line break are dropped first.\<close>

definition clean_url :: "pystr \<Rightarrow> pystr" where
  "clean_url raw =
    filter (\<lambda>c. c \<noteq> CHR 0x09 \<and> c \<noteq> CHR 0x0A \<and> c \<noteq> CHR 0x0D) (dropWhile (\<lambda>c. code c \<le> 32) raw)"

definition split_authority :: "pystr \<Rightarrow> pystr \<times> pystr" where
  "split_authority s = (if prefix ''//'' s then splitnetloc (drop 2 s) else ([], s))"

definition authority_ok :: "pystr \<Rightarrow> bool" where
  "authority_ok netloc =
    (let lb = has_char CHR ''['' netloc; rb = has_char CHR '']'' netloc
     in lb = rb \<and>
        (lb \<longrightarrow> check_bracketed_host
                 (fst (partition1 CHR '']'' (snd (snd (partition1 CHR ''['' netloc)))))))"

definition urlsplit :: "pystr \<Rightarrow> split option" where
  "urlsplit raw =
    (case split_scheme (clean_url raw) of (scheme, rest) \<Rightarrow>
     (case split_authority rest of (netloc, rest2) \<Rightarrow>
       if \<not> authority_ok netloc then None
       else (case partition1 CHR ''#'' rest2 of (rest3, _, fragment) \<Rightarrow>
            (case partition1 CHR ''?'' rest3 of (path, _, query) \<Rightarrow>
              Some \<lparr>sp_scheme = scheme, sp_netloc = netloc, sp_path = path,
                    sp_query = query, sp_fragment = fragment\<rparr>))))"

text \<open>The properties of the split result.\<close>

definition sp_userinfo :: "split \<Rightarrow> pystr option \<times> pystr option" where
  "sp_userinfo sp =
    (case rpartition1 CHR ''@'' (sp_netloc sp) of (userinfo, have_info, _) \<Rightarrow>
       if have_info
       then (case partition1 CHR '':'' userinfo of (user, have_password, password) \<Rightarrow>
               (Some user, if have_password then Some password else None))
       else (None, None))"

definition sp_username :: "split \<Rightarrow> pystr option" where
  "sp_username sp = fst (sp_userinfo sp)"

definition sp_password :: "split \<Rightarrow> pystr option" where
  "sp_password sp = snd (sp_userinfo sp)"

definition sp_hostinfo :: "split \<Rightarrow> pystr \<times> pystr option" where
  "sp_hostinfo sp =
    (let hostinfo = snd (snd (rpartition1 CHR ''@'' (sp_netloc sp)));
         (_, have_open_br, bracketed) = partition1 CHR ''['' hostinfo;
         (host, port) =
           (if have_open_br
            then (case partition1 CHR '']'' bracketed of (h, _, p) \<Rightarrow>
                    (h, snd (snd (partition1 CHR '':'' p))))
            else (case partition1 CHR '':'' hostinfo of (h, _, p) \<Rightarrow> (h, p)))
     in (host, if port = [] then None else Some port))"

definition sp_hostname :: "split \<Rightarrow> pystr option" where
  "sp_hostname sp =
    (let host = fst (sp_hostinfo sp)
     in if host = [] then None
        else (case partition1 CHR ''%'' host of (h, percent, zone) \<Rightarrow>
                Some (lower h @ (if percent then ''%'' else []) @ zone)))"

text \<open>\<open>None\<close>: the property raises; \<open>Some None\<close>: no port.\<close>

definition sp_port :: "split \<Rightarrow> int option option" where
  "sp_port sp =
    (case snd (sp_hostinfo sp) of
       None \<Rightarrow> Some None
     | Some p \<Rightarrow>
         if list_all is_digit p \<and> int (digits_val p) \<le> 65535
         then Some (Some (int (digits_val p))) else None)"

section \<open>Putting the parts together\<close>

definition uses_netloc :: "pystr list" where
  "uses_netloc =
    [[], ''ftp'', ''http'', ''gopher'', ''nntp'', ''telnet'', ''imap'', ''wais'', ''file'', ''mms'',
     ''https'', ''shttp'', ''snews'', ''prospero'', ''rtsp'', ''rtsps'', ''rtspu'', ''rsync'', ''svn'',
     ''svn+ssh'', ''sftp'', ''nfs'', ''git'', ''git+ssh'', ''ws'', ''wss'']"

definition urlunsplit :: "pystr \<Rightarrow> pystr \<Rightarrow> pystr \<Rightarrow> pystr \<Rightarrow> pystr \<Rightarrow> pystr" where
  "urlunsplit scheme netloc path query fragment =
    (let url1 = (if netloc \<noteq> [] \<or> (scheme \<noteq> [] \<and> List.member uses_netloc scheme) \<or> prefix ''//'' path
                 then ''//'' @ netloc @ (if path \<noteq> [] \<and> \<not> prefix ''/'' path then ''/'' @ path else path)
                 else path);
         url2 = (if scheme \<noteq> [] then scheme @ '':'' @ url1 else url1);
         url3 = (if query \<noteq> [] then url2 @ ''?'' @ query else url2)
     in if fragment \<noteq> [] then url3 @ ''#'' @ fragment else url3)"

section \<open>Percent encoding\<close>

definition unreserved :: "char \<Rightarrow> bool" where
  "unreserved c \<longleftrightarrow> is_alpha c \<or> is_digit c \<or> c \<in> set ''_.-~''"

definition upper_hex_digit :: "nat \<Rightarrow> char" where
  "upper_hex_digit d = (if d < 10 then char_of (48 + d) else char_of (55 + d))"

definition percent :: "char \<Rightarrow> pystr" where
  "percent c = [CHR ''%'', upper_hex_digit (code c div 16), upper_hex_digit (code c mod 16)]"

text \<open>\<open>quote(s, safe='')\<close> and \<open>quote_plus(s)\<close>.\<close>

definition quote :: "pystr \<Rightarrow> pystr" where
  "quote s = concat (map (\<lambda>c. if unreserved c then [c] else percent c) s)"

definition quote_plus :: "pystr \<Rightarrow> pystr" where
  "quote_plus s =
    concat (map (\<lambda>c. if c = CHR '' '' then ''+'' else if unreserved c then [c] else percent c) s)"

fun unquote_to_bytes :: "string \<Rightarrow> string" where
  "unquote_to_bytes (c # a # b # r) =
    (if c = CHR ''%'' \<and> is_hex a \<and> is_hex b
     then char_of (16 * hex_val a + hex_val b) # unquote_to_bytes r
     else c # unquote_to_bytes (a # b # r))"
| "unquote_to_bytes s = s"

text \<open>
  Decoding bytes as UTF-8 with \<open>errors='replace'\<close>: every maximal ill-formed part becomes
  U+FFFD. \<open>utf8_step\<close> gives the length of the sequence at the head and whether it is well formed.
\<close>

definition is_cont :: "char \<Rightarrow> bool" where
  "is_cont c \<longleftrightarrow> 128 \<le> code c \<and> code c \<le> 191"

definition second_ok :: "nat \<Rightarrow> char \<Rightarrow> bool" where
  "second_ok l c \<longleftrightarrow>
    is_cont c \<and> (l = 0xE0 \<longrightarrow> 0xA0 \<le> code c) \<and> (l = 0xED \<longrightarrow> code c \<le> 0x9F) \<and>
    (l = 0xF0 \<longrightarrow> 0x90 \<le> code c) \<and> (l = 0xF4 \<longrightarrow> code c \<le> 0x8F)"

definition utf8_step :: "string \<Rightarrow> nat \<times> bool" where
  "utf8_step s =
    (case s of
       [] \<Rightarrow> (0, True)
     | c # r \<Rightarrow>
       (let l = code c;
            need = (if l < 128 then 0 else if 0xC2 \<le> l \<and> l \<le> 0xDF then 1
                    else if 0xE0 \<le> l \<and> l \<le> 0xEF then 2 else if 0xF0 \<le> l \<and> l \<le> 0xF4 then 3
                    else 4);
            good = (case take 3 r of
                      [] \<Rightarrow> 0
                    | a # t \<Rightarrow> if \<not> second_ok l a then 0
                              else 1 + length (takeWhile is_cont t))
        in if need = 4 then (1, False)
           else if need \<le> good then (1 + need, True) else (1 + good, False)))"

function utf8_replace :: "string \<Rightarrow> pystr" where
  "utf8_replace [] = []"
| "utf8_replace (c # s) =
    (case utf8_step (c # s) of (n, ok) \<Rightarrow>
       (if ok then take n (c # s) else [CHR 0xEF, CHR 0xBF, CHR 0xBD]) @
       utf8_replace (drop (max 1 n) (c # s)))"
  by pat_completeness auto
termination
  by (relation "measure length") auto

text \<open>\<open>unquote\<close> decodes each run of ASCII characters on its own.\<close>

function unquote :: "pystr \<Rightarrow> pystr" where
  "unquote [] = []"
| "unquote (c # s) =
    (if code c < 128
     then utf8_replace (unquote_to_bytes (takeWhile (\<lambda>d. code d < 128) (c # s))) @
          unquote (dropWhile (\<lambda>d. code d < 128) s)
     else c # unquote s)"
  by pat_completeness auto
termination
  by (relation "measure length") (auto simp: le_imp_less_Suc length_dropWhile_le)

definition unquote_plus :: "pystr \<Rightarrow> pystr" where
  "unquote_plus s = unquote (map (\<lambda>c. if c = CHR ''+'' then CHR '' '' else c) s)"

text \<open>\<open>parse_qsl(qs, keep_blank_values=True)\<close> and \<open>urlencode\<close> of a list of string pairs.\<close>

definition parse_qsl :: "pystr \<Rightarrow> (pystr \<times> pystr) list" where
  "parse_qsl qs =
    map (\<lambda>p. case partition1 CHR ''='' p of (name, _, val) \<Rightarrow> (unquote_plus name, unquote_plus val))
      (filter (\<lambda>p. p \<noteq> []) (split_on CHR ''&'' qs))"

definition urlencode :: "(pystr \<times> pystr) list \<Rightarrow> pystr" where
  "urlencode kvs = join ''&'' (map (\<lambda>(k, v). quote_plus k @ ''='' @ quote_plus v) kvs)"

section \<open>Joining a base and a reference\<close>

text \<open>
  \<open>urlparse\<close> splits the parameters off the last segment of the path for the schemes below;
  \<open>urljoin\<close> resolves a reference against a base as RFC 3986 does.
\<close>

definition uses_params :: "pystr list" where
  "uses_params =
    [[], ''ftp'', ''hdl'', ''prospero'', ''http'', ''imap'', ''https'', ''shttp'', ''rtsp'', ''rtsps'',
     ''rtspu'', ''sip'', ''sips'', ''mms'', ''sftp'', ''tel'']"

definition uses_relative :: "pystr list" where
  "uses_relative =
    [[], ''ftp'', ''http'', ''gopher'', ''nntp'', ''imap'', ''wais'', ''file'', ''https'', ''shttp'',
     ''mms'', ''prospero'', ''rtsp'', ''rtsps'', ''rtspu'', ''sftp'', ''svn'', ''svn+ssh'', ''ws'', ''wss'']"

definition split_params :: "pystr \<Rightarrow> pystr \<times> pystr" where
  "split_params path =
    (case rpartition1 CHR ''/'' path of (dir, slash, last_part) \<Rightarrow>
     (case partition1 CHR '';'' last_part of (a, b, r) \<Rightarrow>
       ((if slash then dir @ ''/'' else []) @ a, r)))"

definition url_params :: "split \<Rightarrow> pystr \<times> pystr" where
  "url_params sp =
    (if List.member uses_params (sp_scheme sp) \<and> has_char CHR '';'' (sp_path sp)
     then split_params (sp_path sp) else (sp_path sp, []))"

definition urlunparse :: "pystr \<Rightarrow> pystr \<Rightarrow> pystr \<Rightarrow> pystr \<Rightarrow> pystr \<Rightarrow> pystr \<Rightarrow> pystr" where
  "urlunparse scheme netloc path params query fragment =
    urlunsplit scheme netloc (if params \<noteq> [] then path @ '';'' @ params else path) query fragment"

text \<open>The dot segments are resolved left to right; \<open>..\<close> at the root is dropped.\<close>

fun resolve_segments :: "pystr list \<Rightarrow> pystr list \<Rightarrow> pystr list" where
  "resolve_segments done [] = done"
| "resolve_segments done (s # ss) =
    (if s = ''..'' then resolve_segments (butlast done) ss
     else if s = ''.'' then resolve_segments done ss
     else resolve_segments (done @ [s]) ss)"

definition join_path :: "pystr \<Rightarrow> pystr \<Rightarrow> pystr" where
  "join_path bpath path =
    (let parts = split_on CHR ''/'' path;
         base_parts = (let b = split_on CHR ''/'' bpath in if last b \<noteq> [] then butlast b else b);
         all_parts = base_parts @ parts;
         segments =
           (if prefix ''/'' path then parts
            else if length all_parts \<le> 1 then all_parts
            else hd all_parts # filter (\<lambda>s. s \<noteq> []) (butlast (tl all_parts)) @ [last all_parts]);
         resolved = resolve_segments [] segments
                    @ (if last segments \<in> {''.'', ''..''} then [[]] else [])
     in join ''/'' resolved)"

definition urljoin :: "pystr \<Rightarrow> pystr \<Rightarrow> pystr option" where
  "urljoin base url =
    (if base = [] then Some url else if url = [] then Some base else
     case urlsplit base of None \<Rightarrow> None | Some b \<Rightarrow>
     case urlsplit url of None \<Rightarrow> None | Some u0 \<Rightarrow>
     let u = (if sp_scheme u0 = [] then u0\<lparr>sp_scheme := sp_scheme b\<rparr> else u0);
         (bpath, bparams) = url_params b;
         (path, params) = url_params u;
         scheme = sp_scheme u in
     if scheme \<noteq> sp_scheme b \<or> \<not> List.member uses_relative scheme then Some url
     else if List.member uses_netloc scheme \<and> sp_netloc u \<noteq> []
     then Some (urlunparse scheme (sp_netloc u) path params (sp_query u) (sp_fragment u))
     else
       let netloc = (if List.member uses_netloc scheme then sp_netloc b else sp_netloc u) in
       if path = [] \<and> params = []
       then Some (urlunparse scheme netloc bpath bparams
                    (if sp_query u = [] then sp_query b else sp_query u) (sp_fragment u))
       else
         let joined = join_path bpath path in
         Some (urlunparse scheme netloc (if joined = [] then ''/'' else joined) params
                 (sp_query u) (sp_fragment u)))"

section \<open>The IDNA codec on ASCII names\<close>

definition idna_encode :: "pystr \<Rightarrow> pystr option" where
  "idna_encode s =
    (let labels = split_on CHR ''.'' s
     in if s = [] then Some []
        else if is_ascii s \<and> list_all (\<lambda>l. 0 < length l \<and> length l < 64) (butlast labels) \<and>
                length (last labels) < 64
        then Some s else None)"

end
