(* ===== verification/HttpUri.thy ===== *)
theory HttpUri imports PyUrl begin

text \<open>
  Secret-safe normalisation of HTTP URIs, from \<open>domain/http_observations.py\<close> (\<open>normalize_http_uri\<close>
  and the helpers that redact credential-like parameter values, also inside nested URIs), and
  media types, from \<open>domain/media_types.py\<close>. The recursion of the source goes through the list of
  query parameters: \<open>sanitize_parameter_string\<close> calls itself on the query of a nested URI. The
  helpers that make such a call take it as their argument \<open>san\<close>; a nested query is shorter than the
  value that holds it, which is the termination argument.
\<close>

section \<open>Sizes of the parsed parts\<close>

named_theorems len_simps \<open>the parts of a parsed string are not longer than the string\<close>

lemma partition1_len [len_simps]:
  "partition1 d s = (a, b, r) \<Longrightarrow> length a \<le> length s \<and> length r \<le> length s \<and> (b \<longrightarrow> length r < length s)"
  by (induction s arbitrary: a b r) (auto split: if_splits prod.splits)

lemma partition1_False: "partition1 d s = (a, False, r) \<Longrightarrow> r = []"
  by (induction s arbitrary: a r) (auto split: if_splits prod.splits)

lemma partition1_rest: "partition1 d s = (a, b, r) \<Longrightarrow> r \<noteq> [] \<Longrightarrow> length r < length s"
  using partition1_len partition1_False by (metis (full_types))

lemma strip_left_len [len_simps]: "length (strip_left ws s) \<le> length s"
proof (induction ws s rule: strip_left.induct)
  case (1 ws s)
  show ?case
  proof (cases "find (\<lambda>w. w \<noteq> [] \<and> prefix w s) ws")
    case None
    then show ?thesis by (subst strip_left.simps) simp
  next
    case (Some w)
    with "1.IH" have "length (strip_left ws (drop (length w) s)) \<le> length (drop (length w) s)"
      by simp
    with Some show ?thesis by (subst strip_left.simps) simp
  qed
qed

lemma strip_len [len_simps]: "length (strip s) \<le> length s"
  unfolding strip_def lstrip_def rstrip_def
  using strip_left_len[of "map rev ws_codes" "rev (strip_left ws_codes s)"]
    strip_left_len[of ws_codes s] by simp

lemma split_scheme_len: "split_scheme url = (sch, rest) \<Longrightarrow> length rest \<le> length url"
  by (auto simp: split_scheme_def split: prod.splits if_splits dest: partition1_len)

lemma urlsplit_cases:
  assumes "urlsplit raw = Some sp"
  obtains rest rest2 rest3 b b' where
    "split_scheme (clean_url raw) = (sp_scheme sp, rest)"
    "split_authority rest = (sp_netloc sp, rest2)" "authority_ok (sp_netloc sp)"
    "partition1 CHR ''#'' rest2 = (rest3, b, sp_fragment sp)"
    "partition1 CHR ''?'' rest3 = (sp_path sp, b', sp_query sp)"
  using assms by (auto simp: urlsplit_def split: prod.splits if_splits)

lemma clean_url_len: "length (clean_url raw) \<le> length raw"
  unfolding clean_url_def using length_filter_le length_dropWhile_le le_trans by blast

lemma split_authority_len: "split_authority s = (nl, r) \<Longrightarrow> length r \<le> length s"
  using length_dropWhile_le[of "\<lambda>c. c \<notin> set ''/?#''" "drop 2 s"]
  by (auto simp: split_authority_def splitnetloc_def split: if_splits)

lemma urlsplit_len:
  assumes "urlsplit raw = Some sp"
  shows "(sp_query sp \<noteq> [] \<longrightarrow> length (sp_query sp) < length raw) \<and>
         (sp_fragment sp \<noteq> [] \<longrightarrow> length (sp_fragment sp) < length raw)"
  using assms
proof (rule urlsplit_cases)
  fix rest rest2 rest3 b b'
  assume 1: "split_scheme (clean_url raw) = (sp_scheme sp, rest)"
    and 2: "split_authority rest = (sp_netloc sp, rest2)"
    and 3: "partition1 CHR ''#'' rest2 = (rest3, b, sp_fragment sp)"
    and 4: "partition1 CHR ''?'' rest3 = (sp_path sp, b', sp_query sp)"
  have "length rest2 \<le> length raw"
    using clean_url_len[of raw] split_scheme_len[OF 1] split_authority_len[OF 2] by linarith
  moreover have "length rest3 \<le> length rest2" using partition1_len[OF 3] by simp
  ultimately show ?thesis using partition1_rest[OF 3] partition1_rest[OF 4] by auto
qed

text \<open>Decoding never lengthens: a replaced byte came from a three-character escape.\<close>

definition weight :: "string \<Rightarrow> nat" where
  "weight s = (\<Sum>c\<leftarrow>s. if code c < 128 then 1 else 3)"

lemma weight_simps [simp]:
  "weight [] = 0"
  "weight (c # s) = (if code c < 128 then 1 else 3) + weight s"
  by (simp_all add: weight_def)

lemma weight_append [simp]: "weight (s @ t) = weight s + weight t"
  by (simp add: weight_def)

lemma weight_ge_length: "length s \<le> weight s"
  by (induction s) auto

lemma utf8_step_bad: "utf8_step (c # s) = (n, False) \<Longrightarrow> 128 \<le> code c"
  by (auto simp: utf8_step_def Let_def split: if_splits)

lemma utf8_replace_len: "length (utf8_replace s) \<le> weight s"
proof (induction s rule: utf8_replace.induct)
  case 1
  then show ?case by simp
next
  case (2 c s)
  obtain n ok where st: "utf8_step (c # s) = (n, ok)" by fastforce
  let ?k = "max 1 n"
  have IH: "length (utf8_replace (drop ?k (c # s))) \<le> weight (drop ?k (c # s))"
    using 2 st by simp
  have split: "weight (c # s) = weight (take ?k (c # s)) + weight (drop ?k (c # s))"
    by (metis append_take_drop_id weight_append)
  have head: "length (if ok then take n (c # s) else [CHR 0xEF, CHR 0xBF, CHR 0xBD]) \<le> weight (take ?k (c # s))"
  proof (cases ok)
    case True
    have "length (take n (c # s)) \<le> length (take ?k (c # s))" by auto
    also have "\<dots> \<le> weight (take ?k (c # s))" by (rule weight_ge_length)
    finally show ?thesis using True by simp
  next
    case False
    then have "128 \<le> code c" using st utf8_step_bad by simp
    then have "3 \<le> weight (take ?k (c # s))" by (cases ?k) auto
    with False show ?thesis by simp
  qed
  show ?case using st IH split head by simp
qed

lemma weight_ascii: "list_all (\<lambda>c. code c < 128) s \<Longrightarrow> weight s = length s"
  by (induction s) auto

lemma weight_unquote_to_bytes:
  "list_all (\<lambda>c. code c < 128) s \<Longrightarrow> weight (unquote_to_bytes s) \<le> length s"
  by (induction s rule: unquote_to_bytes.induct) (auto simp: weight_ascii)

lemma unquote_len: "length (unquote s) \<le> length s"
proof (induction s rule: unquote.induct)
  case 1
  then show ?case by simp
next
  case (2 c s)
  show ?case
  proof (cases "code c < 128")
    case True
    let ?P = "\<lambda>d :: char. code d < 128"
    have "list_all ?P (takeWhile ?P (c # s))" by (auto simp: list_all_iff dest: set_takeWhileD)
    then have "length (utf8_replace (unquote_to_bytes (takeWhile ?P (c # s)))) \<le> length (takeWhile ?P (c # s))"
      by (rule le_trans[OF utf8_replace_len weight_unquote_to_bytes])
    moreover have "length (unquote (dropWhile ?P s)) \<le> length (dropWhile ?P s)"
      using 2 True by simp
    moreover have "length (takeWhile ?P s) + length (dropWhile ?P s) = length s"
      by (metis length_append takeWhile_dropWhile_id)
    ultimately show ?thesis using True by simp
  next
    case False
    with 2 show ?thesis by simp
  qed
qed

lemma split_on_len: "p \<in> set (split_on d s) \<Longrightarrow> length p \<le> length s"
proof (induction s arbitrary: p)
  case Nil
  then show ?case by simp
next
  case (Cons c s)
  show ?case
  proof (cases "split_on d s")
    case Nil
    with Cons.prems show ?thesis by (cases "c = d") auto
  next
    case qs: (Cons q qs)
    have "p \<in> {[], c # q} \<union> set (split_on d s)"
      using Cons.prems qs by (auto split: if_splits)
    moreover have "length q \<le> length s" using qs Cons.IH[of q] by simp
    ultimately show ?thesis using Cons.IH[of p] by fastforce
  qed
qed

lemma parse_qsl_len:
  assumes "(k, v) \<in> set (parse_qsl s)"
  shows "length v \<le> length s"
proof -
  from assms obtain p n b w where p: "p \<in> set (split_on CHR ''&'' s)"
    and w: "partition1 CHR ''='' p = (n, b, w)" and v: "v = unquote_plus w"
    by (auto simp: parse_qsl_def split: prod.splits)
  have "length v \<le> length w" unfolding v unquote_plus_def
    by (rule order.trans[OF unquote_len]) simp
  also have "\<dots> \<le> length p" using partition1_len[OF w] by simp
  also have "\<dots> \<le> length s" using split_on_len[OF p] .
  finally show ?thesis .
qed


lemma parse_qsl_nonempty: "(k, v) \<in> set (parse_qsl s) \<Longrightarrow> s \<noteq> []"
  by (auto simp: parse_qsl_def)

section \<open>Credential-like parameters\<close>

definition SENSITIVE_QUERY_KEYS :: "pystr list" where
  "SENSITIVE_QUERY_KEYS =
    [''access_token'', ''apikey'', ''api_key'', ''auth'', ''authorization'', ''client_secret'', ''code'',
     ''credential'', ''jwt'', ''key'', ''password'', ''passwd'', ''secret'', ''session'', ''sessionid'',
     ''sig'', ''signature'', ''token'', ''x-amz-credential'', ''x-amz-security-token'',
     ''x-amz-signature'']"

definition SENSITIVE_KEY_FRAGMENTS :: "pystr list" where
  "SENSITIVE_KEY_FRAGMENTS =
    [''token'', ''secret'', ''password'', ''passwd'', ''credential'', ''signature'', ''authorization'',
     ''apikey'', ''session'']"

definition REDACTED :: pystr where
  "REDACTED = ''[REDACTED]''"

text \<open>
  \<open>''.join(c for c in s if c.isalnum())\<close>. The characters up to U+00FF are classified as Python
  does; every later one counts as alphanumeric.
\<close>

fun keep_alnum :: "pystr \<Rightarrow> pystr" where
  "keep_alnum [] = []"
| "keep_alnum [c] = (if code c < 128 \<and> \<not> is_alpha c \<and> \<not> is_digit c then [] else [c])"
| "keep_alnum (c # d # s) =
    (if code c < 128 then (if is_alpha c \<or> is_digit c then [c] else []) @ keep_alnum (d # s)
     else if c = CHR 0xC2
     then (if code d \<in> {0xAA, 0xB2, 0xB3, 0xB5, 0xB9, 0xBA, 0xBC, 0xBD, 0xBE} then [c, d] else []) @
          keep_alnum s
     else if c = CHR 0xC3
     then (if code d \<in> {0x97, 0xB7} then [] else [c, d]) @ keep_alnum s
     else c # keep_alnum (d # s))"

definition is_sensitive_query_key :: "pystr \<Rightarrow> bool" where
  "is_sensitive_query_key key =
    (let normalized = lower (strip key)
     in if List.member SENSITIVE_QUERY_KEYS normalized then True
        else list_ex (\<lambda>fragment. find_sub fragment (keep_alnum normalized) \<noteq> None)
               SENSITIVE_KEY_FRAGMENTS)"

section \<open>Normalising a URI\<close>

definition normalize_host :: "pystr \<Rightarrow> exc + pystr" where
  "normalize_host host =
    (case ip_address_parse host of
       Some ip \<Rightarrow> Inr (ip_str ip)
     | None \<Rightarrow>
         (case idna_encode host of
            Some h \<Rightarrow> Inr (lower h)
          | None \<Rightarrow> Inl (ValueError ''HTTP URI hostname must be a valid DNS name'')))"

definition bracket_host :: "pystr \<Rightarrow> pystr" where
  "bracket_host host = (if has_char CHR '':'' host then ''['' @ host @ '']'' else host)"

definition sanitize_fragment :: "(pystr \<Rightarrow> pystr) \<Rightarrow> pystr \<Rightarrow> pystr" where
  "sanitize_fragment san fragment =
    (if \<not> has_char CHR ''='' fragment then fragment else san fragment)"

definition with_port :: "pystr \<Rightarrow> int option \<Rightarrow> pystr" where
  "with_port host port = (case port of None \<Rightarrow> host | Some p \<Rightarrow> host @ '':'' @ int_str p)"

definition normalize_http_uri_with :: "(pystr \<Rightarrow> pystr) \<Rightarrow> pystr \<Rightarrow> pystr \<Rightarrow> exc + pystr" where
  "normalize_http_uri_with san field_name v =
    bindE (check (\<not> blank v)
             (ValueError (field_name @ '' must be a non-blank absolute HTTP(S) URI''))) (\<lambda>_.
     (case urlsplit (strip v) of
        None \<Rightarrow> Inl (ValueError (field_name @ '' must be a valid absolute HTTP(S) URI''))
      | Some parsed \<Rightarrow>
          (case sp_port parsed of
             None \<Rightarrow> Inl (ValueError (field_name @ '' must be a valid absolute HTTP(S) URI''))
           | Some port \<Rightarrow>
               (let scheme = lower (sp_scheme parsed) in
                case sp_hostname parsed of
                  None \<Rightarrow> Inl (ValueError (field_name @ '' must be an absolute HTTP(S) URI''))
                | Some hostname \<Rightarrow>
                    if scheme \<noteq> ''http'' \<and> scheme \<noteq> ''https''
                    then Inl (ValueError (field_name @ '' must be an absolute HTTP(S) URI''))
                    else bindE (normalize_host hostname) (\<lambda>h.
                      let host = bracket_host h;
                          default_port = (if scheme = ''http'' then 80 else 443);
                          netloc = (if port = None \<or> port = Some default_port then host
                                    else with_port host port)
                      in Inr (urlunsplit scheme netloc
                                (if sp_path parsed = [] then ''/'' else sp_path parsed)
                                (san (sp_query parsed))
                                (sanitize_fragment san (sp_fragment parsed))))))))"

definition sanitize_untrusted_nested_parts :: "(pystr \<Rightarrow> pystr) \<Rightarrow> split \<Rightarrow> pystr" where
  "sanitize_untrusted_nested_parts san parsed =
    urlunsplit [] [] (sp_path parsed) (san (sp_query parsed))
      (sanitize_fragment san (sp_fragment parsed))"

definition is_relative_uri :: "split \<Rightarrow> bool" where
  "is_relative_uri parsed \<longleftrightarrow>
    sp_scheme parsed = [] \<and>
    (sp_netloc parsed \<noteq> [] \<or>
     prefix ''/'' (sp_path parsed) \<or> prefix ''./'' (sp_path parsed) \<or> prefix ''../'' (sp_path parsed) \<or>
     sp_query parsed \<noteq> [] \<or> sp_fragment parsed \<noteq> [])"

definition sanitize_nested_uri :: "(pystr \<Rightarrow> pystr) \<Rightarrow> pystr \<Rightarrow> pystr option" where
  "sanitize_nested_uri san v =
    (case urlsplit v of
       None \<Rightarrow> None
     | Some parsed \<Rightarrow>
        (case sp_port parsed of
           None \<Rightarrow> Some (sanitize_untrusted_nested_parts san parsed)
         | Some port \<Rightarrow>
            if lower (sp_scheme parsed) \<in> {''http'', ''https''} \<and> sp_hostname parsed \<noteq> None
            then (case normalize_http_uri_with san ''nested HTTP URI'' v of
                    Inr u \<Rightarrow> Some u
                  | Inl _ \<Rightarrow> Some (sanitize_untrusted_nested_parts san parsed))
            else
              (let has_userinfo = (sp_username parsed \<noteq> None \<or> sp_password parsed \<noteq> None) in
               if \<not> is_relative_uri parsed \<or>
                  \<not> (sp_query parsed \<noteq> [] \<or> has_char CHR ''='' (sp_fragment parsed) \<or> has_userinfo)
               then None
               else
                 (case (if sp_netloc parsed \<noteq> [] then sp_hostname parsed else None) of
                    None \<Rightarrow>
                      Some (urlunsplit [] [] (sp_path parsed) (san (sp_query parsed))
                              (sanitize_fragment san (sp_fragment parsed)))
                  | Some hostname \<Rightarrow>
                      (case normalize_host hostname of
                         Inl _ \<Rightarrow> Some (sanitize_untrusted_nested_parts san parsed)
                       | Inr h \<Rightarrow>
                           Some (urlunsplit [] (with_port (bracket_host h) port) (sp_path parsed)
                                   (san (sp_query parsed))
                                   (sanitize_fragment san (sp_fragment parsed))))))))"

definition sanitize_parameter_value :: "(pystr \<Rightarrow> pystr) \<Rightarrow> pystr \<Rightarrow> pystr \<Rightarrow> pystr" where
  "sanitize_parameter_value san key v =
    (if is_sensitive_query_key key then REDACTED
     else (case sanitize_nested_uri san v of Some nested \<Rightarrow> nested | None \<Rightarrow> v))"

text \<open>
  The helpers use their argument only on a query or a fragment of the value, so two arguments
  that agree on the shorter strings (and on the empty one) give the same result.
\<close>

abbreviation agree_below :: "(pystr \<Rightarrow> pystr) \<Rightarrow> (pystr \<Rightarrow> pystr) \<Rightarrow> pystr \<Rightarrow> bool" where
  "agree_below f g v \<equiv> (\<forall>q. q = [] \<or> length q < length v \<longrightarrow> f q = g q)"

lemma agree_below_parts:
  assumes "urlsplit v = Some sp" "agree_below f g w" "length v \<le> length w"
  shows "f (sp_query sp) = g (sp_query sp)"
    "sanitize_fragment f (sp_fragment sp) = sanitize_fragment g (sp_fragment sp)"
  using urlsplit_len[OF assms(1)] assms(2,3) unfolding sanitize_fragment_def
  by (meson less_le_trans)+

lemma sanitize_untrusted_cong:
  "urlsplit v = Some sp \<Longrightarrow> agree_below f g v \<Longrightarrow>
    sanitize_untrusted_nested_parts f sp = sanitize_untrusted_nested_parts g sp"
  unfolding sanitize_untrusted_nested_parts_def using agree_below_parts[OF _ _ le_refl]
  by metis

lemma normalize_http_uri_with_cong:
  assumes "agree_below f g v"
  shows "normalize_http_uri_with f n v = normalize_http_uri_with g n v"
proof (cases "urlsplit (strip v)")
  case None
  then show ?thesis by (simp add: normalize_http_uri_with_def)
next
  case (Some sp)
  note parts = agree_below_parts[OF Some assms strip_len]
  show ?thesis unfolding normalize_http_uri_with_def Some option.case parts ..
qed

lemma sanitize_nested_uri_cong:
  assumes "agree_below f g v"
  shows "sanitize_nested_uri f v = sanitize_nested_uri g v"
proof (cases "urlsplit v")
  case None
  then show ?thesis by (simp add: sanitize_nested_uri_def)
next
  case (Some sp)
  note parts = agree_below_parts[OF Some assms le_refl] sanitize_untrusted_cong[OF Some assms]
  show ?thesis unfolding sanitize_nested_uri_def Some option.case parts
    normalize_http_uri_with_cong[OF assms] ..
qed

lemma sanitize_parameter_value_cong [fundef_cong]:
  "k = k' \<Longrightarrow> v = v' \<Longrightarrow> (\<And>q. q = [] \<or> length q < length v' \<Longrightarrow> f q = g q) \<Longrightarrow>
    sanitize_parameter_value f k v = sanitize_parameter_value g k' v'"
  unfolding sanitize_parameter_value_def using sanitize_nested_uri_cong[of v' f g] by auto

function sanitize_parameter_string :: "pystr \<Rightarrow> pystr" where
  "sanitize_parameter_string v =
    urlencode (map (\<lambda>(key, item). (key, sanitize_parameter_value sanitize_parameter_string key item))
                 (parse_qsl v))"
  by pat_completeness auto
termination
proof (relation "measure length", simp)
  fix v q x xa y :: pystr and p
  assume "p \<in> set (parse_qsl v)" "(xa, y) = p" "q = [] \<or> length q < length y"
  then show "(q, v) \<in> measure length"
    using parse_qsl_len[of xa y v] parse_qsl_nonempty[of xa y v] by auto
qed

declare sanitize_parameter_string.simps [simp del]

definition normalize_http_uri :: "pystr \<Rightarrow> pystr \<Rightarrow> exc + pystr" where
  "normalize_http_uri v field_name = normalize_http_uri_with sanitize_parameter_string field_name v"

definition normalize_durable_http_uri :: "pystr \<Rightarrow> pystr \<Rightarrow> exc + pystr" where
  "normalize_durable_http_uri v field_name = normalize_http_uri v field_name"

definition durable_http_uri_requires_transient_request :: "pystr \<Rightarrow> exc + bool" where
  "durable_http_uri_requires_transient_request v =
    bindE (normalize_durable_http_uri v ''HTTP URI'') (\<lambda>u.
      case urlsplit u of
        None \<Rightarrow> Inl (ValueError ''Invalid URL'')
      | Some parsed \<Rightarrow>
          Inr (list_ex (\<lambda>(_, item). find_sub REDACTED (unquote item) \<noteq> None)
                 (parse_qsl (sp_query parsed))))"

text \<open>The field name occurs in error messages only.\<close>

lemma normalize_http_uri_name: "normalize_http_uri v n = Inr u \<Longrightarrow> normalize_http_uri v m = Inr u"
  by (auto simp: normalize_http_uri_def normalize_http_uri_with_def Let_def res_simps
      split: option.splits if_splits)

lemma normalize_durable_name: "normalize_http_uri v n = Inr u \<Longrightarrow> normalize_durable_http_uri v m = Inr u"
  unfolding normalize_durable_http_uri_def by (rule normalize_http_uri_name)

section \<open>Media types\<close>

definition is_token_char :: "char \<Rightarrow> bool" where
  "is_token_char c \<longleftrightarrow>
    is_alpha c \<or> is_digit c \<or> c \<in> set ''!#$%&*+.^_`|~-'' \<or> c = CHR 0x27"

definition normalize_media_type :: "pystr \<Rightarrow> exc + pystr" where
  "normalize_media_type v =
    bindE (check (\<not> blank v) (ValueError ''media type must be a non-blank string when provided'')) (\<lambda>_.
    let normalized = lower (strip (fst (partition1 CHR '';'' v))) in
    bindE (check (length (filter (\<lambda>c. c = CHR ''/'') normalized) = 1)
             (ValueError ''media type must contain exactly one type/subtype separator'')) (\<lambda>_.
    case partition1 CHR ''/'' normalized of (major, _, minor) \<Rightarrow>
    bindE (check (major \<noteq> [] \<and> list_all is_token_char major \<and>
                  minor \<noteq> [] \<and> list_all is_token_char minor)
             (ValueError ''media type must be a valid type/subtype value'')) (\<lambda>_.
    Inr normalized)))"

end
