(* ===== verification/PyHash.thy ===== *)
theory PyHash imports PyStr begin

unbundle bit_operations_syntax

text \<open>
  The digests of Python's standard library that Tarkka derives identities from: \<open>hashlib.sha1\<close>
  (inside \<open>uuid.uuid5\<close>) and \<open>hashlib.sha256\<close>, over 32-bit words, and the textual form of a UUID.
\<close>

type_synonym w32 = "32 word"

section \<open>Bytes and words\<close>

definition byte_word :: "char \<Rightarrow> w32" where
  "byte_word c = word_of_nat (code c)"

text \<open>The big-endian bytes of a word, and the word of four big-endian bytes.\<close>

definition word_bytes :: "w32 \<Rightarrow> string" where
  "word_bytes w =
    [char_of (unat (drop_bit 24 w)), char_of (unat (drop_bit 16 w AND 255)),
     char_of (unat (drop_bit 8 w AND 255)), char_of (unat (w AND 255))]"

fun words_of :: "string \<Rightarrow> w32 list" where
  "words_of (a # b # c # d # s) =
    (push_bit 24 (byte_word a) OR push_bit 16 (byte_word b) OR push_bit 8 (byte_word c)
      OR byte_word d) # words_of s"
| "words_of _ = []"

definition rotl32 :: "nat \<Rightarrow> w32 \<Rightarrow> w32" where
  "rotl32 n w = push_bit n w OR drop_bit (32 - n) w"

definition rotr32 :: "nat \<Rightarrow> w32 \<Rightarrow> w32" where
  "rotr32 n w = drop_bit n w OR push_bit (32 - n) w"

text \<open>Padding of both digests: the bit 1, zeros, and the length in bits as 64 bits.\<close>

definition pad64 :: "string \<Rightarrow> string" where
  "pad64 s =
    (let n = length s; z = (119 - n mod 64) mod 64; bits = 8 * int n
     in s @ [CHR 0x80] @ replicate z (CHR 0x00) @
        word_bytes (word_of_int (bits div 4294967296)) @ word_bytes (word_of_int bits))"

fun blocks :: "nat \<Rightarrow> w32 list \<Rightarrow> w32 list list" where
  "blocks 0 ws = []"
| "blocks (Suc k) ws = take 16 ws # blocks k (drop 16 ws)"

definition blocks_of :: "string \<Rightarrow> w32 list list" where
  "blocks_of s = (let ws = words_of (pad64 s) in blocks (length ws div 16) ws)"

section \<open>SHA-1\<close>

text \<open>The message schedule, newest word first.\<close>

fun sha1_sched :: "nat \<Rightarrow> w32 list \<Rightarrow> w32 list" where
  "sha1_sched 0 r = r"
| "sha1_sched (Suc k) r =
    sha1_sched k (rotl32 1 (r ! 2 XOR r ! 7 XOR r ! 13 XOR r ! 15) # r)"

definition sha1_f :: "nat \<Rightarrow> w32 \<Rightarrow> w32 \<Rightarrow> w32 \<Rightarrow> w32" where
  "sha1_f t b c d =
    (if t < 20 then (b AND c) OR (NOT b AND d)
     else if t < 40 then b XOR c XOR d
     else if t < 60 then (b AND c) OR (b AND d) OR (c AND d)
     else b XOR c XOR d)"

definition sha1_k :: "nat \<Rightarrow> w32" where
  "sha1_k t =
    (if t < 20 then 0x5A827999 else if t < 40 then 0x6ED9EBA1
     else if t < 60 then 0x8F1BBCDC else 0xCA62C1D6)"

fun sha1_rounds :: "nat \<Rightarrow> w32 list \<Rightarrow> w32 \<times> w32 \<times> w32 \<times> w32 \<times> w32 \<Rightarrow> w32 \<times> w32 \<times> w32 \<times> w32 \<times> w32" where
  "sha1_rounds t [] h = h"
| "sha1_rounds t (w # ws) (a, b, c, d, e) =
    sha1_rounds (t + 1) ws
      (rotl32 5 a + sha1_f t b c d + e + w + sha1_k t, a, rotl32 30 b, c, d)"

definition sha1_block :: "w32 \<times> w32 \<times> w32 \<times> w32 \<times> w32 \<Rightarrow> w32 list \<Rightarrow> w32 \<times> w32 \<times> w32 \<times> w32 \<times> w32" where
  "sha1_block h ws =
    (case h of (h0, h1, h2, h3, h4) \<Rightarrow>
      (case sha1_rounds 0 (rev (sha1_sched 64 (rev ws))) h of (a, b, c, d, e) \<Rightarrow>
        (h0 + a, h1 + b, h2 + c, h3 + d, h4 + e)))"

definition sha1 :: "string \<Rightarrow> string" where
  "sha1 s =
    (case foldl sha1_block (0x67452301, 0xEFCDAB89, 0x98BADCFE, 0x10325476, 0xC3D2E1F0)
            (blocks_of s) of
      (a, b, c, d, e) \<Rightarrow> concat (map word_bytes [a, b, c, d, e]))"

section \<open>SHA-256\<close>

text \<open>The round constants, as the decimal values of the 32-bit words.\<close>

definition sha256_k :: "w32 list" where
  "sha256_k =
    [1116352408, 1899447441, 3049323471, 3921009573, 961987163, 1508970993, 2453635748, 2870763221,
     3624381080, 310598401, 607225278, 1426881987, 1925078388, 2162078206, 2614888103, 3248222580,
     3835390401, 4022224774, 264347078, 604807628, 770255983, 1249150122, 1555081692, 1996064986,
     2554220882, 2821834349, 2952996808, 3210313671, 3336571891, 3584528711, 113926993, 338241895,
     666307205, 773529912, 1294757372, 1396182291, 1695183700, 1986661051, 2177026350, 2456956037,
     2730485921, 2820302411, 3259730800, 3345764771, 3516065817, 3600352804, 4094571909, 275423344,
     430227734, 506948616, 659060556, 883997877, 958139571, 1322822218, 1537002063, 1747873779,
     1955562222, 2024104815, 2227730452, 2361852424, 2428436474, 2756734187, 3204031479, 3329325298]"

fun sha256_sched :: "nat \<Rightarrow> w32 list \<Rightarrow> w32 list" where
  "sha256_sched 0 r = r"
| "sha256_sched (Suc k) r =
    (let x = r ! 14; y = r ! 1;
         s0 = rotr32 7 x XOR rotr32 18 x XOR drop_bit 3 x;
         s1 = rotr32 17 y XOR rotr32 19 y XOR drop_bit 10 y
     in sha256_sched k ((r ! 15 + s0 + r ! 6 + s1) # r))"

fun sha256_rounds :: "(w32 \<times> w32) list \<Rightarrow> w32 list \<Rightarrow> w32 list" where
  "sha256_rounds [] hs = hs"
| "sha256_rounds ((k, w) # kws) hs =
    (let a = hs ! 0; b = hs ! 1; c = hs ! 2; e = hs ! 4; f = hs ! 5; g = hs ! 6;
         t1 = hs ! 7 + (rotr32 6 e XOR rotr32 11 e XOR rotr32 25 e) +
                ((e AND f) XOR (NOT e AND g)) + k + w;
         t2 = (rotr32 2 a XOR rotr32 13 a XOR rotr32 22 a) +
                ((a AND b) XOR (a AND c) XOR (b AND c))
     in sha256_rounds kws [t1 + t2, a, b, c, hs ! 3 + t1, e, f, g])"

definition sha256_block :: "w32 list \<Rightarrow> w32 list \<Rightarrow> w32 list" where
  "sha256_block hs ws =
    map2 (+) hs (sha256_rounds (zip sha256_k (rev (sha256_sched 48 (rev ws)))) hs)"

definition sha256 :: "string \<Rightarrow> string" where
  "sha256 s =
    concat (map word_bytes
      (foldl sha256_block
        [1779033703, 3144134277, 1013904242, 2773480762, 1359893119, 2600822924, 528734635,
         1541459225] (blocks_of s)))"

definition hex_of_bytes :: "string \<Rightarrow> string" where
  "hex_of_bytes s = concat (map (\<lambda>c. [hex_digit (code c div 16), hex_digit (code c mod 16)]) s)"

definition sha256_hexdigest :: "string \<Rightarrow> pystr" where
  "sha256_hexdigest s = hex_of_bytes (sha256 s)"

section \<open>UUIDs\<close>

definition uuid_bytes :: "uuid \<Rightarrow> string" where
  "uuid_bytes u = map (\<lambda>i. char_of (unat (drop_bit (8 * i) u AND 255))) (rev [0..<16])"

definition uuid_of_bytes :: "string \<Rightarrow> uuid" where
  "uuid_of_bytes s = fold (\<lambda>c u. push_bit 8 u OR word_of_nat (code c)) s 0"

text \<open>\<open>UUID(bytes=..., version=5)\<close>: the variant and version fields overwrite six bits.\<close>

definition set_version5 :: "uuid \<Rightarrow> uuid" where
  "set_version5 u =
    (u AND NOT (push_bit 62 3) AND NOT (push_bit 76 15)) OR push_bit 63 1 OR push_bit 76 5"

definition uuid5 :: "uuid \<Rightarrow> pystr \<Rightarrow> uuid" where
  "uuid5 ns name = set_version5 (uuid_of_bytes (take 16 (sha1 (uuid_bytes ns @ name))))"

definition NAMESPACE_URL :: uuid where
  "NAMESPACE_URL = 0x6ba7b8119dad11d180b400c04fd430c8"

definition uuid_str :: "uuid \<Rightarrow> pystr" where
  "uuid_str u =
    (let h = hex_of_bytes (uuid_bytes u)
     in take 8 h @ ''-'' @ take 4 (drop 8 h) @ ''-'' @ take 4 (drop 12 h) @ ''-'' @
        take 4 (drop 16 h) @ ''-'' @ drop 20 h)"

text \<open>
  \<open>UUID(text)\<close> for the plain, hyphenated and braced forms; \<open>None\<close> is \<open>ValueError\<close>. The further
  spellings Python takes (a \<open>urn:uuid:\<close> prefix, white space or underscores among the digits)
  are refused here.
\<close>

fun unhex :: "pystr \<Rightarrow> string" where
  "unhex (a # b # r) = char_of (16 * hex_val a + hex_val b) # unhex r"
| "unhex _ = []"

definition uuid_parse :: "pystr \<Rightarrow> uuid option" where
  "uuid_parse s =
    (let h = filter (\<lambda>c. c \<noteq> CHR ''-'')
               (rev (dropWhile (\<lambda>c. c \<in> set ''{}'') (rev (dropWhile (\<lambda>c. c \<in> set ''{}'') s))))
     in if length h = 32 \<and> list_all is_hex h then Some (uuid_of_bytes (unhex h)) else None)"

lemma code_less: "code c < 256"
  by (metis nat_of_char_less_256)

lemma code_div16: "code c div 16 < 16"
  using code_less[of c] by (simp add: less_mult_imp_div_less)

lemma hex_digit_props:
  assumes "d < 16"
  shows "hex_val (hex_digit d) = d \<and> is_hex (hex_digit d) \<and> hex_digit d \<notin> set ''-{}''"
proof -
  have c: "code (hex_digit d) = (if d < 10 then 48 + d else 87 + d)"
    using assms by (simp add: hex_digit_def)
  have "hex_val (hex_digit d) = d" "is_hex (hex_digit d)"
    using assms unfolding hex_val_def is_hex_def is_digit_def c by auto
  moreover have "hex_digit d \<noteq> x" if "code x = 45 \<or> code x = 123 \<or> code x = 125" for x
    using assms that c by (auto split: if_splits)
  then have "hex_digit d \<noteq> CHR ''-''" "hex_digit d \<noteq> CHR ''{''" "hex_digit d \<noteq> CHR ''}''"
    by simp_all
  ultimately show ?thesis by simp
qed

lemma unhex_hex_of_bytes [simp]: "unhex (hex_of_bytes s) = s"
proof (induction s)
  case Nil
  then show ?case by (simp add: hex_of_bytes_def)
next
  case (Cons c s)
  show ?case using Cons code_div16[of c] hex_digit_props[of "code c div 16"] hex_digit_props[of "code c mod 16"]
    by (simp add: hex_of_bytes_def)
qed

lemma hex_of_bytes_set: "x \<in> set (hex_of_bytes s) \<Longrightarrow> is_hex x \<and> x \<notin> set ''-{}''"
proof -
  assume "x \<in> set (hex_of_bytes s)"
  then obtain c where "x = hex_digit (code c div 16) \<or> x = hex_digit (code c mod 16)"
    by (auto simp: hex_of_bytes_def)
  then show ?thesis using hex_digit_props[OF code_div16[of c]] hex_digit_props[of "code c mod 16"]
    by auto
qed

lemma length_hex_of_bytes [simp]: "length (hex_of_bytes s) = 2 * length s"
  by (induction s) (simp_all add: hex_of_bytes_def)

text \<open>A hexadecimal SHA-256 digest is 64 lower-case hexadecimal characters.\<close>

lemma sha256_rounds_length: "length hs = 8 \<Longrightarrow> length (sha256_rounds kws hs) = 8"
  by (induction kws hs rule: sha256_rounds.induct) (auto simp: Let_def)

lemma sha256_fold_length: "length hs = 8 \<Longrightarrow> length (foldl sha256_block hs bs) = 8"
  by (induction bs arbitrary: hs) (simp_all add: sha256_block_def sha256_rounds_length)

lemma length_word_bytes: "length (concat (map word_bytes ws)) = 4 * length ws"
  by (induction ws) (simp_all add: word_bytes_def)

lemma length_sha256: "length (sha256 s) = 32"
  by (simp add: sha256_def length_word_bytes sha256_fold_length)

lemma hex_digit_lower: "n < 16 \<Longrightarrow> is_lower_hex (hex_digit n)"
  by (auto simp: hex_digit_def is_lower_hex_def is_digit_def)

lemma hex_of_bytes_lower: "list_all is_lower_hex (hex_of_bytes s)"
  by (induction s) (simp_all add: hex_of_bytes_def hex_digit_lower code_div16)

lemma sha256_hexdigest_lower: "length (sha256_hexdigest s) = 64 \<and> list_all is_lower_hex (sha256_hexdigest s)"
  by (simp add: sha256_hexdigest_def length_sha256 hex_of_bytes_lower)

lemma uuid_of_bytes_step:
  "fold (\<lambda>c u. push_bit 8 u OR word_of_nat (code c))
     (map (\<lambda>i. char_of (unat (drop_bit (8 * i) u AND 255))) (rev [0..<n])) a =
   push_bit (8 * n) a OR (u AND mask (8 * n))" for u a :: uuid
proof (induction n arbitrary: a)
  case 0
  then show ?case by simp
next
  case (Suc n)
  have m: "(255 :: uuid) = mask 8" by (simp add: mask_eq_exp_minus_1)
  have "unat (drop_bit (8 * n) u AND 255) < 256"
    using take_bit_nat_less_exp[of 8 "unat (drop_bit (8 * n) u)"]
    by (simp add: m flip: take_bit_eq_mask unsigned_take_bit_eq)
  then have byte: "word_of_nat (code (char_of (unat (drop_bit (8 * n) u AND 255)) :: char)) = drop_bit (8 * n) u AND 255"
    by simp
  have "push_bit (8 * n) (push_bit 8 a OR (drop_bit (8 * n) u AND 255)) OR (u AND mask (8 * n)) =
    push_bit (8 * Suc n) a OR (u AND mask (8 * Suc n))"
    unfolding m by (rule bit_word_eqI) (auto simp: bit_simps ac_simps)
  then show ?case using Suc.IH byte by simp
qed

lemma uuid_of_bytes_uuid_bytes [simp]: "uuid_of_bytes (uuid_bytes u) = u"
proof -
  have "uuid_of_bytes (uuid_bytes u) = push_bit (8 * 16) 0 OR (u AND mask (8 * 16))"
    unfolding uuid_of_bytes_def uuid_bytes_def by (rule uuid_of_bytes_step)
  also have "\<dots> = u" by (rule bit_word_eqI) (auto simp: bit_simps)
  finally show ?thesis .
qed

lemma dropWhile_id: "(\<And>x. x \<in> set s \<Longrightarrow> \<not> P x) \<Longrightarrow> dropWhile P s = s"
  by (cases s) auto

lemma uuid_parse_str [simp]: "uuid_parse (uuid_str u) = Some u"
proof -
  let ?h = "hex_of_bytes (uuid_bytes u)"
  have sub: "x \<in> set (uuid_str u) \<Longrightarrow> x \<in> set ?h \<or> x = CHR ''-''" for x
    by (auto simp: uuid_str_def Let_def dest!: in_set_takeD in_set_dropD)
  have nobrace: "x \<in> set (uuid_str u) \<Longrightarrow> x \<notin> set ''{}''" for x
    using sub[of x] hex_of_bytes_set[of x "uuid_bytes u"] by auto
  have keep: "filter (\<lambda>c. c \<noteq> CHR ''-'') t = t" if "set t \<subseteq> set ?h" for t
    using that hex_of_bytes_set[of _ "uuid_bytes u"] by (intro filter_True) auto
  have sub: "set (take m (drop k ?h)) \<subseteq> set ?h" "set (drop k ?h) \<subseteq> set ?h" "set (take m ?h) \<subseteq> set ?h" for m k
    by (auto dest: in_set_takeD in_set_dropD)
  have glue: "take m (drop k t) @ drop (m + k) t = drop k t" for m k and t :: string
    by (metis append_take_drop_id drop_drop)
  have "filter (\<lambda>c. c \<noteq> CHR ''-'') (uuid_str u) =
    take 8 ?h @ take 4 (drop 8 ?h) @ take 4 (drop 12 ?h) @ take 4 (drop 16 ?h) @ drop 20 ?h"
    unfolding uuid_str_def Let_def filter_append by (simp add: keep[OF sub(1)] keep[OF sub(2)] keep[OF sub(3)] del: drop_drop)
  also have "\<dots> = ?h"
    using glue[of 4 16 ?h] glue[of 4 12 ?h] glue[of 4 8 ?h] by simp
  finally have 1: "filter (\<lambda>c. c \<noteq> CHR ''-'') (uuid_str u) = ?h" .
  have "length ?h = 32" by (simp add: uuid_bytes_def)
  moreover have "list_all is_hex ?h" using hex_of_bytes_set by (auto simp: list_all_iff)
  moreover have "rev (dropWhile (\<lambda>c. c \<in> set ''{}'') (rev (dropWhile (\<lambda>c. c \<in> set ''{}'') (uuid_str u)))) = uuid_str u"
    using nobrace by (subst dropWhile_id, simp)+ simp
  ultimately show ?thesis unfolding uuid_parse_def using 1 by simp
qed

lemma uuid_str_inject [simp]: "uuid_str u = uuid_str v \<longleftrightarrow> u = v"
  by (metis option.inject uuid_parse_str)

end
