(* ===== verification/HttpUriSafe.thy ===== *)
theory HttpUriSafe imports HttpUri PyHash begin

text \<open>
  What a normalised URI cannot hold: no user information in its authority, and no value under a
  credential-like key in its query or its fragment. The central lemma is that \<open>parse_qsl\<close> inverts
  \<open>urlencode\<close>, so the keys and values a reader of the URI sees are the sanitised ones.
\<close>

section \<open>Query strings read back\<close>

lemma split_on_none: "d \<notin> set s \<Longrightarrow> split_on d s = [s]"
  by (induction s) auto

lemma split_on_cons: "d \<notin> set p \<Longrightarrow> split_on d (p @ d # s) = p # split_on d s"
  by (induction p) auto

lemma split_on_join:
  "ps \<noteq> [] \<Longrightarrow> \<forall>p \<in> set ps. d \<notin> set p \<Longrightarrow> split_on d (join [d] ps) = ps"
proof (induction ps)
  case Nil
  then show ?case by simp
next
  case (Cons p ps)
  then show ?case by (cases ps) (auto simp: split_on_none split_on_cons)
qed

lemma partition1_at: "d \<notin> set k \<Longrightarrow> partition1 d (k @ d # v) = (k, True, v)"
  by (induction k) auto

lemma unquote_to_bytes_plain: "c \<noteq> CHR ''%'' \<Longrightarrow> unquote_to_bytes (c # r) = c # unquote_to_bytes r"
proof (cases r)
  case (Cons a r')
  assume "c \<noteq> CHR ''%''"
  with Cons show ?thesis by (cases r') auto
qed auto

lemma upper_hex_digit:
  assumes "d < 16"
  shows "is_hex (upper_hex_digit d)" "hex_val (upper_hex_digit d) = d" "code (upper_hex_digit d) < 128"
    "unreserved (upper_hex_digit d)"
proof -
  have c: "code (upper_hex_digit d) = (if d < 10 then 48 + d else 55 + d)"
    using assms by (simp add: upper_hex_digit_def)
  show "is_hex (upper_hex_digit d)" "hex_val (upper_hex_digit d) = d" "code (upper_hex_digit d) < 128"
    "unreserved (upper_hex_digit d)"
    using assms unfolding is_hex_def hex_val_def is_digit_def unreserved_def is_alpha_def is_upper_def c
    by auto
qed

lemma unquote_to_bytes_percent: "unquote_to_bytes (percent c @ r) = c # unquote_to_bytes r"
proof -
  have "code c div 16 < 16" "code c mod 16 < 16" by (rule code_div16) simp
  then show ?thesis using upper_hex_digit[of "code c div 16"] upper_hex_digit[of "code c mod 16"]
    by (simp add: percent_def)
qed

text \<open>\<open>quote_plus\<close> with its spaces back: what \<open>unquote\<close> gets to see.\<close>

definition encoded :: "char \<Rightarrow> pystr" where
  "encoded c = (if c = CHR '' '' \<or> unreserved c then [c] else percent c)"

lemma unreserved_not: "unreserved c \<Longrightarrow> c \<noteq> CHR ''%'' \<and> c \<noteq> CHR ''+'' \<and> c \<noteq> CHR ''&'' \<and> c \<noteq> CHR ''='' \<and> code c < 128"
  by (auto simp: unreserved_def is_alpha_def is_upper_def is_lower_def is_digit_def)

lemma percent_set: "x \<in> set (percent c) \<Longrightarrow> x = CHR ''%'' \<or> unreserved x"
proof -
  have "code c div 16 < 16" "code c mod 16 < 16" by (rule code_div16) simp
  then show "x \<in> set (percent c) \<Longrightarrow> ?thesis"
    using upper_hex_digit(4)[of "code c div 16"] upper_hex_digit(4)[of "code c mod 16"]
    by (auto simp: percent_def)
qed

lemma quote_plus_set:
  assumes "x \<in> set (quote_plus s)"
  shows "x = CHR ''%'' \<or> x = CHR ''+'' \<or> unreserved x"
  using assms percent_set[of x] by (auto simp: quote_plus_def split: if_splits)

lemma quote_plus_not: "CHR ''&'' \<notin> set (quote_plus s)" "CHR ''='' \<notin> set (quote_plus s)"
  using quote_plus_set[of "CHR ''&''" s] quote_plus_set[of "CHR ''=''" s] unreserved_not by auto

lemma plus_to_space: "map (\<lambda>c. if c = CHR ''+'' then CHR '' '' else c) (quote_plus s) = concat (map encoded s)"
proof -
  have "map (\<lambda>c. if c = CHR ''+'' then CHR '' '' else c) (percent c) = percent c" for c
    using percent_set[of _ c] unreserved_not by (intro map_idI) auto
  moreover have "\<not> unreserved (CHR '' '')" by (simp add: unreserved_def is_alpha_def is_upper_def is_lower_def is_digit_def)
  ultimately show ?thesis
    using unreserved_not by (induction s) (auto simp: quote_plus_def encoded_def)
qed

lemma unquote_to_bytes_encoded: "unquote_to_bytes (concat (map encoded s)) = s"
proof (induction s)
  case Nil
  then show ?case by simp
next
  case (Cons c s)
  have "c = CHR '' '' \<or> unreserved c \<Longrightarrow> c \<noteq> CHR ''%''" using unreserved_not by auto
  then show ?case using Cons by (auto simp: encoded_def unquote_to_bytes_plain unquote_to_bytes_percent)
qed

lemma encoded_ascii: "c \<in> set (concat (map encoded s)) \<Longrightarrow> code c < 128"
  using unreserved_not percent_set by (fastforce simp: encoded_def split: if_splits)

lemma unquote_ascii:
  assumes "\<forall>c \<in> set s. code c < 128"
  shows "unquote s = utf8_replace (unquote_to_bytes s)"
proof (cases s)
  case Nil
  then show ?thesis by simp
next
  case (Cons c t)
  have run: "takeWhile (\<lambda>d. code d < 128) t = t" "dropWhile (\<lambda>d. code d < 128) t = []"
    using assms Cons by (auto simp: takeWhile_eq_all_conv dropWhile_eq_Nil_conv)
  show ?thesis using assms Cons by (simp add: run)
qed

lemma unquote_plus_quote_plus: "unquote_plus (quote_plus s) = utf8_replace s"
  using unquote_ascii[of "concat (map encoded s)"] encoded_ascii[of _ s]
  by (simp only: unquote_plus_def plus_to_space unquote_to_bytes_encoded) simp

lemma parse_qsl_urlencode:
  "parse_qsl (urlencode kvs) = map (\<lambda>(k, v). (utf8_replace k, utf8_replace v)) kvs"
proof (cases "kvs = []")
  case True
  then show ?thesis by (simp add: parse_qsl_def urlencode_def)
next
  case False
  let ?enc = "\<lambda>(k, v). quote_plus k @ ''='' @ quote_plus v"
  have no_amp: "\<forall>p \<in> set (map ?enc kvs). CHR ''&'' \<notin> set p" using quote_plus_not by auto
  have "split_on CHR ''&'' (urlencode kvs) = map ?enc kvs"
    unfolding urlencode_def by (rule split_on_join[OF _ no_amp]) (use False in simp)
  moreover have "filter (\<lambda>p. p \<noteq> []) (map ?enc kvs) = map ?enc kvs" by (rule filter_True) auto
  ultimately show ?thesis
    by (auto simp: parse_qsl_def partition1_at quote_plus_not unquote_plus_quote_plus)
qed

section \<open>Authorities\<close>

definition host_char :: "char \<Rightarrow> bool" where
  "host_char c \<longleftrightarrow> c \<notin> set ''@/?#''"

lemma host_char_large: "64 < code c \<Longrightarrow> host_char c"
  by (auto simp: host_char_def)

lemma is_hex_host_char: "is_hex c \<Longrightarrow> host_char c"
  by (auto simp: host_char_def is_hex_def is_digit_def)

lemma nat_str_digits: "c \<in> set (nat_str n) \<Longrightarrow> is_digit c"
proof (induction n rule: nat_str.induct)
  case (1 n)
  have d: "is_digit (digit_char (m mod 10))" for m
    by (simp add: digit_char_def is_digit_def)
  show ?case
  proof (cases "n < 10")
    case True
    then show ?thesis using 1 d[of n] by (subst (asm) nat_str.simps) auto
  next
    case False
    then show ?thesis using 1 d[of n] by (subst (asm) (2) nat_str.simps) auto
  qed
qed

lemma int_str_host_char: "c \<in> set (int_str i) \<Longrightarrow> host_char c"
  using nat_str_digits is_hex_host_char by (auto simp: int_str_def is_hex_def host_char_def split: if_splits)

lemma hex_str_hex: "c \<in> set (hex_str n) \<Longrightarrow> is_hex c"
proof (induction n rule: hex_str.induct)
  case (1 n)
  show ?case
  proof (cases "n < 16")
    case True
    then show ?thesis using 1(2) hex_digit_props[of "nat n"] by (subst (asm) hex_str.simps) auto
  next
    case False
    then show ?thesis using 1 hex_digit_props[of "nat (n mod 16)"] by (subst (asm) (2) hex_str.simps) auto
  qed
qed

lemma set_join: "c \<in> set (join d ps) \<Longrightarrow> c \<in> set d \<or> (\<exists>p \<in> set ps. c \<in> set p)"
  by (induction ps rule: join.induct[of _ d]) auto

lemma compress_hextets_sub: "p \<in> set (compress_hextets hs) \<Longrightarrow> p = [] \<or> p \<in> set hs"
  by (auto simp: compress_hextets_def split: prod.splits if_splits dest: in_set_takeD in_set_dropD)

lemma partition1_sub: "partition1 d s = (a, b, r) \<Longrightarrow> set a \<subseteq> set s \<and> set r \<subseteq> set s"
  by (induction s arbitrary: a b r) (fastforce split: if_splits prod.splits)+

lemma partition1_before: "partition1 d s = (a, b, r) \<Longrightarrow> d \<notin> set a"
  by (induction s arbitrary: a b r) (auto split: if_splits prod.splits)

lemma ip_str_host_chars:
  assumes "ip_address_parse h = Some ip" "\<forall>c \<in> set h. host_char c" "c \<in> set (ip_str ip)"
  shows "host_char c"
proof (cases ip)
  case (IPv4 v)
  then show ?thesis using assms(3) int_str_host_char
    by (auto simp: ipv4_str_def host_char_def)
next
  case (IPv6 v z)
  have zone: "set s \<subseteq> set h" if "z = Some s" for s
    using assms(1) IPv6 that partition1_sub[of "CHR ''%''" h]
    by (fastforce simp: ip_address_parse_def ipv6_parse_def split: option.splits if_splits prod.splits)
  have six: "host_char c" if "c \<in> set (ipv6_str v)" for c
    using set_join[OF that[unfolded ipv6_str_def]] compress_hextets_sub hex_str_hex is_hex_host_char
    by (fastforce simp: host_char_def)
  show ?thesis using assms(2,3) IPv6 zone six by (cases z) (auto simp: host_char_def)
qed

lemma lower_host_chars: "\<forall>c \<in> set s. host_char c \<Longrightarrow> c \<in> set (lower s) \<Longrightarrow> host_char c"
proof (induction s rule: lower.induct)
  case 1
  then show ?case by simp
next
  case (2 d s)
  have special: "host_char c" if "(u, l) \<in> set lower_special" "c \<in> set l" for u l
    using that by (intro host_char_large) (auto simp: lower_special_def simp del: upt_rec_numeral)
  have asc: "host_char (ascii_lower d)"
  proof (cases "is_upper d")
    case True
    then have "64 < code (ascii_lower d)" by (simp add: ascii_lower_def is_upper_def)
    then show ?thesis by (rule host_char_large)
  next
    case False
    then show ?thesis using "2.prems"(1) by (simp add: ascii_lower_def)
  qed
  show ?case
  proof (cases "code d < 128")
    case True
    then show ?thesis using 2 asc by auto
  next
    case False
    show ?thesis
    proof (cases "find (\<lambda>(u, l). u \<noteq> [] \<and> prefix u (d # s)) lower_special")
      case None
      then show ?thesis using 2 False by auto
    next
      case (Some p)
      obtain u l where p: "p = (u, l)" by fastforce
      have "(u, l) \<in> set lower_special" using find_Some_mem[OF Some] p by simp
      then show ?thesis using 2 False Some p special[of u l] set_drop_subset[of "length u" "d # s"]
        by (fastforce)
    qed
  qed
qed

lemma rpartition1_last: "rpartition1 d s = (a, b, r) \<Longrightarrow> d \<notin> set r \<or> b = False"
  by (auto simp: rpartition1_def split: prod.splits if_splits dest: partition1_before)

lemma partition1_absent: "partition1 d s = (a, False, r) \<Longrightarrow> d \<notin> set s"
  by (induction s arbitrary: a r) (auto split: if_splits prod.splits)

lemma rpartition1_rest:
  assumes "rpartition1 d s = (a, b, r)"
  shows "d \<notin> set r \<and> set r \<subseteq> set s"
proof -
  obtain x y z where p: "partition1 d (rev s) = (x, y, z)" by (metis prod_cases3)
  then show ?thesis using assms partition1_before[OF p] partition1_sub[OF p] partition1_absent[of d "rev s" x z]
    by (auto simp: rpartition1_def split: if_splits)
qed

lemma sp_hostname_chars:
  assumes "sp_hostname sp = Some h" "\<forall>c \<in> set (sp_netloc sp). c \<notin> set ''/?#''" "c \<in> set h"
  shows "host_char c"
proof -
  obtain a b info where rp: "rpartition1 CHR ''@'' (sp_netloc sp) = (a, b, info)" by (metis prod_cases3)
  note info = rpartition1_rest[OF rp]
  have host: "set (fst (sp_hostinfo sp)) \<subseteq> set info"
  proof -
    obtain a1 b1 c1 where p1: "partition1 CHR ''['' info = (a1, b1, c1)" by (metis prod_cases3)
    obtain a2 b2 c2 where p2: "partition1 CHR '']'' c1 = (a2, b2, c2)" by (metis prod_cases3)
    obtain a3 b3 c3 where p3: "partition1 CHR '':'' info = (a3, b3, c3)" by (metis prod_cases3)
    show ?thesis using partition1_sub[OF p1] partition1_sub[OF p2] partition1_sub[OF p3]
      by (auto simp: sp_hostinfo_def rp Let_def p1 p2 p3)
  qed
  obtain x y z where p: "partition1 CHR ''%'' (fst (sp_hostinfo sp)) = (x, y, z)" by (metis prod_cases3)
  have hc: "\<forall>c \<in> set (fst (sp_hostinfo sp)). host_char c"
  proof
    fix c assume "c \<in> set (fst (sp_hostinfo sp))"
    then have "c \<in> set (sp_netloc sp) \<and> c \<noteq> CHR ''@''" using host info by blast
    then show "host_char c" using assms(2) by (simp add: host_char_def)
  qed
  then have "\<forall>c \<in> set x. host_char c" "\<forall>c \<in> set z. host_char c" using partition1_sub[OF p] by auto
  moreover have "h = lower x @ (if y then ''%'' else []) @ z"
    using assms(1) p by (auto simp: sp_hostname_def Let_def split: if_splits)
  ultimately show ?thesis using assms(3) lower_host_chars[of x c] by (auto simp: host_char_def split: if_splits)
qed

lemma normalize_host_chars:
  assumes "normalize_host h = Inr h'" "\<forall>c \<in> set h. host_char c" "c \<in> set h'"
  shows "host_char c"
proof (cases "ip_address_parse h")
  case None
  then have "h' = lower h"
    using assms(1) by (auto simp: normalize_host_def idna_encode_def Let_def split: if_splits option.splits)
  then show ?thesis using assms lower_host_chars by blast
next
  case (Some ip)
  then show ?thesis using assms ip_str_host_chars[OF Some] by (auto simp: normalize_host_def)
qed

section \<open>Normalised URIs\<close>

lemma splitnetloc_chars: "splitnetloc s = (nl, r) \<Longrightarrow> c \<in> set nl \<Longrightarrow> c \<notin> set ''/?#''"
  by (auto simp: splitnetloc_def dest!: set_takeWhileD)

lemma urlsplit_netloc_chars: "urlsplit v = Some sp \<Longrightarrow> c \<in> set (sp_netloc sp) \<Longrightarrow> c \<notin> set ''/?#''"
  by (erule urlsplit_cases) (auto simp: split_authority_def split: if_splits dest: splitnetloc_chars)

text \<open>
  The pairs a query (or fragment) of the output shows: keys as they were, values replaced where
  the key is sensitive. (\<open>utf8_replace\<close> is the identity on text.)
\<close>

definition redacted :: "pystr \<Rightarrow> bool" where
  "redacted q \<longleftrightarrow>
    (\<forall>(k, w) \<in> set (parse_qsl q). \<exists>k0. k = utf8_replace k0 \<and> (is_sensitive_query_key k0 \<longrightarrow> w = REDACTED))"

lemma utf8_replace_REDACTED: "utf8_replace REDACTED = REDACTED"
  unfolding REDACTED_def by code_simp

lemma sanitize_parameter_string_redacted: "redacted (sanitize_parameter_string q)"
  by (subst sanitize_parameter_string.simps)
    (auto simp: redacted_def parse_qsl_urlencode sanitize_parameter_value_def utf8_replace_REDACTED)

lemma sp_hostname_netloc: "sp_hostname sp = Some h \<Longrightarrow> sp_netloc sp \<noteq> []"
  by (auto simp: sp_hostname_def sp_hostinfo_def rpartition1_def)

lemma urlsplit_path:
  assumes "urlsplit v = Some sp" "sp_netloc sp \<noteq> []"
  shows "sp_path sp = [] \<or> prefix ''/'' (sp_path sp)"
  using assms(1)
proof (rule urlsplit_cases)
  fix rest rest2 rest3 b b'
  assume a: "split_authority rest = (sp_netloc sp, rest2)"
    and f: "partition1 CHR ''#'' rest2 = (rest3, b, sp_fragment sp)"
    and q: "partition1 CHR ''?'' rest3 = (sp_path sp, b', sp_query sp)"
  have "rest2 = dropWhile (\<lambda>c. c \<notin> set ''/?#'') (drop 2 rest)"
    using a assms(2) by (auto simp: split_authority_def splitnetloc_def split: if_splits)
  then have "rest2 = [] \<or> hd rest2 \<in> set ''/?#''" by (metis hd_dropWhile)
  then show ?thesis using f q
    by (cases rest2) (auto split: if_splits prod.splits, (metis append_Cons append_Nil prefixI)+)
qed

lemma urlunsplit_text:
  assumes "List.member uses_netloc scheme" "scheme \<noteq> []" "prefix ''/'' path"
  shows "urlunsplit scheme netloc path query fragment =
    scheme @ ''://'' @ netloc @ path @ (if query = [] then [] else ''?'' @ query) @
    (if fragment = [] then [] else ''#'' @ fragment)"
  using assms by (auto simp: urlunsplit_def Let_def)

lemma with_port_chars:
  "\<forall>c \<in> set h. host_char c \<Longrightarrow> c \<in> set (with_port (bracket_host h) p) \<Longrightarrow> host_char c"
  using int_str_host_char by (auto simp: with_port_def bracket_host_def host_char_def split: option.splits if_splits)

lemma normalize_http_uri_parts:
  assumes "normalize_http_uri v n = Inr u"
  obtains scheme netloc path query fragment where
    "u = scheme @ ''://'' @ netloc @ path @ (if query = [] then [] else ''?'' @ query) @
         (if fragment = [] then [] else ''#'' @ fragment)"
    "scheme = ''http'' \<or> scheme = ''https''" "\<forall>c \<in> set netloc. host_char c" "prefix ''/'' path"
    "redacted query" "has_char CHR ''='' fragment \<longrightarrow> redacted fragment"
proof -
  let ?san = "sanitize_parameter_string"
  note a = assms[unfolded normalize_http_uri_def normalize_http_uri_with_def]
  obtain sp port hostname where sp: "urlsplit (strip v) = Some sp" "sp_port sp = Some port"
      "sp_hostname sp = Some hostname"
    using a by (auto simp: res_simps Let_def split: option.splits)
  have sch: "lower (sp_scheme sp) = ''http'' \<or> lower (sp_scheme sp) = ''https''"
    using a sp by (auto simp: res_simps Let_def split: if_splits)
  then have ns: "(lower (sp_scheme sp) \<noteq> ''http'' \<and> lower (sp_scheme sp) \<noteq> ''https'') = False" by blast
  obtain h where h: "normalize_host hostname = Inr h"
    and u: "u = urlunsplit (lower (sp_scheme sp))
        (if port = None \<or> port = Some (if lower (sp_scheme sp) = ''http'' then 80 else 443) then bracket_host h
         else with_port (bracket_host h) port)
        (if sp_path sp = [] then ''/'' else sp_path sp) (?san (sp_query sp))
        (sanitize_fragment ?san (sp_fragment sp))"
    using a sp by (cases "normalize_host hostname") (simp_all add: ns res_simps Let_def)
  have host: "\<forall>c \<in> set h. host_char c"
    using normalize_host_chars[OF h] sp_hostname_chars[OF sp(3)] urlsplit_netloc_chars[OF sp(1)] by blast
  let ?netloc = "if port = None \<or> port = Some (if lower (sp_scheme sp) = ''http'' then 80 else 443)
    then bracket_host h else with_port (bracket_host h) port"
  let ?path = "if sp_path sp = [] then ''/'' else sp_path sp"
  let ?frag = "sanitize_fragment ?san (sp_fragment sp)"
  have nl: "\<forall>c \<in> set ?netloc. host_char c"
    using with_port_chars[OF host, of _ None] with_port_chars[OF host, of _ port]
    by (auto simp: with_port_def)
  have path: "prefix ''/'' ?path"
    using urlsplit_path[OF sp(1) sp_hostname_netloc[OF sp(3)]] by auto
  have frag: "has_char CHR ''='' ?frag \<longrightarrow> redacted ?frag"
    using sanitize_parameter_string_redacted by (auto simp: sanitize_fragment_def)
  have "List.member uses_netloc (lower (sp_scheme sp))" "lower (sp_scheme sp) \<noteq> []"
    using sch by (auto simp: uses_netloc_def)
  from that[OF u[unfolded urlunsplit_text[OF this path]] sch nl path sanitize_parameter_string_redacted frag]
  show thesis .
qed

section \<open>Properties\<close>



text \<open>
  decoding an encoded parameter list gives the list back, character for character, for every
  list of keys and values (duplicates, empty values, separators and escapes inside them included).
\<close>

theorem parameter_roundtrip:
  assumes "\<forall>(k, v) \<in> set kvs. utf8_replace k = k \<and> utf8_replace v = v"
  shows "parse_qsl (urlencode kvs) = kvs"
  using assms by (auto simp: parse_qsl_urlencode intro!: map_idI)

theorem parameter_roundtrip_witness:
  "parse_qsl (urlencode [(''a&b'', ''1=2 +%''), (''a&b'', [])]) = [(''a&b'', ''1=2 +%''), (''a&b'', [])]"
  by (rule parameter_roundtrip) code_simp

end
