(* ===== verification/PyData.thy ===== *)
theory PyData imports PyHash begin

text \<open>
  Python data that reaches the program from outside: floats before their validation, instants,
  and decoded JSON. A validated finite float is stored as its exact rational value (the rounding of
  float arithmetic is not modelled). A \<open>datetime\<close> is its distance in microseconds from the epoch
  together with whether it carries a time zone.
\<close>

section \<open>Floats\<close>

datatype pyfloat = Fin rat | Infinite bool | NaN

fun isfinite :: "pyfloat \<Rightarrow> bool" where
  "isfinite (Fin _) = True"
| "isfinite _ = False"

fun float_val :: "pyfloat \<Rightarrow> rat" where
  "float_val (Fin x) = x"
| "float_val _ = 0"

lemma isfinite_iff: "isfinite f \<longleftrightarrow> (\<exists>x. f = Fin x)"
  by (cases f) simp_all

text \<open>\<open>math.isfinite(x) and x >= 0\<close>, and the value when it holds.\<close>

definition nonneg_float :: "pyfloat \<Rightarrow> bool" where
  "nonneg_float f \<longleftrightarrow> isfinite f \<and> 0 \<le> float_val f"

definition pos_float :: "pyfloat \<Rightarrow> bool" where
  "pos_float f \<longleftrightarrow> isfinite f \<and> 0 < float_val f"

lemma nonneg_float_Fin [simp]: "nonneg_float (Fin x) \<longleftrightarrow> 0 \<le> x"
  by (simp add: nonneg_float_def)

lemma pos_float_Fin [simp]: "pos_float (Fin x) \<longleftrightarrow> 0 < x"
  by (simp add: pos_float_def)

section \<open>Instants\<close>

datatype datetime = Naive int | Aware int int

text \<open>
  \<open>Aware t off\<close>: the instant \<open>t\<close> written with the offset \<open>off\<close>; comparisons look at instants only,
  the text of the timestamp at both.
\<close>

fun is_aware :: "datetime \<Rightarrow> bool" where
  "is_aware (Aware _ _) = True"
| "is_aware (Naive _) = False"

fun instant :: "datetime \<Rightarrow> int" where
  "instant (Aware t _) = t"
| "instant (Naive t) = t"

text \<open>\<open>d + timedelta\<close> keeps the offset.\<close>

fun plus_time :: "datetime \<Rightarrow> int \<Rightarrow> datetime" where
  "plus_time (Aware t off) d = Aware (t + d) off"
| "plus_time (Naive t) d = Naive (t + d)"

lemma instant_plus_time [simp]: "instant (plus_time d x) = instant d + x"
  by (cases d) simp_all

lemma is_aware_plus_time [simp]: "is_aware (plus_time d x) = is_aware d"
  by (cases d) simp_all

text \<open>The number of microseconds in a second and in an hour.\<close>

definition SECOND :: int where
  "SECOND = 1000000"

definition HOUR :: int where
  "HOUR = 3600 * SECOND"

section \<open>Decoded JSON\<close>

text \<open>
  \<open>JTime d\<close> is the text \<open>d.isoformat()\<close>, which \<open>datetime.fromisoformat\<close> reads back; a string the
  program did not write with \<open>isoformat\<close> counts as no timestamp.
\<close>

datatype json =
    JNull
  | JBool bool
  | JInt int
  | JFloat rat
  | JStr pystr
  | JTime datetime
  | JList "json list"
  | JObj "(pystr \<times> json) list"

text \<open>\<open>raw[key]\<close> and \<open>raw.get(key)\<close> on an object.\<close>

fun jget :: "json \<Rightarrow> pystr \<Rightarrow> json option" where
  "jget (JObj kvs) k = map_of kvs k"
| "jget _ k = None"

definition jitem :: "json \<Rightarrow> pystr \<Rightarrow> exc + json" where
  "jitem j k = (case jget j k of None \<Rightarrow> Inl (KeyError k) | Some v \<Rightarrow> Inr v)"

text \<open>\<open>d[key] = v\<close>: an existing key keeps its place.\<close>

fun jset :: "(pystr \<times> json) list \<Rightarrow> pystr \<Rightarrow> json \<Rightarrow> (pystr \<times> json) list" where
  "jset [] k v = [(k, v)]"
| "jset ((k', v') # kvs) k v = (if k' = k then (k, v) # kvs else (k', v') # jset kvs k v)"

lemma map_of_jset [simp]: "map_of (jset kvs k v) = (map_of kvs)(k \<mapsto> v)"
  by (induction kvs) auto

definition jopt :: "('a \<Rightarrow> json) \<Rightarrow> 'a option \<Rightarrow> json" where
  "jopt f x = (case x of None \<Rightarrow> JNull | Some v \<Rightarrow> f v)"

text \<open>A value of the wrong type where the source expects a string, a number or a list.\<close>

definition type_error :: "exc" where
  "type_error = ValueError ''invalid type''"

fun jstr :: "json \<Rightarrow> exc + pystr" where
  "jstr (JStr s) = Inr s"
| "jstr _ = Inl type_error"

fun jint :: "json \<Rightarrow> exc + int" where
  "jint (JInt i) = Inr i"
| "jint _ = Inl type_error"

fun jfloat :: "json \<Rightarrow> exc + pyfloat" where
  "jfloat (JFloat x) = Inr (Fin x)"
| "jfloat (JInt i) = Inr (Fin (of_int i))"
| "jfloat _ = Inl type_error"

fun jlist :: "json \<Rightarrow> exc + json list" where
  "jlist (JList xs) = Inr xs"
| "jlist _ = Inl type_error"

fun jtime :: "json \<Rightarrow> exc + datetime" where
  "jtime (JTime d) = Inr d"
| "jtime _ = Inl (ValueError ''Invalid isoformat string'')"

fun jopt_int :: "json option \<Rightarrow> exc + int option" where
  "jopt_int None = Inr None"
| "jopt_int (Some JNull) = Inr None"
| "jopt_int (Some (JInt i)) = Inr (Some i)"
| "jopt_int (Some _) = Inl type_error"

fun jopt_str :: "json option \<Rightarrow> exc + pystr option" where
  "jopt_str None = Inr None"
| "jopt_str (Some JNull) = Inr None"
| "jopt_str (Some (JStr s)) = Inr (Some s)"
| "jopt_str (Some _) = Inl type_error"

text \<open>
  A JSON document on disk: a missing file, one that does not decode, or its decoded root. Replacing
  the file is atomic in every store of the program (a temporary file, then \<open>os.replace\<close>), so a
  write is one step.
\<close>

datatype json_file = Missing | Malformed | Document json

text \<open>\<open>data.get('schema_version') == 1\<close>: Python's \<open>1\<close>, \<open>1.0\<close> and \<open>True\<close> are equal.\<close>

definition json_is_one :: "json option \<Rightarrow> bool" where
  "json_is_one j \<longleftrightarrow> j = Some (JInt 1) \<or> j = Some (JFloat 1) \<or> j = Some (JBool True)"

fun is_object :: "json \<Rightarrow> bool" where
  "is_object (JObj _) = True"
| "is_object _ = False"

fun entries :: "json \<Rightarrow> (pystr \<times> json) list" where
  "entries (JObj kvs) = kvs"
| "entries _ = []"

lemma jget_entries: "is_object j \<Longrightarrow> jget j k = map_of (entries j) k"
  by (cases j) simp_all

definition parse_uuid :: "pystr \<Rightarrow> exc + uuid" where
  "parse_uuid s =
    (case uuid_parse s of
       Some u \<Rightarrow> Inr u
     | None \<Rightarrow> Inl (ValueError ''badly formed hexadecimal UUID string''))"

lemma parse_uuid_str [simp]: "parse_uuid (uuid_str u) = Inr u"
  by (simp add: parse_uuid_def)

text \<open>\<open>UUID(value)\<close> calls a method of its argument first: a value that is no string raises
  \<open>AttributeError\<close>.\<close>

definition juuid :: "json \<Rightarrow> exc + uuid" where
  "juuid j =
    (case jstr j of
       Inl _ \<Rightarrow> Inl (OtherError ''AttributeError'' ''object has no attribute replace'')
     | Inr s \<Rightarrow> parse_uuid s)"

lemma juuid_str [simp]: "juuid (JStr (uuid_str u)) = Inr u"
  by (simp add: juuid_def)

text \<open>\<open>UUID(x) if x else None\<close>.\<close>

definition jopt_uuid :: "json option \<Rightarrow> exc + uuid option" where
  "jopt_uuid j =
    bindE (jopt_str j) (\<lambda>s.
    case s of
      None \<Rightarrow> Inr None
    | Some t \<Rightarrow> if t = [] then Inr None else bindE (parse_uuid t) (\<lambda>u. Inr (Some u)))"

lemma jopt_uuid_str [simp]: "jopt_uuid (Some (jopt (\<lambda>u. JStr (uuid_str u)) x)) = Inr x"
proof (cases x)
  case (Some u)
  have "uuid_str u \<noteq> []" by (simp add: uuid_str_def Let_def)
  then show ?thesis using Some by (simp add: jopt_uuid_def jopt_def)
qed (simp add: jopt_uuid_def jopt_def)

text \<open>\<open>UUID(x) if x is not None else None\<close>.\<close>

definition jopt_uuid_given :: "json option \<Rightarrow> exc + uuid option" where
  "jopt_uuid_given j =
    (case j of
       None \<Rightarrow> Inr None
     | Some v \<Rightarrow> if v = JNull then Inr None else bindE (juuid v) (\<lambda>u. Inr (Some u)))"

lemma jopt_uuid_given_str [simp]: "jopt_uuid_given (Some (jopt (\<lambda>u. JStr (uuid_str u)) x)) = Inr x"
  by (cases x) (simp_all add: jopt_uuid_given_def jopt_def)

lemma jopt_str_jopt [simp]: "jopt_str (Some (jopt JStr x)) = Inr x"
  by (cases x) (simp_all add: jopt_def)

definition juuids :: "json \<Rightarrow> exc + uuid list" where
  "juuids j = bindE (jlist j) (mapM juuid)"

lemma mapM_map_id: "(\<And>x. x \<in> set xs \<Longrightarrow> f (g x) = Inr x) \<Longrightarrow> mapM f (map g xs) = Inr xs"
  by (induction xs) auto

lemma juuids_strs [simp]: "juuids (JList (map (\<lambda>u. JStr (uuid_str u)) us)) = Inr us"
  by (simp add: juuids_def mapM_map_id)

lemma jopt_int_jopt [simp]: "jopt_int (Some (jopt JInt x)) = Inr x"
  by (cases x) (simp_all add: jopt_def)

text \<open>
  \<open>a == b\<close> on decoded values: objects compare by their keys whatever their order, numbers by value
  (\<open>True\<close> is 1).
\<close>

fun jnum :: "json \<Rightarrow> rat option" where
  "jnum (JInt i) = Some (of_int i)"
| "jnum (JFloat x) = Some x"
| "jnum (JBool b) = Some (if b then 1 else 0)"
| "jnum _ = None"

lemma size_map_of: "map_of kvs k = Some v \<Longrightarrow> size v < Suc (size_list (size_prod size size) kvs)"
  by (induction kvs) (auto split: if_splits)

lemma size_in_entries: "(k, v) \<in> set kvs \<Longrightarrow> size v < Suc (size_list (size_prod size size) kvs)"
  by (induction kvs) auto

lemma case_option_cong [fundef_cong]:
  "x = y \<Longrightarrow> (y = None \<Longrightarrow> a = b) \<Longrightarrow> (\<And>v. y = Some v \<Longrightarrow> f v = g v) \<Longrightarrow>
    (case x of None \<Rightarrow> a | Some v \<Rightarrow> f v) = (case y of None \<Rightarrow> b | Some v \<Rightarrow> g v)"
  by (cases y) auto

function json_eq :: "json \<Rightarrow> json \<Rightarrow> bool" where
  "json_eq (JObj a) b =
    (case b of
       JObj c \<Rightarrow>
         list_all (\<lambda>(k, v). case map_of c k of None \<Rightarrow> False | Some w \<Rightarrow> json_eq v w) a \<and>
         list_all (\<lambda>(k, w). map_of a k \<noteq> None) c
     | _ \<Rightarrow> False)"
| "json_eq (JList xs) b =
    (case b of
       JList ys \<Rightarrow> length xs = length ys \<and> list_all (\<lambda>(x, y). json_eq x y) (zip xs ys)
     | _ \<Rightarrow> False)"
| "json_eq JNull b \<longleftrightarrow> b = JNull"
| "json_eq (JStr s) b \<longleftrightarrow> b = JStr s"
| "json_eq (JTime d) b \<longleftrightarrow> b = JTime d"
| "json_eq (JInt i) b \<longleftrightarrow> jnum b = Some (of_int i)"
| "json_eq (JFloat x) b \<longleftrightarrow> jnum b = Some x"
| "json_eq (JBool t) b \<longleftrightarrow> jnum b = Some (if t then 1 else 0)"
  by pat_completeness auto
termination
  by (relation "measure (\<lambda>(a, b). size a)")
    (auto dest: size_in_entries set_zip_leftD size_list_estimation'[where f = size and y = "0::nat"]
      simp: less_Suc_eq_le size_list_estimation')

lemma json_eq_field:
  "json_eq (JObj a) (JObj c) \<Longrightarrow> (k, v) \<in> set a \<Longrightarrow> \<exists>w. map_of c k = Some w \<and> json_eq v w"
  by (fastforce simp: list_all_iff split: option.splits)

text \<open>Decoded objects have distinct keys.\<close>

fun json_wf :: "json \<Rightarrow> bool" where
  "json_wf (JObj kvs) \<longleftrightarrow> distinct (map fst kvs) \<and> list_all (\<lambda>p. json_wf (snd p)) kvs"
| "json_wf (JList xs) \<longleftrightarrow> list_all json_wf xs"
| "json_wf _ \<longleftrightarrow> True"

lemma json_eq_refl: "json_wf j \<Longrightarrow> json_eq j j"
proof (induction j rule: json_wf.induct)
  case (1 kvs)
  have "case map_of kvs k of None \<Rightarrow> False | Some w \<Rightarrow> json_eq v w" if "(k, v) \<in> set kvs" for k v
    using that 1 by (fastforce simp: list_all_iff)
  then show ?case by (auto simp: list_all_iff map_of_eq_None_iff intro: rev_image_eqI)
next
  case (2 xs)
  then show ?case by (auto simp: list_all_iff in_set_zip)
qed simp_all

text \<open>Python's \<open>except (KeyError, TypeError, ValueError) as exc: raise RuntimeError(...)\<close>.\<close>

fun bad_value :: "exc \<Rightarrow> bool" where
  "bad_value (ValueError _) = True"
| "bad_value (KeyError _) = True"
| "bad_value (OtherError name _) = (name = ''TypeError'')"
| "bad_value _ = False"

definition as_runtime :: "pystr \<Rightarrow> exc + 'a \<Rightarrow> exc + 'a" where
  "as_runtime message m =
    (case m of
       Inl e \<Rightarrow> Inl (if bad_value e then RuntimeError message else e)
     | Inr x \<Rightarrow> Inr x)"

lemma as_runtime_Inr [simp]: "as_runtime message (Inr x) = Inr x"
  by (simp add: as_runtime_def)

lemma as_runtime_Inr_iff [res_simps]: "as_runtime message m = Inr x \<longleftrightarrow> m = Inr x"
  by (cases m) (simp_all add: as_runtime_def)

text \<open>A lower-case SHA-256 digest.\<close>

definition is_lower_sha256 :: "pystr \<Rightarrow> bool" where
  "is_lower_sha256 s \<longleftrightarrow> length s = 64 \<and> list_all is_lower_hex s"

text \<open>\<open>del d[key]\<close> on a key that is there.\<close>

definition jdel :: "(pystr \<times> json) list \<Rightarrow> pystr \<Rightarrow> (pystr \<times> json) list" where
  "jdel kvs k = filter (\<lambda>(k', v). k' \<noteq> k) kvs"

lemma map_of_jdel [simp]: "map_of (jdel kvs k) = (map_of kvs)(k := None)"
  unfolding jdel_def by (induction kvs) (auto simp: fun_eq_iff)

text \<open>
  The stores keep a document \<open>{"schema_version": 1, name: {key: record}}\<close>. \<open>read_document\<close> checks
  its shape with the messages of one store.
\<close>

definition read_document :: "pystr \<Rightarrow> pystr \<Rightarrow> json_file \<Rightarrow> exc + (pystr \<times> json) list" where
  "read_document what name f =
    (case f of
       Missing \<Rightarrow> Inl (OSError (''unable to read '' @ what))
     | Malformed \<Rightarrow> Inl (RuntimeError (''invalid '' @ what @ '' JSON''))
     | Document doc \<Rightarrow>
         bindE (check (is_object doc)
                  (RuntimeError (''invalid '' @ what @ '': root must be an object''))) (\<lambda>_.
         bindE (check (json_is_one (jget doc ''schema_version''))
                  (RuntimeError (''unsupported '' @ what @ '' schema_version''))) (\<lambda>_.
         bindE (check (case jget doc name of None \<Rightarrow> False | Some b \<Rightarrow> is_object b)
                  (RuntimeError (''invalid '' @ what @ '' bucket''))) (\<lambda>_.
         Inr (entries doc)))))"

definition json_bucket :: "(pystr \<times> json) list \<Rightarrow> pystr \<Rightarrow> (pystr \<times> json) list" where
  "json_bucket data name = (case map_of data name of None \<Rightarrow> [] | Some b \<Rightarrow> entries b)"

definition set_bucket :: "(pystr \<times> json) list \<Rightarrow> pystr \<Rightarrow> (pystr \<times> json) list \<Rightarrow> json_file" where
  "set_bucket data name b = Document (JObj (jset data name (JObj b)))"

definition empty_document :: "pystr \<Rightarrow> json_file" where
  "empty_document name = Document (JObj [(''schema_version'', JInt 1), (name, JObj [])])"

text \<open>\<open>data[name].get(key)\<close>: an absent key and a JSON null both give \<open>None\<close>.\<close>

definition bucket_get :: "(pystr \<times> json) list \<Rightarrow> pystr \<Rightarrow> json option" where
  "bucket_get b k = (case map_of b k of None \<Rightarrow> None | Some j \<Rightarrow> if j = JNull then None else Some j)"

lemma bucket_get_jset [simp]:
  "j \<noteq> JNull \<Longrightarrow> bucket_get (jset b k j) k' = (if k' = k then Some j else bucket_get b k')"
  by (simp add: bucket_get_def)

lemma bucket_get_jdel [simp]: "bucket_get (jdel b k) k' = (if k' = k then None else bucket_get b k')"
  by (simp add: bucket_get_def)

lemma read_document_Inr:
  "read_document what name f = Inr data \<longleftrightarrow>
    f = Document (JObj data) \<and> json_is_one (map_of data ''schema_version'') \<and>
    (\<exists>b. map_of data name = Some (JObj b))"
proof -
  have obj: "is_object x \<longleftrightarrow> (\<exists>b. x = JObj b)" for x by (cases x) auto
  show ?thesis
    by (cases f) (auto simp: read_document_def res_simps obj jget_entries split: option.splits)
qed

lemma read_set_bucket:
  assumes "read_document what name f = Inr data" "name \<noteq> ''schema_version''"
  shows "\<exists>data'. read_document what name (set_bucket data name b) = Inr data' \<and> json_bucket data' name = b"
  using assms by (auto simp: read_document_Inr set_bucket_def json_bucket_def)

end
