(* ===== verification/ResourcePolicy.thy ===== *)
theory ResourcePolicy imports HttpUri PyData begin

text \<open>
  \<open>domain/resource_acquisition.py\<close>: the fail-closed policy of network acquisition (which URIs, which
  resolved addresses, how many retries) and the budget counters that admit one more request. The
  policy is a record built by \<open>mk_policy\<close>, which validates as \<open>__post_init__\<close> does; the frozen sets
  of schemes and domains come in as lists, in the order their iteration has.
\<close>

record policy =
  max_depth :: int
  max_requests :: int
  max_bytes :: int
  max_retries :: int
  max_redirects :: int
  max_elapsed_seconds :: "rat option"
  min_request_interval_seconds :: rat
  allowed_schemes :: "pystr set"
  allowed_domains :: "pystr set"
  allow_private_addresses :: bool

record budget =
  requests_used :: int
  bytes_used :: int
  elapsed_seconds :: rat

section \<open>Validation\<close>

definition require_non_negative_int :: "int \<Rightarrow> pystr \<Rightarrow> exc + unit" where
  "require_non_negative_int v field_name =
    check (0 \<le> v) (ValueError (field_name @ '' must be a non-negative integer''))"

lemma require_non_negative_int_iff [res_simps]:
  "require_non_negative_int v n = Inr u \<longleftrightarrow> 0 \<le> v"
  by (simp add: require_non_negative_int_def res_simps)

lemma require_non_negative_int_ok [simp]: "0 \<le> v \<Longrightarrow> require_non_negative_int v n = Inr ()"
  by (simp add: require_non_negative_int_def)

definition valid_scheme :: "pystr \<Rightarrow> bool" where
  "valid_scheme s \<longleftrightarrow> s \<noteq> [] \<and> is_alpha (hd s) \<and> list_all is_scheme_char s"

definition rstrip_char :: "char \<Rightarrow> pystr \<Rightarrow> pystr" where
  "rstrip_char c s = rev (dropWhile (\<lambda>d. d = c) (rev s))"

definition normalize_scheme :: "pystr \<Rightarrow> exc + pystr" where
  "normalize_scheme v =
    bindE (check (\<not> blank v) (ValueError ''allowed URI schemes must be non-blank strings'')) (\<lambda>_.
    let normalized = rstrip_char CHR '':'' (strip v) in
    bindE (check (valid_scheme normalized)
             (ValueError ''allowed URI schemes must be valid URI schemes'')) (\<lambda>_.
    Inr (lower normalized)))"

definition valid_label :: "pystr \<Rightarrow> bool" where
  "valid_label l \<longleftrightarrow>
    l \<noteq> [] \<and> length l \<le> 63 \<and> hd l \<noteq> CHR ''-'' \<and> last l \<noteq> CHR ''-'' \<and>
    list_all (\<lambda>c. is_alpha c \<or> is_digit c \<or> c = CHR ''-'') l"

definition normalize_domain :: "pystr \<Rightarrow> exc + pystr" where
  "normalize_domain v =
    bindE (check (\<not> blank v) (ValueError ''allowed domains must be non-blank strings'')) (\<lambda>_.
    let candidate = rstrip_char CHR ''.'' (strip v) in
    bindE (check (find_sub ''://'' candidate = None \<and> \<not> has_char CHR ''/'' candidate \<and>
                  \<not> has_char CHR '':'' candidate)
             (ValueError ''allowed domains must be bare DNS hostnames'')) (\<lambda>_.
    bindE (check (ip_address_parse candidate = None)
             (ValueError ''allowed domains must be DNS hostnames, not IP addresses'')) (\<lambda>_.
    case idna_encode candidate of
      None \<Rightarrow> Inl (ValueError ''allowed domains must be valid DNS hostnames'')
    | Some encoded \<Rightarrow>
        let normalized = lower encoded in
        bindE (check (list_all valid_label (split_on CHR ''.'' normalized))
                 (ValueError ''allowed domains must be valid DNS hostnames'')) (\<lambda>_.
        Inr normalized))))"

definition mk_policy ::
  "int \<Rightarrow> int \<Rightarrow> int \<Rightarrow> int \<Rightarrow> int \<Rightarrow> pyfloat option \<Rightarrow> pyfloat \<Rightarrow> pystr list \<Rightarrow> pystr list \<Rightarrow> bool \<Rightarrow>
    exc + policy" where
  "mk_policy depth requests bytes retries redirects elapsed interval schemes domains private =
    bindE (require_non_negative_int depth ''resource acquisition max_depth'') (\<lambda>_.
    bindE (require_non_negative_int requests ''resource acquisition max_requests'') (\<lambda>_.
    bindE (require_non_negative_int bytes ''resource acquisition max_bytes'') (\<lambda>_.
    bindE (require_non_negative_int retries ''resource acquisition max_retries'') (\<lambda>_.
    bindE (require_non_negative_int redirects ''resource acquisition max_redirects'') (\<lambda>_.
    bindE (check (case elapsed of None \<Rightarrow> True | Some e \<Rightarrow> pos_float e)
             (ValueError ''resource acquisition max_elapsed_seconds must be finite and positive'')) (\<lambda>_.
    bindE (check (nonneg_float interval)
             (ValueError ''resource acquisition min_request_interval_seconds must be finite and non-negative'')) (\<lambda>_.
    bindE (mapM normalize_scheme schemes) (\<lambda>ss.
    bindE (check (ss \<noteq> []) (ValueError ''resource acquisition must allow at least one URI scheme'')) (\<lambda>_.
    bindE (mapM normalize_domain domains) (\<lambda>ds.
    Inr \<lparr>max_depth = depth, max_requests = requests, max_bytes = bytes, max_retries = retries,
         max_redirects = redirects, max_elapsed_seconds = map_option float_val elapsed,
         min_request_interval_seconds = float_val interval, allowed_schemes = set ss,
         allowed_domains = set ds, allow_private_addresses = private\<rparr>))))))))))"

definition mk_budget :: "int \<Rightarrow> int \<Rightarrow> pyfloat \<Rightarrow> exc + budget" where
  "mk_budget requests bytes elapsed =
    bindE (require_non_negative_int requests ''acquisition requests_used'') (\<lambda>_.
    bindE (require_non_negative_int bytes ''acquisition bytes_used'') (\<lambda>_.
    bindE (check (nonneg_float elapsed)
             (ValueError ''acquisition elapsed_seconds must be finite and non-negative'')) (\<lambda>_.
    Inr \<lparr>requests_used = requests, bytes_used = bytes, elapsed_seconds = float_val elapsed\<rparr>)))"

definition budget_ok :: "budget \<Rightarrow> bool" where
  "budget_ok b \<longleftrightarrow> 0 \<le> requests_used b \<and> 0 \<le> bytes_used b \<and> 0 \<le> elapsed_seconds b"

lemma mk_budget_Inr:
  "mk_budget r n e = Inr b \<longleftrightarrow>
    0 \<le> r \<and> 0 \<le> n \<and> nonneg_float e \<and>
    b = \<lparr>requests_used = r, bytes_used = n, elapsed_seconds = float_val e\<rparr>"
  by (auto simp: mk_budget_def res_simps)

lemma mk_budget_ok: "mk_budget r n e = Inr b \<Longrightarrow> budget_ok b"
  by (auto simp: mk_budget_Inr budget_ok_def nonneg_float_def)

section \<open>Decisions\<close>

definition allows_uri :: "policy \<Rightarrow> pystr \<Rightarrow> bool" where
  "allows_uri p uri =
    (if blank uri then False
     else (case urlsplit uri of
       None \<Rightarrow> False
     | Some parsed \<Rightarrow>
         (case sp_hostname parsed of
            None \<Rightarrow> False
          | Some hostname \<Rightarrow>
              if lower (sp_scheme parsed) \<notin> allowed_schemes p then False
              else if sp_username parsed \<noteq> None \<or> sp_password parsed \<noteq> None then False
              else if allowed_domains p = {} then False
              else if ip_address_parse hostname \<noteq> None then False
              else (case normalize_domain hostname of
                      Inl _ \<Rightarrow> False
                    | Inr domain \<Rightarrow>
                        (\<exists>allowed \<in> allowed_domains p.
                           domain = allowed \<or> suffix (''.'' @ allowed) domain)))))"

definition allows_resolved_address :: "policy \<Rightarrow> pystr \<Rightarrow> bool" where
  "allows_resolved_address p address =
    (case ip_address_parse address of
       None \<Rightarrow> False
     | Some parsed \<Rightarrow>
         if is_multicast parsed \<or> is_unspecified parsed \<or> is_link_local parsed \<or> is_reserved parsed
         then False
         else if allow_private_addresses p
         then is_global parsed \<or> is_private parsed \<or> is_loopback parsed
         else is_global parsed)"

definition allows_retry :: "policy \<Rightarrow> int \<Rightarrow> exc + bool" where
  "allows_retry p retries_used =
    bindE (require_non_negative_int retries_used ''retries_used'') (\<lambda>_.
    Inr (retries_used < max_retries p))"

definition allows_request :: "budget \<Rightarrow> policy \<Rightarrow> int \<Rightarrow> int \<Rightarrow> pyfloat option \<Rightarrow> exc + bool" where
  "allows_request b p depth expected_bytes since_last =
    bindE (require_non_negative_int depth ''request depth'') (\<lambda>_.
    bindE (require_non_negative_int expected_bytes ''expected_bytes'') (\<lambda>_.
    bindE (check (case since_last of None \<Rightarrow> True | Some s \<Rightarrow> nonneg_float s)
             (ValueError ''seconds_since_last_request must be finite and non-negative'')) (\<lambda>_.
    Inr (if max_depth p < depth then False
         else if max_requests p \<le> requests_used b then False
         else if max_bytes p < bytes_used b + expected_bytes then False
         else if (case max_elapsed_seconds p of None \<Rightarrow> False | Some m \<Rightarrow> m \<le> elapsed_seconds b) then False
         else \<not> (0 < requests_used b \<and> 0 < min_request_interval_seconds p \<and>
                 (case since_last of
                    None \<Rightarrow> True
                  | Some s \<Rightarrow> float_val s < min_request_interval_seconds p))))))"

lemma allows_requestD:
  assumes "allows_request b p d n s = Inr True"
  shows "0 \<le> d" "d \<le> max_depth p" "requests_used b < max_requests p" "0 \<le> n"
    "bytes_used b + n \<le> max_bytes p"
    "\<And>m. max_elapsed_seconds p = Some m \<Longrightarrow> elapsed_seconds b < m"
  using assms by (auto simp: allows_request_def res_simps split: if_splits option.splits)

section \<open>Names and their labels\<close>

text \<open>
  The suffix test of the source is a test on the labels of the name: only whole labels can be
  added in front of an allowed domain.
\<close>

lemma subdomain_labels:
  "(domain = a \<or> suffix (''.'' @ a) domain) \<longleftrightarrow>
    suffix (split_on CHR ''.'' a) (split_on CHR ''.'' domain)"
proof
  assume "domain = a \<or> suffix (''.'' @ a) domain"
  then show "suffix (split_on CHR ''.'' a) (split_on CHR ''.'' domain)"
    by (auto simp: suffix_def split_on_append)
next
  assume "suffix (split_on CHR ''.'' a) (split_on CHR ''.'' domain)"
  then obtain zs where zs: "split_on CHR ''.'' domain = zs @ split_on CHR ''.'' a"
    by (auto simp: suffix_def)
  show "domain = a \<or> suffix (''.'' @ a) domain"
  proof (cases "zs = []")
    case True
    then show ?thesis using zs by (simp add: split_on_inject)
  next
    case False
    have "domain = join ''.'' (zs @ split_on CHR ''.'' a)"
      by (metis zs join_split_on)
    also have "\<dots> = join ''.'' zs @ ''.'' @ a"
      using False by (simp add: join_append join_split_on)
    finally show ?thesis by (metis append.assoc suffixI)
  qed
qed

section \<open>Addresses\<close>

text \<open>The blocks no public address lies in, as (base, prefix length).\<close>

definition internal_v4 :: "(int \<times> nat) list" where
  "internal_v4 =
    [(ip4 0 0 0 0, 8), (ip4 10 0 0 0, 8), (ip4 100 64 0 0, 10), (ip4 127 0 0 0, 8),
     (ip4 169 254 0 0, 16), (ip4 172 16 0 0, 12), (ip4 192 168 0 0, 16), (ip4 224 0 0 0, 3)]"

definition internal_v6 :: "(int \<times> nat) list" where
  "internal_v6 =
    [(0, 8), (0xfc000000000000000000000000000000, 7), (0xfe800000000000000000000000000000, 10),
     (0xff000000000000000000000000000000, 8)]"

definition in_block :: "nat \<Rightarrow> int \<Rightarrow> int \<times> nat \<Rightarrow> bool" where
  "in_block width v blk \<longleftrightarrow>
    fst blk \<le> v \<and> v < fst blk + 2 ^ (width - snd blk)"

fun internal_address :: "ip_address \<Rightarrow> bool" where
  "internal_address (IPv4 v) = list_ex (in_block 32 v) internal_v4"
| "internal_address (IPv6 v z) = list_ex (in_block 128 v) internal_v6"

lemma in_net_range:
  "in_net v (b, k) \<longleftrightarrow> b div 2 ^ k * 2 ^ k \<le> v \<and> v < b div 2 ^ k * 2 ^ k + 2 ^ k" for v b :: int
proof -
  have pos: "(0::int) < 2 ^ k" by simp
  have e: "v = v div 2 ^ k * 2 ^ k + v mod 2 ^ k" by (rule div_mult_mod_eq[symmetric])
  have m: "0 \<le> v mod 2 ^ k" "v mod 2 ^ k < 2 ^ k" using pos by simp_all
  show ?thesis
  proof
    assume "in_net v (b, k)"
    then have i: "v div 2 ^ k = b div 2 ^ k" by (simp add: in_net_def)
    show "b div 2 ^ k * 2 ^ k \<le> v \<and> v < b div 2 ^ k * 2 ^ k + 2 ^ k"
      using e[unfolded i] m by (intro conjI) linarith+
  next
    assume a: "b div 2 ^ k * 2 ^ k \<le> v \<and> v < b div 2 ^ k * 2 ^ k + 2 ^ k"
    define q where "q = b div (2 ^ k :: int)"
    have "v div 2 ^ k = q"
      using a unfolding q_def[symmetric]
      by (intro int_div_pos_eq[where r = "v - q * 2 ^ k"]) (auto simp: algebra_simps)
    then show "in_net v (b, k)" by (simp add: in_net_def q_def)
  qed
qed

lemma not_in_net: "\<not> in_net v (b, k) \<longleftrightarrow> v < b div 2 ^ k * 2 ^ k \<or> b div 2 ^ k * 2 ^ k + 2 ^ k \<le> v" for v b :: int
  by (auto simp: in_net_range)

lemma public_v4:
  assumes "0 \<le> v" "v < 2 ^ 32" "is_global (IPv4 v)" "\<not> is_multicast (IPv4 v)"
    "\<not> is_reserved (IPv4 v)"
  shows "\<not> internal_address (IPv4 v)"
proof -
  note n = assms(3-5)[unfolded is_global.simps is_multicast.simps is_reserved.simps v4_is_private_def
      v4_private_nets_def v4_private_exceptions_def ip4_def]
  show ?thesis
    using n assms(1,2)
    by (simp add: internal_v4_def in_block_def ip4_def in_net_range) linarith
qed

lemma public_v6:
  assumes v: "0 \<le> v" "v < 2 ^ 128" and g: "is_global (IPv6 v z)" "\<not> is_multicast (IPv6 v z)"
    "\<not> is_reserved (IPv6 v z)" "\<not> is_link_local (IPv6 v z)"
  shows "\<not> internal_address (IPv6 v z)"
proof
  assume "internal_address (IPv6 v z)"
  then consider "in_block 128 v (0, 8)" | "in_block 128 v (0xfc000000000000000000000000000000, 7)"
    | "in_block 128 v (0xfe800000000000000000000000000000, 10)"
    | "in_block 128 v (0xff000000000000000000000000000000, 8)"
    by (auto simp: internal_v6_def)
  then show False
  proof cases
    case 1
    then have "in_net v (0, 120)" by (simp add: in_block_def in_net_range)
    then show False using g(3) by (simp add: v6_reserved_nets_def)
  next
    case 2
    then have r: "0xfc000000000000000000000000000000 \<le> v" by (simp add: in_block_def)
    have "in_net v (0xfc000000000000000000000000000000, 121)"
      using 2 by (simp add: in_block_def in_net_range)
    then have "list_ex (in_net v) v6_private_nets" by (simp add: v6_private_nets_def)
    moreover have "list_all (\<lambda>n. \<not> in_net v n) v6_private_exceptions"
      using r by (simp add: v6_private_exceptions_def not_in_net)
    moreover have "v4_mapped v = None"
      using r in_net_range[of v "0xffff * 2 ^ 32" 32] by (simp add: v4_mapped_def in_net_def)
    ultimately show False using g(1) by simp
  next
    case 3
    then show False using g(4) by (simp add: in_block_def in_net_range)
  next
    case 4
    then show False using g(2) by (simp add: in_block_def in_net_range)
  qed
qed

text \<open>The blocks no acquisition reaches, whatever the policy says about private addresses.\<close>

fun forbidden_address :: "ip_address \<Rightarrow> bool" where
  "forbidden_address (IPv4 v) \<longleftrightarrow>
    v = 0 \<or> in_block 32 v (ip4 169 254 0 0, 16) \<or> in_block 32 v (ip4 224 0 0 0, 3)"
| "forbidden_address (IPv6 v z) \<longleftrightarrow>
    in_block 128 v (0, 8) \<or> in_block 128 v (0xfe800000000000000000000000000000, 10) \<or>
    in_block 128 v (0xff000000000000000000000000000000, 8)"

lemma forbidden_refused:
  "ip_in_range ip \<Longrightarrow> \<not> is_multicast ip \<Longrightarrow> \<not> is_unspecified ip \<Longrightarrow> \<not> is_link_local ip \<Longrightarrow>
    \<not> is_reserved ip \<Longrightarrow> \<not> forbidden_address ip"
proof (cases ip)
  case (IPv4 v)
  assume "ip_in_range ip" "\<not> is_multicast ip" "\<not> is_unspecified ip" "\<not> is_link_local ip" "\<not> is_reserved ip"
  with IPv4 show ?thesis by (auto simp: in_block_def ip4_def in_net_range)
next
  case (IPv6 v z)
  assume "ip_in_range ip" "\<not> is_multicast ip" "\<not> is_unspecified ip" "\<not> is_link_local ip" "\<not> is_reserved ip"
  with IPv6 show ?thesis by (auto simp: in_block_def in_net_range v6_reserved_nets_def)
qed

section \<open>Properties\<close>

definition demo_policy :: policy where
  "demo_policy =
    \<lparr>max_depth = 2, max_requests = 10, max_bytes = 1000, max_retries = 1, max_redirects = 5,
     max_elapsed_seconds = Some 300, min_request_interval_seconds = 0, allowed_schemes = {''https''},
     allowed_domains = {''a.org''}, allow_private_addresses = False\<rparr>"

text \<open>
  a URI the policy admits has an allowed scheme, no user information and a host that is not an
  address; the host's normalised name ends with all the labels of an allowed domain, so
  \<open>evil-a.org\<close> is not inside \<open>a.org\<close>.
\<close>

theorem allows_uri_scope:
  assumes "allows_uri p u"
  shows "\<exists>parsed host domain a.
    urlsplit u = Some parsed \<and> lower (sp_scheme parsed) \<in> allowed_schemes p \<and>
    sp_username parsed = None \<and> sp_password parsed = None \<and>
    sp_hostname parsed = Some host \<and> ip_address_parse host = None \<and>
    normalize_domain host = Inr domain \<and> a \<in> allowed_domains p \<and>
    suffix (split_on CHR ''.'' a) (split_on CHR ''.'' domain)"
  using assms[unfolded allows_uri_def subdomain_labels]
  by (auto split: if_splits option.splits sum.splits)

theorem allows_uri_scope_witness:
  "\<exists>parsed host domain a.
    urlsplit ''https://www.A.org/x'' = Some parsed \<and>
    lower (sp_scheme parsed) \<in> allowed_schemes demo_policy \<and>
    sp_username parsed = None \<and> sp_password parsed = None \<and>
    sp_hostname parsed = Some host \<and> ip_address_parse host = None \<and>
    normalize_domain host = Inr domain \<and> a \<in> allowed_domains demo_policy \<and>
    suffix (split_on CHR ''.'' a) (split_on CHR ''.'' domain)"
  by (rule allows_uri_scope) (simp add: demo_policy_def, code_simp)

text \<open>
  C6: without private access, an address the policy lets a connection go to lies in none of the
  internal blocks (loopback, RFC 1918, shared, link-local, IPv4-mapped, unique local,
  multicast and reserved space); with private access, it is still never unspecified, link-local
  (the metadata services of clouds), multicast or reserved.
\<close>

theorem resolved_address_safe:
  assumes "allows_resolved_address p address"
  shows "\<exists>ip. ip_address_parse address = Some ip \<and> \<not> forbidden_address ip \<and>
    (allow_private_addresses p \<or> \<not> internal_address ip)"
proof -
  from assms obtain ip where ip: "ip_address_parse address = Some ip"
    and n: "\<not> is_multicast ip" "\<not> is_unspecified ip" "\<not> is_link_local ip" "\<not> is_reserved ip"
    and g: "allow_private_addresses p \<or> is_global ip"
    by (auto simp: allows_resolved_address_def split: option.splits if_splits)
  note r = ip_address_parse_range[OF ip]
  have "\<not> internal_address ip" if "is_global ip"
    using that n r public_v4 public_v6 by (cases ip) auto
  then show ?thesis using ip forbidden_refused[OF r n] g by blast
qed

theorem resolved_address_safe_witness:
  "\<exists>ip. ip_address_parse ''93.184.216.34'' = Some ip \<and> \<not> forbidden_address ip \<and>
    (allow_private_addresses demo_policy \<or> \<not> internal_address ip)"
  by (rule resolved_address_safe) (simp add: demo_policy_def, code_simp)

end
