(* ===== verification/RobotsRules.thy ===== *)
theory RobotsRules imports PyUrl begin

text \<open>
  \<open>domain/robots_rules.py\<close>: parsing of robots.txt into groups, the matching of rule patterns with
  \<open>*\<close> and a final \<open>$\<close>, and the choice of the most specific rule. The parser is a fold over the lines
  with the loop's local variables as its state.
\<close>

section \<open>Lines and numbers\<close>

text \<open>\<open>str.splitlines\<close>: the boundaries are \<open>\n\<close>, \<open>\r\<close>, \<open>\r\n\<close>, four further control characters, NEL, LS and PS.\<close>

definition line_break :: "pystr \<Rightarrow> nat" where
  "line_break s =
    (case s of
       [] \<Rightarrow> 0
     | c # r \<Rightarrow>
         if c = CHR 0x0D then (if prefix [CHR 0x0A] r then 2 else 1)
         else if code c \<in> {0x0A, 0x0B, 0x0C, 0x1C, 0x1D, 0x1E} then 1
         else if prefix [CHR 0xC2, CHR 0x85] s then 2
         else if prefix [CHR 0xE2, CHR 0x80, CHR 0xA8] s \<or> prefix [CHR 0xE2, CHR 0x80, CHR 0xA9] s then 3
         else 0)"

function splitlines_from :: "pystr \<Rightarrow> pystr \<Rightarrow> pystr list" where
  "splitlines_from line [] = (if line = [] then [] else [rev line])"
| "splitlines_from line (c # s) =
    (if line_break (c # s) = 0 then splitlines_from (c # line) s
     else rev line # splitlines_from [] (drop (line_break (c # s)) (c # s)))"
  by pat_completeness auto
termination
  by (relation "measure (\<lambda>(l, s). length s)") auto

definition splitlines :: "pystr \<Rightarrow> pystr list" where
  "splitlines s = splitlines_from [] s"

text \<open>The number of characters: bytes that do not continue a sequence.\<close>

definition char_len :: "pystr \<Rightarrow> nat" where
  "char_len s = length (filter (\<lambda>c. \<not> is_cont c) s)"

text \<open>
  \<open>float(text)\<close> on ASCII text: white space around, a sign, digits with single underscores between
  them, a fraction, an exponent, and the names of the infinities and NaN. \<open>None\<close> is \<open>ValueError\<close>;
  a magnitude from \<open>2^1024 - 2^970\<close> on rounds to infinity.
\<close>

datatype parsed_float = Finite rat | NotFinite

fun underscored :: "pystr \<Rightarrow> bool" where
  "underscored [] = False"
| "underscored [c] = is_digit c"
| "underscored (c # d # s) =
    (is_digit c \<and> (if d = CHR ''_'' then underscored s else underscored (d # s)))"

definition digits_of :: "pystr \<Rightarrow> pystr" where
  "digits_of s = filter is_digit s"

definition parse_exponent :: "pystr \<Rightarrow> int option" where
  "parse_exponent s =
    (let neg = prefix ''-'' s; body = (if prefix ''-'' s \<or> prefix ''+'' s then tl s else s)
     in if underscored body
        then Some (if neg then - int (digits_val (digits_of body)) else int (digits_val (digits_of body)))
        else None)"

definition scale10 :: "rat \<Rightarrow> int \<Rightarrow> rat" where
  "scale10 x e = (if 0 \<le> e then x * 10 ^ nat e else x / 10 ^ nat (- e))"

definition parse_mantissa :: "pystr \<Rightarrow> rat option" where
  "parse_mantissa s =
    (case partition1 CHR ''.'' s of (whole, dot, fraction) \<Rightarrow>
       if (whole = [] \<or> underscored whole) \<and> (fraction = [] \<or> underscored fraction) \<and> (whole \<noteq> [] \<or> fraction \<noteq> [])
       then Some (scale10 (of_nat (digits_val (digits_of whole @ digits_of fraction)))
                    (- int (length (digits_of fraction))))
       else None)"

definition parse_float :: "pystr \<Rightarrow> parsed_float option" where
  "parse_float text =
    (let s = lower (strip text);
         neg = prefix ''-'' s;
         body = (if prefix ''-'' s \<or> prefix ''+'' s then tl s else s)
     in if \<not> is_ascii text then None
        else if body \<in> {''inf'', ''infinity'', ''nan''} then Some NotFinite
        else (case partition1 CHR ''e'' body of (m, has_exp, e) \<Rightarrow>
               (case (parse_mantissa m, if has_exp then parse_exponent e else Some 0) of
                  (Some x, Some k) \<Rightarrow>
                    (let v = scale10 x k
                     in if 2 ^ 1024 - 2 ^ 970 \<le> v then Some NotFinite
                        else Some (Finite (if neg then - v else v)))
                | _ \<Rightarrow> None)))"

section \<open>Rules and groups\<close>

record rule =
  rl_allow :: bool
  rl_pattern :: pystr

record group =
  gr_agents :: "pystr list"
  gr_rules :: "rule list"
  gr_crawl_delay :: "rat option"

type_synonym rules = "group list"

definition ends_with :: "char \<Rightarrow> pystr \<Rightarrow> bool" where
  "ends_with c s \<longleftrightarrow> s \<noteq> [] \<and> last s = c"

definition specificity :: "rule \<Rightarrow> nat" where
  "specificity r =
    (let body = (if ends_with CHR ''$'' (rl_pattern r) then butlast (rl_pattern r) else rl_pattern r)
     in length (filter (\<lambda>c. c \<noteq> CHR ''*'') body))"

definition MAX_ROBOTS_BYTES :: int where
  "MAX_ROBOTS_BYTES = 512 * 1024"

definition is_product_token :: "pystr \<Rightarrow> bool" where
  "is_product_token s \<longleftrightarrow> s \<noteq> [] \<and> list_all (\<lambda>c. is_alpha c \<or> c = CHR ''_'' \<or> c = CHR ''-'') s"

definition normalize_product_token :: "pystr \<Rightarrow> exc + pystr" where
  "normalize_product_token v =
    bindE (check (is_product_token (strip v))
             (ValueError ''robots product token must contain only ASCII letters, underscores, and hyphens'')) (\<lambda>_.
    Inr (lower (strip v)))"

definition parse_crawl_delay :: "pystr \<Rightarrow> rat option" where
  "parse_crawl_delay v =
    (if 64 < char_len v then None
     else (case parse_float v of
             Some (Finite x) \<Rightarrow> if x < 0 then None else Some x
           | _ \<Rightarrow> None))"

section \<open>Canonical patterns and targets\<close>

definition upper_char :: "char \<Rightarrow> char" where
  "upper_char c = ascii_upper c"

fun canonicalize_component :: "bool \<Rightarrow> pystr \<Rightarrow> pystr" where
  "canonicalize_component star (c # a # b # s) =
    (if star \<and> c = CHR ''*'' then CHR ''*'' # canonicalize_component star (a # b # s)
     else if c = CHR ''%'' \<and> is_hex a \<and> is_hex b
     then (let decoded = char_of (16 * hex_val a + hex_val b)
           in (if unreserved decoded then [decoded] else [CHR ''%'', upper_char a, upper_char b]) @
              canonicalize_component star s)
     else (if 127 < code c then percent c else [c]) @ canonicalize_component star (a # b # s))"
| "canonicalize_component star (c # s) =
    (if star \<and> c = CHR ''*'' then CHR ''*'' # canonicalize_component star s
     else (if 127 < code c then percent c else [c]) @ canonicalize_component star s)"
| "canonicalize_component star [] = []"

definition canonicalize_rule_pattern :: "pystr \<Rightarrow> exc + pystr" where
  "canonicalize_rule_pattern v =
    (let anchored = ends_with CHR ''$'' v; body = (if anchored then butlast v else v) in
     bindE (check (body \<noteq> []) (ValueError ''robots rule pattern must not be empty'')) (\<lambda>_.
     bindE (check (list_all (\<lambda>c. 0x21 \<le> code c \<and> c \<noteq> CHR ''#'') body)
              (ValueError ''robots rule pattern contains invalid characters'')) (\<lambda>_.
     Inr (canonicalize_component True body @ (if anchored then ''$'' else [])))))"

definition canonicalize_uri_path_query :: "pystr \<Rightarrow> pystr \<Rightarrow> pystr" where
  "canonicalize_uri_path_query path query =
    canonicalize_component False (path @ (if query \<noteq> [] then ''?'' @ query else []))"

section \<open>Parsing\<close>

record parse_state =
  ps_groups :: "group list"
  ps_agents :: "pystr list"
  ps_rules :: "rule list"
  ps_delays :: "rat list"
  ps_started :: bool

definition finish_group :: "parse_state \<Rightarrow> parse_state" where
  "finish_group st =
    \<lparr>ps_groups =
       (if ps_agents st \<noteq> []
        then ps_groups st @
          [\<lparr>gr_agents = ps_agents st, gr_rules = ps_rules st,
            gr_crawl_delay = (if ps_delays st = [] then None else Some (Max (set (ps_delays st))))\<rparr>]
        else ps_groups st),
     ps_agents = [], ps_rules = [], ps_delays = [], ps_started = False\<rparr>"

definition parse_line :: "pystr \<Rightarrow> parse_state \<Rightarrow> parse_state" where
  "parse_line raw_line st =
    (let line = strip (fst (partition1 CHR ''#'' raw_line)) in
     if line = [] \<or> \<not> has_char CHR '':'' line then st
     else (case partition1 CHR '':'' line of (raw_key, _, raw_value) \<Rightarrow>
       let key = lower (strip raw_key); v = strip raw_value in
       if key = ''user-agent''
       then (if \<not> (v = ''*'' \<or> is_product_token v) then st
             else (let st1 = (if ps_started st then finish_group st else st)
                   in st1\<lparr>ps_agents := ps_agents st1 @ [lower v]\<rparr>))
       else if ps_agents st = [] then st
       else if key = ''allow'' \<or> key = ''disallow''
       then (let st1 = st\<lparr>ps_started := True\<rparr> in
             if v = [] then st1
             else (case canonicalize_rule_pattern v of
                     Inl _ \<Rightarrow> st1
                   | Inr pattern \<Rightarrow>
                       st1\<lparr>ps_rules := ps_rules st1 @ [\<lparr>rl_allow = (key = ''allow''), rl_pattern = pattern\<rparr>]\<rparr>))
       else if key = ''crawl-delay''
       then (case parse_crawl_delay v of
               None \<Rightarrow> st
             | Some delay \<Rightarrow> st\<lparr>ps_delays := ps_delays st @ [delay]\<rparr>)
       else st))"

definition parse_robots :: "pystr \<Rightarrow> exc + rules" where
  "parse_robots content =
    bindE (check (int (length content) \<le> MAX_ROBOTS_BYTES)
             (ValueError ''robots content exceeds the 512 KiB parsing limit'')) (\<lambda>_.
    Inr (ps_groups (finish_group
      (fold parse_line (splitlines content)
        \<lparr>ps_groups = [], ps_agents = [], ps_rules = [], ps_delays = [], ps_started = False\<rparr>))))"

section \<open>Matching\<close>

text \<open>\<open>target.rfind(part)\<close>; \<open>None\<close> is \<open>-1\<close>.\<close>

definition rfind_sub :: "pystr \<Rightarrow> pystr \<Rightarrow> nat option" where
  "rfind_sub part target =
    map_option (\<lambda>k. length target - (k + length part)) (find_sub (rev part) (rev target))"

fun match_parts :: "bool \<Rightarrow> bool \<Rightarrow> pystr \<Rightarrow> nat \<Rightarrow> pystr list \<Rightarrow> bool" where
  "match_parts anchored star target position [] =
    (\<not> anchored \<or> star \<or> position = length target)"
| "match_parts anchored star target position (part # parts) =
    (if part = [] then match_parts anchored star target position parts
     else if anchored \<and> parts = [] \<and> \<not> star
     then suffix part target \<and>
          (case rfind_sub part target of None \<Rightarrow> False | Some k \<Rightarrow> position \<le> k)
     else (case find_from part target position of
             None \<Rightarrow> False
           | Some found \<Rightarrow> match_parts anchored star target (found + length part) parts))"

definition pattern_matches :: "pystr \<Rightarrow> pystr \<Rightarrow> bool" where
  "pattern_matches pattern target =
    (let anchored = ends_with CHR ''$'' pattern;
         body = (if anchored then butlast pattern else pattern);
         parts = split_on CHR ''*'' body;
         star = ends_with CHR ''*'' body
     in if \<not> prefix ''*'' body
        then prefix (hd parts) target \<and>
             match_parts anchored star target (length (hd parts)) (tl parts)
        else match_parts anchored star target 0 parts)"

definition applicable_groups :: "rules \<Rightarrow> pystr \<Rightarrow> group list" where
  "applicable_groups gs token =
    (let exact = filter (\<lambda>g. List.member (gr_agents g) token) gs
     in if exact \<noteq> [] then exact else filter (\<lambda>g. List.member (gr_agents g) ''*'') gs)"

definition matching_rules :: "rules \<Rightarrow> pystr \<Rightarrow> pystr \<Rightarrow> rule list" where
  "matching_rules gs token target =
    filter (\<lambda>r. pattern_matches (rl_pattern r) target) (concat (map gr_rules (applicable_groups gs token)))"

definition can_fetch :: "rules \<Rightarrow> pystr \<Rightarrow> pystr \<Rightarrow> exc + bool" where
  "can_fetch gs target_uri product_token =
    bindE (normalize_product_token product_token) (\<lambda>token.
    case urlsplit target_uri of
      None \<Rightarrow> Inl (ValueError ''Invalid URL'')
    | Some parsed \<Rightarrow>
        bindE (check (lower (sp_scheme parsed) \<in> {''http'', ''https''} \<and> sp_hostname parsed \<noteq> None)
                 (ValueError ''robots target URI must be absolute HTTP(S)'')) (\<lambda>_.
        if sp_path parsed = ''/robots.txt'' \<and> sp_query parsed = [] then Inr True
        else
          (let target = canonicalize_uri_path_query
                          (if sp_path parsed = [] then ''/'' else sp_path parsed) (sp_query parsed);
               matches = matching_rules gs token target
           in if matches = [] then Inr True
              else (let most_specific = Max (set (map specificity matches));
                        equally_specific = filter (\<lambda>r. specificity r = most_specific) matches
                    in Inr (list_ex rl_allow equally_specific)))))"

definition crawl_delay :: "rules \<Rightarrow> pystr \<Rightarrow> exc + rat option" where
  "crawl_delay gs product_token =
    bindE (normalize_product_token product_token) (\<lambda>token.
    (let delays = concat (map (\<lambda>g. case gr_crawl_delay g of None \<Rightarrow> [] | Some d \<Rightarrow> [d])
                            (applicable_groups gs token))
     in Inr (if delays = [] then None else Some (Max (set delays)))))"

section \<open>What a pattern means\<close>

text \<open>
  The declarative reading of a pattern: \<open>*\<close> stands for any sequence of bytes, every other byte for
  itself. A pattern without a final \<open>$\<close> is open at its end.
\<close>

fun glob :: "pystr \<Rightarrow> pystr \<Rightarrow> bool" where
  "glob [] s \<longleftrightarrow> s = []"
| "glob (c # p) s \<longleftrightarrow>
    (if c = CHR ''*'' then \<exists>k \<in> {0..length s}. glob p (drop k s)
     else s \<noteq> [] \<and> hd s = c \<and> glob p (tl s))"

definition pattern_spec :: "pystr \<Rightarrow> pystr \<Rightarrow> bool" where
  "pattern_spec pattern target \<longleftrightarrow>
    (if ends_with CHR ''$'' pattern then glob (butlast pattern) target
     else glob (pattern @ ''*'') target)"

text \<open>\<open>seg ps s\<close>: after any first gap, the parts occur in this order, the last one at the end of \<open>s\<close>.\<close>

fun seg :: "pystr list \<Rightarrow> pystr \<Rightarrow> bool" where
  "seg [] s \<longleftrightarrow> s = []"
| "seg [p] s \<longleftrightarrow> suffix p s"
| "seg (p # q # ps) s \<longleftrightarrow> (\<exists>k. prefix p (drop k s) \<and> k \<le> length s \<and> seg (q # ps) (drop (k + length p) s))"

lemma glob_plain: "CHR ''*'' \<notin> set p \<Longrightarrow> glob (p @ q) s \<longleftrightarrow> prefix p s \<and> glob q (drop (length p) s)"
proof (induction p arbitrary: s)
  case Nil
  then show ?case by simp
next
  case (Cons c p)
  then show ?case by (cases s) auto
qed

lemma glob_join_star:
  "ps \<noteq> [] \<Longrightarrow> \<forall>p \<in> set ps. CHR ''*'' \<notin> set p \<Longrightarrow> glob (CHR ''*'' # join ''*'' ps) s \<longleftrightarrow> seg ps s"
proof (induction ps arbitrary: s rule: induct_list012)
  case 1
  then show ?case by simp
next
  case (2 p)
  have "glob p t \<longleftrightarrow> t = p" for t
    using glob_plain[of p "[]" t] 2 by (auto simp: prefix_def)
  then have "glob (CHR ''*'' # p) s \<longleftrightarrow> (\<exists>k \<le> length s. drop k s = p)" by auto
  also have "\<dots> \<longleftrightarrow> suffix p s"
    by (metis append_take_drop_id length_append le_add1 suffix_def suffix_drop append_eq_conv_conj)
  finally show ?case by simp
next
  case (3 p q ps)
  have IH: "glob (CHR ''*'' # join ''*'' (q # ps)) t \<longleftrightarrow> seg (q # ps) t" for t
    using 3 by (simp del: glob.simps seg.simps)
  have e: "join ''*'' (p # q # ps) = p @ CHR ''*'' # join ''*'' (q # ps)" by simp
  have np: "CHR ''*'' \<notin> set p" using 3 by simp
  have "glob (join ''*'' (p # q # ps)) t \<longleftrightarrow> prefix p t \<and> seg (q # ps) (drop (length p) t)" for t
    unfolding e glob_plain[OF np] IH ..
  then show ?case by (auto simp: add.commute simp del: join.simps)
qed

lemma seg_mono: "ps \<noteq> [] \<Longrightarrow> seg ps (drop m s) \<Longrightarrow> seg ps s"
proof (induction ps s rule: seg.induct)
  case (1 s)
  then show ?case by simp
next
  case (2 p s)
  then show ?case by (metis seg.simps(2) suffix_drop suffix_order.trans)
next
  case (3 p q ps s)
  then obtain k where k: "prefix p (drop k (drop m s))" "k \<le> length (drop m s)" "seg (q # ps) (drop (k + length p) (drop m s))"
    by auto
  show ?case
  proof (cases "m \<le> length s")
    case True
    then have "prefix p (drop (k + m) s)" "k + m \<le> length s" "seg (q # ps) (drop ((k + m) + length p) s)"
      using k by (auto simp: add.commute add.left_commute)
    then show ?thesis by auto
  next
    case False
    then have "p = []" "seg (q # ps) []" using k by auto
    moreover have "drop (length s) s = []" by simp
    ultimately show ?thesis by (auto intro!: exI[of _ "length s"])
  qed
qed

lemma find_sub_Some: "find_sub n s = Some k \<Longrightarrow> prefix n (drop k s) \<and> k \<le> length s \<and> (\<forall>j < k. \<not> prefix n (drop j s))"
proof (induction s arbitrary: k)
  case Nil
  then show ?case by (auto split: if_splits)
next
  case (Cons c s)
  show ?case
  proof (cases "prefix n (c # s)")
    case True
    with Cons.prems show ?thesis by simp
  next
    case False
    with Cons.prems obtain k' where k': "find_sub n s = Some k'" "k = Suc k'" by auto
    have "\<not> prefix n (drop j (c # s))" if "j < k" for j
      using that False Cons.IH[OF k'(1)] k'(2) by (cases j) auto
    then show ?thesis using Cons.IH[OF k'(1)] k'(2) by simp
  qed
qed

lemma find_sub_None: "find_sub n s = None \<Longrightarrow> \<not> prefix n (drop j s)"
proof (induction s arbitrary: j)
  case Nil
  then show ?case by (auto split: if_splits)
next
  case (Cons c s)
  then show ?case by (cases j) (auto split: if_splits)
qed

text \<open>The leftmost occurrence of a part leaves the most room for the rest.\<close>

lemma seg_greedy:
  "seg (p # q # ps) s \<longleftrightarrow>
    (case find_sub p s of None \<Rightarrow> False | Some k \<Rightarrow> seg (q # ps) (drop (k + length p) s))"
proof (cases "find_sub p s")
  case None
  then show ?thesis using find_sub_None[OF None] by auto
next
  case (Some k)
  note f = find_sub_Some[OF Some]
  show ?thesis
  proof
    assume "seg (p # q # ps) s"
    then obtain j where j: "prefix p (drop j s)" "seg (q # ps) (drop (j + length p) s)" by auto
    with f have "k \<le> j" by (meson not_less)
    then have "drop (j + length p) s = drop (j - k) (drop (k + length p) s)" by simp
    with j(2) have "seg (q # ps) (drop (k + length p) s)" using seg_mono by (metis list.distinct(1))
    then show "case find_sub p s of None \<Rightarrow> False | Some k \<Rightarrow> seg (q # ps) (drop (k + length p) s)"
      using Some by simp
  next
    assume "case find_sub p s of None \<Rightarrow> False | Some k \<Rightarrow> seg (q # ps) (drop (k + length p) s)"
    then show "seg (p # q # ps) s" using Some f by auto
  qed
qed

lemma find_sub_Nil [simp]: "find_sub [] s = Some 0"
  by (cases s) auto

lemma find_from_drop: "position \<le> length target \<Longrightarrow>
    find_from p target position = map_option (\<lambda>k. k + position) (find_sub p (drop position target))"
  by (simp add: find_from_def)

lemma rfind_suffix: "suffix p t \<Longrightarrow> rfind_sub p t = Some (length t - length p)"
proof -
  assume "suffix p t"
  then have "prefix (rev p) (rev t)" by (simp add: suffix_to_prefix)
  then have "find_sub (rev p) (rev t) = Some 0" by (cases "rev t") auto
  then show ?thesis by (simp add: rfind_sub_def)
qed

lemma suffix_drop_iff:
  "position \<le> length t \<Longrightarrow> suffix p (drop position t) \<longleftrightarrow> suffix p t \<and> position \<le> length t - length p \<and> length p \<le> length t"
proof -
  assume l: "position \<le> length t"
  show ?thesis
  proof
    assume s: "suffix p (drop position t)"
    then have "length p \<le> length t - position" using suffix_length_le by fastforce
    moreover have "suffix p t" using s suffix_drop suffix_order.trans by blast
    ultimately show "suffix p t \<and> position \<le> length t - length p \<and> length p \<le> length t" using l by auto
  next
    assume s: "suffix p t \<and> position \<le> length t - length p \<and> length p \<le> length t"
    then obtain u where u: "t = u @ p" by (auto simp: suffix_def)
    then have "position \<le> length u" using s by simp
    then have "drop position t = drop position u @ p" using u by simp
    then show "suffix p (drop position t)" by (simp add: suffixI)
  qed
qed

text \<open>The loop of the source computes \<open>seg\<close> on the rest of the target.\<close>

lemma match_parts_anchored:
  assumes "ps \<noteq> []" "last ps \<noteq> []" "position \<le> length target"
  shows "match_parts True False target position ps \<longleftrightarrow> seg ps (drop position target)"
  using assms
proof (induction ps arbitrary: position rule: induct_list012)
  case 1
  then show ?case by simp
next
  case (2 p)
  then show ?case using suffix_drop_iff[of position target p] rfind_suffix[of p target]
    by (auto dest: suffix_length_le)
next
  case (3 p q ps)
  show ?case
  proof (cases "p = []")
    case True
    with 3 show ?thesis using seg_greedy[of p q ps "drop position target"] by simp
  next
    case False
    show ?thesis
    proof (cases "find_sub p (drop position target)")
      case None
      then show ?thesis using False 3 seg_greedy[of p q ps "drop position target"]
        by (simp add: find_from_drop del: seg.simps)
    next
      case (Some k)
      have "prefix p (drop (k + position) target)" "k \<le> length (drop position target)"
        using find_sub_Some[OF Some] by auto
      then have "k + position + length p \<le> length target"
        using prefix_length_le[of p "drop (k + position) target"] False
        by (cases p) auto
      then show ?thesis using False 3 Some seg_greedy[of p q ps "drop position target"]
        by (simp add: find_from_drop add.commute add.left_commute del: seg.simps)
    qed
  qed
qed

lemma seg_snoc_Nil_single: "seg [p, []] s \<longleftrightarrow> find_sub p s \<noteq> None"
  unfolding seg_greedy by (simp split: option.splits)

lemma match_parts_open:
  assumes "\<not> anchored \<or> star" "position \<le> length target"
  shows "match_parts anchored star target position ps \<longleftrightarrow> seg (ps @ [[]]) (drop position target)"
  using assms
proof (induction ps arbitrary: position)
  case Nil
  then show ?case by simp
next
  case (Cons p ps)
  obtain q qs where q: "ps @ [[]] = q # qs" by (cases ps) auto
  show ?case
  proof (cases "p = []")
    case True
    with Cons show ?thesis using seg_greedy[of p q qs "drop position target"] q by simp
  next
    case False
    show ?thesis
    proof (cases "find_sub p (drop position target)")
      case None
      then show ?thesis using False Cons.prems seg_greedy[of p q qs "drop position target"] q
        by (auto simp: find_from_drop simp del: seg.simps)
    next
      case (Some k)
      have "prefix p (drop (k + position) target)" "k \<le> length (drop position target)"
        using find_sub_Some[OF Some] by auto
      then have "k + position + length p \<le> length target"
        using prefix_length_le[of p "drop (k + position) target"] False
        by (cases p) auto
      then show ?thesis using False Cons Some seg_greedy[of p q qs "drop position target"] q
        by (auto simp: find_from_drop add.commute add.left_commute simp del: seg.simps)
    qed
  qed
qed

lemma star_free_parts: "p \<in> set (split_on CHR ''*'' s) \<Longrightarrow> CHR ''*'' \<notin> set p"
proof (induction s arbitrary: p)
  case Nil
  then show ?case by simp
next
  case (Cons c s)
  obtain q qs where q: "split_on CHR ''*'' s = q # qs" using split_on_nonempty list.exhaust by metis
  then show ?case using Cons.prems Cons.IH by (auto split: if_splits)
qed

lemma split_on_snoc: "split_on d (s @ [d]) = split_on d s @ [[]]"
  using split_on_append[of d s "[]"] by simp

lemma last_split_on: "last (split_on d s) = [] \<longleftrightarrow> s = [] \<or> last s = d"
proof (cases s rule: rev_cases)
  case Nil
  then show ?thesis by simp
next
  case (snoc t c)
  show ?thesis
  proof (cases "c = d")
    case True
    then show ?thesis using snoc by (simp add: split_on_snoc)
  next
    case False
    have "last (split_on d (t @ [c])) \<noteq> []" using False
    proof (induction t)
      case Nil
      then show ?case by simp
    next
      case (Cons a t)
      then show ?case by (cases "split_on d (t @ [c])") (auto split: if_splits)
    qed
    then show ?thesis using snoc False by simp
  qed
qed

lemma hd_split_on: "hd (split_on d s) = takeWhile (\<lambda>c. c \<noteq> d) s"
proof (induction s)
  case Nil
  then show ?case by simp
next
  case (Cons c s)
  obtain q qs where "split_on d s = q # qs" using split_on_nonempty list.exhaust by metis
  then show ?case using Cons by auto
qed

lemma glob_first:
  assumes "ps \<noteq> []" "\<forall>p \<in> set ps. CHR ''*'' \<notin> set p"
  shows "glob (join ''*'' ps) t \<longleftrightarrow>
    prefix (hd ps) t \<and>
    (if tl ps = [] then length t = length (hd ps) else seg (tl ps) (drop (length (hd ps)) t))"
proof (cases ps)
  case Nil
  with assms show ?thesis by simp
next
  case (Cons p qs)
  show ?thesis
  proof (cases qs)
    case Nil
    have "glob p t \<longleftrightarrow> prefix p t \<and> drop (length p) t = []"
      using glob_plain[of p "[]" t] assms Cons by simp
    then show ?thesis using Cons Nil by (auto dest: prefix_length_le)
  next
    case (Cons q rs)
    have e: "join ''*'' (p # q # rs) = p @ CHR ''*'' # join ''*'' (q # rs)" by simp
    have np: "CHR ''*'' \<notin> set p" using assms \<open>ps = p # qs\<close> by simp
    have IH: "glob (CHR ''*'' # join ''*'' (q # rs)) u \<longleftrightarrow> seg (q # rs) u" for u
      using glob_join_star[of "q # rs" u] assms \<open>ps = p # qs\<close> Cons by simp
    show ?thesis unfolding \<open>ps = p # qs\<close> Cons e glob_plain[OF np] IH by simp
  qed
qed

lemma pattern_matches_spec: "pattern_matches pattern target \<longleftrightarrow> pattern_spec pattern target"
proof -
  define anchored where "anchored = ends_with CHR ''$'' pattern"
  define body where "body = (if anchored then butlast pattern else pattern)"
  define ps where "ps = split_on CHR ''*'' body"
  define star where "star = ends_with CHR ''*'' body"
  have ne: "ps \<noteq> []" and free: "\<forall>p \<in> set ps. CHR ''*'' \<notin> set p"
    using star_free_parts by (auto simp: ps_def)
  have body: "join ''*'' ps = body" by (simp add: ps_def join_split_on)
  have last: "last ps = [] \<longleftrightarrow> body = [] \<or> star"
    by (auto simp: ps_def last_split_on star_def ends_with_def)
  have meaning: "pattern_spec pattern target \<longleftrightarrow> (if anchored then glob body target else glob (body @ ''*'') target)"
    by (simp add: pattern_spec_def anchored_def[symmetric] body_def)
  have code: "pattern_matches pattern target \<longleftrightarrow>
      prefix (hd ps) target \<and> match_parts anchored star target (length (hd ps)) (tl ps)"
  proof (cases "prefix ''*'' body")
    case True
    then obtain r where r: "body = CHR ''*'' # r" by (auto simp: prefix_def)
    then have "ps = [] # split_on CHR ''*'' r" by (simp add: ps_def)
    moreover have "\<not> \<not> prefix ''*'' body" using True by simp
    ultimately show ?thesis unfolding pattern_matches_def Let_def anchored_def[symmetric] body_def[symmetric]
        ps_def[symmetric] star_def[symmetric] by simp
  next
    case False
    then show ?thesis unfolding pattern_matches_def Let_def anchored_def[symmetric] body_def[symmetric]
        ps_def[symmetric] star_def[symmetric] by simp
  qed
  show ?thesis
  proof (cases "prefix (hd ps) target")
    case False
    have "\<not> glob (join ''*'' (ps @ extra)) target" if "extra = [] \<or> extra = [[]]" for extra
      using glob_first[of "ps @ extra" target] ne free False that by (auto simp: hd_append)
    from this[of "[]"] this[of "[[]]"] have "\<not> glob body target" "\<not> glob (body @ ''*'') target"
      using body join_append[OF ne, of "[[]]" "''*''"] by simp_all
    then show ?thesis using code False meaning by simp
  next
    case True
    then have len: "length (hd ps) \<le> length target" by (rule prefix_length_le)
    show ?thesis
    proof (cases anchored)
      case anch: True
      show ?thesis
      proof (cases "tl ps = []")
        case tl: True
        have nostar: "\<not> star"
        proof
          assume "star"
          then have "last ps = []" using last by simp
          then have "hd ps = []" using tl ne by (cases ps) auto
          then have "body = []" using body tl ne by (cases ps) auto
          then show False using \<open>star\<close> by (simp add: star_def ends_with_def)
        qed
        then show ?thesis using code True anch tl glob_first[OF ne free, of target] body meaning by auto
      next
        case tl: False
        have spec: "pattern_spec pattern target \<longleftrightarrow> seg (tl ps) (drop (length (hd ps)) target)"
          using glob_first[OF ne free, of target] body True tl anch meaning by simp
        have last_tl: "last (tl ps) = last ps" using tl ne by (cases ps) auto
        show ?thesis
        proof (cases star)
          case False
          have "body \<noteq> []" using tl by (auto simp: ps_def)
          then have "last (tl ps) \<noteq> []" using last False last_tl by simp
          then show ?thesis using code True anch False spec match_parts_anchored[OF tl _ len] by simp
        next
          case st: True
          then have "last (tl ps) = []" using last last_tl by simp
          then obtain init where init: "tl ps = init @ [[]]" using tl by (metis append_butlast_last_id)
          have "match_parts anchored star target (length (hd ps)) (tl ps) \<longleftrightarrow>
              seg (tl ps @ [[]]) (drop (length (hd ps)) target)"
            using match_parts_open[of anchored star] st len by blast
          moreover have skip: "match_parts anchored star target k (xs @ [[]]) \<longleftrightarrow> match_parts anchored star target k xs" for k xs
            using st by (induction xs arbitrary: k) (auto split: option.splits)
          moreover have "match_parts anchored star target (length (hd ps)) init \<longleftrightarrow>
              seg (init @ [[]]) (drop (length (hd ps)) target)"
            using match_parts_open[of anchored star] st len by blast
          ultimately show ?thesis using code True spec init by simp
        qed
      qed
    next
      case False
      have "pattern_spec pattern target \<longleftrightarrow> glob (join ''*'' (ps @ [[]])) target"
        using False body join_append[OF ne, of "[[]]" "''*''"] meaning by simp
      also have "\<dots> \<longleftrightarrow> seg (tl ps @ [[]]) (drop (length (hd ps)) target)"
        using glob_first[of "ps @ [[]]" target] free True ne by (simp add: hd_append)
      finally show ?thesis using code True match_parts_open[of anchored star "length (hd ps)" target "tl ps"] False len
        by simp
    qed
  qed
qed

section \<open>Precedence\<close>

lemma precedence:
  assumes "matches \<noteq> []"
  shows "list_ex rl_allow (filter (\<lambda>r. specificity r = Max (set (map specificity matches))) matches) \<longleftrightarrow>
    \<not> (\<exists>r \<in> set matches. \<not> rl_allow r \<and> (\<forall>r' \<in> set matches. rl_allow r' \<longrightarrow> specificity r' < specificity r))"
proof -
  let ?S = "specificity ` set matches"
  have M: "Max ?S \<in> ?S" "\<And>r. r \<in> set matches \<Longrightarrow> specificity r \<le> Max ?S"
    using assms by (auto intro!: Max_in)
  show ?thesis
  proof
    assume "list_ex rl_allow (filter (\<lambda>r. specificity r = Max (set (map specificity matches))) matches)"
    then obtain r where "r \<in> set matches" "rl_allow r" "specificity r = Max ?S"
      by (auto simp: list_ex_iff)
    then show "\<not> (\<exists>r \<in> set matches. \<not> rl_allow r \<and> (\<forall>r' \<in> set matches. rl_allow r' \<longrightarrow> specificity r' < specificity r))"
      using M(2) by (metis not_less)
  next
    assume n: "\<not> (\<exists>r \<in> set matches. \<not> rl_allow r \<and> (\<forall>r' \<in> set matches. rl_allow r' \<longrightarrow> specificity r' < specificity r))"
    obtain m where m: "m \<in> set matches" "specificity m = Max ?S" using M(1) by auto
    have "\<exists>r \<in> set matches. rl_allow r \<and> specificity r = Max ?S"
    proof (cases "rl_allow m")
      case False
      then obtain r where "r \<in> set matches" "rl_allow r" "\<not> specificity r < specificity m" using n m(1) by blast
      then show ?thesis using M(2) m(2) by (metis le_antisym not_less)
    qed (use m in blast)
    then show "list_ex rl_allow (filter (\<lambda>r. specificity r = Max (set (map specificity matches))) matches)"
      by (auto simp: list_ex_iff)
  qed
qed

section \<open>Parsed groups\<close>

definition agent_ok :: "pystr \<Rightarrow> bool" where
  "agent_ok a \<longleftrightarrow> a = ''*'' \<or> (is_product_token a \<and> list_all (\<lambda>c. \<not> is_upper c) a)"

definition pattern_ok :: "pystr \<Rightarrow> bool" where
  "pattern_ok p \<longleftrightarrow> list_all (\<lambda>c. 0x21 \<le> code c \<and> code c < 128 \<and> c \<noteq> CHR ''#'') p \<and> p \<noteq> []"

definition group_ok :: "group \<Rightarrow> bool" where
  "group_ok g \<longleftrightarrow>
    gr_agents g \<noteq> [] \<and> (\<forall>a \<in> set (gr_agents g). agent_ok a) \<and>
    (\<forall>r \<in> set (gr_rules g). pattern_ok (rl_pattern r)) \<and>
    (\<forall>d. gr_crawl_delay g = Some d \<longrightarrow> 0 \<le> d)"

definition state_ok :: "parse_state \<Rightarrow> bool" where
  "state_ok st \<longleftrightarrow>
    (\<forall>g \<in> set (ps_groups st). group_ok g) \<and> (\<forall>a \<in> set (ps_agents st). agent_ok a) \<and>
    (\<forall>r \<in> set (ps_rules st). pattern_ok (rl_pattern r)) \<and> (\<forall>d \<in> set (ps_delays st). 0 \<le> d)"

lemma finish_group_ok: "state_ok st \<Longrightarrow> state_ok (finish_group st)"
  by (auto simp: state_ok_def finish_group_def group_ok_def)

lemma token_chars: "is_alpha c \<or> c = CHR ''_'' \<or> c = CHR ''-'' \<Longrightarrow> code c < 128"
  by (auto simp: is_alpha_def is_upper_def is_lower_def)

lemma ascii_lower_token:
  "is_alpha c \<or> c = CHR ''_'' \<or> c = CHR ''-'' \<Longrightarrow>
    \<not> is_upper (ascii_lower c) \<and> (is_alpha (ascii_lower c) \<or> ascii_lower c = CHR ''_'' \<or> ascii_lower c = CHR ''-'')"
  by (auto simp: ascii_lower_def is_alpha_def is_upper_def is_lower_def)

lemma lower_token:
  "list_all (\<lambda>c. is_alpha c \<or> c = CHR ''_'' \<or> c = CHR ''-'') v \<Longrightarrow> lower v = map ascii_lower v"
  by (induction v) (use token_chars in auto)

lemma agent_ok_lower:
  assumes "v = ''*'' \<or> is_product_token v"
  shows "agent_ok (lower v)"
proof (cases "v = ''*''")
  case True
  then show ?thesis by (simp add: agent_ok_def ascii_lower_def is_upper_def)
next
  case False
  with assms have p: "is_product_token v" by simp
  then have "lower v = map ascii_lower v" by (simp add: is_product_token_def lower_token)
  moreover have "list_all (\<lambda>c. \<not> is_upper (ascii_lower c) \<and>
      (is_alpha (ascii_lower c) \<or> ascii_lower c = CHR ''_'' \<or> ascii_lower c = CHR ''-'')) v"
    using p ascii_lower_token by (auto simp: is_product_token_def list_all_iff)
  ultimately show ?thesis using p
    by (auto simp: agent_ok_def is_product_token_def list_all_iff)
qed

abbreviation printable :: "char \<Rightarrow> bool" where
  "printable c \<equiv> 0x21 \<le> code c \<and> code c < 128 \<and> c \<noteq> CHR ''#''"

lemma printableI: "code c = n \<Longrightarrow> 0x21 \<le> n \<Longrightarrow> n < 128 \<Longrightarrow> n \<noteq> 35 \<Longrightarrow> printable c"
  by auto

lemma percent_printable: "x \<in> set (percent c) \<Longrightarrow> printable x"
proof -
  assume "x \<in> set (percent c)"
  then consider "x = CHR ''%''" | "x = upper_hex_digit (code c div 16)" | "x = upper_hex_digit (code c mod 16)"
    by (auto simp: percent_def)
  moreover have u: "printable (upper_hex_digit d)" if "d < 16" for d
    by (rule printableI[of _ "if d < 10 then 48 + d else 55 + d"]) (use that in \<open>auto simp: upper_hex_digit_def\<close>)
  have "code c < 256" by (metis nat_of_char_less_256)
  then have "code c div 16 < 16" by (simp add: less_mult_imp_div_less)
  ultimately show ?thesis using u[of "code c div 16"] u[of "code c mod 16"] by cases auto
qed

lemma upper_char_printable: "is_hex c \<Longrightarrow> printable (upper_char c)"
  by (rule printableI[of _ "if is_lower c then code c - 32 else code c"])
    (auto simp: upper_char_def ascii_upper_def is_hex_def is_digit_def is_lower_def)

lemma unreserved_printable: "unreserved c \<Longrightarrow> printable c"
  by (auto simp: unreserved_def is_alpha_def is_upper_def is_lower_def is_digit_def)

lemma canonicalize_component_printable:
  "list_all (\<lambda>c. 0x21 \<le> code c \<and> c \<noteq> CHR ''#'') s \<Longrightarrow> x \<in> set (canonicalize_component star s) \<Longrightarrow>
    0x21 \<le> code x \<and> code x < 128 \<and> x \<noteq> CHR ''#''"
  using percent_printable upper_char_printable unreserved_printable
  by (induction star s rule: canonicalize_component.induct)
    (auto simp: Let_def split: if_splits)

lemma canonicalize_component_Nil: "canonicalize_component star s = [] \<longleftrightarrow> s = []"
  by (induction star s rule: canonicalize_component.induct) (auto simp: Let_def percent_def)

lemma canonicalize_rule_pattern_ok:
  assumes "canonicalize_rule_pattern v = Inr p"
  shows "pattern_ok p"
proof -
  define body where "body = (if ends_with CHR ''$'' v then butlast v else v)"
  have p: "p = canonicalize_component True body @ (if ends_with CHR ''$'' v then ''$'' else [])"
    and b: "body \<noteq> []" "list_all (\<lambda>c. 0x21 \<le> code c \<and> c \<noteq> CHR ''#'') body"
    using assms unfolding canonicalize_rule_pattern_def Let_def body_def[symmetric]
    by (simp_all add: res_simps)
  have "printable x" if "x \<in> set p" for x
    using that canonicalize_component_printable[OF b(2), of x True] by (auto simp: p split: if_splits)
  moreover have "p \<noteq> []" using b(1) by (simp add: p canonicalize_component_Nil)
  ultimately show ?thesis by (simp add: pattern_ok_def list_all_iff)
qed

lemma state_ok_updates [simp]:
  "state_ok (st\<lparr>ps_started := b\<rparr>) = state_ok st"
  "state_ok (st\<lparr>ps_agents := ps_agents st @ [a]\<rparr>) \<longleftrightarrow> state_ok st \<and> agent_ok a"
  "state_ok (st\<lparr>ps_rules := ps_rules st @ [r]\<rparr>) \<longleftrightarrow> state_ok st \<and> pattern_ok (rl_pattern r)"
  "state_ok (st\<lparr>ps_delays := ps_delays st @ [d]\<rparr>) \<longleftrightarrow> state_ok st \<and> 0 \<le> d"
  "state_ok (st\<lparr>ps_started := b, ps_rules := rs @ [r]\<rparr>) \<longleftrightarrow> state_ok (st\<lparr>ps_rules := rs @ [r]\<rparr>)"
  by (auto simp: state_ok_def)

lemma state_ok_cases:
  "(b \<Longrightarrow> state_ok x) \<Longrightarrow> (\<not> b \<Longrightarrow> state_ok y) \<Longrightarrow> state_ok (if b then x else y)"
  "state_ok x \<Longrightarrow> (\<And>p. m = Inr p \<Longrightarrow> state_ok (f p)) \<Longrightarrow> state_ok (case m of Inl _ \<Rightarrow> x | Inr p \<Rightarrow> f p)"
  "state_ok x \<Longrightarrow> (\<And>d. r = Some d \<Longrightarrow> state_ok (g d)) \<Longrightarrow> state_ok (case r of None \<Rightarrow> x | Some d \<Rightarrow> g d)"
  by (simp_all split: sum.split option.split)

lemma parse_line_ok:
  assumes ok: "state_ok st"
  shows "state_ok (parse_line l st)"
proof -
  have delay: "parse_crawl_delay v = Some d \<Longrightarrow> 0 \<le> d" for v d
    by (auto simp: parse_crawl_delay_def split: if_splits option.splits parsed_float.splits)
  have fin: "state_ok (finish_group st)" using ok by (rule finish_group_ok)
  obtain raw_key b raw_value where p: "partition1 CHR '':'' (strip (fst (partition1 CHR ''#'' l))) = (raw_key, b, raw_value)"
    by (metis prod_cases3)
  show ?thesis
    unfolding parse_line_def Let_def p prod.case
    using ok fin agent_ok_lower[of "strip raw_value"]
    by (intro state_ok_cases) (simp_all add: canonicalize_rule_pattern_ok delay)
qed

lemma fold_state_ok: "state_ok st \<Longrightarrow> state_ok (fold parse_line ls st)"
  by (induction ls arbitrary: st) (auto simp: parse_line_ok)

lemma parse_robots_ok: "parse_robots content = Inr gs \<Longrightarrow> \<forall>g \<in> set gs. group_ok g"
proof -
  assume a: "parse_robots content = Inr gs"
  let ?st = "\<lparr>ps_groups = [], ps_agents = [], ps_rules = [], ps_delays = [], ps_started = False\<rparr>"
  have "state_ok ?st" by (simp add: state_ok_def)
  then have "state_ok (finish_group (fold parse_line (splitlines content) ?st))"
    by (intro finish_group_ok fold_state_ok)
  then show ?thesis using a by (auto simp: parse_robots_def res_simps state_ok_def)
qed

section \<open>Properties\<close>

text \<open>
  C14: the matcher of the source (prefix test, leftmost search for every inner part, suffix test for
  an anchored end) decides the declarative meaning of a rule pattern: \<open>*\<close> is any sequence, a final
  \<open>$\<close> anchors the end, and otherwise a match of a prefix of the target suffices.
\<close>

theorem pattern_matches_glob: "pattern_matches pattern target = pattern_spec pattern target"
  by (rule pattern_matches_spec)

text \<open>
  C15: a target is refused exactly when some applicable disallow rule matches it and is more specific
  than every matching allow rule: the longest match decides, and allow wins a tie.
\<close>

theorem can_fetch_longest_match:
  assumes "normalize_product_token product_token = Inr token" and "urlsplit u = Some parsed"
    and "lower (sp_scheme parsed) \<in> {''http'', ''https''}" and "sp_hostname parsed \<noteq> None"
    and "sp_path parsed \<noteq> ''/robots.txt'' \<or> sp_query parsed \<noteq> []"
    and "matches = matching_rules gs token
      (canonicalize_uri_path_query (if sp_path parsed = [] then ''/'' else sp_path parsed) (sp_query parsed))"
  shows "can_fetch gs u product_token =
    Inr (\<not> (\<exists>r \<in> set matches. \<not> rl_allow r \<and>
      (\<forall>r' \<in> set matches. rl_allow r' \<longrightarrow> specificity r' < specificity r)))"
proof (cases "matches = []")
  case True
  then show ?thesis using assms by (auto simp: can_fetch_def Let_def)
next
  case False
  then show ?thesis using assms precedence[OF False] by (auto simp: can_fetch_def Let_def)
qed

definition demo_rules :: rules where
  "demo_rules =
    [\<lparr>gr_agents = [''*''],
      gr_rules = [\<lparr>rl_allow = False, rl_pattern = ''/a/*''\<rparr>, \<lparr>rl_allow = True, rl_pattern = ''/a/pub$''\<rparr>],
      gr_crawl_delay = Some 2\<rparr>]"

theorem can_fetch_longest_match_witness:
  "can_fetch demo_rules ''https://h/a/b'' ''Bot'' = Inr False \<and> can_fetch demo_rules ''https://h/a/pub'' ''Bot'' = Inr True"
proof -
  let ?p = "\<lambda>path. \<lparr>sp_scheme = ''https'', sp_netloc = ''h'', sp_path = path, sp_query = [], sp_fragment = []\<rparr>"
  have t: "normalize_product_token ''Bot'' = Inr ''bot''" by code_simp
  have u: "urlsplit ''https://h/a/b'' = Some (?p ''/a/b'')" "urlsplit ''https://h/a/pub'' = Some (?p ''/a/pub'')"
    by code_simp+
  have h: "sp_hostname (?p path) \<noteq> None" "lower (sp_scheme (?p path)) \<in> {''http'', ''https''}" for path
    by (simp_all add: sp_hostname_def sp_hostinfo_def rpartition1_def ascii_lower_def is_upper_def)
  have c: "canonicalize_uri_path_query ''/a/b'' [] = ''/a/b''" "canonicalize_uri_path_query ''/a/pub'' [] = ''/a/pub''"
    by code_simp+
  have m: "matching_rules demo_rules ''bot'' ''/a/b'' = [\<lparr>rl_allow = False, rl_pattern = ''/a/*''\<rparr>]"
    "matching_rules demo_rules ''bot'' ''/a/pub'' =
      [\<lparr>rl_allow = False, rl_pattern = ''/a/*''\<rparr>, \<lparr>rl_allow = True, rl_pattern = ''/a/pub$''\<rparr>]"
    unfolding demo_rules_def by code_simp+
  have s: "specificity \<lparr>rl_allow = False, rl_pattern = ''/a/*''\<rparr> = 3"
    "specificity \<lparr>rl_allow = True, rl_pattern = ''/a/pub$''\<rparr> = 6"
    by (simp_all add: specificity_def ends_with_def)
  have b: "can_fetch demo_rules ''https://h/a/b'' ''Bot'' = Inr False"
    by (subst can_fetch_longest_match[OF t u(1) h(2) h(1) _ refl]) (simp_all add: c m)
  have p: "can_fetch demo_rules ''https://h/a/pub'' ''Bot'' = Inr True"
    by (subst can_fetch_longest_match[OF t u(2) h(2) h(1) _ refl]) (simp_all add: c m s)
  from b p show ?thesis ..
qed



text \<open>
  RFC 9309 (section 2.2.3) has a pattern write a literal star as \<open>%2A\<close>; the canonical pattern
  keeps the escape while the target keeps its star, so such a rule never applies: the file below
  disallows \<open>/a-*.html\<close>, and that very target is allowed.
\<close>

theorem escaped_star_never_matches:
  "\<exists>gs. parse_robots (''User-agent: *'' @ [CHR 0x0A] @ ''Disallow: /a-%2A.html'') = Inr gs \<and>
    can_fetch gs ''https://h/a-*.html'' ''Bot'' = Inr True"
  by (intro exI[of _ "[\<lparr>gr_agents = [''*''], gr_rules = [\<lparr>rl_allow = False, rl_pattern = ''/a-%2A.html''\<rparr>],
      gr_crawl_delay = None\<rparr>]"] conjI; code_simp)

end
