(* ===== verification/CrawlPolicy.thy ===== *)
theory CrawlPolicy imports ResourcePolicy RobotsRules HttpUriSafe begin

text \<open>
  The decision whether a crawl may fetch a target: \<open>domain/crawl_access.py\<close> (the fetched robots
  file and the crawl decision), \<open>application/robots_access.py\<close> (technical policy first, then the
  robots rules), \<open>domain/rights_access.py\<close> and \<open>application/crawl_eligibility.py\<close> (the rights
  decision, composed so that a denial always wins).
\<close>

section \<open>Rights\<close>

datatype resource_use = RETRIEVE | STORE | ANALYZE | REDISTRIBUTE

datatype operator_override = NO_OVERRIDE | RESTRICT | ALLOW

record rights =
  ri_target_uri :: pystr
  ri_retrieval :: bool
  ri_storage :: bool
  ri_analysis :: bool
  ri_redistribution :: bool
  ri_source_name :: pystr
  ri_policy_reference :: "pystr option"
  ri_requires_authentication :: bool
  ri_paywalled :: bool
  ri_override :: operator_override
  ri_rationale :: "pystr option"

text \<open>A text that, when given, must not be blank, and is stored stripped.\<close>

definition optional_text :: "pystr option \<Rightarrow> pystr \<Rightarrow> exc + pystr option" where
  "optional_text v message =
    (case v of
       None \<Rightarrow> Inr None
     | Some t \<Rightarrow> bindE (check (\<not> blank t) (ValueError message)) (\<lambda>_. Inr (Some (strip t))))"

definition mk_rights :: "rights \<Rightarrow> exc + rights" where
  "mk_rights r =
    bindE (normalize_http_uri (ri_target_uri r) ''rights target URI'') (\<lambda>target.
    bindE (check (\<not> blank (ri_source_name r)) (ValueError ''rights source_name must be non-blank'')) (\<lambda>_.
    bindE (optional_text (ri_policy_reference r) ''rights policy_reference must be non-blank when provided'') (\<lambda>reference.
    bindE (optional_text (ri_rationale r) ''rights rationale must be non-blank when provided'') (\<lambda>rationale.
    bindE (check (\<not> (ri_override r \<noteq> NO_OVERRIDE \<and> rationale = None))
             (ValueError ''operator rights overrides require an auditable rationale'')) (\<lambda>_.
    Inr (r\<lparr>ri_target_uri := target, ri_source_name := strip (ri_source_name r),
           ri_policy_reference := reference, ri_rationale := rationale\<rparr>))))))"

fun rights_allows :: "rights \<Rightarrow> resource_use \<Rightarrow> bool" where
  "rights_allows r RETRIEVE = ri_retrieval r"
| "rights_allows r STORE = ri_storage r"
| "rights_allows r ANALYZE = ri_analysis r"
| "rights_allows r REDISTRIBUTE = ri_redistribution r"

section \<open>The robots file and the crawl decision\<close>

datatype robots_outcome = SUCCESS | UNAVAILABLE | UNREACHABLE | REDIRECT_LIMIT_EXCEEDED

datatype crawl_reason =
    TECHNICAL_POLICY_DENY
  | ROBOTS_ALLOW
  | ROBOTS_DISALLOW
  | ROBOTS_UNAVAILABLE
  | ROBOTS_UNREACHABLE
  | ROBOTS_REDIRECT_LIMIT

record robots_result =
  rr_robots_uri :: pystr
  rr_outcome :: robots_outcome
  rr_content :: "pystr option"
  rr_status_code :: "int option"

definition status_within :: "int option \<Rightarrow> int \<Rightarrow> int \<Rightarrow> bool" where
  "status_within s lo hi = (case s of None \<Rightarrow> True | Some n \<Rightarrow> lo \<le> n \<and> n \<le> hi)"

definition mk_robots_result :: "robots_result \<Rightarrow> exc + robots_result" where
  "mk_robots_result r =
    bindE (normalize_http_uri (rr_robots_uri r) ''robots URI'') (\<lambda>u.
    bindE (check (status_within (rr_status_code r) 100 599)
             (ValueError ''robots status_code must be an HTTP status code'')) (\<lambda>_.
    bindE (if rr_outcome r = SUCCESS
           then bindE (check (rr_content r \<noteq> None)
                         (ValueError ''successful robots result must include content'')) (\<lambda>_.
                check (status_within (rr_status_code r) 200 299)
                  (ValueError ''successful robots result must use a 2xx status code''))
           else bindE (check (rr_content r = None)
                         (ValueError ''non-successful robots result must not include content'')) (\<lambda>_.
                bindE (check (\<not> (rr_outcome r = UNAVAILABLE \<and> \<not> status_within (rr_status_code r) 400 499))
                         (ValueError ''unavailable robots result must use a 4xx status code'')) (\<lambda>_.
                bindE (check (\<not> (rr_outcome r = UNREACHABLE \<and> \<not> status_within (rr_status_code r) 500 599))
                         (ValueError ''unreachable robots result must use a 5xx status code'')) (\<lambda>_.
                check (\<not> (rr_outcome r = REDIRECT_LIMIT_EXCEEDED \<and> \<not> status_within (rr_status_code r) 300 399))
                  (ValueError ''redirect-limit robots result must use a 3xx status code''))))) (\<lambda>_.
    Inr (r\<lparr>rr_robots_uri := u\<rparr>))))"

record crawl_decision =
  cd_target_uri :: pystr
  cd_robots_uri :: pystr
  cd_product_token :: pystr
  cd_allowed :: bool
  cd_reason :: crawl_reason
  cd_outcome :: robots_outcome
  cd_interval :: rat

definition mk_crawl_decision :: "crawl_decision \<Rightarrow> exc + crawl_decision" where
  "mk_crawl_decision d =
    bindE (normalize_http_uri (cd_target_uri d) ''crawl target URI'') (\<lambda>target.
    bindE (normalize_http_uri (cd_robots_uri d) ''robots URI'') (\<lambda>robots.
    bindE (check (is_product_token (strip (cd_product_token d)))
             (ValueError ''crawl product_token must contain only ASCII letters, underscores, and hyphens'')) (\<lambda>_.
    bindE (check (0 \<le> cd_interval d)
             (ValueError ''effective crawl interval must be finite and non-negative'')) (\<lambda>_.
    Inr (d\<lparr>cd_target_uri := target, cd_robots_uri := robots,
           cd_product_token := strip (cd_product_token d)\<rparr>)))))"

definition robots_uri_for :: "pystr \<Rightarrow> exc + pystr" where
  "robots_uri_for target_uri =
    bindE (normalize_http_uri target_uri ''crawl target URI'') (\<lambda>normalized.
    case urlsplit normalized of
      None \<Rightarrow> Inl (ValueError ''Invalid URL'')
    | Some parsed \<Rightarrow> Inr (urlunsplit (sp_scheme parsed) (sp_netloc parsed) ''/robots.txt'' [] []))"

definition decision ::
  "pystr \<Rightarrow> robots_result \<Rightarrow> pystr \<Rightarrow> bool \<Rightarrow> crawl_reason \<Rightarrow> rat \<Rightarrow> exc + crawl_decision" where
  "decision target_uri robots product_token allowed reason interval =
    mk_crawl_decision \<lparr>cd_target_uri = target_uri, cd_robots_uri = rr_robots_uri robots,
      cd_product_token = product_token, cd_allowed = allowed, cd_reason = reason,
      cd_outcome = rr_outcome robots, cd_interval = interval\<rparr>"

definition evaluate_robots_access ::
  "pystr \<Rightarrow> pystr \<Rightarrow> policy \<Rightarrow> robots_result \<Rightarrow> exc + crawl_decision" where
  "evaluate_robots_access target_uri product_token p robots =
    bindE (normalize_http_uri target_uri ''crawl target URI'') (\<lambda>normalized_target.
    bindE (robots_uri_for normalized_target) (\<lambda>expected_robots_uri.
    bindE (check (rr_robots_uri robots = expected_robots_uri)
             (ValueError ''robots result does not belong to the crawl target authority'')) (\<lambda>_.
    let base_interval = min_request_interval_seconds p;
        decide = decision normalized_target robots product_token in
    if \<not> allows_uri p target_uri then decide False TECHNICAL_POLICY_DENY base_interval
    else (case rr_outcome robots of
      UNAVAILABLE \<Rightarrow> decide True ROBOTS_UNAVAILABLE base_interval
    | UNREACHABLE \<Rightarrow> decide False ROBOTS_UNREACHABLE base_interval
    | REDIRECT_LIMIT_EXCEEDED \<Rightarrow> decide False ROBOTS_REDIRECT_LIMIT base_interval
    | SUCCESS \<Rightarrow>
        bindE (parse_robots (case rr_content robots of None \<Rightarrow> [] | Some c \<Rightarrow> c)) (\<lambda>rules.
        bindE (crawl_delay rules product_token) (\<lambda>delay.
        let interval = max base_interval (case delay of None \<Rightarrow> 0 | Some d \<Rightarrow> d) in
        bindE (can_fetch rules normalized_target product_token) (\<lambda>allowed.
        decide allowed (if allowed then ROBOTS_ALLOW else ROBOTS_DISALLOW) interval)))))))"

section \<open>Eligibility\<close>

datatype eligibility_reason = ALLOWED | ROBOTS_OR_TECHNICAL_DENY | RIGHTS_RETRIEVAL_DENY

record eligibility =
  el_target_uri :: pystr
  el_allowed :: bool
  el_reason :: eligibility_reason
  el_crawl :: crawl_decision
  el_rights :: rights

definition expected_eligibility :: "crawl_decision \<Rightarrow> rights \<Rightarrow> bool \<times> eligibility_reason" where
  "expected_eligibility crawl rights =
    (if \<not> cd_allowed crawl then (False, ROBOTS_OR_TECHNICAL_DENY)
     else if \<not> ri_retrieval rights then (False, RIGHTS_RETRIEVAL_DENY)
     else (True, ALLOWED))"

definition mk_eligibility :: "eligibility \<Rightarrow> exc + eligibility" where
  "mk_eligibility e =
    bindE (normalize_http_uri (el_target_uri e) ''crawl eligibility target URI'') (\<lambda>target.
    bindE (check (cd_target_uri (el_crawl e) = target \<and> ri_target_uri (el_rights e) = target)
             (ValueError ''crawl and rights decisions must refer to the same target URI'')) (\<lambda>_.
    bindE (check ((el_allowed e, el_reason e) = expected_eligibility (el_crawl e) (el_rights e))
             (ValueError ''crawl eligibility result is inconsistent with its policy decisions'')) (\<lambda>_.
    Inr (e\<lparr>el_target_uri := target\<rparr>))))"

definition combine_crawl_eligibility :: "crawl_decision \<Rightarrow> rights \<Rightarrow> exc + eligibility" where
  "combine_crawl_eligibility crawl rights =
    bindE (check (cd_target_uri crawl = ri_target_uri rights)
             (ValueError ''crawl and rights decisions must refer to the same target URI'')) (\<lambda>_.
    case expected_eligibility crawl rights of (allowed, reason) \<Rightarrow>
    mk_eligibility \<lparr>el_target_uri = cd_target_uri crawl, el_allowed = allowed, el_reason = reason,
      el_crawl = crawl, el_rights = rights\<rparr>)"

section \<open>Facts about decisions\<close>

lemma decision_Inr:
  "decision t r tok a why i = Inr d \<Longrightarrow>
    cd_allowed d = a \<and> cd_reason d = why \<and> cd_interval d = i \<and> cd_outcome d = rr_outcome r \<and> 0 \<le> i"
  by (auto simp: decision_def mk_crawl_decision_def res_simps)

lemma evaluate_robots_access_cases:
  assumes "evaluate_robots_access t tok p r = Inr d"
  obtains (denied) "\<not> allows_uri p t" "\<not> cd_allowed d" "cd_reason d = TECHNICAL_POLICY_DENY"
      "cd_interval d = min_request_interval_seconds p"
  | (no_file) "allows_uri p t" "rr_outcome r \<noteq> SUCCESS" "cd_allowed d \<longleftrightarrow> rr_outcome r = UNAVAILABLE"
      "cd_interval d = min_request_interval_seconds p"
      "cd_reason d \<in> {ROBOTS_UNAVAILABLE, ROBOTS_UNREACHABLE, ROBOTS_REDIRECT_LIMIT}"
  | (rules) u rs delay where "allows_uri p t" "rr_outcome r = SUCCESS"
      "normalize_http_uri t ''crawl target URI'' = Inr u"
      "parse_robots (case rr_content r of None \<Rightarrow> [] | Some c \<Rightarrow> c) = Inr rs"
      "crawl_delay rs tok = Inr delay" "can_fetch rs u tok = Inr (cd_allowed d)"
      "cd_interval d = max (min_request_interval_seconds p) (case delay of None \<Rightarrow> 0 | Some x \<Rightarrow> x)"
      "cd_reason d \<in> {ROBOTS_ALLOW, ROBOTS_DISALLOW}"
proof (cases "allows_uri p t")
  case False
  with assms have "\<not> cd_allowed d \<and> cd_reason d = TECHNICAL_POLICY_DENY \<and> cd_interval d = min_request_interval_seconds p"
    by (auto simp: evaluate_robots_access_def Let_def res_simps dest: decision_Inr)
  with False denied show thesis by blast
next
  case True
  show thesis
  proof (cases "rr_outcome r = SUCCESS")
    case False
    have "(cd_allowed d \<longleftrightarrow> rr_outcome r = UNAVAILABLE) \<and> cd_interval d = min_request_interval_seconds p \<and>
        cd_reason d \<in> {ROBOTS_UNAVAILABLE, ROBOTS_UNREACHABLE, ROBOTS_REDIRECT_LIMIT}"
      using assms True False by (cases "rr_outcome r")
        (auto simp: evaluate_robots_access_def Let_def res_simps dest: decision_Inr)
    with True False no_file show thesis by blast
  next
    case succ: True
    from assms True succ obtain u rs delay a where a: "normalize_http_uri t ''crawl target URI'' = Inr u"
      "parse_robots (case rr_content r of None \<Rightarrow> [] | Some c \<Rightarrow> c) = Inr rs"
      "crawl_delay rs tok = Inr delay" "can_fetch rs u tok = Inr a"
      and d: "decision u r tok a (if a then ROBOTS_ALLOW else ROBOTS_DISALLOW)
        (max (min_request_interval_seconds p) (case delay of None \<Rightarrow> 0 | Some x \<Rightarrow> x)) = Inr d"
      by (auto simp: evaluate_robots_access_def Let_def res_simps)
    show thesis using rules[OF True succ a(1,2,3)] a(4) decision_Inr[OF d] by auto
  qed
qed

lemma expected_eligibility_allowed: "fst (expected_eligibility c r) \<longleftrightarrow> cd_allowed c \<and> ri_retrieval r"
  by (simp add: expected_eligibility_def)

lemma combine_crawl_eligibility_Inr:
  assumes "combine_crawl_eligibility c r = Inr e"
  shows "cd_target_uri c = ri_target_uri r \<and> el_target_uri e = cd_target_uri c \<and> el_crawl e = c \<and>
    el_rights e = r \<and> (el_allowed e, el_reason e) = expected_eligibility c r"
proof -
  obtain allowed reason where x: "expected_eligibility c r = (allowed, reason)" by fastforce
  from assms have same: "cd_target_uri c = ri_target_uri r"
    by (simp add: combine_crawl_eligibility_def res_simps)
  from assms x have "e = \<lparr>el_target_uri = cd_target_uri c, el_allowed = allowed, el_reason = reason,
      el_crawl = c, el_rights = r\<rparr>"
    by (auto simp: combine_crawl_eligibility_def mk_eligibility_def same res_simps)
  with same x show ?thesis by simp
qed

section \<open>Properties\<close>

text \<open>
  robots can only tighten. A crawl decision is positive only for a target the technical policy
  admits, and then only when the file is unavailable (4xx) or its rules let the agent fetch the
  target; an unreachable file and a redirect loop deny; the pacing interval is never below the
  policy's.
\<close>

theorem robots_never_override_policy:
  assumes "evaluate_robots_access t tok p r = Inr d"
  shows "min_request_interval_seconds p \<le> cd_interval d \<and>
    (cd_allowed d \<longrightarrow> allows_uri p t \<and>
      (rr_outcome r = UNAVAILABLE \<or>
       (rr_outcome r = SUCCESS \<and>
        (\<exists>u rs. normalize_http_uri t ''crawl target URI'' = Inr u \<and>
          parse_robots (case rr_content r of None \<Rightarrow> [] | Some c \<Rightarrow> c) = Inr rs \<and>
          can_fetch rs u tok = Inr True))))"
  using assms by (cases rule: evaluate_robots_access_cases) auto

definition demo_robots :: robots_result where
  "demo_robots =
    \<lparr>rr_robots_uri = ''https://a.org/robots.txt'', rr_outcome = UNAVAILABLE, rr_content = None,
     rr_status_code = Some 404\<rparr>"

definition demo_decision :: crawl_decision where
  "demo_decision =
    \<lparr>cd_target_uri = ''https://a.org/x'', cd_robots_uri = ''https://a.org/robots.txt'',
     cd_product_token = ''Bot'', cd_allowed = True, cd_reason = ROBOTS_UNAVAILABLE,
     cd_outcome = UNAVAILABLE, cd_interval = 0\<rparr>"

lemma demo_uris:
  "normalize_http_uri ''https://a.org/x'' ''crawl target URI'' = Inr ''https://a.org/x''"
  "normalize_http_uri ''https://a.org/x'' ''crawl eligibility target URI'' = Inr ''https://a.org/x''"
  "normalize_http_uri ''https://a.org/robots.txt'' ''robots URI'' = Inr ''https://a.org/robots.txt''"
  "robots_uri_for ''https://a.org/x'' = Inr ''https://a.org/robots.txt''"
  by code_simp+

lemma demo_policy_admits: "allows_uri demo_policy ''https://a.org/x''"
  unfolding demo_policy_def by code_simp

lemma demo_evaluate: "evaluate_robots_access ''https://a.org/x'' ''Bot'' demo_policy demo_robots = Inr demo_decision"
proof -
  have "is_product_token (strip ''Bot'')" "strip ''Bot'' = ''Bot''" by code_simp+
  then show ?thesis
    by (simp add: evaluate_robots_access_def demo_uris demo_policy_admits demo_robots_def decision_def
        mk_crawl_decision_def demo_decision_def Let_def)
       (simp add: demo_policy_def)
qed

theorem robots_never_override_policy_witness:
  "cd_allowed demo_decision \<and> allows_uri demo_policy ''https://a.org/x''"
  using robots_never_override_policy[OF demo_evaluate] by (simp add: demo_decision_def)

text \<open>
  recursive fetching needs both permissions. The combined decision is positive exactly when the
  crawl decision and the right to retrieve are, a crawl denial is reported as such whatever the
  rights (operator overrides included) say, and the rights to store, analyse or redistribute play no
  part.
\<close>

theorem eligibility_deny_wins:
  assumes "combine_crawl_eligibility c r = Inr e"
  shows "(el_allowed e \<longleftrightarrow> cd_allowed c \<and> rights_allows r RETRIEVE) \<and>
    (\<not> cd_allowed c \<longrightarrow> el_reason e = ROBOTS_OR_TECHNICAL_DENY) \<and>
    cd_target_uri c = ri_target_uri r \<and> el_target_uri e = cd_target_uri c \<and> el_crawl e = c \<and> el_rights e = r"
  using combine_crawl_eligibility_Inr[OF assms] by (auto simp: expected_eligibility_def split: if_splits)

definition demo_rights :: "bool \<Rightarrow> rights" where
  "demo_rights retrieval =
    \<lparr>ri_target_uri = ''https://a.org/x'', ri_retrieval = retrieval, ri_storage = True, ri_analysis = True,
     ri_redistribution = True, ri_source_name = ''op'', ri_policy_reference = None,
     ri_requires_authentication = False, ri_paywalled = False, ri_override = ALLOW,
     ri_rationale = Some ''agreed''\<rparr>"

lemma demo_combine:
  "\<exists>e. combine_crawl_eligibility (demo_decision\<lparr>cd_allowed := False\<rparr>) (demo_rights True) = Inr e"
  by (simp add: combine_crawl_eligibility_def mk_eligibility_def expected_eligibility_def demo_decision_def
      demo_rights_def demo_uris)

theorem eligibility_deny_wins_witness:
  "\<exists>e. combine_crawl_eligibility (demo_decision\<lparr>cd_allowed := False\<rparr>) (demo_rights True) = Inr e \<and> \<not> el_allowed e"
  using demo_combine eligibility_deny_wins by fastforce

end
