(* ===== verification/Effects.thy ===== *)
theory Effects imports Prelude begin

text \<open>
  Stateful operations: a function from a state to an error or a value, and the state it leaves. The
  combinators mirror those of the prelude, \<open>catchS\<close> is \<open>try/except\<close>.
\<close>

type_synonym ('s, 'e, 'a) prog = "'s \<Rightarrow> ('e + 'a) \<times> 's"

definition ret :: "'a \<Rightarrow> ('s, 'e, 'a) prog" where
  "ret x s = (Inr x, s)"

definition throw :: "'e \<Rightarrow> ('s, 'e, 'a) prog" where
  "throw e s = (Inl e, s)"

definition bindS :: "('s, 'e, 'a) prog \<Rightarrow> ('a \<Rightarrow> ('s, 'e, 'b) prog) \<Rightarrow> ('s, 'e, 'b) prog" where
  "bindS m f s = (case m s of (Inl e, s') \<Rightarrow> (Inl e, s') | (Inr x, s') \<Rightarrow> f x s')"

definition catchS :: "('s, 'd, 'a) prog \<Rightarrow> ('d \<Rightarrow> ('s, 'e, 'a) prog) \<Rightarrow> ('s, 'e, 'a) prog" where
  "catchS m h s = (case m s of (Inl e, s') \<Rightarrow> h e s' | (Inr x, s') \<Rightarrow> (Inr x, s'))"

text \<open>\<open>mapErr f m\<close> renames the error: an \<open>except\<close> clause that only raises another exception.\<close>

definition mapErr :: "('d \<Rightarrow> 'e) \<Rightarrow> ('s, 'd, 'a) prog \<Rightarrow> ('s, 'e, 'a) prog" where
  "mapErr f m = catchS m (\<lambda>e. throw (f e))"

lemma bindS_cong [fundef_cong]:
  "m s = m' s' \<Longrightarrow> (\<And>x t. m' s' = (Inr x, t) \<Longrightarrow> f x t = g x t) \<Longrightarrow> bindS m f s = bindS m' g s'"
  by (auto simp: bindS_def split: prod.splits sum.splits)

lemma catchS_cong [fundef_cong]:
  "m s = m' s' \<Longrightarrow> (\<And>e t. m' s' = (Inl e, t) \<Longrightarrow> f e t = g e t) \<Longrightarrow> catchS m f s = catchS m' g s'"
  by (auto simp: catchS_def split: prod.splits sum.splits)

lemma run_simps [simp]:
  "ret x s = (Inr x, s)"
  "throw e s = (Inl e, s)"
  "bindS (ret x) f = f x"
  "bindS (throw e) f = throw e"
  by (simp_all add: ret_def throw_def bindS_def fun_eq_iff)

lemma if_run_cong [fundef_cong]:
  "b = c \<Longrightarrow> (c \<Longrightarrow> f s = f' s) \<Longrightarrow> (\<not> c \<Longrightarrow> g s = g' s) \<Longrightarrow>
    (if b then f else g) s = (if c then f' else g') s"
  by simp

text \<open>When a composed program returns a value.\<close>

lemma bindS_Inr: "bindS m f s = (Inr y, s'') \<longleftrightarrow> (\<exists>x s'. m s = (Inr x, s') \<and> f x s' = (Inr y, s''))"
  by (auto simp: bindS_def split: prod.splits sum.splits)

lemma mapErr_Inr: "mapErr f m s = (Inr y, s') \<longleftrightarrow> m s = (Inr y, s')"
  by (auto simp: mapErr_def catchS_def split: prod.splits sum.splits)

section \<open>Weakest preconditions\<close>

text \<open>
  \<open>wp m Q E s\<close>: from the state \<open>s\<close>, \<open>m\<close> ends in a value and a state of \<open>Q\<close> or in an error and a
  state of \<open>E\<close>. The precondition of a composed program is computed from those of its statements.
\<close>

definition wp ::
  "('s, 'e, 'a) prog \<Rightarrow> ('a \<Rightarrow> 's \<Rightarrow> bool) \<Rightarrow> ('e \<Rightarrow> 's \<Rightarrow> bool) \<Rightarrow> 's \<Rightarrow> bool" where
  "wp m Q E s \<longleftrightarrow> (case m s of (Inl e, s') \<Rightarrow> E e s' | (Inr x, s') \<Rightarrow> Q x s')"

lemma wp_ret: "wp (ret x) Q E s \<longleftrightarrow> Q x s"
  by (simp add: wp_def)

lemma wp_throw: "wp (throw e) Q E s \<longleftrightarrow> E e s"
  by (simp add: wp_def)

lemma wp_bind: "wp (bindS m f) Q E s \<longleftrightarrow> wp m (\<lambda>x. wp (f x) Q E) E s"
  by (simp add: wp_def bindS_def split: prod.splits sum.splits)

lemma wp_catch: "wp (catchS m h) Q E s \<longleftrightarrow> wp m Q (\<lambda>e. wp (h e) Q E) s"
  by (simp add: wp_def catchS_def split: prod.splits sum.splits)

lemma wp_mono:
  "wp m Q' E' s \<Longrightarrow> (\<And>x s'. Q' x s' \<Longrightarrow> Q x s') \<Longrightarrow> (\<And>e s'. E' e s' \<Longrightarrow> E e s') \<Longrightarrow> wp m Q E s"
  by (cases "m s"; cases "fst (m s)") (simp_all add: wp_def)

lemma wp_Inr: "wp m Q E s \<Longrightarrow> m s = (Inr x, s') \<Longrightarrow> Q x s'"
  by (simp add: wp_def)

lemma wp_Inl: "wp m Q E s \<Longrightarrow> m s = (Inl e, s') \<Longrightarrow> E e s'"
  by (simp add: wp_def)

end
