(* ===== verification/Stores.thy ===== *)
theory Stores imports Prelude begin

text \<open>
  The contract of the program's keyed stores: a document of records of which \<open>save\<close> adds or
  replaces one and \<open>get\<close> reads one back. Each component that keeps such a store interprets the
  locale on its own operations, and the services that use a store rest on the facts proved here.
\<close>

locale store_laws =
  fixes get :: "'s \<Rightarrow> 'k \<Rightarrow> 'e + 'v option"
    and save :: "'s \<Rightarrow> 'v \<Rightarrow> 'e + 's"
    and key :: "'v \<Rightarrow> 'k"
    and storable :: "'v \<Rightarrow> bool"
    and inv :: "'s \<Rightarrow> bool"
  assumes save_inv: "inv s \<Longrightarrow> save s v = Inr s' \<Longrightarrow> inv s'"
    and get_save: "inv s \<Longrightarrow> storable v \<Longrightarrow> save s v = Inr s' \<Longrightarrow>
      get s' k = (if k = key v then Inr (Some v) else get s k)"
begin

text \<open>Saving a list of records, one after the other.\<close>

primrec save_all :: "'s \<Rightarrow> 'v list \<Rightarrow> 'e + 's" where
  "save_all s [] = Inr s"
| "save_all s (v # vs) = bindE (save s v) (\<lambda>s'. save_all s' vs)"

lemma read_your_write: "inv s \<Longrightarrow> storable v \<Longrightarrow> save s v = Inr s' \<Longrightarrow> get s' (key v) = Inr (Some v)"
  by (simp add: get_save)

lemma save_all_inv: "inv s \<Longrightarrow> save_all s vs = Inr s' \<Longrightarrow> inv s'"
  by (induction vs arbitrary: s) (auto simp: res_simps intro: save_inv)

text \<open>The last write of a key wins; other keys are untouched.\<close>

lemma get_save_all:
  "inv s \<Longrightarrow> \<forall>v \<in> set vs. storable v \<Longrightarrow> save_all s vs = Inr s' \<Longrightarrow>
    get s' k = (case find (\<lambda>v. key v = k) (rev vs) of Some v \<Rightarrow> Inr (Some v) | None \<Rightarrow> get s k)"
proof (induction vs arbitrary: s)
  case Nil
  then show ?case by simp
next
  case (Cons v vs)
  then obtain s1 where s1: "save s v = Inr s1" "save_all s1 vs = Inr s'"
    by (auto simp: res_simps)
  have inv1: "inv s1" using Cons.prems(1) s1(1) save_inv by blast
  have f: "find P (xs @ [y]) = (case find P xs of Some x \<Rightarrow> Some x | None \<Rightarrow> if P y then Some y else None)"
    for P and xs :: "'v list" and y
    by (induction xs) auto
  show ?case
    using Cons.IH[OF inv1 _ s1(2)] Cons.prems(2) get_save[OF Cons.prems(1) _ s1(1), of k]
    by (auto simp: f split: option.splits)
qed

lemma save_commute:
  assumes "inv s" "storable v" "storable w" "key v \<noteq> key w"
    and "save s v = Inr s1" "save s1 w = Inr s2" "save s w = Inr t1" "save t1 v = Inr t2"
  shows "get s2 k = get t2 k"
proof -
  have i: "inv s1" "inv t1" using assms save_inv by blast+
  show ?thesis
    using get_save[OF i(1) assms(3,6), of k] get_save[OF assms(1,2,5), of k]
      get_save[OF i(2) assms(2,8), of k] get_save[OF assms(1,3,7), of k] assms(4) by auto
qed

end

text \<open>A store that never refuses a storable record.\<close>

locale keyed_store = store_laws +
  assumes save_total: "inv s \<Longrightarrow> storable v \<Longrightarrow> \<exists>s'. save s v = Inr s'"
begin

lemma save_all_total: "inv s \<Longrightarrow> \<forall>v \<in> set vs. storable v \<Longrightarrow> \<exists>s'. save_all s vs = Inr s' \<and> inv s'"
proof (induction vs arbitrary: s)
  case Nil
  then show ?case by simp
next
  case (Cons v vs)
  then obtain s1 where s1: "save s v = Inr s1" using save_total[of s v] by auto
  with Cons.prems have "inv s1" using save_inv by blast
  with Cons s1 show ?case by simp
qed

end

end
