(* ===== verification/RobotsCache.thy ===== *)
theory RobotsCache imports CrawlPolicy Stores begin

text \<open>
  \<open>domain/robots_cache.py\<close>, one bounded cached robots fetch, and
  \<open>infrastructure/storage/json_robots_cache.py\<close>, the catalogue
  \<open>{"schema_version": 1, "entries": {robots_uri: entry}}\<close> that keeps the latest entry of every
  authority and refuses to go back in time.
\<close>

section \<open>Entries\<close>

record robots_entry =
  re_result :: robots_result
  re_fetched_at :: datetime
  re_expires_at :: datetime
  re_observation_id :: "uuid option"
  re_artifact_sha256 :: "pystr option"

definition MAX_CACHE_AGE :: int where
  "MAX_CACHE_AGE = 24 * HOUR"

definition MAX_CACHED_BYTES :: int where
  "MAX_CACHED_BYTES = 512 * 1024"

definition mk_entry :: "robots_entry \<Rightarrow> exc + robots_entry" where
  "mk_entry e =
    (case urlsplit (rr_robots_uri (re_result e)) of
       None \<Rightarrow> Inl (ValueError ''Invalid URL'')
     | Some parsed \<Rightarrow>
    bindE (check (sp_path parsed = ''/robots.txt'' \<and> sp_query parsed = [] \<and> sp_fragment parsed = [])
             (ValueError ''robots cache URI must be the canonical /robots.txt resource'')) (\<lambda>_.
    bindE (check (case rr_content (re_result e) of None \<Rightarrow> True | Some c \<Rightarrow> int (length c) \<le> MAX_CACHED_BYTES)
             (ValueError ''robots cache content exceeds the 512 KiB limit'')) (\<lambda>_.
    bindE (check (is_aware (re_fetched_at e))
             (ValueError ''robots cache fetched_at must be timezone-aware'')) (\<lambda>_.
    bindE (check (is_aware (re_expires_at e))
             (ValueError ''robots cache expires_at must be timezone-aware'')) (\<lambda>_.
    bindE (check (instant (re_fetched_at e) < instant (re_expires_at e))
             (ValueError ''robots cache expiry must be after fetch time'')) (\<lambda>_.
    bindE (check (instant (re_expires_at e) - instant (re_fetched_at e) \<le> MAX_CACHE_AGE)
             (ValueError ''robots cache lifetime must not exceed 24 hours'')) (\<lambda>_.
    bindE (check (case re_artifact_sha256 e of None \<Rightarrow> True | Some a \<Rightarrow> is_lower_sha256 a)
             (ValueError ''robots cache artifact_sha256 must be lowercase SHA-256'')) (\<lambda>_.
    bindE (check ((re_observation_id e = None) = (re_artifact_sha256 e = None))
             (ValueError ''robots cache HTTP provenance identifiers must be supplied together'')) (\<lambda>_.
    Inr e)))))))))"

definition entry_uri :: "robots_entry \<Rightarrow> pystr" where
  "entry_uri e = rr_robots_uri (re_result e)"

definition require_aware :: "datetime \<Rightarrow> pystr \<Rightarrow> exc + unit" where
  "require_aware d what = check (is_aware d) (ValueError (what @ '' must be timezone-aware''))"

definition is_fresh :: "robots_entry \<Rightarrow> datetime \<Rightarrow> exc + bool" where
  "is_fresh e now =
    bindE (require_aware now ''robots cache comparison time'') (\<lambda>_.
    Inr (instant (re_fetched_at e) \<le> instant now \<and> instant now < instant (re_expires_at e)))"

definition may_reuse_after_unreachable :: "robots_entry \<Rightarrow> datetime \<Rightarrow> exc + bool" where
  "may_reuse_after_unreachable e now =
    bindE (require_aware now ''robots cache comparison time'') (\<lambda>_.
    Inr (rr_outcome (re_result e) = SUCCESS \<and> instant (re_fetched_at e) \<le> instant now \<and>
         instant now < instant (plus_time (re_fetched_at e) MAX_CACHE_AGE)))"

section \<open>Documents\<close>

fun outcome_value :: "robots_outcome \<Rightarrow> pystr" where
  "outcome_value SUCCESS = ''success''"
| "outcome_value UNAVAILABLE = ''unavailable''"
| "outcome_value UNREACHABLE = ''unreachable''"
| "outcome_value REDIRECT_LIMIT_EXCEEDED = ''redirect_limit_exceeded''"

definition parse_outcome :: "pystr \<Rightarrow> exc + robots_outcome" where
  "parse_outcome v =
    (case find (\<lambda>x. outcome_value x = v) [SUCCESS, UNAVAILABLE, UNREACHABLE, REDIRECT_LIMIT_EXCEEDED] of
       Some x \<Rightarrow> Inr x
     | None \<Rightarrow> Inl (ValueError (v @ '' is not a valid RobotsFetchOutcome'')))"

definition entry_to_dict :: "robots_entry \<Rightarrow> json" where
  "entry_to_dict e = JObj
    [(''robots_uri'', JStr (entry_uri e)),
     (''outcome'', JStr (outcome_value (rr_outcome (re_result e)))),
     (''content'', jopt JStr (rr_content (re_result e))),
     (''status_code'', jopt JInt (rr_status_code (re_result e))),
     (''fetched_at'', JTime (re_fetched_at e)),
     (''expires_at'', JTime (re_expires_at e)),
     (''source_observation_id'', jopt (\<lambda>u. JStr (uuid_str u)) (re_observation_id e)),
     (''artifact_sha256'', jopt JStr (re_artifact_sha256 e))]"

definition entry_from_dict :: "json \<Rightarrow> exc + robots_entry" where
  "entry_from_dict raw =
    bindE (check (is_object raw) (RuntimeError ''invalid robots cache entry: record must be an object'')) (\<lambda>_.
    as_runtime ''invalid robots cache entry''
     (bindE (bindE (jitem raw ''robots_uri'') jstr) (\<lambda>u.
      bindE (bindE (bindE (jitem raw ''outcome'') jstr) parse_outcome) (\<lambda>outcome.
      bindE (jopt_str (jget raw ''content'')) (\<lambda>content.
      bindE (jopt_int (jget raw ''status_code'')) (\<lambda>status.
      bindE (mk_robots_result \<lparr>rr_robots_uri = u, rr_outcome = outcome, rr_content = content,
               rr_status_code = status\<rparr>) (\<lambda>result.
      bindE (bindE (jitem raw ''fetched_at'') jtime) (\<lambda>fetched.
      bindE (bindE (jitem raw ''expires_at'') jtime) (\<lambda>expires.
      bindE (jopt_uuid_given (jget raw ''source_observation_id'')) (\<lambda>observation.
      bindE (jopt_str (jget raw ''artifact_sha256'')) (\<lambda>artifact.
      mk_entry \<lparr>re_result = result, re_fetched_at = fetched, re_expires_at = expires,
        re_observation_id = observation, re_artifact_sha256 = artifact\<rparr>)))))))))))"

section \<open>The catalogue\<close>

definition init_robots_cache :: "json_file \<Rightarrow> json_file" where
  "init_robots_cache f = (if f = Missing then empty_document ''entries'' else f)"

definition read_robots_cache :: "json_file \<Rightarrow> exc + (pystr \<times> json) list" where
  "read_robots_cache f = read_document ''robots cache'' ''entries'' f"

definition cache_lookup :: "json_file \<Rightarrow> pystr \<Rightarrow> exc + robots_entry option" where
  "cache_lookup f key =
    bindE (read_robots_cache f) (\<lambda>data.
    case bucket_get (json_bucket data ''entries'') key of
      None \<Rightarrow> Inr None
    | Some payload \<Rightarrow> bindE (entry_from_dict payload) (\<lambda>e. Inr (Some e)))"

definition cache_get :: "json_file \<Rightarrow> pystr \<Rightarrow> exc + robots_entry option" where
  "cache_get f robots_uri =
    bindE (normalize_http_uri robots_uri ''robots cache URI'') (cache_lookup f)"

definition same_fetch_identity :: "robots_entry \<Rightarrow> robots_entry \<Rightarrow> bool" where
  "same_fetch_identity l r \<longleftrightarrow>
    re_result l = re_result r \<and> instant (re_fetched_at l) = instant (re_fetched_at r) \<and>
    re_observation_id l = re_observation_id r \<and> re_artifact_sha256 l = re_artifact_sha256 r"

definition conflict :: "pystr \<Rightarrow> exc" where
  "conflict message = OtherError ''RobotsCacheConflictError'' message"

definition cache_put :: "(pystr \<times> json) list \<Rightarrow> robots_entry \<Rightarrow> json_file" where
  "cache_put data e =
    set_bucket data ''entries'' (jset (json_bucket data ''entries'') (entry_uri e) (entry_to_dict e))"

definition cache_save :: "json_file \<Rightarrow> robots_entry \<Rightarrow> exc + json_file" where
  "cache_save f e =
    bindE (read_robots_cache f) (\<lambda>data.
    case bucket_get (json_bucket data ''entries'') (entry_uri e) of
      None \<Rightarrow> Inr (cache_put data e)
    | Some existing_payload \<Rightarrow>
        bindE (entry_from_dict existing_payload) (\<lambda>existing.
        if instant (re_fetched_at e) < instant (re_fetched_at existing)
        then Inl (conflict ''robots cache cannot roll back to an older fetch'')
        else if instant (re_fetched_at e) = instant (re_fetched_at existing)
        then
          if json_eq (entry_to_dict e) existing_payload then Inr f
          else if same_fetch_identity e existing
          then if instant (re_expires_at e) < instant (re_expires_at existing)
               then Inl (conflict ''robots cache cannot shorten retry expiry for the same fetch'')
               else Inr (cache_put data e)
          else Inl (conflict ''conflicting robots cache entries share the same fetch time'')
        else Inr (cache_put data e)))"

section \<open>Well-formed entries read back\<close>

definition entry_ok :: "robots_entry \<Rightarrow> bool" where
  "entry_ok e \<longleftrightarrow> mk_robots_result (re_result e) = Inr (re_result e) \<and> mk_entry e = Inr e"

lemma mk_entry_Inr:
  "mk_entry e = Inr e' \<Longrightarrow> e' = e \<and> is_aware (re_fetched_at e) \<and> is_aware (re_expires_at e) \<and>
    instant (re_fetched_at e) < instant (re_expires_at e) \<and>
    instant (re_expires_at e) - instant (re_fetched_at e) \<le> MAX_CACHE_AGE \<and>
    (case rr_content (re_result e) of None \<Rightarrow> True | Some c \<Rightarrow> int (length c) \<le> MAX_CACHED_BYTES)"
  by (auto simp: mk_entry_def res_simps split: option.splits)

lemma parse_outcome_value [simp]: "parse_outcome (outcome_value x) = Inr x"
  by (cases x) (simp_all add: parse_outcome_def)

lemma robots_result_eta:
  "\<lparr>rr_robots_uri = rr_robots_uri r, rr_outcome = rr_outcome r, rr_content = rr_content r,
    rr_status_code = rr_status_code r\<rparr> = r"
  by simp

lemma robots_entry_eta:
  "\<lparr>re_result = re_result e, re_fetched_at = re_fetched_at e, re_expires_at = re_expires_at e,
    re_observation_id = re_observation_id e, re_artifact_sha256 = re_artifact_sha256 e\<rparr> = e"
  by simp

text \<open>
  A document equal to the one the program writes for an entry, if it is read at all, is read as that
  entry: \<open>==\<close> on decoded JSON is coarser than equality (numbers compare by value), the reader is not.
\<close>

lemma json_eq_entry:
  assumes ok: "entry_ok e" and eq: "json_eq (entry_to_dict e) j" and read: "entry_from_dict j = Inr e'"
  shows "e' = e"
proof -
  obtain c where j: "j = JObj c" using eq by (cases j) (auto simp: entry_to_dict_def)
  have str: "w = JStr s" if "json_eq (JStr s) w" for s w using that by simp
  have opt: "jopt_str (Some w) = Inr o'" if "json_eq (jopt JStr o') w" for o' w
    using that by (cases o') (auto simp: jopt_def)
  have num: "n = n'" if "json_eq (jopt JInt n) w" "jopt_int (Some w) = Inr n'" for n n' w
    using that by (cases n; cases w) (auto simp: jopt_def)
  have uid: "jopt_uuid_given (Some w) = Inr o'" if "json_eq (jopt (\<lambda>u. JStr (uuid_str u)) o') w" for o' w
    using that by (cases o') (auto simp: jopt_def jopt_uuid_given_def)
  have tim: "w = JTime d" if "json_eq (JTime d) w" for d w using that by simp
  note field = json_eq_field[OF eq[unfolded entry_to_dict_def j]]
  obtain w1 where w1: "map_of c ''robots_uri'' = Some w1" "json_eq (JStr (entry_uri e)) w1"
    using field by (metis list.set_intros(1))
  obtain w2 where w2: "map_of c ''outcome'' = Some w2"
      "json_eq (JStr (outcome_value (rr_outcome (re_result e)))) w2"
    using field by (metis list.set_intros)
  obtain w3 where w3: "map_of c ''content'' = Some w3" "json_eq (jopt JStr (rr_content (re_result e))) w3"
    using field by (metis list.set_intros)
  obtain w4 where w4: "map_of c ''status_code'' = Some w4"
      "json_eq (jopt JInt (rr_status_code (re_result e))) w4"
    using field by (metis list.set_intros)
  obtain w5 where w5: "map_of c ''fetched_at'' = Some w5" "json_eq (JTime (re_fetched_at e)) w5"
    using field by (metis list.set_intros)
  obtain w6 where w6: "map_of c ''expires_at'' = Some w6" "json_eq (JTime (re_expires_at e)) w6"
    using field by (metis list.set_intros)
  obtain w7 where w7: "map_of c ''source_observation_id'' = Some w7"
      "json_eq (jopt (\<lambda>u. JStr (uuid_str u)) (re_observation_id e)) w7"
    using field by (metis list.set_intros)
  obtain w8 where w8: "map_of c ''artifact_sha256'' = Some w8"
      "json_eq (jopt JStr (re_artifact_sha256 e)) w8"
    using field by (metis list.set_intros)
  note w = w1(1) w2(1) w3(1) w4(1) w5(1) w6(1) w7(1) w8(1)
  note q = w1(2) w2(2) w3(2) w4(2) w5(2) w6(2) w7(2) w8(2)
  obtain n where n: "jopt_int (Some w4) = Inr n"
    using read by (auto simp: entry_from_dict_def j w res_simps)
  have r: "mk_robots_result (re_result e) = Inr (re_result e)" "mk_entry e = Inr e"
    using ok by (simp_all add: entry_ok_def)
  have n': "jopt_int (Some w4) = Inr (rr_status_code (re_result e))" using n num[OF q(4) n] by simp
  have "entry_from_dict j = Inr e"
    using n' r
    by (simp add: entry_from_dict_def j w jitem_def str[OF q(1)] str[OF q(2)] opt[OF q(3)] tim[OF q(5)]
        tim[OF q(6)] uid[OF q(7)] opt[OF q(8)] entry_uri_def robots_result_eta robots_entry_eta
        del: json_eq.simps robots_result.surjective robots_entry.surjective)
  with read show ?thesis by simp
qed

lemma entry_from_to_dict: "entry_ok e \<Longrightarrow> entry_from_dict (entry_to_dict e) = Inr e"
  by (simp add: entry_from_dict_def entry_to_dict_def jitem_def entry_uri_def entry_ok_def
      robots_result_eta robots_entry_eta del: robots_result.surjective robots_entry.surjective)

definition cache_readable :: "json_file \<Rightarrow> bool" where
  "cache_readable f \<longleftrightarrow> isOk (read_robots_cache f)"

lemma cache_put_read:
  assumes "read_robots_cache f = Inr data"
  shows "\<exists>data'. read_robots_cache (cache_put data e) = Inr data' \<and>
    json_bucket data' ''entries'' = jset (json_bucket data ''entries'') (entry_uri e) (entry_to_dict e)"
  using read_set_bucket[OF assms[unfolded read_robots_cache_def]]
  by (simp add: cache_put_def read_robots_cache_def)

lemma cache_lookup_put:
  assumes "read_robots_cache f = Inr data" "entry_ok e"
  shows "cache_lookup (cache_put data e) k = (if k = entry_uri e then Inr (Some e) else cache_lookup f k)"
proof -
  obtain data' where d: "read_robots_cache (cache_put data e) = Inr data'"
    "json_bucket data' ''entries'' = jset (json_bucket data ''entries'') (entry_uri e) (entry_to_dict e)"
    using cache_put_read[OF assms(1)] by blast
  have "entry_to_dict e \<noteq> JNull" by (simp add: entry_to_dict_def)
  with d assms show ?thesis by (simp add: cache_lookup_def entry_from_to_dict)
qed

text \<open>What an accepted save did: it changed nothing, or it wrote the entry over an older one.\<close>

lemma cache_save_cases:
  assumes "cache_save f e = Inr f'"
  obtains (same) data payload where "f' = f" "read_robots_cache f = Inr data"
      "bucket_get (json_bucket data ''entries'') (entry_uri e) = Some payload"
      "json_eq (entry_to_dict e) payload" "isOk (entry_from_dict payload)"
  | (new) data where "f' = cache_put data e" "read_robots_cache f = Inr data" "cache_lookup f (entry_uri e) = Inr None"
  | (replaced) data existing where "f' = cache_put data e" "read_robots_cache f = Inr data"
      "cache_lookup f (entry_uri e) = Inr (Some existing)"
      "instant (re_fetched_at existing) < instant (re_fetched_at e) \<or>
       (same_fetch_identity e existing \<and> instant (re_expires_at existing) \<le> instant (re_expires_at e))"
proof -
  obtain data where data: "read_robots_cache f = Inr data"
    using assms by (auto simp: cache_save_def res_simps)
  show thesis
  proof (cases "bucket_get (json_bucket data ''entries'') (entry_uri e)")
    case None
    with assms data new show thesis by (auto simp: cache_save_def cache_lookup_def)
  next
    case (Some payload)
    with assms data obtain existing where ex: "entry_from_dict payload = Inr existing"
      by (auto simp: cache_save_def res_simps)
    have look: "cache_lookup f (entry_uri e) = Inr (Some existing)"
      using Some data ex by (simp add: cache_lookup_def)
    show thesis
      using assms data Some ex look same[of data payload] replaced[of data existing]
      by (auto simp: cache_save_def same_fetch_identity_def split: if_splits)
  qed
qed

interpretation rcs: store_laws cache_lookup cache_save entry_uri entry_ok cache_readable
proof
  fix s v s'
  assume "cache_readable s" "cache_save s v = Inr s'"
  then show "cache_readable s'"
    by (cases rule: cache_save_cases[OF \<open>cache_save s v = Inr s'\<close>])
      (auto simp: cache_readable_def isOk_iff dest: cache_put_read)
next
  fix s v s' k
  assume ok: "entry_ok v" and sv: "cache_save s v = Inr s'"
  from sv show "cache_lookup s' k = (if k = entry_uri v then Inr (Some v) else cache_lookup s k)"
  proof (cases rule: cache_save_cases)
    case (same data payload)
    then show ?thesis using json_eq_entry[OF ok] by (auto simp: cache_lookup_def isOk_iff)
  qed (simp_all add: cache_lookup_put[OF _ ok])
qed

section \<open>The catalogue as a map\<close>

text \<open>
  The contract of the cache, without documents: a partial map from robots URIs to their latest entry.
  A save is refused when it is older than the entry it would replace, when it is as old but another
  fetch, and when it would shorten the retry window of the same fetch.
\<close>

type_synonym cache_view = "pystr \<Rightarrow> robots_entry option"

definition view_save :: "cache_view \<Rightarrow> robots_entry \<Rightarrow> exc + cache_view" where
  "view_save m e =
    (case m (entry_uri e) of
       None \<Rightarrow> Inr (m(entry_uri e \<mapsto> e))
     | Some old \<Rightarrow>
         if instant (re_fetched_at e) < instant (re_fetched_at old)
         then Inl (conflict ''robots cache cannot roll back to an older fetch'')
         else if instant (re_fetched_at e) = instant (re_fetched_at old) \<and> \<not> same_fetch_identity e old
         then Inl (conflict ''conflicting robots cache entries share the same fetch time'')
         else if instant (re_fetched_at e) = instant (re_fetched_at old) \<and>
                 instant (re_expires_at e) < instant (re_expires_at old)
         then Inl (conflict ''robots cache cannot shorten retry expiry for the same fetch'')
         else Inr (m(entry_uri e \<mapsto> e)))"

definition represents :: "json_file \<Rightarrow> cache_view \<Rightarrow> bool" where
  "represents f m \<longleftrightarrow> cache_readable f \<and> (\<forall>k. cache_lookup f k = Inr (m k))"

lemma represents_put:
  assumes "represents f m" "read_robots_cache f = Inr data" "entry_ok e"
  shows "represents (cache_put data e) (m(entry_uri e \<mapsto> e))"
  using assms cache_put_read[OF assms(2), of e] cache_lookup_put[OF assms(2,3)]
  by (auto simp: represents_def cache_readable_def isOk_iff)

lemma cache_save_simulates:
  assumes rep: "represents f m" and ok: "entry_ok e"
  shows "case cache_save f e of
      Inl err \<Rightarrow> view_save m e = Inl err
    | Inr f' \<Rightarrow> \<exists>m'. view_save m e = Inr m' \<and> represents f' m'"
proof -
  obtain data where d: "read_robots_cache f = Inr data"
    using rep by (auto simp: represents_def cache_readable_def isOk_iff)
  have look: "cache_lookup f (entry_uri e) = Inr (m (entry_uri e))"
    using rep by (simp add: represents_def)
  show ?thesis
  proof (cases "bucket_get (json_bucket data ''entries'') (entry_uri e)")
    case None
    then have "m (entry_uri e) = None" using look d by (simp add: cache_lookup_def)
    then show ?thesis using None d represents_put[OF rep d ok]
      by (simp add: cache_save_def view_save_def)
  next
    case (Some payload)
    then obtain old where old: "entry_from_dict payload = Inr old" "m (entry_uri e) = Some old"
      using look d by (auto simp: cache_lookup_def res_simps)
    have same: "e = old" if "json_eq (entry_to_dict e) payload"
      using json_eq_entry[OF ok that old(1)] by simp
    have refl: "same_fetch_identity old old" by (simp add: same_fetch_identity_def)
    show ?thesis
    proof (cases "json_eq (entry_to_dict e) payload")
      case True
      then have "e = old" by (rule same)
      then have "cache_save f e = Inr f" "view_save m e = Inr m"
        using True Some d old refl by (auto simp: cache_save_def view_save_def)
      then show ?thesis using rep by simp
    next
      case False
      then show ?thesis using Some d old represents_put[OF rep d ok]
        by (auto simp: cache_save_def view_save_def same_fetch_identity_def)
    qed
  qed
qed

text \<open>A history of saves; a refused save leaves the file as it was.\<close>

fun cache_run :: "json_file \<Rightarrow> robots_entry list \<Rightarrow> json_file" where
  "cache_run f [] = f"
| "cache_run f (e # es) = cache_run (case cache_save f e of Inl _ \<Rightarrow> f | Inr f' \<Rightarrow> f') es"

definition newer :: "robots_entry \<Rightarrow> robots_entry \<Rightarrow> bool" where
  "newer old new \<longleftrightarrow>
    instant (re_fetched_at old) < instant (re_fetched_at new) \<or>
    (same_fetch_identity new old \<and> instant (re_expires_at old) \<le> instant (re_expires_at new))"

lemma newer_refl: "newer e e"
  by (simp add: newer_def same_fetch_identity_def)

lemma newer_trans: "newer a b \<Longrightarrow> newer b c \<Longrightarrow> newer a c"
  by (auto simp: newer_def same_fetch_identity_def)

lemma view_save_newer:
  "view_save m e = Inr m' \<Longrightarrow> m k = Some old \<Longrightarrow> \<exists>new. m' k = Some new \<and> newer old new"
  using newer_refl by (auto simp: view_save_def newer_def split: option.splits if_splits)

lemma cache_run_represents:
  "represents f m \<Longrightarrow> \<forall>e \<in> set es. entry_ok e \<Longrightarrow>
    \<exists>m'. represents (cache_run f es) m' \<and> (\<forall>k old. m k = Some old \<longrightarrow> (\<exists>new. m' k = Some new \<and> newer old new))"
proof (induction es arbitrary: f m)
  case Nil
  then show ?case using newer_refl by auto
next
  case (Cons e es)
  show ?case
  proof (cases "cache_save f e")
    case (Inl err)
    with Cons show ?thesis by simp
  next
    case (Inr f')
    with cache_save_simulates[OF Cons.prems(1), of e] Cons.prems(2)
    obtain m1 where m1: "view_save m e = Inr m1" "represents f' m1" by auto
    from Cons.IH[OF m1(2)] Cons.prems(2)
    obtain m' where "represents (cache_run f' es) m'"
      "\<forall>k old. m1 k = Some old \<longrightarrow> (\<exists>new. m' k = Some new \<and> newer old new)" by auto
    then show ?thesis using Inr view_save_newer[OF m1(1)] newer_trans by simp meson
  qed
qed

section \<open>Properties\<close>

definition demo_entry :: "int \<Rightarrow> int \<Rightarrow> robots_entry" where
  "demo_entry fetched expires =
    \<lparr>re_result = demo_robots, re_fetched_at = Aware fetched 0, re_expires_at = Aware expires 0,
     re_observation_id = None, re_artifact_sha256 = None\<rparr>"

lemma demo_entry_ok: "entry_ok (demo_entry 0 HOUR)" "entry_ok (demo_entry 1 HOUR)"
proof -
  have "urlsplit ''https://a.org/robots.txt'' =
      Some \<lparr>sp_scheme = ''https'', sp_netloc = ''a.org'', sp_path = ''/robots.txt'', sp_query = [], sp_fragment = []\<rparr>"
    by code_simp
  moreover have "mk_robots_result demo_robots = Inr demo_robots"
    by (simp add: mk_robots_result_def demo_robots_def demo_uris status_within_def)
  ultimately show "entry_ok (demo_entry 0 HOUR)" "entry_ok (demo_entry 1 HOUR)"
    by (simp_all add: entry_ok_def mk_entry_def demo_entry_def demo_robots_def HOUR_def SECOND_def MAX_CACHE_AGE_def)
qed

lemma demo_cache: "represents (init_robots_cache Missing) (\<lambda>_. None)"
  by (simp add: represents_def cache_readable_def init_robots_cache_def read_robots_cache_def read_document_def
      empty_document_def json_is_one_def cache_lookup_def json_bucket_def bucket_get_def)

text \<open>
  C8: the JSON catalogue implements the abstract cache. A catalogue that represents a map of entries
  answers a save exactly as the map does: it refuses with the same conflict, and otherwise the new
  file represents the updated map.
\<close>

theorem robots_cache_refines_map:
  assumes "represents f m" and "entry_ok e"
  shows "case cache_save f e of
      Inl err \<Rightarrow> view_save m e = Inl err
    | Inr f' \<Rightarrow> \<exists>m'. view_save m e = Inr m' \<and> represents f' m'"
  using cache_save_simulates[OF assms] .

theorem robots_cache_refines_map_witness:
  "case cache_save (init_robots_cache Missing) (demo_entry 0 HOUR) of
      Inl err \<Rightarrow> view_save (\<lambda>_. None) (demo_entry 0 HOUR) = Inl err
    | Inr f' \<Rightarrow> \<exists>m'. view_save (\<lambda>_. None) (demo_entry 0 HOUR) = Inr m' \<and> represents f' m'"
  using robots_cache_refines_map[OF demo_cache demo_entry_ok(1)] .

text \<open>
  no history of saves, accepted or refused, loses an authority or takes it back to an older
  fetch, and as long as the same fetch stays cached its expiry only moves forward.
\<close>

theorem robots_cache_no_rollback:
  assumes "represents f m" and "\<forall>e \<in> set es. entry_ok e" and "m k = Some old"
  shows "\<exists>new. cache_lookup (cache_run f es) k = Inr (Some new) \<and>
    instant (re_fetched_at old) \<le> instant (re_fetched_at new) \<and>
    (instant (re_fetched_at old) = instant (re_fetched_at new) \<longrightarrow>
      re_result new = re_result old \<and> instant (re_expires_at old) \<le> instant (re_expires_at new))"
  using cache_run_represents[OF assms(1,2)] assms(3)
  by (fastforce simp: represents_def newer_def same_fetch_identity_def)

theorem robots_cache_no_rollback_witness:
  "\<exists>f new. cache_lookup (cache_run f [demo_entry 0 HOUR]) ''https://a.org/robots.txt'' = Inr (Some new) \<and>
    1 \<le> instant (re_fetched_at new)"
proof -
  have "entry_uri (demo_entry 1 HOUR) = ''https://a.org/robots.txt''"
    by (simp add: entry_uri_def demo_entry_def demo_robots_def)
  with cache_save_simulates[OF demo_cache demo_entry_ok(2)]
  obtain f m where f: "represents f m" "m ''https://a.org/robots.txt'' = Some (demo_entry 1 HOUR)"
    by (auto simp: view_save_def split: sum.splits)
  have "\<forall>e \<in> set [demo_entry 0 HOUR]. entry_ok e" using demo_entry_ok by simp
  from robots_cache_no_rollback[OF f(1) this f(2)] show ?thesis
    by (auto simp: demo_entry_def)
qed

text \<open>
  a cached robots file decides crawls for less than 24 hours after its fetch: whenever an entry is
  fresh, or may stand in for an unreachable refresh, the comparison time lies in that window, and
  only a successful fetch outlives its expiry.
\<close>

theorem robots_cache_window:
  assumes "entry_ok e" and "is_fresh e now = Inr True \<or> may_reuse_after_unreachable e now = Inr True"
  shows "instant (re_fetched_at e) \<le> instant now \<and> instant now < instant (re_fetched_at e) + 24 * HOUR \<and>
    (rr_outcome (re_result e) = SUCCESS \<or> instant now < instant (re_expires_at e))"
proof -
  have "instant (re_expires_at e) - instant (re_fetched_at e) \<le> MAX_CACHE_AGE"
    using assms(1) mk_entry_Inr[of e e] by (simp add: entry_ok_def)
  with assms(2) show ?thesis
    by (auto simp: is_fresh_def may_reuse_after_unreachable_def res_simps MAX_CACHE_AGE_def)
qed

theorem robots_cache_window_witness:
  "is_fresh (demo_entry 0 HOUR) (Aware 5 0) = Inr True \<and> (5 :: int) < 24 * HOUR"
proof -
  have "is_fresh (demo_entry 0 HOUR) (Aware 5 0) = Inr True"
    by (simp add: is_fresh_def require_aware_def demo_entry_def HOUR_def SECOND_def)
  then show ?thesis using robots_cache_window[OF demo_entry_ok(1), of "Aware 5 0"]
    by (simp add: demo_entry_def)
qed

end
