(* ===== verification/HttpResponses.thy ===== *)
theory HttpResponses imports HttpUriSafe PyData PyHash begin

text \<open>
  One HTTP exchange as data: the transport's response (\<open>ports/http_transport.py\<close>), the durable
  snapshot of it and its projection to a source observation (\<open>HttpResponseSnapshot\<close> in
  \<open>domain/http_observations.py\<close>, \<open>SourceObservation\<close> in \<open>domain/source_observations.py\<close>), and the
  redirect reference a response carries (\<open>redirect_location\<close> in
  \<open>application/policy_http_exchange.py\<close>). A header mapping is the list of its items, in order.
\<close>

type_synonym headers = "(pystr \<times> pystr list) list"

section \<open>Headers\<close>

definition single_line :: "pystr \<Rightarrow> bool" where
  "single_line v \<longleftrightarrow> \<not> has_char CHR 0x0D v \<and> \<not> has_char CHR 0x0A v"

text \<open>
  Both constructors walk the headers alike: a name must not be blank, its values are single lines and
  at least one; the snapshot keeps the safe names only; a kept name must not repeat after folding.
\<close>

fun normalize_headers :: "pystr \<Rightarrow> (pystr \<Rightarrow> bool) \<Rightarrow> headers \<Rightarrow> headers \<Rightarrow> exc + headers" where
  "normalize_headers what keep acc [] = Inr acc"
| "normalize_headers what keep acc ((name, vs) # rest) =
    bindE (check (\<not> blank name)
             (ValueError (what @ '' header names must be non-blank strings''))) (\<lambda>_.
    bindE (check (vs \<noteq> [] \<and> list_all single_line vs)
             (ValueError (what @ '' header values must be non-empty single-line strings''))) (\<lambda>_.
    let normalized_name = lower (strip name) in
    if \<not> keep normalized_name then normalize_headers what keep acc rest
    else bindE (check (map_of acc normalized_name = None)
             (ValueError (what @ '' headers must not repeat after case normalization''))) (\<lambda>_.
         normalize_headers what keep (acc @ [(normalized_name, vs)]) rest)))"

lemma normalize_headers_names:
  "normalize_headers what keep acc hs = Inr out \<Longrightarrow> distinct (map fst acc) \<Longrightarrow>
    \<forall>(n, vs) \<in> set acc. keep n \<and> vs \<noteq> [] \<and> list_all single_line vs \<Longrightarrow>
    distinct (map fst out) \<and> (\<forall>(n, vs) \<in> set out. keep n \<and> vs \<noteq> [] \<and> list_all single_line vs)"
proof (induction what keep acc hs rule: normalize_headers.induct)
  case (1 what keep acc)
  then show ?case by simp
next
  case (2 what keep acc name vs rest)
  let ?n = "lower (strip name)"
  have vs: "\<not> blank name" "vs \<noteq> [] \<and> list_all single_line vs" using 2(3) by (auto simp: res_simps)
  show ?case
  proof (cases "keep ?n")
    case False
    then show ?thesis using 2(1)[OF _ _ refl False] 2(3-5) vs by (simp add: Let_def)
  next
    case True
    from True 2(3) vs have new: "map_of acc ?n = None"
      and rest: "normalize_headers what keep (acc @ [(?n, vs)]) rest = Inr out"
      by (auto simp: Let_def res_simps)
    have d: "distinct (map fst (acc @ [(?n, vs)]))"
      using 2(4) new by (auto simp: map_of_eq_None_iff)
    show ?thesis using 2(2)[OF _ _ refl _ _ rest d] 2(5) True vs new by auto
  qed
qed

section \<open>The transport's response\<close>

record response =
  rs_status_code :: int
  rs_headers :: headers
  rs_body :: pystr
  rs_limit_exceeded :: bool

definition mk_response :: "response \<Rightarrow> exc + response" where
  "mk_response r =
    bindE (check (100 \<le> rs_status_code r \<and> rs_status_code r \<le> 599)
             (ValueError ''transport status_code must be between 100 and 599'')) (\<lambda>_.
    bindE (normalize_headers ''transport'' (\<lambda>_. True) [] (rs_headers r)) (\<lambda>hs.
    Inr (r\<lparr>rs_headers := hs\<rparr>)))"

text \<open>\<open>str.isspace\<close> holds of the characters \<open>strip\<close> removes.\<close>

definition has_space :: "pystr \<Rightarrow> bool" where
  "has_space s \<longleftrightarrow> list_ex (\<lambda>w. find_sub w s \<noteq> None) ws_codes"

definition redirect_location :: "response \<Rightarrow> exc + pystr option" where
  "redirect_location r =
    (case map_of (rs_headers r) ''location'' of
       None \<Rightarrow> Inr None
     | Some [] \<Rightarrow> Inr None
     | Some (v # vs) \<Rightarrow>
         bindE (check (vs = [])
                  (ValueError ''HTTP redirect response must contain exactly one Location header'')) (\<lambda>_.
         let value = strip v in
         bindE (check (value \<noteq> []) (ValueError ''HTTP redirect Location must not be blank'')) (\<lambda>_.
         bindE (check (\<not> has_space value)
                  (ValueError ''HTTP redirect Location must not contain whitespace'')) (\<lambda>_.
         bindE (check (list_all (\<lambda>c. 0x20 \<le> code c \<and> code c \<noteq> 0x7F) value)
                  (ValueError ''HTTP redirect Location must not contain control characters'')) (\<lambda>_.
         case urlsplit value of
           None \<Rightarrow> Inl (ValueError ''HTTP redirect Location must be a valid URI reference'')
         | Some parsed \<Rightarrow>
             bindE (check (sp_scheme parsed = [] \<or> lower (sp_scheme parsed) \<in> {''http'', ''https''})
                      (ValueError ''HTTP redirect Location must use HTTP(S) when absolute'')) (\<lambda>_.
             bindE (check (\<not> (sp_netloc parsed \<noteq> [] \<and> sp_hostname parsed = None))
                      (ValueError ''HTTP redirect Location contains an invalid authority'')) (\<lambda>_.
             Inr (Some value))))))))"

section \<open>Source observations\<close>

text \<open>Native metadata: JSON-like scalars, mappings and sequences.\<close>

datatype metadata =
    MNull
  | MBool bool
  | MInt int
  | MFloat pyfloat
  | MStr pystr
  | MList "metadata list"
  | MObj "(pystr \<times> metadata) list"

fun freeze :: "metadata \<Rightarrow> exc + metadata" where
  "freeze (MObj kvs) =
    bindE (mapM (\<lambda>(k, v).
      bindE (check (\<not> blank k) (ValueError ''native metadata keys must be non-empty strings'')) (\<lambda>_.
      bindE (freeze v) (\<lambda>v'. Inr (k, v')))) kvs) (\<lambda>kvs'. Inr (MObj kvs'))"
| "freeze (MList xs) = bindE (mapM freeze xs) (\<lambda>ys. Inr (MList ys))"
| "freeze (MFloat x) =
    bindE (check (isfinite x) (ValueError ''native metadata floats must be finite'')) (\<lambda>_. Inr (MFloat x))"
| "freeze MNull = Inr MNull"
| "freeze (MBool b) = Inr (MBool b)"
| "freeze (MInt i) = Inr (MInt i)"
| "freeze (MStr s) = Inr (MStr s)"

datatype basis = NATIVE | RECONSTRUCTED | INFERRED

record observation =
  ob_id :: uuid
  ob_source_name :: pystr
  ob_basis :: basis
  ob_source_version :: "pystr option"
  ob_provider_record_id :: "pystr option"
  ob_media_type :: "pystr option"
  ob_native_artifact_id :: "uuid option"
  ob_metadata :: metadata
  ob_observed_at :: datetime

definition require_non_blank :: "pystr \<Rightarrow> pystr \<Rightarrow> exc + unit" where
  "require_non_blank v field_name =
    check (\<not> blank v) (ValueError (field_name @ '' must be a non-blank string''))"

definition require_optional_non_blank :: "pystr option \<Rightarrow> pystr \<Rightarrow> exc + unit" where
  "require_optional_non_blank v field_name =
    (case v of None \<Rightarrow> Inr () | Some s \<Rightarrow> require_non_blank s field_name)"

definition mk_observation :: "observation \<Rightarrow> exc + observation" where
  "mk_observation ob =
    bindE (require_non_blank (ob_source_name ob) ''source observation name'') (\<lambda>_.
    bindE (require_optional_non_blank (ob_source_version ob) ''source version'') (\<lambda>_.
    bindE (require_optional_non_blank (ob_provider_record_id ob) ''provider record id'') (\<lambda>_.
    bindE (require_optional_non_blank (ob_media_type ob) ''media type'') (\<lambda>_.
    bindE (freeze (ob_metadata ob)) (\<lambda>frozen.
    Inr (ob\<lparr>ob_metadata := frozen\<rparr>))))))"

section \<open>Canonical JSON\<close>

text \<open>
  \<open>json.dumps(value, sort_keys=True, separators=(',', ':'))\<close>: keys in the order of their code points
  (which is the order of their UTF-8 bytes), characters outside printable ASCII as escapes of their
  UTF-16 units. The text of a float is the argument \<open>float_repr\<close>: no snapshot holds one.
\<close>

definition utf8_point :: "string \<Rightarrow> nat" where
  "utf8_point bs =
    (case bs of
       [a] \<Rightarrow> code a
     | [a, b] \<Rightarrow> (code a - 0xC0) * 64 + (code b - 0x80)
     | [a, b, c] \<Rightarrow> ((code a - 0xE0) * 64 + (code b - 0x80)) * 64 + (code c - 0x80)
     | [a, b, c, d] \<Rightarrow>
         (((code a - 0xF0) * 64 + (code b - 0x80)) * 64 + (code c - 0x80)) * 64 + (code d - 0x80)
     | _ \<Rightarrow> 0xFFFD)"

definition escape_unit :: "nat \<Rightarrow> pystr" where
  "escape_unit n =
    [CHR 0x5C, CHR ''u'', hex_digit (n div 4096 mod 16), hex_digit (n div 256 mod 16),
     hex_digit (n div 16 mod 16), hex_digit (n mod 16)]"

definition escape_point :: "nat \<Rightarrow> pystr" where
  "escape_point n =
    (if n = 0x22 then [CHR 0x5C, CHR 0x22] else if n = 0x5C then [CHR 0x5C, CHR 0x5C]
     else if n = 0x0A then [CHR 0x5C, CHR ''n''] else if n = 0x0D then [CHR 0x5C, CHR ''r'']
     else if n = 0x09 then [CHR 0x5C, CHR ''t''] else if n = 0x08 then [CHR 0x5C, CHR ''b'']
     else if n = 0x0C then [CHR 0x5C, CHR ''f'']
     else if 0x20 \<le> n \<and> n \<le> 0x7E then [char_of n]
     else if n < 0x10000 then escape_unit n
     else escape_unit (0xD800 + (n - 0x10000) div 1024) @ escape_unit (0xDC00 + (n - 0x10000) mod 1024))"

function escape_text :: "pystr \<Rightarrow> pystr" where
  "escape_text [] = []"
| "escape_text (c # s) =
    (let n = max 1 (fst (utf8_step (c # s)))
     in escape_point (utf8_point (take n (c # s))) @ escape_text (drop n (c # s)))"
  by pat_completeness auto
termination
  by (relation "measure length") auto

definition json_string :: "pystr \<Rightarrow> pystr" where
  "json_string s = [CHR 0x22] @ escape_text s @ [CHR 0x22]"

fun dumps :: "(pyfloat \<Rightarrow> pystr) \<Rightarrow> metadata \<Rightarrow> pystr" where
  "dumps float_repr MNull = ''null''"
| "dumps float_repr (MBool b) = (if b then ''true'' else ''false'')"
| "dumps float_repr (MInt i) = int_str i"
| "dumps float_repr (MFloat x) = float_repr x"
| "dumps float_repr (MStr s) = json_string s"
| "dumps float_repr (MList xs) = ''['' @ join '','' (map (dumps float_repr) xs) @ '']''"
| "dumps float_repr (MObj kvs) =
    ''{'' @ join '','' (map (\<lambda>(k, text). json_string k @ '':'' @ text)
                      (sort_key fst (map (\<lambda>(k, v). (k, dumps float_repr v)) kvs))) @ ''}''"

section \<open>The durable snapshot\<close>

definition SAFE_RESPONSE_HEADERS :: "pystr list" where
  "SAFE_RESPONSE_HEADERS =
    [''accept-ranges'', ''cache-control'', ''content-disposition'', ''content-language'',
     ''content-length'', ''content-type'', ''date'', ''etag'', ''expires'', ''last-modified'', ''vary'']"

record snapshot =
  sn_requested_uri :: pystr
  sn_final_uri :: pystr
  sn_status_code :: int
  sn_headers :: headers
  sn_redirect_chain :: "pystr list"
  sn_depth :: int
  sn_observed_at :: datetime

definition mk_snapshot :: "snapshot \<Rightarrow> exc + snapshot" where
  "mk_snapshot s =
    bindE (normalize_durable_http_uri (sn_requested_uri s) ''requested URI'') (\<lambda>requested.
    bindE (normalize_durable_http_uri (sn_final_uri s) ''final URI'') (\<lambda>final.
    bindE (check (100 \<le> sn_status_code s \<and> sn_status_code s \<le> 599)
             (ValueError ''HTTP status code must be between 100 and 599'')) (\<lambda>_.
    bindE (check (0 \<le> sn_depth s)
             (ValueError ''HTTP discovery depth must be a non-negative integer'')) (\<lambda>_.
    bindE (check (is_aware (sn_observed_at s))
             (ValueError ''HTTP observed_at must be timezone-aware'')) (\<lambda>_.
    bindE (normalize_headers ''HTTP'' (List.member SAFE_RESPONSE_HEADERS) [] (sn_headers s)) (\<lambda>hs.
    bindE (mapM (\<lambda>u. normalize_durable_http_uri u ''redirect URI'') (sn_redirect_chain s)) (\<lambda>redirects.
    bindE (check (redirects = [] \<or> last redirects = final)
             (ValueError ''HTTP redirect chain must end at final URI'')) (\<lambda>_.
    Inr (s\<lparr>sn_requested_uri := requested, sn_final_uri := final, sn_headers := hs,
           sn_redirect_chain := redirects\<rparr>)))))))))"

lemma mk_snapshot_Inr:
  assumes "mk_snapshot s = Inr s'"
  shows "normalize_durable_http_uri (sn_requested_uri s) ''requested URI'' = Inr (sn_requested_uri s') \<and>
    normalize_durable_http_uri (sn_final_uri s) ''final URI'' = Inr (sn_final_uri s') \<and>
    normalize_headers ''HTTP'' (List.member SAFE_RESPONSE_HEADERS) [] (sn_headers s) = Inr (sn_headers s') \<and>
    mapM (\<lambda>u. normalize_durable_http_uri u ''redirect URI'') (sn_redirect_chain s) = Inr (sn_redirect_chain s') \<and>
    (sn_redirect_chain s' = [] \<or> last (sn_redirect_chain s') = sn_final_uri s') \<and>
    sn_status_code s' = sn_status_code s \<and> sn_depth s' = sn_depth s \<and>
    sn_observed_at s' = sn_observed_at s \<and> is_aware (sn_observed_at s) \<and>
    100 \<le> sn_status_code s \<and> sn_status_code s \<le> 599 \<and> 0 \<le> sn_depth s"
  using assms by (auto simp: mk_snapshot_def res_simps)

definition media_type :: "snapshot \<Rightarrow> pystr option" where
  "media_type s =
    (case map_of (sn_headers s) ''content-type'' of
       None \<Rightarrow> None
     | Some vs \<Rightarrow>
         if vs = [] then None
         else (case normalize_media_type (last vs) of Inr m \<Rightarrow> Some m | Inl _ \<Rightarrow> None))"

definition content_disposition :: "snapshot \<Rightarrow> pystr option" where
  "content_disposition s =
    (case map_of (sn_headers s) ''content-disposition'' of
       None \<Rightarrow> None
     | Some vs \<Rightarrow> if vs = [] then None else Some (last vs))"

definition snapshot_metadata :: "snapshot \<Rightarrow> (pystr \<times> metadata) list" where
  "snapshot_metadata s =
    [(''requested_uri'', MStr (sn_requested_uri s)),
     (''final_uri'', MStr (sn_final_uri s)),
     (''status_code'', MInt (sn_status_code s)),
     (''headers'', MObj (map (\<lambda>(n, vs). (n, MList (map MStr vs))) (sn_headers s))),
     (''redirect_chain'', MList (map MStr (sn_redirect_chain s))),
     (''depth'', MInt (sn_depth s)),
     (''content_disposition'', (case content_disposition s of None \<Rightarrow> MNull | Some d \<Rightarrow> MStr d))]"

definition fingerprint :: "snapshot \<Rightarrow> uuid \<Rightarrow> pystr" where
  "fingerprint s artifact =
    sha256_hexdigest (dumps (\<lambda>_. []) (MObj ((''native_artifact_id'', MStr (uuid_str artifact)) # snapshot_metadata s)))"

definition to_source_observation :: "snapshot \<Rightarrow> uuid \<Rightarrow> exc + observation" where
  "to_source_observation s artifact =
    mk_observation
      \<lparr>ob_id = uuid5 NAMESPACE_URL (''tarkka:http:'' @ fingerprint s artifact),
       ob_source_name = ''http'', ob_basis = NATIVE, ob_source_version = None,
       ob_provider_record_id = Some (sn_final_uri s), ob_media_type = media_type s,
       ob_native_artifact_id = Some artifact, ob_metadata = MObj (snapshot_metadata s),
       ob_observed_at = sn_observed_at s\<rparr>"

text \<open>\<open>uuid5(NAMESPACE_URL, f'urn:sha256:{digest}')\<close>, the identity of an artifact.\<close>

definition artifact_id_of :: "pystr \<Rightarrow> uuid" where
  "artifact_id_of digest = uuid5 NAMESPACE_URL (''urn:sha256:'' @ digest)"

text \<open>\<open>PurePosixPath(urlsplit(uri).path).name.strip()\<close>: the last segment that is not empty or a dot.\<close>

definition artifact_name :: "pystr \<Rightarrow> exc + pystr option" where
  "artifact_name u =
    (case urlsplit u of
       None \<Rightarrow> Inl (ValueError ''Invalid URL'')
     | Some parsed \<Rightarrow>
         let parts = filter (\<lambda>p. p \<noteq> [] \<and> p \<noteq> ''.'') (split_on CHR ''/'' (sp_path parsed));
             name = (if parts = [] then [] else strip (last parts))
         in Inr (if name = [] then None else Some name))"

end
