(* ===== verification/PolicyFinalization.thy ===== *)
theory PolicyFinalization imports HttpResponses Stores begin

text \<open>
  \<open>domain/policy_fetch_finalization.py\<close>, the durable intent of one policy fetch, and
  \<open>infrastructure/storage/json_policy_fetch_finalization_repository.py\<close>, the journal
  \<open>{"schema_version": 1, "finalizations": {id: record}}\<close> it is written to before the outputs of the
  fetch and deleted from after them.
\<close>

section \<open>The record\<close>

record finalization =
  pf_checkpoint_id :: uuid
  pf_requested_uri :: pystr
  pf_artifact_sha256 :: pystr
  pf_observation_id :: uuid
  pf_response :: snapshot

definition policy_fetch_finalization_id :: "uuid \<Rightarrow> pystr \<Rightarrow> exc + uuid" where
  "policy_fetch_finalization_id cid requested_uri =
    bindE (normalize_http_uri requested_uri ''policy finalization requested URI'') (\<lambda>u.
    Inr (uuid5 NAMESPACE_URL (''tarkka:'' @ uuid_str cid @ '':policy-finalization:'' @ u)))"

definition mk_finalization :: "finalization \<Rightarrow> exc + finalization" where
  "mk_finalization v =
    bindE (normalize_http_uri (pf_requested_uri v) ''policy finalization requested URI'') (\<lambda>requested.
    bindE (check (requested = sn_requested_uri (pf_response v))
             (ValueError ''policy finalization response must match requested URI'')) (\<lambda>_.
    bindE (check (is_lower_sha256 (pf_artifact_sha256 v))
             (ValueError ''policy finalization artifact_sha256 must be lowercase SHA-256'')) (\<lambda>_.
    bindE (to_source_observation (pf_response v) (artifact_id_of (pf_artifact_sha256 v))) (\<lambda>expected.
    bindE (check (ob_id expected = pf_observation_id v)
             (ValueError ''policy finalization observation identity is inconsistent'')) (\<lambda>_.
    Inr (v\<lparr>pf_requested_uri := requested\<rparr>))))))"

definition finalization_id :: "finalization \<Rightarrow> exc + uuid" where
  "finalization_id v = policy_fetch_finalization_id (pf_checkpoint_id v) (pf_requested_uri v)"

section \<open>Documents\<close>

definition jstrs :: "pystr list \<Rightarrow> json" where
  "jstrs vs = JList (map JStr vs)"

definition finalization_to_dict :: "finalization \<Rightarrow> json" where
  "finalization_to_dict v = (let r = pf_response v in JObj
    [(''checkpoint_id'', JStr (uuid_str (pf_checkpoint_id v))),
     (''requested_uri'', JStr (pf_requested_uri v)),
     (''artifact_sha256'', JStr (pf_artifact_sha256 v)),
     (''observation_id'', JStr (uuid_str (pf_observation_id v))),
     (''response'', JObj
       [(''requested_uri'', JStr (sn_requested_uri r)),
        (''final_uri'', JStr (sn_final_uri r)),
        (''status_code'', JInt (sn_status_code r)),
        (''headers'', JObj (map (\<lambda>(n, vs). (n, jstrs vs)) (sn_headers r))),
        (''redirect_chain'', jstrs (sn_redirect_chain r)),
        (''depth'', JInt (sn_depth r)),
        (''observed_at'', JTime (sn_observed_at r))])])"

definition read_strs :: "json \<Rightarrow> exc + pystr list" where
  "read_strs j = bindE (jlist j) (mapM jstr)"

definition response_from_dict :: "json \<Rightarrow> exc + snapshot" where
  "response_from_dict raw =
    bindE (check (is_object raw) (ValueError ''response must be an object'')) (\<lambda>_.
    bindE (jitem raw ''headers'') (\<lambda>headers_raw.
    bindE (check (is_object headers_raw) (ValueError ''response headers must be an object'')) (\<lambda>_.
    bindE (bindE (jitem raw ''requested_uri'') jstr) (\<lambda>requested.
    bindE (bindE (jitem raw ''final_uri'') jstr) (\<lambda>final.
    bindE (bindE (jitem raw ''status_code'') jint) (\<lambda>status.
    bindE (mapM (\<lambda>(n, vs). bindE (read_strs vs) (\<lambda>strs. Inr (n, strs))) (entries headers_raw)) (\<lambda>hs.
    bindE (bindE (jitem raw ''redirect_chain'') read_strs) (\<lambda>redirects.
    bindE (bindE (jitem raw ''depth'') jint) (\<lambda>d.
    bindE (bindE (jitem raw ''observed_at'') jtime) (\<lambda>observed.
    mk_snapshot \<lparr>sn_requested_uri = requested, sn_final_uri = final, sn_status_code = status,
      sn_headers = hs, sn_redirect_chain = redirects, sn_depth = d, sn_observed_at = observed\<rparr>))))))))))"

definition finalization_from_dict :: "json \<Rightarrow> exc + finalization" where
  "finalization_from_dict raw =
    bindE (check (is_object raw) (RuntimeError ''invalid policy finalization record'')) (\<lambda>_.
    as_runtime ''invalid policy finalization record''
     (bindE (bindE (jitem raw ''response'') response_from_dict) (\<lambda>response.
      bindE (bindE (jitem raw ''checkpoint_id'') juuid) (\<lambda>cid.
      bindE (bindE (jitem raw ''requested_uri'') jstr) (\<lambda>requested.
      bindE (bindE (jitem raw ''artifact_sha256'') jstr) (\<lambda>artifact.
      bindE (bindE (jitem raw ''observation_id'') juuid) (\<lambda>observation.
      mk_finalization \<lparr>pf_checkpoint_id = cid, pf_requested_uri = requested,
        pf_artifact_sha256 = artifact, pf_observation_id = observation, pf_response = response\<rparr>)))))))"

section \<open>The journal\<close>

definition init_journal :: "json_file \<Rightarrow> json_file" where
  "init_journal f = (if f = Missing then empty_document ''finalizations'' else f)"

definition read_journal :: "json_file \<Rightarrow> exc + (pystr \<times> json) list" where
  "read_journal f = read_document ''policy finalization journal'' ''finalizations'' f"

definition journal_conflict :: "pystr \<Rightarrow> exc" where
  "journal_conflict message = OtherError ''PolicyFetchFinalizationConflictError'' message"

definition journal_save :: "json_file \<Rightarrow> finalization \<Rightarrow> exc + json_file" where
  "journal_save f v =
    bindE (finalization_id v) (\<lambda>fid.
    bindE (read_journal f) (\<lambda>data.
    let bucket = json_bucket data ''finalizations'' in
    case bucket_get bucket (uuid_str fid) of
      Some existing \<Rightarrow>
        if json_eq existing (finalization_to_dict v) then Inr f
        else Inl (journal_conflict ''conflicting policy fetch finalization already exists'')
    | None \<Rightarrow>
        Inr (set_bucket data ''finalizations'' (jset bucket (uuid_str fid) (finalization_to_dict v)))))"

definition journal_lookup :: "json_file \<Rightarrow> uuid \<Rightarrow> exc + finalization option" where
  "journal_lookup f fid =
    bindE (read_journal f) (\<lambda>data.
    case bucket_get (json_bucket data ''finalizations'') (uuid_str fid) of
      None \<Rightarrow> Inr None
    | Some payload \<Rightarrow> bindE (finalization_from_dict payload) (\<lambda>v. Inr (Some v)))"

definition journal_get :: "json_file \<Rightarrow> uuid \<Rightarrow> pystr \<Rightarrow> exc + finalization option" where
  "journal_get f cid requested_uri =
    bindE (policy_fetch_finalization_id cid requested_uri) (journal_lookup f)"

definition journal_delete :: "json_file \<Rightarrow> finalization \<Rightarrow> exc + json_file" where
  "journal_delete f v =
    bindE (finalization_id v) (\<lambda>fid.
    bindE (read_journal f) (\<lambda>data.
    let bucket = json_bucket data ''finalizations'' in
    case bucket_get bucket (uuid_str fid) of
      None \<Rightarrow> Inr f
    | Some current \<Rightarrow>
        if json_eq current (finalization_to_dict v)
        then Inr (set_bucket data ''finalizations'' (jdel bucket (uuid_str fid)))
        else Inl (journal_conflict ''policy fetch finalization changed before deletion'')))"

section \<open>Reading back\<close>

text \<open>A record whose parts are fixed points of their constructors: what the program itself stores.\<close>

definition finalization_ok :: "finalization \<Rightarrow> bool" where
  "finalization_ok v \<longleftrightarrow> mk_finalization v = Inr v \<and> mk_snapshot (pf_response v) = Inr (pf_response v)"

lemma read_strs_jstrs [simp]: "read_strs (jstrs vs) = Inr vs"
  by (simp add: read_strs_def jstrs_def mapM_map_id)

lemma read_headers:
  "mapM (\<lambda>(n, vs). bindE (read_strs vs) (\<lambda>strs. Inr (n, strs))) (map (\<lambda>(n, vs). (n, jstrs vs)) hs) = Inr hs"
  by (rule mapM_map_id) auto

lemma snapshot_eta:
  "\<lparr>sn_requested_uri = sn_requested_uri r, sn_final_uri = sn_final_uri r, sn_status_code = sn_status_code r,
    sn_headers = sn_headers r, sn_redirect_chain = sn_redirect_chain r, sn_depth = sn_depth r,
    sn_observed_at = sn_observed_at r\<rparr> = r"
  by simp

lemma finalization_eta:
  "\<lparr>pf_checkpoint_id = pf_checkpoint_id v, pf_requested_uri = pf_requested_uri v,
    pf_artifact_sha256 = pf_artifact_sha256 v, pf_observation_id = pf_observation_id v,
    pf_response = pf_response v\<rparr> = v"
  by simp

lemma finalization_from_to_dict:
  "finalization_ok v \<Longrightarrow> finalization_from_dict (finalization_to_dict v) = Inr v"
  by (simp add: finalization_from_dict_def response_from_dict_def finalization_to_dict_def Let_def jitem_def
      finalization_ok_def read_headers snapshot_eta finalization_eta
      del: snapshot.surjective finalization.surjective)

definition journal_readable :: "json_file \<Rightarrow> bool" where
  "journal_readable f \<longleftrightarrow> isOk (read_journal f)"

definition journal_key :: "finalization \<Rightarrow> uuid" where
  "journal_key v =
    uuid5 NAMESPACE_URL (''tarkka:'' @ uuid_str (pf_checkpoint_id v) @ '':policy-finalization:'' @ pf_requested_uri v)"

lemma finalization_ok_uri:
  "finalization_ok v \<Longrightarrow>
    normalize_http_uri (pf_requested_uri v) ''policy finalization requested URI'' = Inr (pf_requested_uri v)"
proof -
  assume "finalization_ok v"
  then obtain u where "normalize_http_uri (pf_requested_uri v) ''policy finalization requested URI'' = Inr u"
    and "v\<lparr>pf_requested_uri := u\<rparr> = v"
    by (auto simp: finalization_ok_def mk_finalization_def res_simps)
  then show ?thesis by (metis finalization.select_convs(2) finalization.surjective finalization.update_convs(2))
qed

lemma finalization_id_ok: "finalization_ok v \<Longrightarrow> finalization_id v = Inr (journal_key v)"
  by (simp add: finalization_ok_uri finalization_id_def policy_fetch_finalization_id_def journal_key_def)

lemma finalization_ok_headers: "finalization_ok v \<Longrightarrow> distinct (map fst (sn_headers (pf_response v)))"
  using mk_snapshot_Inr[of "pf_response v" "pf_response v"] normalize_headers_names
  by (fastforce simp: finalization_ok_def)

lemma finalization_to_dict_eq: "finalization_ok v \<Longrightarrow> json_eq (finalization_to_dict v) (finalization_to_dict v)"
proof (rule json_eq_refl)
  assume "finalization_ok v"
  then have "distinct (map fst (map (\<lambda>(n, vs). (n, jstrs vs)) (sn_headers (pf_response v))))"
    using finalization_ok_headers by (simp add: comp_def case_prod_beta)
  then show "json_wf (finalization_to_dict v)"
    by (simp add: finalization_to_dict_def Let_def jstrs_def list_all_iff case_prod_beta)
qed

lemma set_bucket_readable:
  assumes "read_journal f = Inr data"
  shows "\<exists>data'. read_journal (set_bucket data ''finalizations'' b) = Inr data' \<and>
    json_bucket data' ''finalizations'' = b"
  using read_set_bucket[OF assms[unfolded read_journal_def]] by (simp add: read_journal_def)

lemma journal_lookup_None:
  assumes "journal_lookup f k = Inr None"
  shows "\<exists>data. read_journal f = Inr data \<and> bucket_get (json_bucket data ''finalizations'') (uuid_str k) = None"
  using assms by (auto simp: journal_lookup_def res_simps split: option.splits)

lemma journal_save_new:
  assumes "finalization_ok v" "journal_lookup f (journal_key v) = Inr None"
  shows "\<exists>f'. journal_save f v = Inr f' \<and> journal_readable f' \<and>
    (\<forall>k. journal_lookup f' k = (if k = journal_key v then Inr (Some v) else journal_lookup f k))"
proof -
  obtain data where d: "read_journal f = Inr data"
    "bucket_get (json_bucket data ''finalizations'') (uuid_str (journal_key v)) = None"
    using journal_lookup_None[OF assms(2)] by blast
  let ?f = "set_bucket data ''finalizations''
    (jset (json_bucket data ''finalizations'') (uuid_str (journal_key v)) (finalization_to_dict v))"
  have "journal_save f v = Inr ?f"
    by (simp add: journal_save_def finalization_id_ok[OF assms(1)] d)
  moreover have "finalization_to_dict v \<noteq> JNull" by (simp add: finalization_to_dict_def Let_def)
  moreover obtain data' where "read_journal ?f = Inr data'" "json_bucket data' ''finalizations'' =
      jset (json_bucket data ''finalizations'') (uuid_str (journal_key v)) (finalization_to_dict v)"
    using set_bucket_readable[OF d(1)] by blast
  ultimately show ?thesis
    using finalization_from_to_dict[OF assms(1)] d(1) by (simp add: journal_readable_def journal_lookup_def)
qed

text \<open>Whatever happened before, an accepted deletion leaves the slot empty and the others as they were.\<close>

lemma journal_delete_lookup:
  assumes "finalization_ok v" "journal_delete f v = Inr f'"
  shows "journal_readable f' \<and>
    (\<forall>k. journal_lookup f' k = (if k = journal_key v then Inr None else journal_lookup f k))"
proof -
  obtain data where d: "read_journal f = Inr data"
    using assms finalization_id_ok by (auto simp: journal_delete_def res_simps)
  show ?thesis
  proof (cases "bucket_get (json_bucket data ''finalizations'') (uuid_str (journal_key v))")
    case None
    then show ?thesis using assms d
      by (auto simp: journal_delete_def finalization_id_ok journal_readable_def journal_lookup_def)
  next
    case (Some current)
    let ?b = "jdel (json_bucket data ''finalizations'') (uuid_str (journal_key v))"
    have "f' = set_bucket data ''finalizations'' ?b"
      using Some assms d by (auto simp: journal_delete_def finalization_id_ok split: if_splits)
    moreover obtain data' where "read_journal (set_bucket data ''finalizations'' ?b) = Inr data'"
        "json_bucket data' ''finalizations'' = ?b"
      using set_bucket_readable[OF d] by blast
    ultimately show ?thesis using d by (simp add: journal_readable_def journal_lookup_def)
  qed
qed

lemma journal_delete_saved:
  assumes "finalization_ok v" "journal_lookup f (journal_key v) = Inr None" "journal_save f v = Inr f'"
  shows "\<exists>f''. journal_delete f' v = Inr f''"
proof -
  obtain data where d: "read_journal f = Inr data"
    "bucket_get (json_bucket data ''finalizations'') (uuid_str (journal_key v)) = None"
    using journal_lookup_None[OF assms(2)] by blast
  let ?b = "jset (json_bucket data ''finalizations'') (uuid_str (journal_key v)) (finalization_to_dict v)"
  have "f' = set_bucket data ''finalizations'' ?b"
    using assms(3) by (simp add: journal_save_def finalization_id_ok[OF assms(1)] d)
  moreover obtain data' where "read_journal (set_bucket data ''finalizations'' ?b) = Inr data'"
      "json_bucket data' ''finalizations'' = ?b"
    using set_bucket_readable[OF d(1)] by blast
  moreover have "finalization_to_dict v \<noteq> JNull" by (simp add: finalization_to_dict_def Let_def)
  ultimately show ?thesis
    using finalization_to_dict_eq[OF assms(1)] by (simp add: journal_delete_def finalization_id_ok[OF assms(1)])
qed

section \<open>Properties\<close>

text \<open>
  the intent of a policy fetch survives a restart exactly: saved into a free slot of the journal it
  reads back with every field, saving it again changes nothing, deleting it succeeds and leaves the
  journal as it was before, for every slot.
\<close>

theorem journal_roundtrip:
  assumes "finalization_ok v" and "journal_lookup f (journal_key v) = Inr None"
  shows "\<exists>f1 f2. journal_save f v = Inr f1 \<and>
    journal_get f1 (pf_checkpoint_id v) (pf_requested_uri v) = Inr (Some v) \<and>
    journal_save f1 v = Inr f1 \<and>
    journal_delete f1 v = Inr f2 \<and> (\<forall>k. journal_lookup f2 k = journal_lookup f k)"
proof -
  obtain f1 where f1: "journal_save f v = Inr f1"
    "\<forall>k. journal_lookup f1 k = (if k = journal_key v then Inr (Some v) else journal_lookup f k)"
    using journal_save_new[OF assms] by blast
  obtain f2 where f2: "journal_delete f1 v = Inr f2"
    using journal_delete_saved[OF assms f1(1)] by blast
  have g: "journal_get f1 (pf_checkpoint_id v) (pf_requested_uri v) = Inr (Some v)"
    using f1(2) finalization_id_ok[OF assms(1)] by (simp add: journal_get_def finalization_id_def)
  have "journal_save f1 v = Inr f1"
    using f2 finalization_id_ok[OF assms(1)] f1(2)[rule_format, of "journal_key v"]
    by (auto simp: journal_delete_def journal_save_def journal_lookup_def res_simps split: option.splits if_splits)
  with f1 f2 g journal_delete_lookup[OF assms(1) f2] assms(2) show ?thesis by auto
qed

definition demo_snapshot :: snapshot where
  "demo_snapshot =
    \<lparr>sn_requested_uri = ''https://a.org/robots.txt'', sn_final_uri = ''https://a.org/robots.txt'',
     sn_status_code = 200, sn_headers = [(''etag'', [''x''])], sn_redirect_chain = [], sn_depth = 0,
     sn_observed_at = Aware 0 0\<rparr>"

definition demo_digest :: pystr where
  "demo_digest = replicate 64 CHR ''a''"

definition demo_finalization :: finalization where
  "demo_finalization =
    \<lparr>pf_checkpoint_id = 1, pf_requested_uri = ''https://a.org/robots.txt'', pf_artifact_sha256 = demo_digest,
     pf_observation_id = uuid5 NAMESPACE_URL
       (''tarkka:http:'' @ fingerprint demo_snapshot (artifact_id_of demo_digest)),
     pf_response = demo_snapshot\<rparr>"

lemma demo_robots_uri: "normalize_http_uri ''https://a.org/robots.txt'' n = Inr ''https://a.org/robots.txt''"
  by (rule normalize_http_uri_name[of _ "''x''"]) code_simp

lemma demo_snapshot_fixed: "mk_snapshot demo_snapshot = Inr demo_snapshot"
proof -
  have "normalize_headers ''HTTP'' (List.member SAFE_RESPONSE_HEADERS) [] [(''etag'', [''x''])] =
      Inr [(''etag'', [''x''])]"
    by code_simp
  then show ?thesis
    by (simp add: mk_snapshot_def demo_snapshot_def normalize_durable_http_uri_def demo_robots_uri)
qed

lemma demo_observation:
  "\<exists>ob. to_source_observation demo_snapshot aid = Inr ob \<and>
    ob_id ob = uuid5 NAMESPACE_URL (''tarkka:http:'' @ fingerprint demo_snapshot aid)"
proof -
  have "\<not> blank ''http''" "\<not> blank (sn_final_uri demo_snapshot)" "media_type demo_snapshot = None"
    "isOk (freeze (MObj (snapshot_metadata demo_snapshot)))"
    unfolding demo_snapshot_def by code_simp+
  then show ?thesis
    by (auto simp: to_source_observation_def mk_observation_def require_non_blank_def
        require_optional_non_blank_def isOk_iff)
qed

lemma demo_finalization_ok: "finalization_ok demo_finalization"
proof -
  have "is_lower_sha256 demo_digest" unfolding demo_digest_def by code_simp
  moreover have "pf_requested_uri demo_finalization = sn_requested_uri demo_snapshot"
    by (simp add: demo_finalization_def demo_snapshot_def)
  ultimately show ?thesis
    using demo_observation[of "artifact_id_of demo_digest"] demo_snapshot_fixed
      demo_robots_uri[of "''policy finalization requested URI''"]
    by (auto simp: finalization_ok_def mk_finalization_def demo_finalization_def demo_snapshot_def)
qed

theorem journal_roundtrip_witness:
  "\<exists>f1. journal_save (init_journal Missing) demo_finalization = Inr f1 \<and>
    journal_get f1 1 ''https://a.org/robots.txt'' = Inr (Some demo_finalization)"
proof -
  have "journal_lookup (init_journal Missing) (journal_key demo_finalization) = Inr None"
    by (simp add: init_journal_def journal_lookup_def read_journal_def read_document_def empty_document_def
        json_is_one_def json_bucket_def bucket_get_def)
  from journal_roundtrip[OF demo_finalization_ok this] show ?thesis
    by (auto simp: demo_finalization_def)
qed

end
