(* ===== verification/Traversal.thy ===== *)
theory Traversal imports ResourcePolicy begin

text \<open>
  \<open>domain/traversal.py\<close>: the resumable frontier of a bounded crawl. A target goes from queued to in
  progress, then to finalizing, completed or failed; the checkpoint holds the targets, in insertion
  order, and the acquisition counters. \<open>mk_target\<close> and \<open>mk_checkpoint\<close> are the validating
  constructors, which \<open>dataclasses.replace\<close> runs again on every update.
\<close>

datatype tstatus = QUEUED | IN_PROGRESS | FINALIZING | COMPLETED | FAILED | SKIPPED

record target =
  target_id :: uuid
  uri :: pystr
  depth :: int
  status :: tstatus
  attempts :: int
  bytes_acquired :: int
  discovery_link_ids :: "uuid list"
  parent_target_ids :: "uuid list"
  last_error :: "pystr option"
  final_artifact_sha256 :: "pystr option"
  final_observation_id :: "uuid option"

record checkpoint =
  checkpoint_id :: uuid
  targets :: "target list"
  cbudget :: budget

section \<open>Construction\<close>

definition require_depth :: "int \<Rightarrow> exc + unit" where
  "require_depth v = require_non_negative_int v ''traversal target depth''"

definition require_reason :: "pystr \<Rightarrow> pystr \<Rightarrow> exc + pystr" where
  "require_reason v field_name =
    bindE (check (\<not> blank v) (ValueError (field_name @ '' must be a non-blank string''))) (\<lambda>_.
    Inr (strip v))"

definition is_sha256 :: "pystr \<Rightarrow> bool" where
  "is_sha256 v \<longleftrightarrow> length v = 64 \<and> list_all is_lower_hex (lower v)"

definition require_sha256 :: "pystr \<Rightarrow> exc + unit" where
  "require_sha256 v =
    check (is_sha256 v)
      (ValueError ''traversal artifact SHA-256 must be a 64-character hexadecimal string'')"

definition mk_target :: "target \<Rightarrow> exc + target" where
  "mk_target t =
    bindE (normalize_durable_http_uri (uri t) ''traversal target URI'') (\<lambda>normalized_uri.
    bindE (require_depth (depth t)) (\<lambda>_.
    bindE (require_non_negative_int (attempts t) ''traversal target attempts'') (\<lambda>_.
    bindE (require_non_negative_int (bytes_acquired t) ''traversal target bytes_acquired'') (\<lambda>_.
    bindE (check (case last_error t of None \<Rightarrow> True | Some e \<Rightarrow> \<not> blank e)
             (ValueError ''traversal target last_error must be non-blank when provided'')) (\<lambda>_.
    bindE (if status t \<in> {FAILED, SKIPPED}
           then check (last_error t \<noteq> None)
                  (ValueError ''failed or skipped traversal targets require a reason'')
           else check (last_error t = None)
                  (ValueError ''only failed or skipped traversal targets may carry last_error'')) (\<lambda>_.
    bindE (check (\<not> (status t \<in> {IN_PROGRESS, FINALIZING, COMPLETED, FAILED} \<and> attempts t = 0))
             (ValueError ''attempted traversal target states require at least one attempt'')) (\<lambda>_.
    bindE (check ((final_artifact_sha256 t \<noteq> None) = (final_observation_id t \<noteq> None))
             (ValueError ''traversal finalization identifiers must be provided together'')) (\<lambda>_.
    bindE (check (\<not> (status t = FINALIZING \<and> final_artifact_sha256 t = None))
             (ValueError ''finalizing traversal targets require output identifiers'')) (\<lambda>_.
    bindE (check (\<not> (status t \<notin> {FINALIZING, COMPLETED} \<and> final_artifact_sha256 t \<noteq> None))
             (ValueError ''only finalizing or completed targets may carry output identifiers'')) (\<lambda>_.
    bindE (case final_artifact_sha256 t of None \<Rightarrow> Inr () | Some a \<Rightarrow> require_sha256 a) (\<lambda>_.
    bindE (check (\<not> List.member (uniq (parent_target_ids t)) (target_id t))
             (ValueError ''traversal target cannot be its own parent'')) (\<lambda>_.
    Inr (t\<lparr>uri := normalized_uri, discovery_link_ids := uniq (discovery_link_ids t),
           parent_target_ids := uniq (parent_target_ids t)\<rparr>)))))))))))))"

definition mk_checkpoint :: "checkpoint \<Rightarrow> exc + checkpoint" where
  "mk_checkpoint c =
    bindE (check (distinct (map target_id (targets c)))
             (ValueError ''traversal checkpoint target IDs must be unique'')) (\<lambda>_.
    bindE (check (distinct (map uri (targets c)))
             (ValueError ''traversal checkpoint target URIs must be unique'')) (\<lambda>_.
    bindE (check (list_all (\<lambda>t. list_all (List.member (map target_id (targets c))) (parent_target_ids t))
                    (targets c))
             (ValueError ''traversal checkpoint parent targets must exist'')) (\<lambda>_.
    Inr c)))"

definition new_target_id :: "uuid \<Rightarrow> pystr \<Rightarrow> uuid" where
  "new_target_id cid u =
    uuid5 NAMESPACE_URL (''tarkka:'' @ uuid_str cid @ '':traversal-target:'' @ u)"

definition append_uuid :: "uuid list \<Rightarrow> uuid option \<Rightarrow> uuid list" where
  "append_uuid vs v =
    (case v of None \<Rightarrow> vs | Some u \<Rightarrow> if List.member vs u then vs else vs @ [u])"

definition option_list :: "'a option \<Rightarrow> 'a list" where
  "option_list x = (case x of None \<Rightarrow> [] | Some v \<Rightarrow> [v])"

definition find_target :: "checkpoint \<Rightarrow> uuid \<Rightarrow> target option" where
  "find_target c tid = find (\<lambda>t. target_id t = tid) (targets c)"

definition require_target :: "checkpoint \<Rightarrow> uuid \<Rightarrow> exc + target" where
  "require_target c tid =
    (case find_target c tid of
       None \<Rightarrow> Inl (ValueError ''traversal target does not exist in the checkpoint'')
     | Some t \<Rightarrow> Inr t)"

definition replace_target :: "checkpoint \<Rightarrow> target \<Rightarrow> exc + checkpoint" where
  "replace_target c updated =
    mk_checkpoint (c\<lparr>targets := replace_by target_id updated (targets c)\<rparr>)"

definition require_monotonic_elapsed :: "pyfloat \<Rightarrow> rat \<Rightarrow> exc + unit" where
  "require_monotonic_elapsed v previous =
    bindE (mk_budget 0 0 v) (\<lambda>state.
    check (\<not> elapsed_seconds state < previous)
      (ValueError ''traversal elapsed_seconds must not move backwards''))"

definition with_budget :: "checkpoint \<Rightarrow> budget \<Rightarrow> exc + checkpoint" where
  "with_budget c b = mk_checkpoint (c\<lparr>cbudget := b\<rparr>)"

section \<open>Operations\<close>

definition enqueue :: "checkpoint \<Rightarrow> pystr \<Rightarrow> int \<Rightarrow> uuid option \<Rightarrow> uuid option \<Rightarrow> exc + checkpoint" where
  "enqueue c u d link parent =
    bindE (normalize_durable_http_uri u ''traversal target URI'') (\<lambda>normalized_uri.
    bindE (require_depth d) (\<lambda>_.
    bindE (check (case parent of None \<Rightarrow> True | Some p \<Rightarrow> find_target c p \<noteq> None)
             (ValueError ''parent traversal target must already exist in the checkpoint'')) (\<lambda>_.
    case find (\<lambda>t. uri t = normalized_uri) (targets c) of
      Some existing \<Rightarrow>
        bindE (check (parent \<noteq> Some (target_id existing))
                 (ValueError ''traversal target cannot be its own parent'')) (\<lambda>_.
        bindE (mk_target (existing\<lparr>
                 depth := (if status existing = QUEUED then min (depth existing) d else depth existing),
                 discovery_link_ids := append_uuid (discovery_link_ids existing) link,
                 parent_target_ids := append_uuid (parent_target_ids existing) parent\<rparr>)) (\<lambda>updated.
        replace_target c updated))
    | None \<Rightarrow>
        let tid = new_target_id (checkpoint_id c) normalized_uri in
        bindE (check (parent \<noteq> Some tid)
                 (ValueError ''traversal target cannot be its own parent'')) (\<lambda>_.
        bindE (mk_target \<lparr>target_id = tid, uri = normalized_uri, depth = d, status = QUEUED,
                 attempts = 0, bytes_acquired = 0, discovery_link_ids = option_list link,
                 parent_target_ids = option_list parent, last_error = None,
                 final_artifact_sha256 = None, final_observation_id = None\<rparr>) (\<lambda>t.
        mk_checkpoint (c\<lparr>targets := targets c @ [t]\<rparr>))))))"

fun next_eligible_in :: "target list \<Rightarrow> budget \<Rightarrow> policy \<Rightarrow> pyfloat option \<Rightarrow> exc + target option" where
  "next_eligible_in [] b p since = Inr None"
| "next_eligible_in (t # ts) b p since =
    (if status t \<noteq> QUEUED then next_eligible_in ts b p since
     else if \<not> allows_uri p (uri t) then next_eligible_in ts b p since
     else bindE (allows_request b p (depth t) 0 since) (\<lambda>ok.
          if ok then Inr (Some t) else next_eligible_in ts b p since))"

definition next_eligible :: "checkpoint \<Rightarrow> policy \<Rightarrow> pyfloat option \<Rightarrow> exc + target option" where
  "next_eligible c p since = next_eligible_in (targets c) (cbudget c) p since"

definition start :: "checkpoint \<Rightarrow> uuid \<Rightarrow> policy \<Rightarrow> pyfloat option \<Rightarrow> exc + checkpoint" where
  "start c tid p since =
    bindE (require_target c tid) (\<lambda>t.
    bindE (check (status t = QUEUED) (ValueError ''only queued traversal targets may be started'')) (\<lambda>_.
    bindE (if \<not> allows_uri p (uri t) then Inr False
           else allows_request (cbudget c) p (depth t) 0 since) (\<lambda>eligible.
    bindE (check eligible
             (ValueError ''traversal target is not eligible under the acquisition policy'')) (\<lambda>_.
    bindE (mk_target (t\<lparr>status := IN_PROGRESS, attempts := attempts t + 1, last_error := None,
             final_artifact_sha256 := None, final_observation_id := None\<rparr>)) (\<lambda>updated.
    bindE (mk_budget (requests_used (cbudget c) + 1) (bytes_used (cbudget c))
             (Fin (elapsed_seconds (cbudget c)))) (\<lambda>b.
    bindE (replace_target c updated) (\<lambda>c'. with_budget c' b)))))))"

definition record_followup_request ::
  "checkpoint \<Rightarrow> uuid \<Rightarrow> policy \<Rightarrow> int \<Rightarrow> pyfloat option \<Rightarrow> exc + checkpoint" where
  "record_followup_request c tid p expected since =
    bindE (require_target c tid) (\<lambda>t.
    bindE (check (status t = IN_PROGRESS)
             (ValueError ''follow-up requests require an in-progress traversal target'')) (\<lambda>_.
    bindE (allows_request (cbudget c) p (depth t) expected since) (\<lambda>ok.
    bindE (check ok (ValueError ''follow-up request exceeds the acquisition budget'')) (\<lambda>_.
    bindE (mk_budget (requests_used (cbudget c) + 1) (bytes_used (cbudget c))
             (Fin (elapsed_seconds (cbudget c)))) (\<lambda>b.
    with_budget c b)))))"

definition record_response_bytes :: "checkpoint \<Rightarrow> uuid \<Rightarrow> int \<Rightarrow> exc + checkpoint" where
  "record_response_bytes c tid n =
    bindE (require_target c tid) (\<lambda>t.
    bindE (check (status t = IN_PROGRESS)
             (ValueError ''response byte accounting requires an in-progress target'')) (\<lambda>_.
    bindE (require_non_negative_int n ''response bytes_acquired'') (\<lambda>_.
    bindE (mk_target (t\<lparr>bytes_acquired := bytes_acquired t + n\<rparr>)) (\<lambda>updated.
    bindE (replace_target c updated) (\<lambda>c'.
    bindE (mk_budget (requests_used (cbudget c)) (bytes_used (cbudget c) + n)
             (Fin (elapsed_seconds (cbudget c)))) (\<lambda>b.
    with_budget c' b))))))"

definition begin_finalization ::
  "checkpoint \<Rightarrow> uuid \<Rightarrow> pystr \<Rightarrow> uuid \<Rightarrow> pyfloat \<Rightarrow> exc + checkpoint" where
  "begin_finalization c tid artifact observation elapsed =
    bindE (require_target c tid) (\<lambda>t.
    bindE (check (status t = IN_PROGRESS)
             (ValueError ''only in-progress traversal targets may begin finalization'')) (\<lambda>_.
    bindE (require_sha256 artifact) (\<lambda>_.
    bindE (require_monotonic_elapsed elapsed (elapsed_seconds (cbudget c))) (\<lambda>_.
    bindE (mk_target (t\<lparr>status := FINALIZING, final_artifact_sha256 := Some artifact,
             final_observation_id := Some observation\<rparr>)) (\<lambda>updated.
    bindE (replace_target c updated) (\<lambda>c'.
    bindE (mk_budget (requests_used (cbudget c)) (bytes_used (cbudget c)) elapsed) (\<lambda>b.
    with_budget c' b)))))))"

definition complete_finalization :: "checkpoint \<Rightarrow> uuid \<Rightarrow> pyfloat \<Rightarrow> exc + checkpoint" where
  "complete_finalization c tid elapsed =
    bindE (require_target c tid) (\<lambda>t.
    bindE (check (status t = FINALIZING)
             (ValueError ''only finalizing traversal targets may be completed'')) (\<lambda>_.
    bindE (require_monotonic_elapsed elapsed (elapsed_seconds (cbudget c))) (\<lambda>_.
    bindE (mk_target (t\<lparr>status := COMPLETED\<rparr>)) (\<lambda>updated.
    bindE (replace_target c updated) (\<lambda>c'.
    bindE (mk_budget (requests_used (cbudget c)) (bytes_used (cbudget c)) elapsed) (\<lambda>b.
    with_budget c' b))))))"

definition complete :: "checkpoint \<Rightarrow> uuid \<Rightarrow> int \<Rightarrow> pyfloat \<Rightarrow> exc + checkpoint" where
  "complete c tid n elapsed =
    bindE (require_target c tid) (\<lambda>t.
    bindE (check (status t = IN_PROGRESS)
             (ValueError ''only in-progress traversal targets may be completed'')) (\<lambda>_.
    bindE (require_non_negative_int n ''completed bytes_acquired'') (\<lambda>_.
    bindE (require_monotonic_elapsed elapsed (elapsed_seconds (cbudget c))) (\<lambda>_.
    bindE (mk_target (t\<lparr>status := COMPLETED, bytes_acquired := bytes_acquired t + n,
             last_error := None\<rparr>)) (\<lambda>updated.
    bindE (replace_target c updated) (\<lambda>c'.
    bindE (mk_budget (requests_used (cbudget c)) (bytes_used (cbudget c) + n) elapsed) (\<lambda>b.
    with_budget c' b)))))))"

definition fail :: "checkpoint \<Rightarrow> uuid \<Rightarrow> pystr \<Rightarrow> pyfloat \<Rightarrow> int \<Rightarrow> exc + checkpoint" where
  "fail c tid error elapsed n =
    bindE (require_target c tid) (\<lambda>t.
    bindE (check (status t = IN_PROGRESS)
             (ValueError ''only in-progress traversal targets may fail'')) (\<lambda>_.
    bindE (require_reason error ''traversal failure error'') (\<lambda>reason.
    bindE (require_non_negative_int n ''failed bytes_acquired'') (\<lambda>_.
    bindE (require_monotonic_elapsed elapsed (elapsed_seconds (cbudget c))) (\<lambda>_.
    bindE (mk_target (t\<lparr>status := FAILED, bytes_acquired := bytes_acquired t + n,
             last_error := Some reason\<rparr>)) (\<lambda>updated.
    bindE (replace_target c updated) (\<lambda>c'.
    bindE (mk_budget (requests_used (cbudget c)) (bytes_used (cbudget c) + n) elapsed) (\<lambda>b.
    with_budget c' b))))))))"

definition recover_target :: "pystr \<Rightarrow> target \<Rightarrow> exc + target" where
  "recover_target reason t =
    (if status t = IN_PROGRESS then mk_target (t\<lparr>status := FAILED, last_error := Some reason\<rparr>)
     else Inr t)"

definition recover_interrupted :: "checkpoint \<Rightarrow> pystr \<Rightarrow> exc + checkpoint" where
  "recover_interrupted c reason =
    bindE (require_reason reason ''interrupted traversal reason'') (\<lambda>normalized_reason.
    bindE (mapM (recover_target normalized_reason) (targets c)) (\<lambda>ts.
    mk_checkpoint (c\<lparr>targets := ts\<rparr>)))"

definition requeue_failed :: "checkpoint \<Rightarrow> uuid \<Rightarrow> policy \<Rightarrow> exc + checkpoint" where
  "requeue_failed c tid p =
    bindE (require_target c tid) (\<lambda>t.
    bindE (check (status t = FAILED) (ValueError ''only failed traversal targets may be requeued'')) (\<lambda>_.
    bindE (allows_retry p (max (attempts t - 1) 0)) (\<lambda>ok.
    bindE (check ok (ValueError ''traversal retry budget is exhausted'')) (\<lambda>_.
    bindE (mk_target (t\<lparr>status := QUEUED, last_error := None\<rparr>)) (\<lambda>updated.
    replace_target c updated)))))"

definition skip :: "checkpoint \<Rightarrow> uuid \<Rightarrow> pystr \<Rightarrow> exc + checkpoint" where
  "skip c tid reason =
    bindE (require_target c tid) (\<lambda>t.
    bindE (check (status t = QUEUED) (ValueError ''only queued traversal targets may be skipped'')) (\<lambda>_.
    bindE (require_reason reason ''traversal skip reason'') (\<lambda>normalized_reason.
    bindE (mk_target (t\<lparr>status := SKIPPED, last_error := Some normalized_reason\<rparr>)) (\<lambda>updated.
    replace_target c updated))))"

section \<open>Well-formed targets and checkpoints\<close>

definition target_ok :: "target \<Rightarrow> bool" where
  "target_ok t \<longleftrightarrow>
    0 \<le> depth t \<and> 0 \<le> attempts t \<and> 0 \<le> bytes_acquired t \<and>
    (last_error t \<noteq> None \<longleftrightarrow> status t \<in> {FAILED, SKIPPED}) \<and>
    (\<forall>e. last_error t = Some e \<longrightarrow> \<not> blank e) \<and>
    (status t \<in> {IN_PROGRESS, FINALIZING, COMPLETED, FAILED} \<longrightarrow> 1 \<le> attempts t) \<and>
    (final_artifact_sha256 t \<noteq> None \<longleftrightarrow> final_observation_id t \<noteq> None) \<and>
    (status t = FINALIZING \<longrightarrow> final_artifact_sha256 t \<noteq> None) \<and>
    (final_artifact_sha256 t \<noteq> None \<longrightarrow> status t \<in> {FINALIZING, COMPLETED}) \<and>
    (\<forall>a. final_artifact_sha256 t = Some a \<longrightarrow> is_sha256 a) \<and>
    distinct (discovery_link_ids t) \<and> distinct (parent_target_ids t) \<and>
    target_id t \<notin> set (parent_target_ids t) \<and>
    (\<exists>u. normalize_durable_http_uri u ''traversal target URI'' = Inr (uri t))"

definition checkpoint_ok :: "checkpoint \<Rightarrow> bool" where
  "checkpoint_ok c \<longleftrightarrow>
    (\<forall>t \<in> set (targets c). target_ok t \<and> set (parent_target_ids t) \<subseteq> target_id ` set (targets c)) \<and>
    distinct (map target_id (targets c)) \<and> distinct (map uri (targets c)) \<and>
    budget_ok (cbudget c)"

lemma mk_target_Inr:
  assumes "mk_target r = Inr t"
  shows "target_ok t \<and> target_id t = target_id r \<and> depth t = depth r \<and> status t = status r \<and>
    attempts t = attempts r \<and> bytes_acquired t = bytes_acquired r \<and> last_error t = last_error r \<and>
    final_artifact_sha256 t = final_artifact_sha256 r \<and>
    final_observation_id t = final_observation_id r \<and>
    discovery_link_ids t = uniq (discovery_link_ids r) \<and>
    parent_target_ids t = uniq (parent_target_ids r) \<and>
    normalize_durable_http_uri (uri r) ''traversal target URI'' = Inr (uri t)"
proof -
  let ?R = "\<lambda>u. r\<lparr>uri := u, discovery_link_ids := uniq (discovery_link_ids r),
      parent_target_ids := uniq (parent_target_ids r)\<rparr>"
  obtain u where u: "normalize_durable_http_uri (uri r) ''traversal target URI'' = Inr u" "t = ?R u"
    using assms unfolding mk_target_def bindE_Inr_iff check_Inr_iff sum.inject by blast
  have "0 \<le> depth r" "0 \<le> attempts r" "0 \<le> bytes_acquired r"
    using assms by (auto simp: mk_target_def require_depth_def res_simps)
  moreover have "case last_error r of None \<Rightarrow> True | Some e \<Rightarrow> \<not> blank e"
    and err: "(if status r \<in> {FAILED, SKIPPED}
       then check (last_error r \<noteq> None)
              (ValueError ''failed or skipped traversal targets require a reason'')
       else check (last_error r = None)
              (ValueError ''only failed or skipped traversal targets may carry last_error'')) = Inr ()"
    using assms by (auto simp: mk_target_def res_simps)
  moreover have "\<not> (status r \<in> {IN_PROGRESS, FINALIZING, COMPLETED, FAILED} \<and> attempts r = 0)"
    and "(final_artifact_sha256 r \<noteq> None) = (final_observation_id r \<noteq> None)"
    and "\<not> (status r = FINALIZING \<and> final_artifact_sha256 r = None)"
    and "\<not> (status r \<notin> {FINALIZING, COMPLETED} \<and> final_artifact_sha256 r \<noteq> None)"
    using assms by (auto simp: mk_target_def res_simps)
  moreover have "(case final_artifact_sha256 r of None \<Rightarrow> Inr () | Some a \<Rightarrow> require_sha256 a) = Inr ()"
    and "\<not> List.member (uniq (parent_target_ids r)) (target_id r)"
    using assms by (auto simp: mk_target_def res_simps)
  moreover have "last_error r \<noteq> None \<longleftrightarrow> status r \<in> {FAILED, SKIPPED}"
    using err by (auto simp: res_simps split: if_splits)
  ultimately show ?thesis unfolding u(2) target_ok_def require_sha256_def
    using u(1) by (simp add: res_simps split: option.splits) auto
qed

lemmas mk_targetD = mk_target_Inr[THEN conjunct1] mk_target_Inr[THEN conjunct2]

lemma mk_checkpoint_Inr:
  "mk_checkpoint c = Inr c' \<longleftrightarrow>
    c' = c \<and> distinct (map target_id (targets c)) \<and> distinct (map uri (targets c)) \<and>
    (\<forall>t \<in> set (targets c). set (parent_target_ids t) \<subseteq> target_id ` set (targets c))"
  by (auto simp: mk_checkpoint_def res_simps list_all_iff subset_eq)

lemma checkpoint_okI:
  "mk_checkpoint c = Inr c' \<Longrightarrow> (\<And>t. t \<in> set (targets c) \<Longrightarrow> target_ok t) \<Longrightarrow> budget_ok (cbudget c) \<Longrightarrow>
    checkpoint_ok c'"
  by (auto simp: mk_checkpoint_Inr checkpoint_ok_def)

lemma require_target_Inr:
  "require_target c tid = Inr t \<longleftrightarrow> find (\<lambda>t. target_id t = tid) (targets c) = Some t"
  by (auto simp: require_target_def find_target_def split: option.splits)

lemma require_monotonic_Inr:
  "require_monotonic_elapsed v prev = Inr u \<longleftrightarrow> nonneg_float v \<and> prev \<le> float_val v"
  by (auto simp: require_monotonic_elapsed_def res_simps mk_budget_Inr)

text \<open>
  What the operations on one target have in common: a target \<open>t\<close> of the checkpoint is replaced by
  the valid target \<open>t'\<close> with the same identity, and the budget becomes \<open>b\<close>.
\<close>

definition updates :: "checkpoint \<Rightarrow> target \<Rightarrow> target \<Rightarrow> budget \<Rightarrow> checkpoint \<Rightarrow> bool" where
  "updates c t t' b c' \<longleftrightarrow>
    t \<in> set (targets c) \<and> target_id t' = target_id t \<and> target_ok t' \<and> budget_ok b \<and>
    mk_checkpoint c' = Inr c' \<and>
    c' = c\<lparr>targets := replace_by target_id t' (targets c), cbudget := b\<rparr>"

lemma updates_ok: "checkpoint_ok c \<Longrightarrow> updates c t t' b c' \<Longrightarrow> checkpoint_ok c'"
  using replace_by_memD[of _ target_id t' "targets c"]
  by (intro checkpoint_okI[where c = c']) (auto simp: updates_def checkpoint_ok_def)

lemma updates_sum:
  fixes f :: "target \<Rightarrow> int"
  assumes "checkpoint_ok c" "updates c t t' b c'"
  shows "(\<Sum>x\<leftarrow>targets c'. f x) = (\<Sum>x\<leftarrow>targets c. f x) - f t + f t'"
  using assms sum_list_replace_by[of target_id "targets c" t t' f]
  by (simp add: updates_def checkpoint_ok_def)

lemma updates_target:
  assumes "checkpoint_ok c" "updates c t t' b c'" "x' \<in> set (targets c')"
  shows "x' = t' \<or> (x' \<in> set (targets c) \<and> target_id x' \<noteq> target_id t)"
  using assms replace_by_memD[of x' target_id t' "targets c"] by (auto simp: updates_def)

text \<open>Replacing a target and then the budget, as the operations do.\<close>

lemma updatesI:
  assumes "find (\<lambda>t. target_id t = tid) (targets c) = Some t" "mk_target r = Inr t'"
    "target_id r = target_id t" "replace_target c t' = Inr c1" "budget_ok b" "with_budget c1 b = Inr c'"
  shows "updates c t t' b c'"
  using assms find_Some_mem[OF assms(1)] mk_targetD[OF assms(2)]
  by (auto simp: updates_def replace_target_def with_budget_def mk_checkpoint_Inr)

lemma updatesI_same_budget:
  assumes "find (\<lambda>t. target_id t = tid) (targets c) = Some t" "mk_target r = Inr t'"
    "target_id r = target_id t" "replace_target c t' = Inr c'" "budget_ok (cbudget c)"
  shows "updates c t t' (cbudget c) c'"
  using assms find_Some_mem[OF assms(1)] mk_targetD[OF assms(2)]
  by (auto simp: updates_def replace_target_def mk_checkpoint_Inr)

section \<open>What each operation does\<close>

text \<open>One lemma per operation: the target it changes, to what, and the budget it leaves.\<close>

lemma start_updates:
  assumes "start c tid p since = Inr c'"
  shows "\<exists>t t' b. updates c t t' b c' \<and> target_id t = tid \<and> status t = QUEUED \<and> status t' = IN_PROGRESS \<and>
    attempts t' = attempts t + 1 \<and> bytes_acquired t' = bytes_acquired t \<and>
    requests_used b = requests_used (cbudget c) + 1 \<and> bytes_used b = bytes_used (cbudget c) \<and>
    elapsed_seconds b = elapsed_seconds (cbudget c) \<and> allows_uri p (uri t) \<and>
    allows_request (cbudget c) p (depth t) 0 since = Inr True"
proof -
  from assms obtain t t' b c1 where
    t: "find (\<lambda>t. target_id t = tid) (targets c) = Some t" "status t = QUEUED"
    and a: "allows_uri p (uri t)" "allows_request (cbudget c) p (depth t) 0 since = Inr True"
    and t': "mk_target (t\<lparr>status := IN_PROGRESS, attempts := attempts t + 1, last_error := None,
             final_artifact_sha256 := None, final_observation_id := None\<rparr>) = Inr t'"
    and b: "mk_budget (requests_used (cbudget c) + 1) (bytes_used (cbudget c))
             (Fin (elapsed_seconds (cbudget c))) = Inr b"
    and c': "replace_target c t' = Inr c1" "with_budget c1 b = Inr c'"
    by (auto simp: start_def res_simps require_target_Inr split: if_splits)
  have "updates c t t' b c'"
    by (rule updatesI[OF t(1) t' _ c'(1) mk_budget_ok[OF b] c'(2)]) simp
  then show ?thesis using t a b mk_targetD[OF t'] find_Some_mem[OF t(1)]
    by (intro exI[of _ t] exI[of _ t'] exI[of _ b]) (simp add: mk_budget_Inr)
qed

lemma record_followup_request_Inr:
  assumes "record_followup_request c tid p n since = Inr c'"
  shows "\<exists>t. t \<in> set (targets c) \<and> target_id t = tid \<and> status t = IN_PROGRESS \<and>
    allows_request (cbudget c) p (depth t) n since = Inr True \<and>
    targets c' = targets c \<and> checkpoint_id c' = checkpoint_id c \<and>
    cbudget c' = (cbudget c)\<lparr>requests_used := requests_used (cbudget c) + 1\<rparr> \<and>
    budget_ok (cbudget c') \<and> mk_checkpoint c' = Inr c'"
proof -
  from assms obtain t b where
    t: "find (\<lambda>t. target_id t = tid) (targets c) = Some t" "status t = IN_PROGRESS"
      "allows_request (cbudget c) p (depth t) n since = Inr True"
    and b: "mk_budget (requests_used (cbudget c) + 1) (bytes_used (cbudget c))
             (Fin (elapsed_seconds (cbudget c))) = Inr b"
    and c': "with_budget c b = Inr c'"
    by (auto simp: record_followup_request_def res_simps require_target_Inr)
  have "b = (cbudget c)\<lparr>requests_used := requests_used (cbudget c) + 1\<rparr>"
    using b by (simp add: mk_budget_Inr)
  then show ?thesis using t c' mk_budget_ok[OF b] find_Some_mem[OF t(1)]
    by (auto simp: with_budget_def mk_checkpoint_Inr)
qed

lemma record_response_bytes_updates:
  assumes "record_response_bytes c tid n = Inr c'"
  shows "\<exists>t t' b. updates c t t' b c' \<and> target_id t = tid \<and> status t = IN_PROGRESS \<and> status t' = IN_PROGRESS \<and>
    attempts t' = attempts t \<and> bytes_acquired t' = bytes_acquired t + n \<and> 0 \<le> n \<and>
    requests_used b = requests_used (cbudget c) \<and> bytes_used b = bytes_used (cbudget c) + n \<and>
    elapsed_seconds b = elapsed_seconds (cbudget c)"
proof -
  from assms obtain t t' b c1 where
    t: "find (\<lambda>t. target_id t = tid) (targets c) = Some t" "status t = IN_PROGRESS" "0 \<le> n"
    and t': "mk_target (t\<lparr>bytes_acquired := bytes_acquired t + n\<rparr>) = Inr t'"
    and c': "replace_target c t' = Inr c1" "with_budget c1 b = Inr c'"
    and b: "mk_budget (requests_used (cbudget c)) (bytes_used (cbudget c) + n)
             (Fin (elapsed_seconds (cbudget c))) = Inr b"
    by (auto simp: record_response_bytes_def res_simps require_target_Inr)
  have "updates c t t' b c'"
    by (rule updatesI[OF t(1) t' _ c'(1) mk_budget_ok[OF b] c'(2)]) simp
  then show ?thesis using t b mk_targetD[OF t'] find_Some_mem[OF t(1)]
    by (intro exI[of _ t] exI[of _ t'] exI[of _ b]) (simp add: mk_budget_Inr)
qed

lemma begin_finalization_updates:
  assumes "begin_finalization c tid a obs el = Inr c'"
  shows "\<exists>t t' b. updates c t t' b c' \<and> target_id t = tid \<and> status t = IN_PROGRESS \<and> status t' = FINALIZING \<and>
    attempts t' = attempts t \<and> bytes_acquired t' = bytes_acquired t \<and>
    final_artifact_sha256 t' = Some a \<and> final_observation_id t' = Some obs \<and>
    requests_used b = requests_used (cbudget c) \<and> bytes_used b = bytes_used (cbudget c) \<and>
    elapsed_seconds (cbudget c) \<le> elapsed_seconds b"
proof -
  from assms obtain t t' b c1 where
    t: "find (\<lambda>t. target_id t = tid) (targets c) = Some t" "status t = IN_PROGRESS"
      "require_monotonic_elapsed el (elapsed_seconds (cbudget c)) = Inr ()"
    and t': "mk_target (t\<lparr>status := FINALIZING, final_artifact_sha256 := Some a,
             final_observation_id := Some obs\<rparr>) = Inr t'"
    and c': "replace_target c t' = Inr c1" "with_budget c1 b = Inr c'"
    and b: "mk_budget (requests_used (cbudget c)) (bytes_used (cbudget c)) el = Inr b"
    by (auto simp: begin_finalization_def res_simps require_target_Inr)
  have "updates c t t' b c'"
    by (rule updatesI[OF t(1) t' _ c'(1) mk_budget_ok[OF b] c'(2)]) simp
  then show ?thesis using t b mk_targetD[OF t'] find_Some_mem[OF t(1)]
    by (intro exI[of _ t] exI[of _ t'] exI[of _ b]) (simp add: mk_budget_Inr require_monotonic_Inr)
qed

lemma complete_finalization_updates:
  assumes "complete_finalization c tid el = Inr c'"
  shows "\<exists>t t' b. updates c t t' b c' \<and> target_id t = tid \<and> status t = FINALIZING \<and> status t' = COMPLETED \<and>
    attempts t' = attempts t \<and> bytes_acquired t' = bytes_acquired t \<and>
    final_artifact_sha256 t' = final_artifact_sha256 t \<and>
    final_observation_id t' = final_observation_id t \<and>
    requests_used b = requests_used (cbudget c) \<and> bytes_used b = bytes_used (cbudget c) \<and>
    elapsed_seconds (cbudget c) \<le> elapsed_seconds b"
proof -
  from assms obtain t t' b c1 where
    t: "find (\<lambda>t. target_id t = tid) (targets c) = Some t" "status t = FINALIZING"
      "require_monotonic_elapsed el (elapsed_seconds (cbudget c)) = Inr ()"
    and t': "mk_target (t\<lparr>status := COMPLETED\<rparr>) = Inr t'"
    and c': "replace_target c t' = Inr c1" "with_budget c1 b = Inr c'"
    and b: "mk_budget (requests_used (cbudget c)) (bytes_used (cbudget c)) el = Inr b"
    by (auto simp: complete_finalization_def res_simps require_target_Inr)
  have "updates c t t' b c'"
    by (rule updatesI[OF t(1) t' _ c'(1) mk_budget_ok[OF b] c'(2)]) simp
  then show ?thesis using t b mk_targetD[OF t'] find_Some_mem[OF t(1)]
    by (intro exI[of _ t] exI[of _ t'] exI[of _ b]) (simp add: mk_budget_Inr require_monotonic_Inr)
qed

lemma complete_updates:
  assumes "complete c tid n el = Inr c'"
  shows "\<exists>t t' b. updates c t t' b c' \<and> target_id t = tid \<and> status t = IN_PROGRESS \<and> status t' = COMPLETED \<and>
    attempts t' = attempts t \<and> bytes_acquired t' = bytes_acquired t + n \<and> 0 \<le> n \<and>
    requests_used b = requests_used (cbudget c) \<and> bytes_used b = bytes_used (cbudget c) + n \<and>
    elapsed_seconds (cbudget c) \<le> elapsed_seconds b"
proof -
  from assms obtain t t' b c1 where
    t: "find (\<lambda>t. target_id t = tid) (targets c) = Some t" "status t = IN_PROGRESS" "0 \<le> n"
      "require_monotonic_elapsed el (elapsed_seconds (cbudget c)) = Inr ()"
    and t': "mk_target (t\<lparr>status := COMPLETED, bytes_acquired := bytes_acquired t + n,
             last_error := None\<rparr>) = Inr t'"
    and c': "replace_target c t' = Inr c1" "with_budget c1 b = Inr c'"
    and b: "mk_budget (requests_used (cbudget c)) (bytes_used (cbudget c) + n) el = Inr b"
    by (auto simp: complete_def res_simps require_target_Inr)
  have "updates c t t' b c'"
    by (rule updatesI[OF t(1) t' _ c'(1) mk_budget_ok[OF b] c'(2)]) simp
  then show ?thesis using t b mk_targetD[OF t'] find_Some_mem[OF t(1)]
    by (intro exI[of _ t] exI[of _ t'] exI[of _ b]) (simp add: mk_budget_Inr require_monotonic_Inr)
qed

lemma fail_updates:
  assumes "fail c tid err el n = Inr c'"
  shows "\<exists>t t' b. updates c t t' b c' \<and> target_id t = tid \<and> status t = IN_PROGRESS \<and> status t' = FAILED \<and>
    attempts t' = attempts t \<and> bytes_acquired t' = bytes_acquired t + n \<and> 0 \<le> n \<and>
    last_error t' = Some (strip err) \<and>
    requests_used b = requests_used (cbudget c) \<and> bytes_used b = bytes_used (cbudget c) + n \<and>
    elapsed_seconds (cbudget c) \<le> elapsed_seconds b"
proof -
  from assms obtain t t' b c1 where
    t: "find (\<lambda>t. target_id t = tid) (targets c) = Some t" "status t = IN_PROGRESS" "0 \<le> n"
      "require_monotonic_elapsed el (elapsed_seconds (cbudget c)) = Inr ()"
    and t': "mk_target (t\<lparr>status := FAILED, bytes_acquired := bytes_acquired t + n,
             last_error := Some (strip err)\<rparr>) = Inr t'"
    and c': "replace_target c t' = Inr c1" "with_budget c1 b = Inr c'"
    and b: "mk_budget (requests_used (cbudget c)) (bytes_used (cbudget c) + n) el = Inr b"
    by (auto simp: fail_def res_simps require_target_Inr require_reason_def)
  have "updates c t t' b c'"
    by (rule updatesI[OF t(1) t' _ c'(1) mk_budget_ok[OF b] c'(2)]) simp
  then show ?thesis using t b mk_targetD[OF t'] find_Some_mem[OF t(1)]
    by (intro exI[of _ t] exI[of _ t'] exI[of _ b]) (simp add: mk_budget_Inr require_monotonic_Inr)
qed

lemma requeue_failed_updates:
  assumes "requeue_failed c tid p = Inr c'" "budget_ok (cbudget c)"
  shows "\<exists>t t'. updates c t t' (cbudget c) c' \<and> target_id t = tid \<and> status t = FAILED \<and> status t' = QUEUED \<and>
    attempts t' = attempts t \<and> bytes_acquired t' = bytes_acquired t \<and>
    max (attempts t - 1) 0 < max_retries p"
proof -
  from assms(1) obtain t t' where
    t: "find (\<lambda>t. target_id t = tid) (targets c) = Some t" "status t = FAILED"
      "max (attempts t - 1) 0 < max_retries p"
    and t': "mk_target (t\<lparr>status := QUEUED, last_error := None\<rparr>) = Inr t'"
    and c': "replace_target c t' = Inr c'"
    by (auto simp: requeue_failed_def allows_retry_def res_simps require_target_Inr)
  have "updates c t t' (cbudget c) c'"
    by (rule updatesI_same_budget[OF t(1) t' _ c' assms(2)]) simp
  then show ?thesis using t mk_targetD[OF t'] find_Some_mem[OF t(1)]
    by (intro exI[of _ t] exI[of _ t']) simp
qed

lemma skip_updates:
  assumes "skip c tid reason = Inr c'" "budget_ok (cbudget c)"
  shows "\<exists>t t'. updates c t t' (cbudget c) c' \<and> target_id t = tid \<and> status t = QUEUED \<and> status t' = SKIPPED \<and>
    attempts t' = attempts t \<and> bytes_acquired t' = bytes_acquired t"
proof -
  from assms(1) obtain t t' where
    t: "find (\<lambda>t. target_id t = tid) (targets c) = Some t" "status t = QUEUED"
    and t': "mk_target (t\<lparr>status := SKIPPED, last_error := Some (strip reason)\<rparr>) = Inr t'"
    and c': "replace_target c t' = Inr c'"
    by (auto simp: skip_def require_reason_def res_simps require_target_Inr)
  have "updates c t t' (cbudget c) c'"
    by (rule updatesI_same_budget[OF t(1) t' _ c' assms(2)]) simp
  then show ?thesis using t mk_targetD[OF t'] find_Some_mem[OF t(1)]
    by (intro exI[of _ t] exI[of _ t']) simp
qed

text \<open>\<open>enqueue\<close> enriches the target of the URI, or appends a fresh queued one.\<close>

lemma enqueue_cases:
  assumes e: "enqueue c u d link parent = Inr c'" and b: "budget_ok (cbudget c)"
  obtains (known) t t' where "updates c t t' (cbudget c) c'" "status t' = status t"
      "attempts t' = attempts t" "bytes_acquired t' = bytes_acquired t"
      "final_artifact_sha256 t' = final_artifact_sha256 t"
      "final_observation_id t' = final_observation_id t"
      "normalize_durable_http_uri u ''traversal target URI'' = Inr (uri t)"
      "depth t' = (if status t = QUEUED then min (depth t) d else depth t)"
  | (fresh) t w where "c' = c\<lparr>targets := targets c @ [t]\<rparr>" "target_ok t" "status t = QUEUED"
      "attempts t = 0" "bytes_acquired t = 0" "depth t = d"
      "normalize_durable_http_uri u ''traversal target URI'' = Inr w" "w \<notin> uri ` set (targets c)"
      "target_id t = new_target_id (checkpoint_id c) w" "mk_checkpoint c' = Inr c'"
proof -
  from e obtain w where w: "normalize_durable_http_uri u ''traversal target URI'' = Inr w"
    by (auto simp: enqueue_def res_simps)
  show thesis
  proof (cases "find (\<lambda>t. uri t = w) (targets c)")
    case (Some t)
    let ?r = "t\<lparr>depth := (if status t = QUEUED then min (depth t) d else depth t),
                 discovery_link_ids := append_uuid (discovery_link_ids t) link,
                 parent_target_ids := append_uuid (parent_target_ids t) parent\<rparr>"
    from e w Some obtain t' where t': "mk_target ?r = Inr t'" and c': "replace_target c t' = Inr c'"
      by (auto simp: enqueue_def res_simps)
    have t: "t \<in> set (targets c)" "uri t = w" using find_Some_mem[OF Some] by auto
    have "updates c t t' (cbudget c) c'"
      using c' mk_targetD[OF t'] t(1) b by (auto simp: updates_def replace_target_def mk_checkpoint_Inr)
    then show thesis using known mk_targetD[OF t'] t w by simp
  next
    case None
    from e w None obtain t where
      t: "mk_target \<lparr>target_id = new_target_id (checkpoint_id c) w, uri = w, depth = d, status = QUEUED,
                 attempts = 0, bytes_acquired = 0, discovery_link_ids = option_list link,
                 parent_target_ids = option_list parent, last_error = None,
                 final_artifact_sha256 = None, final_observation_id = None\<rparr> = Inr t"
      and c': "mk_checkpoint (c\<lparr>targets := targets c @ [t]\<rparr>) = Inr c'"
      by (auto simp: enqueue_def Let_def res_simps)
    have "w \<notin> uri ` set (targets c)" using None by (auto simp: find_None_iff)
    then show thesis using fresh[of t w] mk_targetD[OF t] c' w by (simp add: mk_checkpoint_Inr)
  qed
qed

lemma recover_target_props:
  assumes "recover_target reason t = Inr t'"
  shows "target_id t' = target_id t \<and> attempts t' = attempts t \<and> bytes_acquired t' = bytes_acquired t \<and>
    (target_ok t \<longrightarrow> target_ok t') \<and> status t' \<noteq> IN_PROGRESS \<and>
    (status t \<noteq> IN_PROGRESS \<longrightarrow> t' = t) \<and>
    (status t = IN_PROGRESS \<longrightarrow> status t' = FAILED \<and> last_error t' = Some reason)"
  using assms mk_targetD[of "t\<lparr>status := FAILED, last_error := Some reason\<rparr>" t']
  by (auto simp: recover_target_def split: if_splits)

lemma recover_interrupted_Inr:
  assumes "recover_interrupted c reason = Inr c'"
  shows "c' = c\<lparr>targets := targets c'\<rparr>" "mk_checkpoint c' = Inr c'"
    "list_all2 (\<lambda>t t'. recover_target (strip reason) t = Inr t') (targets c) (targets c')"
proof -
  from assms obtain ts where l: "list_all2 (\<lambda>t t'. recover_target (strip reason) t = Inr t') (targets c) ts"
    and m: "mk_checkpoint (c\<lparr>targets := ts\<rparr>) = Inr c'"
    by (auto simp: recover_interrupted_def require_reason_def res_simps mapM_Inr_iff)
  have "c' = c\<lparr>targets := ts\<rparr>" using m by (simp add: mk_checkpoint_Inr)
  then show "c' = c\<lparr>targets := targets c'\<rparr>" "mk_checkpoint c' = Inr c'"
    "list_all2 (\<lambda>t t'. recover_target (strip reason) t = Inr t') (targets c) (targets c')"
    using l m by simp_all
qed

lemma list_all2_sum_eq:
  fixes f :: "'a \<Rightarrow> int" and g :: "'b \<Rightarrow> int"
  shows "list_all2 R xs ys \<Longrightarrow> (\<And>x y. R x y \<Longrightarrow> f x = g y) \<Longrightarrow> (\<Sum>x\<leftarrow>xs. f x) = (\<Sum>y\<leftarrow>ys. g y)"
  by (induction xs ys rule: list_all2_induct) auto

lemma list_all2_right:
  "list_all2 R xs ys \<Longrightarrow> y \<in> set ys \<Longrightarrow> \<exists>x \<in> set xs. R x y"
  by (induction xs ys rule: list_all2_induct) auto

section \<open>The life of a checkpoint\<close>

text \<open>The moves between states that any operation makes.\<close>

fun edge :: "tstatus \<Rightarrow> tstatus \<Rightarrow> bool" where
  "edge QUEUED s' \<longleftrightarrow> s' \<in> {QUEUED, IN_PROGRESS, SKIPPED}"
| "edge IN_PROGRESS s' \<longleftrightarrow> s' \<in> {IN_PROGRESS, FINALIZING, COMPLETED, FAILED}"
| "edge FINALIZING s' \<longleftrightarrow> s' \<in> {FINALIZING, COMPLETED}"
| "edge COMPLETED s' \<longleftrightarrow> s' = COMPLETED"
| "edge FAILED s' \<longleftrightarrow> s' \<in> {FAILED, QUEUED}"
| "edge SKIPPED s' \<longleftrightarrow> s' = SKIPPED"

inductive tstep :: "policy \<Rightarrow> checkpoint \<Rightarrow> checkpoint \<Rightarrow> bool" for p where
  enqueued: "enqueue c u d link parent = Inr c' \<Longrightarrow> tstep p c c'"
| started: "start c tid p since = Inr c' \<Longrightarrow> tstep p c c'"
| followed_up: "record_followup_request c tid p n since = Inr c' \<Longrightarrow> tstep p c c'"
| responded: "record_response_bytes c tid n = Inr c' \<Longrightarrow> tstep p c c'"
| finalizing: "begin_finalization c tid a obs el = Inr c' \<Longrightarrow> tstep p c c'"
| finalized: "complete_finalization c tid el = Inr c' \<Longrightarrow> tstep p c c'"
| completed: "complete c tid n el = Inr c' \<Longrightarrow> tstep p c c'"
| failed: "fail c tid err el n = Inr c' \<Longrightarrow> tstep p c c'"
| recovered: "recover_interrupted c reason = Inr c' \<Longrightarrow> tstep p c c'"
| requeued: "requeue_failed c tid p = Inr c' \<Longrightarrow> tstep p c c'"
| skipped: "skip c tid reason = Inr c' \<Longrightarrow> tstep p c c'"

definition empty_checkpoint :: "uuid \<Rightarrow> checkpoint" where
  "empty_checkpoint cid =
    \<lparr>checkpoint_id = cid, targets = [], cbudget = \<lparr>requests_used = 0, bytes_used = 0, elapsed_seconds = 0\<rparr>\<rparr>"

inductive reachable :: "policy \<Rightarrow> checkpoint \<Rightarrow> bool" for p where
  empty: "reachable p (empty_checkpoint cid)"
| step: "reachable p c \<Longrightarrow> tstep p c c' \<Longrightarrow> reachable p c'"

definition policy_ok :: "policy \<Rightarrow> bool" where
  "policy_ok p \<longleftrightarrow>
    0 \<le> max_depth p \<and> 0 \<le> max_requests p \<and> 0 \<le> max_bytes p \<and> 0 \<le> max_retries p \<and> 0 \<le> max_redirects p \<and>
    (\<forall>m. max_elapsed_seconds p = Some m \<longrightarrow> 0 < m) \<and> 0 \<le> min_request_interval_seconds p"

lemma mk_policy_ok: "mk_policy d r b re rd e i ss ds pr = Inr p \<Longrightarrow> policy_ok p"
  by (auto simp: mk_policy_def policy_ok_def res_simps pos_float_def nonneg_float_def split: option.splits)

text \<open>
  What a step does to the accounts: \<open>dr\<close> requests and \<open>db\<close> bytes are charged to the budget, the
  bytes to the targets as well, and at most \<open>dr\<close> attempts.
\<close>

definition accounts :: "policy \<Rightarrow> checkpoint \<Rightarrow> checkpoint \<Rightarrow> bool" where
  "accounts p c c' \<longleftrightarrow>
    checkpoint_ok c' \<and> checkpoint_id c' = checkpoint_id c \<and>
    (\<exists>dr db da. 0 \<le> da \<and> da \<le> dr \<and> 0 \<le> db \<and>
      requests_used (cbudget c') = requests_used (cbudget c) + dr \<and>
      bytes_used (cbudget c') = bytes_used (cbudget c) + db \<and>
      (\<Sum>t\<leftarrow>targets c'. bytes_acquired t) = (\<Sum>t\<leftarrow>targets c. bytes_acquired t) + db \<and>
      (\<Sum>t\<leftarrow>targets c'. attempts t) = (\<Sum>t\<leftarrow>targets c. attempts t) + da \<and>
      (0 < dr \<longrightarrow> requests_used (cbudget c') \<le> max_requests p)) \<and>
    elapsed_seconds (cbudget c) \<le> elapsed_seconds (cbudget c') \<and>
    (\<forall>t' \<in> set (targets c').
      (target_id t' \<notin> target_id ` set (targets c) \<and> status t' = QUEUED \<and> attempts t' = 0) \<or>
      (\<exists>t \<in> set (targets c). target_id t = target_id t' \<and> edge (status t) (status t') \<and>
        attempts t' = attempts t + (if status t = QUEUED \<and> status t' = IN_PROGRESS then 1 else 0) \<and>
        bytes_acquired t \<le> bytes_acquired t' \<and>
        (status t = FAILED \<and> status t' = QUEUED \<longrightarrow> attempts t \<le> max_retries p) \<and>
        (status t \<in> {FINALIZING, COMPLETED} \<longrightarrow>
          final_artifact_sha256 t' = final_artifact_sha256 t \<and>
          final_observation_id t' = final_observation_id t))) \<and>
    target_id ` set (targets c) \<subseteq> target_id ` set (targets c')"

lemma edge_refl [simp]: "edge s s"
  by (cases s) auto

lemma updates_accounts:
  assumes ok: "checkpoint_ok c" and u: "updates c t t' b c'"
    and "0 \<le> da" "da \<le> dr" "0 \<le> db"
    and "requests_used b = requests_used (cbudget c) + dr" "bytes_used b = bytes_used (cbudget c) + db"
    and "elapsed_seconds (cbudget c) \<le> elapsed_seconds b"
    and "attempts t' = attempts t + da" "bytes_acquired t' = bytes_acquired t + db"
    and "0 < dr \<longrightarrow> requests_used b \<le> max_requests p"
    and "edge (status t) (status t')"
    and "da = (if status t = QUEUED \<and> status t' = IN_PROGRESS then 1 else 0)"
    and "status t = FAILED \<and> status t' = QUEUED \<longrightarrow> attempts t \<le> max_retries p"
    and "status t \<in> {FINALIZING, COMPLETED} \<longrightarrow>
          final_artifact_sha256 t' = final_artifact_sha256 t \<and>
          final_observation_id t' = final_observation_id t"
  shows "accounts p c c'"
proof -
  have b: "cbudget c' = b" "checkpoint_id c' = checkpoint_id c" and t: "t \<in> set (targets c)" "target_id t' = target_id t"
    and img: "target_id ` set (targets c') = target_id ` set (targets c)"
    using u by (auto simp: updates_def simp flip: set_map)
  have sums: "(\<Sum>t\<leftarrow>targets c'. bytes_acquired t) = (\<Sum>t\<leftarrow>targets c. bytes_acquired t) + db"
    "(\<Sum>t\<leftarrow>targets c'. attempts t) = (\<Sum>t\<leftarrow>targets c. attempts t) + da"
    using updates_sum[OF ok u, of bytes_acquired] updates_sum[OF ok u, of attempts] assms(9,10) by simp_all
  have each: "\<exists>x \<in> set (targets c). target_id x = target_id x' \<and> edge (status x) (status x') \<and>
        attempts x' = attempts x + (if status x = QUEUED \<and> status x' = IN_PROGRESS then 1 else 0) \<and>
        bytes_acquired x \<le> bytes_acquired x' \<and>
        (status x = FAILED \<and> status x' = QUEUED \<longrightarrow> attempts x \<le> max_retries p) \<and>
        (status x \<in> {FINALIZING, COMPLETED} \<longrightarrow>
          final_artifact_sha256 x' = final_artifact_sha256 x \<and>
          final_observation_id x' = final_observation_id x)" if x': "x' \<in> set (targets c')" for x'
    using updates_target[OF ok u x']
  proof
    assume "x' = t'"
    then show ?thesis using t assms by (intro bexI[of _ t]) simp_all
  next
    assume "x' \<in> set (targets c) \<and> target_id x' \<noteq> target_id t"
    then show ?thesis by (intro bexI[of _ x']) auto
  qed
  show ?thesis unfolding accounts_def b
    using updates_ok[OF ok u] sums each img assms by blast
qed

text \<open>Every operation keeps the accounts.\<close>

lemma tstep_accounts:
  assumes ok: "checkpoint_ok c" and st: "tstep p c c'"
  shows "accounts p c c'"
  using st
proof cases
  case (enqueued u d link parent)
  have b: "budget_ok (cbudget c)" using ok by (simp add: checkpoint_ok_def)
  from enqueued b show ?thesis
  proof (cases rule: enqueue_cases)
    case (known t t')
    then show ?thesis by (intro updates_accounts[OF ok known(1), of 0 0 0]) auto
  next
    case (fresh t w)
    have c': "checkpoint_ok c'"
      using fresh(1,2,10) ok by (intro checkpoint_okI[OF fresh(10)]) (auto simp: checkpoint_ok_def)
    have "target_id t \<notin> target_id ` set (targets c)"
      using c' fresh(1) by (auto simp: checkpoint_ok_def)
    then show ?thesis unfolding accounts_def
      using c' fresh by (auto intro!: exI[of _ "0::int"])
  qed
next
  case (started tid since)
  from start_updates[OF started] obtain t t' b where u: "updates c t t' b c'"
    and f: "status t = QUEUED" "status t' = IN_PROGRESS" "attempts t' = attempts t + 1"
      "bytes_acquired t' = bytes_acquired t" "requests_used b = requests_used (cbudget c) + 1"
      "bytes_used b = bytes_used (cbudget c)" "elapsed_seconds b = elapsed_seconds (cbudget c)"
      "allows_request (cbudget c) p (depth t) 0 since = Inr True" by blast
  show ?thesis using f allows_requestD(3)[OF f(8)]
    by (intro updates_accounts[OF ok u, of 1 1 0]) auto
next
  case (followed_up tid n since)
  from record_followup_request_Inr[OF followed_up] obtain t :: target where
    a: "allows_request (cbudget c) p (depth t) n since = Inr True"
    and c': "targets c' = targets c" "checkpoint_id c' = checkpoint_id c"
      "cbudget c' = (cbudget c)\<lparr>requests_used := requests_used (cbudget c) + 1\<rparr>"
    and b: "budget_ok (cbudget c')" by blast
  have "checkpoint_ok c'" using ok b c' by (simp add: checkpoint_ok_def)
  moreover have "requests_used (cbudget c') = requests_used (cbudget c) + 1"
    "bytes_used (cbudget c') = bytes_used (cbudget c)"
    "elapsed_seconds (cbudget c') = elapsed_seconds (cbudget c)" using c' by simp_all
  moreover note c'(1,2)
  ultimately show ?thesis unfolding accounts_def using allows_requestD(3)[OF a]
    by (auto intro!: exI[of _ "1::int"] exI[of _ "0::int"])
next
  case (responded tid n)
  from record_response_bytes_updates[OF responded] obtain t t' b where u: "updates c t t' b c'"
    and f: "status t = IN_PROGRESS" "status t' = IN_PROGRESS" "attempts t' = attempts t" "0 \<le> n"
      "bytes_acquired t' = bytes_acquired t + n" "requests_used b = requests_used (cbudget c)"
      "bytes_used b = bytes_used (cbudget c) + n" "elapsed_seconds b = elapsed_seconds (cbudget c)"
    by blast
  show ?thesis using f by (intro updates_accounts[OF ok u, of 0 0 n]) auto
next
  case (finalizing tid a obs el)
  from begin_finalization_updates[OF finalizing] obtain t t' b where u: "updates c t t' b c'"
    and f: "status t = IN_PROGRESS" "status t' = FINALIZING" "attempts t' = attempts t"
      "bytes_acquired t' = bytes_acquired t" "requests_used b = requests_used (cbudget c)"
      "bytes_used b = bytes_used (cbudget c)" "elapsed_seconds (cbudget c) \<le> elapsed_seconds b"
    by blast
  show ?thesis using f by (intro updates_accounts[OF ok u, of 0 0 0]) auto
next
  case (finalized tid el)
  from complete_finalization_updates[OF finalized] obtain t t' b where u: "updates c t t' b c'"
    and f: "status t = FINALIZING" "status t' = COMPLETED" "attempts t' = attempts t"
      "bytes_acquired t' = bytes_acquired t" "requests_used b = requests_used (cbudget c)"
      "final_artifact_sha256 t' = final_artifact_sha256 t"
      "final_observation_id t' = final_observation_id t"
      "bytes_used b = bytes_used (cbudget c)" "elapsed_seconds (cbudget c) \<le> elapsed_seconds b"
    by blast
  show ?thesis using f by (intro updates_accounts[OF ok u, of 0 0 0]) auto
next
  case (completed tid n el)
  from complete_updates[OF completed] obtain t t' b where u: "updates c t t' b c'"
    and f: "status t = IN_PROGRESS" "status t' = COMPLETED" "attempts t' = attempts t" "0 \<le> n"
      "bytes_acquired t' = bytes_acquired t + n" "requests_used b = requests_used (cbudget c)"
      "bytes_used b = bytes_used (cbudget c) + n" "elapsed_seconds (cbudget c) \<le> elapsed_seconds b"
    by blast
  show ?thesis using f by (intro updates_accounts[OF ok u, of 0 0 n]) auto
next
  case (failed tid err el n)
  from fail_updates[OF failed] obtain t t' b where u: "updates c t t' b c'"
    and f: "status t = IN_PROGRESS" "status t' = FAILED" "attempts t' = attempts t" "0 \<le> n"
      "bytes_acquired t' = bytes_acquired t + n" "requests_used b = requests_used (cbudget c)"
      "bytes_used b = bytes_used (cbudget c) + n" "elapsed_seconds (cbudget c) \<le> elapsed_seconds b"
    by blast
  show ?thesis using f by (intro updates_accounts[OF ok u, of 0 0 n]) auto
next
  case (recovered reason)
  note r = recover_interrupted_Inr[OF recovered]
  have right: "\<exists>t \<in> set (targets c). recover_target (strip reason) t = Inr t'" if "t' \<in> set (targets c')" for t'
    using list_all2_right[OF r(3) that] by blast
  have "checkpoint_ok c'"
  proof (rule checkpoint_okI[OF r(2)])
    show "budget_ok (cbudget c')" using ok r(1) unfolding checkpoint_ok_def by (metis checkpoint.ext_inject checkpoint.surjective checkpoint.update_convs(2))
  qed (use right recover_target_props ok in \<open>fastforce simp: checkpoint_ok_def\<close>)
  moreover have "cbudget c' = cbudget c" "checkpoint_id c' = checkpoint_id c"
    by (subst r(1), simp)+
  moreover have "(\<Sum>t\<leftarrow>targets c. bytes_acquired t) = (\<Sum>t\<leftarrow>targets c'. bytes_acquired t)"
    "(\<Sum>t\<leftarrow>targets c. attempts t) = (\<Sum>t\<leftarrow>targets c'. attempts t)"
    by (rule list_all2_sum_eq[OF r(3)], use recover_target_props in force)+
  moreover have "map target_id (targets c') = map target_id (targets c)"
    using r(3) by (induction rule: list_all2_induct) (auto dest: recover_target_props)
  then have "target_id ` set (targets c') = target_id ` set (targets c)" by (metis set_map)
  moreover have "\<exists>t \<in> set (targets c). target_id t = target_id t' \<and> edge (status t) (status t') \<and>
        attempts t' = attempts t + (if status t = QUEUED \<and> status t' = IN_PROGRESS then 1 else 0) \<and>
        bytes_acquired t \<le> bytes_acquired t' \<and>
        (status t = FAILED \<and> status t' = QUEUED \<longrightarrow> attempts t \<le> max_retries p) \<and>
        (status t \<in> {FINALIZING, COMPLETED} \<longrightarrow>
          final_artifact_sha256 t' = final_artifact_sha256 t \<and>
          final_observation_id t' = final_observation_id t)" if mem: "t' \<in> set (targets c')" for t'
  proof -
    obtain t where t: "t \<in> set (targets c)" "recover_target (strip reason) t = Inr t'"
      using right[OF mem] by blast
    show ?thesis using t(1) recover_target_props[OF t(2)] by (intro bexI[of _ t]) auto
  qed
  ultimately show ?thesis unfolding accounts_def by (auto intro!: exI[of _ "0::int"])
next
  case (requeued tid)
  have b: "budget_ok (cbudget c)" using ok by (simp add: checkpoint_ok_def)
  from requeue_failed_updates[OF requeued b] obtain t t' where u: "updates c t t' (cbudget c) c'"
    and f: "status t = FAILED" "status t' = QUEUED" "attempts t' = attempts t"
      "bytes_acquired t' = bytes_acquired t" "max (attempts t - 1) 0 < max_retries p" by blast
  show ?thesis using f by (intro updates_accounts[OF ok u, of 0 0 0]) auto
next
  case (skipped tid reason)
  have b: "budget_ok (cbudget c)" using ok by (simp add: checkpoint_ok_def)
  from skip_updates[OF skipped b] obtain t t' where u: "updates c t t' (cbudget c) c'"
    and f: "status t = QUEUED" "status t' = SKIPPED" "attempts t' = attempts t"
      "bytes_acquired t' = bytes_acquired t" by blast
  show ?thesis using f by (intro updates_accounts[OF ok u, of 0 0 0]) auto
qed

definition account_inv :: "policy \<Rightarrow> checkpoint \<Rightarrow> bool" where
  "account_inv p c \<longleftrightarrow>
    checkpoint_ok c \<and>
    (\<Sum>t\<leftarrow>targets c. bytes_acquired t) = bytes_used (cbudget c) \<and>
    (\<Sum>t\<leftarrow>targets c. attempts t) \<le> requests_used (cbudget c) \<and>
    requests_used (cbudget c) \<le> max_requests p \<and>
    (\<forall>t \<in> set (targets c). attempts t \<le> max_retries p + (if status t = QUEUED then 0 else 1))"

lemma account_inv_empty: "policy_ok p \<Longrightarrow> account_inv p (empty_checkpoint cid)"
  by (simp add: account_inv_def empty_checkpoint_def policy_ok_def checkpoint_ok_def budget_ok_def)

lemma edge_attempts:
  assumes "edge s s'" "n' = n + (if s = QUEUED \<and> s' = IN_PROGRESS then 1 else 0)"
    "s = FAILED \<and> s' = QUEUED \<longrightarrow> n \<le> m" "n \<le> m + (if s = QUEUED then 0 else 1)"
  shows "n' \<le> m + (if s' = QUEUED then 0 else (1::int))"
  using assms by (cases s; cases s') auto

lemma account_inv_step:
  assumes inv: "account_inv p c" and p: "policy_ok p" and st: "tstep p c c'"
  shows "account_inv p c'"
proof -
  have a: "accounts p c c'" using tstep_accounts[OF _ st] inv by (simp add: account_inv_def)
  then obtain dr db da where d: "0 \<le> da" "da \<le> dr" "0 \<le> db"
      "requests_used (cbudget c') = requests_used (cbudget c) + dr"
      "bytes_used (cbudget c') = bytes_used (cbudget c) + db"
      "(\<Sum>t\<leftarrow>targets c'. bytes_acquired t) = (\<Sum>t\<leftarrow>targets c. bytes_acquired t) + db"
      "(\<Sum>t\<leftarrow>targets c'. attempts t) = (\<Sum>t\<leftarrow>targets c. attempts t) + da"
      "0 < dr \<longrightarrow> requests_used (cbudget c') \<le> max_requests p"
    by (auto simp: accounts_def)
  have "attempts t' \<le> max_retries p + (if status t' = QUEUED then 0 else 1)"
    if "t' \<in> set (targets c')" for t'
  proof -
    from a that consider "status t' = QUEUED" "attempts t' = 0"
      | t where "t \<in> set (targets c)" "edge (status t) (status t')"
          "attempts t' = attempts t + (if status t = QUEUED \<and> status t' = IN_PROGRESS then 1 else 0)"
          "status t = FAILED \<and> status t' = QUEUED \<longrightarrow> attempts t \<le> max_retries p"
      unfolding accounts_def by blast
    then show ?thesis
    proof cases
      case 1
      then show ?thesis using p by (simp add: policy_ok_def)
    next
      case 2
      then show ?thesis using inv edge_attempts[OF 2(2,3,4)] by (auto simp: account_inv_def)
    qed
  qed
  then show ?thesis using d inv a by (cases "dr = 0") (auto simp: account_inv_def accounts_def)
qed

lemma enqueue_known:
  assumes ok: "checkpoint_ok c" and e: "enqueue c u d link parent = Inr c'"
    and w: "normalize_durable_http_uri u ''traversal target URI'' = Inr w" and k: "w \<in> uri ` set (targets c)"
  shows "map target_id (targets c') = map target_id (targets c) \<and>
    map status (targets c') = map status (targets c) \<and>
    map attempts (targets c') = map attempts (targets c) \<and> cbudget c' = cbudget c"
proof -
  have b: "budget_ok (cbudget c)" using ok by (simp add: checkpoint_ok_def)
  from e b show ?thesis
  proof (cases rule: enqueue_cases)
    case (known t t')
    have c': "c' = c\<lparr>targets := replace_by target_id t' (targets c), cbudget := cbudget c\<rparr>"
      and t: "t \<in> set (targets c)" "target_id t' = target_id t"
      using known(1) by (auto simp: updates_def)
    have d: "distinct (map target_id (targets c))" using ok by (simp add: checkpoint_ok_def)
    show ?thesis
      using c' map_replace_by_same[OF d t, of status] map_replace_by_same[OF d t, of attempts] known(2,3)
      by simp
  next
    case (fresh t w')
    then show ?thesis using w k by simp
  qed
qed

section \<open>Properties\<close>

definition demo_uri :: pystr where
  "demo_uri = ''https://a.org/''"

definition demo_target :: "tstatus \<Rightarrow> int \<Rightarrow> target" where
  "demo_target st n =
    \<lparr>target_id = new_target_id 1 demo_uri, uri = demo_uri, depth = 0, status = st, attempts = n,
     bytes_acquired = 0, discovery_link_ids = [], parent_target_ids = [], last_error = None,
     final_artifact_sha256 = None, final_observation_id = None\<rparr>"

definition demo_checkpoint :: "tstatus \<Rightarrow> int \<Rightarrow> checkpoint" where
  "demo_checkpoint st n =
    \<lparr>checkpoint_id = 1, targets = [demo_target st n],
     cbudget = \<lparr>requests_used = n, bytes_used = 0, elapsed_seconds = 0\<rparr>\<rparr>"

lemma demo_uri_canonical: "normalize_durable_http_uri demo_uri n = Inr demo_uri"
proof -
  have "urlsplit demo_uri = Some \<lparr>sp_scheme = ''https'', sp_netloc = ''a.org'', sp_path = ''/'',
      sp_query = [], sp_fragment = []\<rparr>" unfolding demo_uri_def by code_simp
  moreover have "strip demo_uri = demo_uri" unfolding demo_uri_def by code_simp
  moreover have "normalize_host ''a.org'' = Inr ''a.org''" by code_simp
  moreover have "sp_hostname \<lparr>sp_scheme = ''https'', sp_netloc = ''a.org'', sp_path = ''/'',
      sp_query = [], sp_fragment = []\<rparr> = Some ''a.org''" by code_simp
  moreover have "sp_port \<lparr>sp_scheme = ''https'', sp_netloc = ''a.org'', sp_path = ''/'',
      sp_query = [], sp_fragment = []\<rparr> = Some None" by code_simp
  moreover have "lower ''https'' = ''https''" "bracket_host ''a.org'' = ''a.org''"
    "sanitize_parameter_string [] = []" "sanitize_fragment sanitize_parameter_string [] = []"
    "urlunsplit ''https'' ''a.org'' ''/'' [] [] = demo_uri"
    unfolding demo_uri_def by code_simp+
  moreover have "\<not> blank demo_uri" unfolding demo_uri_def by code_simp
  ultimately show ?thesis
    by (simp add: normalize_durable_http_uri_def normalize_http_uri_def normalize_http_uri_with_def Let_def)
qed

lemma demo_allowed: "allows_uri demo_policy demo_uri"
  unfolding demo_policy_def demo_uri_def by code_simp

lemma demo_policy_ok: "policy_ok demo_policy"
  by (simp add: demo_policy_def policy_ok_def)

lemma demo_enqueue: "enqueue (empty_checkpoint 1) demo_uri 0 None None = Inr (demo_checkpoint QUEUED 0)"
  by (simp add: enqueue_def demo_uri_canonical require_depth_def empty_checkpoint_def mk_target_def
      option_list_def mk_checkpoint_def demo_checkpoint_def demo_target_def)

lemma demo_start:
  "start (demo_checkpoint QUEUED 0) (new_target_id 1 demo_uri) demo_policy None =
    Inr (demo_checkpoint IN_PROGRESS 1)"
proof -
  have "allows_request (cbudget (demo_checkpoint QUEUED 0)) demo_policy 0 0 None = Inr True"
    by (simp add: allows_request_def demo_checkpoint_def demo_policy_def)
  then show ?thesis
    by (simp add: start_def require_target_def find_target_def demo_checkpoint_def demo_target_def demo_allowed
      mk_target_def demo_uri_canonical require_depth_def mk_budget_def replace_target_def replace_by_def
      mk_checkpoint_def with_budget_def)
qed

lemma demo_reachable: "reachable demo_policy (demo_checkpoint IN_PROGRESS 1)"
  by (meson demo_enqueue demo_start reachable.intros tstep.enqueued tstep.started)




lemma demo_ok: "checkpoint_ok (demo_checkpoint QUEUED 0)"
  using tstep_accounts[OF _ tstep.enqueued[OF demo_enqueue], of demo_policy]
    account_inv_empty[OF demo_policy_ok, of 1]
  by (simp add: accounts_def account_inv_def)


text \<open>
  queueing a URI the frontier already holds never creates, restarts or charges a target: it only
  enriches the provenance (and lowers the depth) of the existing one.
\<close>

theorem enqueue_known_uri:
  assumes "checkpoint_ok c" and "enqueue c u d link parent = Inr c'"
    and "normalize_durable_http_uri u ''traversal target URI'' = Inr w" and "w \<in> uri ` set (targets c)"
  shows "map target_id (targets c') = map target_id (targets c) \<and>
    map status (targets c') = map status (targets c) \<and>
    map attempts (targets c') = map attempts (targets c) \<and> cbudget c' = cbudget c"
  using enqueue_known[OF assms] .

lemma demo_enqueue_again:
  "enqueue (demo_checkpoint QUEUED 0) demo_uri 3 None None = Inr (demo_checkpoint QUEUED 0)"
  by (simp add: enqueue_def demo_uri_canonical require_depth_def mk_target_def append_uuid_def
      replace_target_def replace_by_def mk_checkpoint_def demo_checkpoint_def demo_target_def)

theorem enqueue_known_uri_witness:
  "map status (targets (demo_checkpoint QUEUED 0)) = map status (targets (demo_checkpoint QUEUED 0)) \<and>
    demo_uri \<in> uri ` set (targets (demo_checkpoint QUEUED 0))"
  using enqueue_known_uri[OF demo_ok demo_enqueue_again demo_uri_canonical]
  by (simp add: demo_checkpoint_def demo_target_def)

end
