(* ===== verification/PolicyRequests.thy ===== *)
theory PolicyRequests imports Traversal begin

text \<open>
  \<open>domain/policy_requests.py\<close>: charging the requests made for policy files (robots.txt) to the budget
  of a traversal without touching its targets.
\<close>

definition begin_policy_request ::
  "checkpoint \<Rightarrow> policy \<Rightarrow> int \<Rightarrow> int \<Rightarrow> pyfloat option \<Rightarrow> exc + checkpoint" where
  "begin_policy_request c p d expected since =
    bindE (allows_request (cbudget c) p d expected since) (\<lambda>ok.
    bindE (check ok (ValueError ''policy request exceeds the acquisition budget'')) (\<lambda>_.
    bindE (mk_budget (requests_used (cbudget c) + 1) (bytes_used (cbudget c))
             (Fin (elapsed_seconds (cbudget c)))) (\<lambda>b.
    with_budget c b)))"

definition record_policy_response_bytes :: "checkpoint \<Rightarrow> int \<Rightarrow> exc + checkpoint" where
  "record_policy_response_bytes c n =
    bindE (check (0 \<le> n)
             (ValueError ''policy response bytes_acquired must be a non-negative integer'')) (\<lambda>_.
    bindE (mk_budget (requests_used (cbudget c)) (bytes_used (cbudget c) + n)
             (Fin (elapsed_seconds (cbudget c)))) (\<lambda>b.
    with_budget c b))"

definition require_elapsed :: "checkpoint \<Rightarrow> pyfloat \<Rightarrow> exc + unit" where
  "require_elapsed c elapsed =
    check (isfinite elapsed \<and> elapsed_seconds (cbudget c) \<le> float_val elapsed)
      (ValueError ''policy request elapsed_seconds must be finite and monotonic'')"

definition record_policy_elapsed :: "checkpoint \<Rightarrow> pyfloat \<Rightarrow> exc + checkpoint" where
  "record_policy_elapsed c elapsed =
    bindE (require_elapsed c elapsed) (\<lambda>_.
    bindE (mk_budget (requests_used (cbudget c)) (bytes_used (cbudget c)) elapsed) (\<lambda>b.
    with_budget c b))"

section \<open>What the charges change\<close>

lemma with_budget_Inr:
  "with_budget c b = Inr c' \<Longrightarrow> c' = c\<lparr>cbudget := b\<rparr>"
  by (simp add: with_budget_def mk_checkpoint_Inr)

lemma begin_policy_request_Inr:
  assumes "begin_policy_request c p d n since = Inr c'"
  shows "c' = c\<lparr>cbudget := (cbudget c)\<lparr>requests_used := requests_used (cbudget c) + 1\<rparr>\<rparr> \<and>
    allows_request (cbudget c) p d n since = Inr True \<and> 0 \<le> requests_used (cbudget c) + 1"
  using assms by (auto simp: begin_policy_request_def res_simps mk_budget_Inr dest!: with_budget_Inr)

lemma record_policy_response_bytes_Inr:
  assumes "record_policy_response_bytes c n = Inr c'"
  shows "c' = c\<lparr>cbudget := (cbudget c)\<lparr>bytes_used := bytes_used (cbudget c) + n\<rparr>\<rparr> \<and> 0 \<le> n"
  using assms by (auto simp: record_policy_response_bytes_def res_simps mk_budget_Inr dest!: with_budget_Inr)

lemma record_policy_elapsed_Inr:
  assumes "record_policy_elapsed c e = Inr c'"
  shows "c' = c\<lparr>cbudget := (cbudget c)\<lparr>elapsed_seconds := float_val e\<rparr>\<rparr> \<and>
    elapsed_seconds (cbudget c) \<le> float_val e"
  using assms by (auto simp: record_policy_elapsed_def require_elapsed_def res_simps mk_budget_Inr dest!: with_budget_Inr)

text \<open>The targets are untouched, so a well-formed checkpoint stays one.\<close>

lemma mk_checkpoint_same:
  "checkpoint_ok c \<Longrightarrow> mk_checkpoint (c\<lparr>cbudget := b\<rparr>) = Inr (c\<lparr>cbudget := b\<rparr>)"
  by (auto simp: mk_checkpoint_Inr checkpoint_ok_def)

lemma with_budget_ok: "checkpoint_ok c \<Longrightarrow> budget_ok b \<Longrightarrow> checkpoint_ok (c\<lparr>cbudget := b\<rparr>)"
  by (simp add: checkpoint_ok_def)

end
