(* ===== verification/HttpPorts.thy ===== *)
theory HttpPorts imports Effects RobotsCache PolicyFinalization PolicyRequests begin

text \<open>
  What the services are given at construction: the resolver and the transport
  (\<open>ports/http_transport.py\<close>), the artifact and observation stores, the repositories of checkpoints and
  of finalizations, the robots cache, the clock and the sleeper. Each is a function on the state \<open>'w\<close> of
  the outside world that may raise. The state of a run holds the world and, for the statements, the
  list of the effects so far, newest first.
\<close>

section \<open>Artifacts\<close>

text \<open>\<open>Artifact\<close> of \<open>domain/models.py\<close>.\<close>

record artifact =
  ar_id :: uuid
  ar_sha256 :: pystr
  ar_size :: int
  ar_media_type :: pystr
  ar_storage_key :: pystr
  ar_original_name :: "pystr option"
  ar_acquired_at :: datetime
  ar_source_uri :: "pystr option"

section \<open>The ports\<close>

record 'w ports =
  p_resolve :: "pystr \<Rightarrow> rat option \<Rightarrow> 'w \<Rightarrow> (exc + pystr list) \<times> 'w"
  p_request :: "pystr \<Rightarrow> pystr \<Rightarrow> int \<Rightarrow> rat option \<Rightarrow> 'w \<Rightarrow> (exc + response) \<times> 'w"
  p_put_bytes :: "pystr \<Rightarrow> pystr option \<Rightarrow> pystr \<Rightarrow> pystr \<Rightarrow> 'w \<Rightarrow> (exc + artifact) \<times> 'w"
  p_exists :: "pystr \<Rightarrow> 'w \<Rightarrow> (exc + bool) \<times> 'w"
  p_read_bytes :: "pystr \<Rightarrow> 'w \<Rightarrow> (exc + pystr) \<times> 'w"
  p_save_observation :: "observation \<Rightarrow> 'w \<Rightarrow> (exc + unit) \<times> 'w"
  p_get_observation :: "uuid \<Rightarrow> 'w \<Rightarrow> (exc + observation option) \<times> 'w"
  p_save_checkpoint :: "checkpoint \<Rightarrow> 'w \<Rightarrow> (exc + unit) \<times> 'w"
  p_get_checkpoint :: "uuid \<Rightarrow> 'w \<Rightarrow> (exc + checkpoint option) \<times> 'w"
  p_save_finalization :: "finalization \<Rightarrow> 'w \<Rightarrow> (exc + unit) \<times> 'w"
  p_get_finalization :: "uuid \<Rightarrow> pystr \<Rightarrow> 'w \<Rightarrow> (exc + finalization option) \<times> 'w"
  p_delete_finalization :: "finalization \<Rightarrow> 'w \<Rightarrow> (exc + unit) \<times> 'w"
  p_get_robots :: "pystr \<Rightarrow> 'w \<Rightarrow> (exc + robots_entry option) \<times> 'w"
  p_save_robots :: "robots_entry \<Rightarrow> 'w \<Rightarrow> (exc + unit) \<times> 'w"
  p_clock :: "'w \<Rightarrow> (exc + pyfloat) \<times> 'w"
  p_utc_now :: "'w \<Rightarrow> datetime \<times> 'w"
  p_sleep :: "rat \<Rightarrow> 'w \<Rightarrow> (exc + unit) \<times> 'w"

text \<open>The effects on the world that the statements speak of; the flag says whether the call returned.\<close>

datatype event =
    Resolved pystr bool
  | Requested pystr pystr int bool
  | Checkpointed checkpoint bool
  | Stored pystr bool
  | Observed observation bool
  | Journaled finalization bool
  | Unjournaled finalization bool
  | Cached robots_entry bool
  | Slept rat bool

record 'w state =
  world :: 'w
  trace :: "event list"

text \<open>The exceptions of the services; \<open>Raised\<close> is every other one.\<close>

datatype failure =
    Raised exc
  | CheckpointError
  | AcquisitionError pystr checkpoint
  | CommitError pystr checkpoint
  | PolicyFetchError pystr checkpoint
  | RedirectLimitError checkpoint
  | PolicyCommitError pystr checkpoint

fun failure_name :: "failure \<Rightarrow> pystr" where
  "failure_name (Raised e) = exc_name e"
| "failure_name CheckpointError = ''HttpAcquisitionCheckpointError''"
| "failure_name (AcquisitionError _ _) = ''HttpAcquisitionError''"
| "failure_name (CommitError _ _) = ''HttpAcquisitionCommitError''"
| "failure_name (PolicyFetchError _ _) = ''HttpPolicyFetchError''"
| "failure_name (RedirectLimitError _) = ''HttpPolicyRedirectLimitError''"
| "failure_name (PolicyCommitError _ _) = ''HttpPolicyFetchCommitError''"

type_synonym ('w, 'a) service = "('w state, failure, 'a) prog"

definition liftS :: "exc + 'a \<Rightarrow> ('w, 'a) service" where
  "liftS m = (case m of Inl e \<Rightarrow> throw (Raised e) | Inr x \<Rightarrow> ret x)"

definition checkS :: "bool \<Rightarrow> exc \<Rightarrow> ('w, unit) service" where
  "checkS b e = (if b then ret () else throw (Raised e))"

definition perform :: "('w \<Rightarrow> (exc + 'a) \<times> 'w) \<Rightarrow> (bool \<Rightarrow> event list) \<Rightarrow> ('w, 'a) service" where
  "perform call events s =
    (case call (world s) of
       (Inl e, w) \<Rightarrow> (Inl (Raised e), s\<lparr>world := w, trace := events False @ trace s\<rparr>)
     | (Inr x, w) \<Rightarrow> (Inr x, s\<lparr>world := w, trace := events True @ trace s\<rparr>))"

definition query :: "('w \<Rightarrow> (exc + 'a) \<times> 'w) \<Rightarrow> ('w, 'a) service" where
  "query call = perform call (\<lambda>_. [])"

definition utc_now :: "'w ports \<Rightarrow> ('w, datetime) service" where
  "utc_now P = query (\<lambda>w. case p_utc_now P w of (d, w') \<Rightarrow> (Inr d, w'))"

section \<open>Preconditions over the trace\<close>

text \<open>
  Nothing is assumed of the ports, so what can be said of a run is said of its effects: the
  preconditions below speak of the trace only, one introduction rule for each kind of statement.
\<close>

definition twp ::
  "('w state, 'e, 'a) prog \<Rightarrow> ('a \<Rightarrow> event list \<Rightarrow> bool) \<Rightarrow> ('e \<Rightarrow> event list \<Rightarrow> bool) \<Rightarrow>
    event list \<Rightarrow> bool" where
  "twp m Q E t \<longleftrightarrow> (\<forall>s. trace s = t \<longrightarrow> wp m (\<lambda>x s. Q x (trace s)) (\<lambda>e s. E e (trace s)) s)"

named_theorems twp_intros \<open>the precondition of each kind of statement\<close>

lemma twp_ret [twp_intros]: "Q x t \<Longrightarrow> twp (ret x) Q E t"
  by (simp add: twp_def wp_ret)

lemma twp_throw [twp_intros]: "E e t \<Longrightarrow> twp (throw e) Q E t"
  by (simp add: twp_def wp_throw)

lemma twp_bind [twp_intros]: "twp m (\<lambda>x. twp (f x) Q E) E t \<Longrightarrow> twp (bindS m f) Q E t"
  unfolding twp_def wp_bind by (fastforce elim: wp_mono)

lemma twp_catch [twp_intros]: "twp m Q (\<lambda>e. twp (h e) Q E) t \<Longrightarrow> twp (catchS m h) Q E t"
  unfolding twp_def wp_catch by (fastforce elim: wp_mono)

lemma twp_if [twp_intros]: "(b \<Longrightarrow> twp m Q E t) \<Longrightarrow> (\<not> b \<Longrightarrow> twp n Q E t) \<Longrightarrow> twp (if b then m else n) Q E t"
  by simp

lemma twp_mono:
  "twp m Q' E' t \<Longrightarrow> (\<And>x t'. Q' x t' \<Longrightarrow> Q x t') \<Longrightarrow> (\<And>e t'. E' e t' \<Longrightarrow> E e t') \<Longrightarrow> twp m Q E t"
  unfolding twp_def by (fastforce elim: wp_mono)

lemma twp_mapErr [twp_intros]: "twp m Q (\<lambda>e. E (f e)) t \<Longrightarrow> twp (mapErr f m) Q E t"
  unfolding mapErr_def by (rule twp_catch, erule twp_mono) (auto intro: twp_throw)

lemma twp_lift [twp_intros]:
  "(\<And>x. m = Inr x \<Longrightarrow> Q x t) \<Longrightarrow> (\<And>e. m = Inl e \<Longrightarrow> E (Raised e) t) \<Longrightarrow> twp (liftS m) Q E t"
  by (cases m) (simp_all add: liftS_def twp_ret twp_throw)

lemma twp_check [twp_intros]:
  "(b \<Longrightarrow> Q () t) \<Longrightarrow> (\<not> b \<Longrightarrow> E (Raised e) t) \<Longrightarrow> twp (checkS b e) Q E t"
  by (simp add: checkS_def twp_ret twp_throw)

lemma twp_perform [twp_intros]:
  "(\<And>x. Q x (ev True @ t)) \<Longrightarrow> (\<And>e. E (Raised e) (ev False @ t)) \<Longrightarrow> twp (perform call ev) Q E t"
  by (auto simp: twp_def wp_def perform_def split: prod.splits sum.splits)

lemma twp_query [twp_intros]:
  "(\<And>x. Q x t) \<Longrightarrow> (\<And>e. E (Raised e) t) \<Longrightarrow> twp (query call) Q E t"
  unfolding query_def by (rule twp_perform) simp_all

lemma twp_run: "twp m Q E (trace s) \<Longrightarrow> m s = (r, s') \<Longrightarrow> (case r of Inl e \<Rightarrow> E e (trace s') | Inr x \<Rightarrow> Q x (trace s'))"
  by (auto simp: twp_def wp_def split: prod.splits sum.splits)

text \<open>Programs that leave no effect: readers of the clock and of the stores.\<close>

definition quiet :: "('w, 'a) service \<Rightarrow> bool" where
  "quiet m \<longleftrightarrow> (\<forall>Q E t. (\<forall>x. Q x t) \<longrightarrow> (\<forall>e. E (Raised e) t) \<longrightarrow> twp m Q E t)"

lemma twp_quiet: "quiet m \<Longrightarrow> (\<And>x. Q x t) \<Longrightarrow> (\<And>e. E (Raised e) t) \<Longrightarrow> twp m Q E t"
  by (simp add: quiet_def)

named_theorems quiet_intros \<open>statements without effects\<close>

lemma quiet_query [quiet_intros]: "quiet (query call)"
  by (simp add: quiet_def twp_query)

lemma quiet_utc_now [quiet_intros]: "quiet (utc_now P)"
  unfolding utc_now_def by (rule quiet_query)

lemma quiet_lift [quiet_intros]: "quiet (liftS m)"
  by (simp add: quiet_def twp_lift)

lemma quiet_check [quiet_intros]: "quiet (checkS b e)"
  by (simp add: quiet_def twp_check)

lemma quiet_ret [quiet_intros]: "quiet (ret x)"
  by (simp add: quiet_def twp_ret)

lemma quiet_bind [quiet_intros]: "quiet m \<Longrightarrow> (\<And>x. quiet (f x)) \<Longrightarrow> quiet (bindS m f)"
  by (simp add: quiet_def twp_bind)

section \<open>One exchange\<close>

text \<open>
  \<open>PolicySafeHttpExchange.request\<close>: resolve, choose the first address the policy allows, and make one
  request to exactly that address.
\<close>

definition request_hostname :: "pystr \<Rightarrow> exc + pystr" where
  "request_hostname u =
    bindE (normalize_http_uri u ''HTTP URI'') (\<lambda>n.
    case urlsplit n of
      None \<Rightarrow> Inl (ValueError ''Invalid URL'')
    | Some sp \<Rightarrow> Inr (case sp_hostname sp of None \<Rightarrow> [] | Some h \<Rightarrow> h))"

definition exchange ::
  "'w ports \<Rightarrow> pystr \<Rightarrow> policy \<Rightarrow> int \<Rightarrow> ('w, rat option) service \<Rightarrow> ('w, response) service" where
  "exchange P u p cap remaining =
    bindS (checkS (0 \<le> cap) (ValueError ''HTTP response byte cap must be a non-negative integer'')) (\<lambda>_.
    bindS (checkS (allows_uri p u)
             (ValueError ''HTTP request URI is not allowed by acquisition policy'')) (\<lambda>_.
    bindS (liftS (request_hostname u)) (\<lambda>hostname.
    bindS remaining (\<lambda>timeout.
    bindS (perform (p_resolve P hostname timeout) (\<lambda>ok. [Resolved hostname ok])) (\<lambda>addresses.
    bindS (checkS (addresses \<noteq> [])
             (ValueError ''HTTP hostname resolution returned no addresses'')) (\<lambda>_.
    bindS (liftS (case find (allows_resolved_address p) addresses of
             None \<Rightarrow> Inl (ValueError ''HTTP hostname resolved only to disallowed addresses'')
           | Some a \<Rightarrow> Inr a)) (\<lambda>address.
    bindS remaining (\<lambda>timeout'.
    bindS (perform (p_request P u address cap timeout') (\<lambda>ok. [Requested u address cap ok])) (\<lambda>response.
    bindS (checkS (int (length (rs_body response)) \<le> cap)
             (ValueError ''HTTP transport returned a body larger than its requested cap'')) (\<lambda>_.
    ret response))))))))))"

text \<open>
  The effects of an exchange: a look-up, then at most one request, to an address the policy allows, for
  a URI it allows, with the given cap; a returned body is within the cap.
\<close>

lemma twp_exchange:
  assumes quiet: "quiet remaining"
    and Q: "\<And>h a r. 0 \<le> cap \<Longrightarrow> allows_uri p u \<Longrightarrow> allows_resolved_address p a \<Longrightarrow>
      int (length (rs_body r)) \<le> cap \<Longrightarrow> Q r (Requested u a cap True # Resolved h True # t)"
    and E: "\<And>e. E (Raised e) t" "\<And>e h ok. E (Raised e) (Resolved h ok # t)"
      "\<And>e h a ok. 0 \<le> cap \<Longrightarrow> allows_uri p u \<Longrightarrow> allows_resolved_address p a \<Longrightarrow>
        E (Raised e) (Requested u a cap ok # Resolved h True # t)"
  shows "twp (exchange P u p cap remaining) Q E t"
  unfolding exchange_def
  by (intro twp_intros twp_quiet[OF quiet])
    (use Q E in \<open>auto split: option.splits dest: find_Some_mem\<close>)

end
