(* ===== verification/TraversalStore.thy ===== *)
theory TraversalStore imports Traversal Stores begin

text \<open>
  \<open>infrastructure/storage/json_traversal_checkpoint_repository.py\<close>: the JSON catalogue of
  checkpoints, \<open>{"schema_version": 1, "checkpoints": {id: checkpoint}}\<close>. The store is the
  decoded file; file locking and the text encoding of JSON are the library's.
\<close>

section \<open>Documents\<close>

fun status_value :: "tstatus \<Rightarrow> pystr" where
  "status_value QUEUED = ''queued''"
| "status_value IN_PROGRESS = ''in_progress''"
| "status_value FINALIZING = ''finalizing''"
| "status_value COMPLETED = ''completed''"
| "status_value FAILED = ''failed''"
| "status_value SKIPPED = ''skipped''"

definition parse_status :: "pystr \<Rightarrow> exc + tstatus" where
  "parse_status v =
    (case find (\<lambda>s. status_value s = v) [QUEUED, IN_PROGRESS, FINALIZING, COMPLETED, FAILED, SKIPPED] of
       Some s \<Rightarrow> Inr s
     | None \<Rightarrow> Inl (ValueError (v @ '' is not a valid TraversalStatus'')))"

definition target_to_dict :: "target \<Rightarrow> json" where
  "target_to_dict t = JObj
    [(''target_id'', JStr (uuid_str (target_id t))),
     (''uri'', JStr (uri t)),
     (''depth'', JInt (depth t)),
     (''status'', JStr (status_value (status t))),
     (''attempts'', JInt (attempts t)),
     (''bytes_acquired'', JInt (bytes_acquired t)),
     (''discovery_link_ids'', JList (map (\<lambda>u. JStr (uuid_str u)) (discovery_link_ids t))),
     (''parent_target_ids'', JList (map (\<lambda>u. JStr (uuid_str u)) (parent_target_ids t))),
     (''last_error'', jopt JStr (last_error t)),
     (''final_artifact_sha256'', jopt JStr (final_artifact_sha256 t)),
     (''final_observation_id'', jopt (\<lambda>u. JStr (uuid_str u)) (final_observation_id t))]"

definition checkpoint_to_dict :: "checkpoint \<Rightarrow> json" where
  "checkpoint_to_dict c = JObj
    [(''checkpoint_id'', JStr (uuid_str (checkpoint_id c))),
     (''budget'', JObj
       [(''requests_used'', JInt (requests_used (cbudget c))),
        (''bytes_used'', JInt (bytes_used (cbudget c))),
        (''elapsed_seconds'', JFloat (elapsed_seconds (cbudget c)))]),
     (''targets'', JList (map target_to_dict (targets c)))]"

definition target_from_dict :: "json \<Rightarrow> exc + target" where
  "target_from_dict raw =
    bindE (bindE (jitem raw ''target_id'') juuid) (\<lambda>tid.
    bindE (bindE (jitem raw ''uri'') jstr) (\<lambda>u.
    bindE (bindE (jitem raw ''depth'') jint) (\<lambda>d.
    bindE (bindE (bindE (jitem raw ''status'') jstr) parse_status) (\<lambda>st.
    bindE (bindE (jitem raw ''attempts'') jint) (\<lambda>n.
    bindE (bindE (jitem raw ''bytes_acquired'') jint) (\<lambda>b.
    bindE (bindE (jitem raw ''discovery_link_ids'') juuids) (\<lambda>links.
    bindE (bindE (jitem raw ''parent_target_ids'') juuids) (\<lambda>parents.
    bindE (jopt_str (jget raw ''last_error'')) (\<lambda>err.
    bindE (jopt_str (jget raw ''final_artifact_sha256'')) (\<lambda>art.
    bindE (jopt_uuid (jget raw ''final_observation_id'')) (\<lambda>obs.
    mk_target \<lparr>target_id = tid, uri = u, depth = d, status = st, attempts = n, bytes_acquired = b,
      discovery_link_ids = links, parent_target_ids = parents, last_error = err,
      final_artifact_sha256 = art, final_observation_id = obs\<rparr>)))))))))))"

definition checkpoint_from_dict :: "json \<Rightarrow> exc + checkpoint" where
  "checkpoint_from_dict raw =
    bindE (jitem raw ''budget'') (\<lambda>budget_raw.
    bindE (bindE (jitem raw ''checkpoint_id'') juuid) (\<lambda>cid.
    bindE (bindE (jitem budget_raw ''requests_used'') jint) (\<lambda>r.
    bindE (bindE (jitem budget_raw ''bytes_used'') jint) (\<lambda>n.
    bindE (bindE (jitem budget_raw ''elapsed_seconds'') jfloat) (\<lambda>e.
    bindE (mk_budget r n e) (\<lambda>b.
    bindE (bindE (bindE (jitem raw ''targets'') jlist) (mapM target_from_dict)) (\<lambda>ts.
    mk_checkpoint \<lparr>checkpoint_id = cid, targets = ts, cbudget = b\<rparr>)))))))"

section \<open>The catalogue\<close>

definition init_catalog :: "json_file \<Rightarrow> json_file" where
  "init_catalog f = (if f = Missing then empty_document ''checkpoints'' else f)"

definition read_catalog :: "json_file \<Rightarrow> exc + (pystr \<times> json) list" where
  "read_catalog f = read_document ''traversal checkpoint catalog'' ''checkpoints'' f"

definition save_checkpoint :: "json_file \<Rightarrow> checkpoint \<Rightarrow> exc + json_file" where
  "save_checkpoint f c =
    bindE (read_catalog f) (\<lambda>data.
    Inr (set_bucket data ''checkpoints''
      (jset (json_bucket data ''checkpoints'') (uuid_str (checkpoint_id c)) (checkpoint_to_dict c))))"

definition get_checkpoint :: "json_file \<Rightarrow> uuid \<Rightarrow> exc + checkpoint option" where
  "get_checkpoint f cid =
    bindE (read_catalog f) (\<lambda>data.
    case bucket_get (json_bucket data ''checkpoints'') (uuid_str cid) of
      None \<Rightarrow> Inr None
    | Some payload \<Rightarrow> bindE (checkpoint_from_dict payload) (\<lambda>c. Inr (Some c)))"

section \<open>Reading back\<close>

text \<open>
  A target is rebuilt by its constructor, which normalises the URI once more: the stored URI has to
  be a fixed point of the normalisation.
\<close>

definition canonical_uri :: "pystr \<Rightarrow> bool" where
  "canonical_uri u \<longleftrightarrow> normalize_durable_http_uri u ''traversal target URI'' = Inr u"

definition durable :: "checkpoint \<Rightarrow> bool" where
  "durable c \<longleftrightarrow> checkpoint_ok c \<and> (\<forall>t \<in> set (targets c). canonical_uri (uri t))"

lemma parse_status_value [simp]: "parse_status (status_value s) = Inr s"
  by (cases s) (simp_all add: parse_status_def)

lemma target_eta:
  "\<lparr>target_id = target_id t, uri = uri t, depth = depth t, status = status t, attempts = attempts t,
    bytes_acquired = bytes_acquired t, discovery_link_ids = discovery_link_ids t,
    parent_target_ids = parent_target_ids t, last_error = last_error t,
    final_artifact_sha256 = final_artifact_sha256 t, final_observation_id = final_observation_id t\<rparr> = t"
  by simp

lemma checkpoint_eta: "\<lparr>checkpoint_id = checkpoint_id c, targets = targets c, cbudget = cbudget c\<rparr> = c"
  by simp

lemma mk_target_fixed:
  assumes ok: "target_ok t" and u: "canonical_uri (uri t)"
  shows "mk_target t = Inr t"
proof -
  note o = ok[unfolded target_ok_def]
  have e: "(if status t \<in> {FAILED, SKIPPED} then check (last_error t \<noteq> None) e1
     else check (last_error t = None) e2) = Inr ()" for e1 e2 :: exc
    using o by auto
  have a: "(case final_artifact_sha256 t of None \<Rightarrow> Inr () | Some a \<Rightarrow> require_sha256 a) = Inr ()"
    using o by (auto simp: require_sha256_def split: option.splits)
  have l: "case last_error t of None \<Rightarrow> True | Some e \<Rightarrow> \<not> blank e"
    using o by (auto split: option.splits)
  have at: "status t \<in> {IN_PROGRESS, FINALIZING, COMPLETED, FAILED} \<longrightarrow> 1 \<le> attempts t" using o by blast
  have s: "\<not> (status t \<in> {IN_PROGRESS, FINALIZING, COMPLETED, FAILED} \<and> attempts t = 0)"
    using at by auto
  have s': "\<not> (status t \<notin> {FINALIZING, COMPLETED} \<and> final_artifact_sha256 t \<noteq> None)"
    "\<not> (status t = FINALIZING \<and> final_artifact_sha256 t = None)"
    "(final_artifact_sha256 t \<noteq> None) = (final_observation_id t \<noteq> None)"
    "0 \<le> depth t" "0 \<le> attempts t" "0 \<le> bytes_acquired t"
    using o by blast+
  have u': "uniq (discovery_link_ids t) = discovery_link_ids t"
    "uniq (parent_target_ids t) = parent_target_ids t" "target_id t \<notin> set (parent_target_ids t)"
    using o by (simp only: uniq_distinct, simp only: uniq_distinct, blast)
  have pass: "bindE (check b e) f = f ()" if b for b e and f :: "unit \<Rightarrow> exc + target"
    using that by simp
  show ?thesis
    unfolding mk_target_def u[unfolded canonical_uri_def] bindE_simps require_depth_def e a
      pass[OF l] pass[OF s] pass[OF s'(1)] pass[OF s'(2)] pass[OF s'(3)]
      require_non_negative_int_ok[OF s'(4)] require_non_negative_int_ok[OF s'(5)]
      require_non_negative_int_ok[OF s'(6)] u'(1,2)
    using u'(3) by simp
qed

lemma target_from_to_dict: "target_ok t \<Longrightarrow> canonical_uri (uri t) \<Longrightarrow> target_from_dict (target_to_dict t) = Inr t"
  using mk_target_fixed[of t] by (simp add: target_from_dict_def target_to_dict_def jitem_def target_eta del: target.surjective)

lemma mk_checkpoint_fixed: "checkpoint_ok c \<Longrightarrow> mk_checkpoint c = Inr c"
  by (auto simp: mk_checkpoint_Inr checkpoint_ok_def)

lemma mk_budget_fixed: "budget_ok b \<Longrightarrow> mk_budget (requests_used b) (bytes_used b) (Fin (elapsed_seconds b)) = Inr b"
  by (simp add: mk_budget_Inr budget_ok_def)

lemma checkpoint_from_to_dict: "durable c \<Longrightarrow> checkpoint_from_dict (checkpoint_to_dict c) = Inr c"
proof -
  assume d: "durable c"
  have "mapM target_from_dict (map target_to_dict (targets c)) = Inr (targets c)"
    using d by (intro mapM_map_id target_from_to_dict) (auto simp: durable_def checkpoint_ok_def)
  then show ?thesis
    using mk_checkpoint_fixed[of c] mk_budget_fixed[of "cbudget c"] d
    by (simp add: checkpoint_from_dict_def checkpoint_to_dict_def jitem_def durable_def checkpoint_ok_def checkpoint_eta)
qed

definition readable :: "json_file \<Rightarrow> bool" where
  "readable f \<longleftrightarrow> isOk (read_catalog f)"

lemma readable_init: "f \<noteq> Malformed \<Longrightarrow> (\<forall>j. f \<noteq> Document j) \<Longrightarrow> readable (init_catalog f)"
  by (cases f) (simp_all add: init_catalog_def readable_def read_catalog_def json_is_one_def
      read_document_def empty_document_def)

lemma save_checkpoint_Inr:
  assumes "save_checkpoint f c = Inr f'"
  shows "\<exists>data data'. read_catalog f = Inr data \<and> read_catalog f' = Inr data' \<and>
    json_bucket data' ''checkpoints'' =
      jset (json_bucket data ''checkpoints'') (uuid_str (checkpoint_id c)) (checkpoint_to_dict c)"
proof -
  from assms obtain data where d: "read_catalog f = Inr data"
    and f': "f' = set_bucket data ''checkpoints''
      (jset (json_bucket data ''checkpoints'') (uuid_str (checkpoint_id c)) (checkpoint_to_dict c))"
    by (auto simp: save_checkpoint_def res_simps)
  show ?thesis unfolding read_catalog_def f'
    using read_set_bucket[OF d[unfolded read_catalog_def]] d[unfolded read_catalog_def] by simp
qed

interpretation tcs: keyed_store get_checkpoint save_checkpoint checkpoint_id durable readable
proof
  fix s v
  assume "readable s" "durable v"
  then show "\<exists>s'. save_checkpoint s v = Inr s'"
    by (auto simp: readable_def isOk_iff save_checkpoint_def)
next
  fix s v s'
  assume "readable s" "save_checkpoint s v = Inr s'"
  then show "readable s'" using save_checkpoint_Inr[of s v s'] by (auto simp: readable_def)
next
  fix s v s' k
  assume "readable s" "durable v" and sv: "save_checkpoint s v = Inr s'"
  moreover have "checkpoint_to_dict v \<noteq> JNull" by (simp add: checkpoint_to_dict_def)
  ultimately show "get_checkpoint s' k = (if k = checkpoint_id v then Inr (Some v) else get_checkpoint s k)"
    using save_checkpoint_Inr[OF sv] by (auto simp: get_checkpoint_def checkpoint_from_to_dict)
qed

section \<open>Steps that stay in the frontier\<close>

text \<open>
  The operations on one target leave a checkpoint that reads back whenever the given one does: its
  identity stays, and so do the normalised URIs of its targets.
\<close>

definition advances :: "policy \<Rightarrow> checkpoint \<Rightarrow> checkpoint \<Rightarrow> bool" where
  "advances p c c' \<longleftrightarrow>
    tstep p c c' \<and> checkpoint_id c' = checkpoint_id c \<and>
    ((\<forall>t \<in> set (targets c). canonical_uri (uri t)) \<longrightarrow> (\<forall>t \<in> set (targets c'). canonical_uri (uri t)))"

lemma advances_target:
  assumes "tstep p c c'" "require_target c tid = Inr t" "mk_target r = Inr t'" "uri r = uri t"
    and "checkpoint_id c' = checkpoint_id c" "targets c' = replace_by target_id t' (targets c)"
  shows "advances p c c'"
proof -
  have "t \<in> set (targets c)" using assms(2)
    by (auto simp: require_target_def find_target_def dest: find_Some_mem split: option.splits)
  moreover have "canonical_uri (uri t')" if "canonical_uri (uri t)"
    using that mk_target_Inr[OF assms(3)] assms(4) by (simp add: canonical_uri_def)
  ultimately show ?thesis
    using assms(1,5,6) replace_by_memD[of _ target_id t' "targets c"] by (fastforce simp: advances_def)
qed

lemmas target_replaced = replace_target_def with_budget_def mk_checkpoint_Inr res_simps

lemma start_advances: "start c tid p since = Inr c' \<Longrightarrow> advances p c c'"
  by (frule tstep.started, unfold start_def) (auto simp: target_replaced intro: advances_target)

lemma record_followup_request_advances: "record_followup_request c tid p n since = Inr c' \<Longrightarrow> advances p c c'"
  using record_followup_request_Inr[of c tid p n since c'] tstep.followed_up[of c tid p n since c']
  by (auto simp: advances_def)

lemma record_response_bytes_advances: "record_response_bytes c tid n = Inr c' \<Longrightarrow> advances p c c'"
  by (frule tstep.responded[of _ _ _ _ p], unfold record_response_bytes_def)
    (auto simp: target_replaced intro: advances_target)

lemma begin_finalization_advances: "begin_finalization c tid a ob el = Inr c' \<Longrightarrow> advances p c c'"
  by (frule tstep.finalizing[of _ _ _ _ _ _ p], unfold begin_finalization_def)
    (auto simp: target_replaced intro: advances_target)

lemma complete_finalization_advances: "complete_finalization c tid el = Inr c' \<Longrightarrow> advances p c c'"
  by (frule tstep.finalized[of _ _ _ _ p], unfold complete_finalization_def)
    (auto simp: target_replaced intro: advances_target)

lemma fail_advances: "fail c tid err el n = Inr c' \<Longrightarrow> advances p c c'"
  by (frule tstep.failed[of _ _ _ _ _ _ p], unfold fail_def) (auto simp: target_replaced intro: advances_target)

lemma skip_advances: "skip c tid reason = Inr c' \<Longrightarrow> advances p c c'"
  by (frule tstep.skipped[of _ _ _ _ p], unfold skip_def) (auto simp: target_replaced intro: advances_target)

lemma advances_steps: "(advances p)\<^sup>*\<^sup>* c c' \<Longrightarrow> (tstep p)\<^sup>*\<^sup>* c c'"
  by (erule rtranclp_mono[THEN predicate2D, rotated]) (auto simp: advances_def)

lemma tstep_ok: "tstep p c c' \<Longrightarrow> checkpoint_ok c \<Longrightarrow> checkpoint_ok c'"
  using tstep_accounts[of c p c'] by (simp add: accounts_def)

lemma advancesD:
  assumes "advances p c c'"
  shows "durable c \<Longrightarrow> durable c'" "checkpoint_id c' = checkpoint_id c"
  using assms tstep_ok[of p c c'] unfolding advances_def durable_def by blast+

lemma advances_durable:
  "(advances p)\<^sup>*\<^sup>* c c' \<Longrightarrow> durable c \<Longrightarrow> durable c' \<and> checkpoint_id c' = checkpoint_id c"
  by (erule rtranclp_induct) (use advancesD in \<open>blast | metis\<close>)+

section \<open>Choosing and starting a target\<close>

lemma next_eligible_in_Some:
  "next_eligible_in ts b p since = Inr (Some t) \<Longrightarrow>
    t \<in> set ts \<and> status t = QUEUED \<and> allows_uri p (uri t) \<and> allows_request b p (depth t) 0 since = Inr True"
  by (induction ts) (auto simp: res_simps split: if_splits)

lemma next_eligible_in_None:
  "next_eligible_in ts b p since = Inr None \<Longrightarrow> t \<in> set ts \<Longrightarrow> status t = QUEUED \<Longrightarrow>
    allows_uri p (uri t) \<Longrightarrow> allows_request b p (depth t) 0 since = Inr False"
  by (induction ts) (auto simp: res_simps split: if_splits)

lemma mk_target_start:
  assumes "target_ok t" "canonical_uri (uri t)" "status t = QUEUED"
  shows "mk_target (t\<lparr>status := IN_PROGRESS, attempts := attempts t + 1, last_error := None,
             final_artifact_sha256 := None, final_observation_id := None\<rparr>) =
    Inr (t\<lparr>status := IN_PROGRESS, attempts := attempts t + 1, last_error := None,
             final_artifact_sha256 := None, final_observation_id := None\<rparr>)"
  using assms by (intro mk_target_fixed) (auto simp: target_ok_def)

lemma mk_checkpoint_replace:
  assumes ok: "checkpoint_ok c" and t: "t \<in> set (targets c)" "target_id t' = target_id t" "uri t' = uri t"
    "set (parent_target_ids t') \<subseteq> target_id ` set (targets c)"
  shows "mk_checkpoint (c\<lparr>targets := replace_by target_id t' (targets c), cbudget := b\<rparr>) =
    Inr (c\<lparr>targets := replace_by target_id t' (targets c), cbudget := b\<rparr>)"
proof -
  have d: "distinct (map target_id (targets c))" using ok by (simp add: checkpoint_ok_def)
  have "map uri (replace_by target_id t' (targets c)) = map uri (targets c)"
    by (rule map_replace_by_same[OF d t(1-3)])
  moreover have "target_id ` set (replace_by target_id t' (targets c)) = target_id ` set (targets c)"
    by (metis map_key_replace_by set_map)
  ultimately show ?thesis using ok t(4) replace_by_memD[of _ target_id t' "targets c"]
    by (auto simp: mk_checkpoint_Inr checkpoint_ok_def) blast
qed

lemma start_total:
  assumes d: "durable c" and t: "t \<in> set (targets c)" "status t = QUEUED"
    and a: "allows_uri p (uri t)" "allows_request (cbudget c) p (depth t) 0 since = Inr True"
  shows "\<exists>c'. start c (target_id t) p since = Inr c' \<and> durable c'"
proof -
  let ?t = "t\<lparr>status := IN_PROGRESS, attempts := attempts t + 1, last_error := None,
             final_artifact_sha256 := None, final_observation_id := None\<rparr>"
  let ?b = "(cbudget c)\<lparr>requests_used := requests_used (cbudget c) + 1\<rparr>"
  let ?c = "c\<lparr>targets := replace_by target_id ?t (targets c), cbudget := ?b\<rparr>"
  have ok: "checkpoint_ok c" and can: "\<forall>t \<in> set (targets c). canonical_uri (uri t)"
    using d by (auto simp: durable_def)
  have f: "find_target c (target_id t) = Some t"
    unfolding find_target_def using ok t(1) by (intro find_key_distinct) (auto simp: checkpoint_ok_def)
  have tok: "target_ok t" "budget_ok (cbudget c)" "set (parent_target_ids t) \<subseteq> target_id ` set (targets c)"
    using ok t(1) by (auto simp: checkpoint_ok_def)
  have b: "mk_budget (requests_used (cbudget c) + 1) (bytes_used (cbudget c)) (Fin (elapsed_seconds (cbudget c))) = Inr ?b"
    using tok(2) by (simp add: mk_budget_Inr budget_ok_def)
  have 1: "replace_target c ?t = Inr (c\<lparr>targets := replace_by target_id ?t (targets c)\<rparr>)"
    using mk_checkpoint_replace[OF ok t(1), of ?t "cbudget c"] tok(3) by (simp add: replace_target_def)
  have 2: "with_budget (c\<lparr>targets := replace_by target_id ?t (targets c)\<rparr>) ?b = Inr ?c"
    using mk_checkpoint_replace[OF ok t(1), of ?t ?b] tok(3) by (simp add: with_budget_def)
  have st: "start c (target_id t) p since = Inr ?c"
    using t(2) a f mk_target_start[OF tok(1) _ t(2)] can t(1) b 1 2
    by (simp add: start_def require_target_def)
  have "checkpoint_ok ?c"
    using tstep_accounts[OF ok tstep.started[OF st]] by (simp add: accounts_def)
  moreover have "canonical_uri (uri x)" if "x \<in> set (targets ?c)" for x
    using that can t(1) replace_by_memD[of x target_id ?t "targets c"] by auto
  ultimately have "durable ?c" by (simp add: durable_def)
  with st show ?thesis by blast
qed

section \<open>Properties\<close>

lemma demo_durable: "durable (demo_checkpoint QUEUED 0)"
  using demo_ok demo_uri_canonical
  by (simp add: durable_def canonical_uri_def demo_checkpoint_def demo_target_def)

text \<open>
  C17: the choice of the next target is complete and never blocks the crawl. A target
  \<open>next_eligible\<close> returns can be started right away, and its start yields a checkpoint that can be
  saved; when it returns none, no queued target inside the policy's scope fits the budget.
\<close>

theorem next_eligible_progress:
  assumes "durable c" and "next_eligible c p since = Inr r"
  shows "case r of
      Some t \<Rightarrow> \<exists>c'. start c (target_id t) p since = Inr c' \<and> durable c'
    | None \<Rightarrow> \<forall>t \<in> set (targets c). status t = QUEUED \<and> allows_uri p (uri t) \<longrightarrow>
        allows_request (cbudget c) p (depth t) 0 since = Inr False"
proof (cases r)
  case None
  then show ?thesis using assms next_eligible_in_None by (auto simp: next_eligible_def)
next
  case (Some t)
  then show ?thesis using start_total[OF assms(1)] assms(2)
      next_eligible_in_Some[of "targets c" "cbudget c" p since t] by (simp add: next_eligible_def)
qed

theorem next_eligible_progress_witness:
  "\<exists>c'. start (demo_checkpoint QUEUED 0) (new_target_id 1 demo_uri) demo_policy None = Inr c' \<and> durable c'"
proof -
  have "next_eligible (demo_checkpoint QUEUED 0) demo_policy None = Inr (Some (demo_target QUEUED 0))"
    by (simp add: next_eligible_def demo_checkpoint_def demo_target_def demo_allowed allows_request_def)
       (simp add: demo_policy_def)
  from next_eligible_progress[OF demo_durable this] show ?thesis by (simp add: demo_target_def)
qed

text \<open>
  C18: saving checkpoints into a readable catalogue always succeeds, and afterwards every identity
  reads back the last checkpoint saved under it, all fields included, or what the catalogue held
  before when none was.
\<close>

theorem checkpoint_catalog_roundtrip:
  assumes "readable f" and "\<forall>c \<in> set cs. durable c"
  shows "\<exists>f'. tcs.save_all f cs = Inr f' \<and> readable f' \<and>
    (\<forall>cid. get_checkpoint f' cid =
      (case find (\<lambda>c. checkpoint_id c = cid) (rev cs) of
         Some c \<Rightarrow> Inr (Some c)
       | None \<Rightarrow> get_checkpoint f cid))"
  using tcs.save_all_total[OF assms] tcs.get_save_all[OF assms] by blast

theorem checkpoint_catalog_roundtrip_witness:
  "\<exists>f'. tcs.save_all (init_catalog Missing) [demo_checkpoint QUEUED 0] = Inr f' \<and>
    get_checkpoint f' 1 = Inr (Some (demo_checkpoint QUEUED 0))"
proof -
  have r: "readable (init_catalog Missing)" by (rule readable_init) simp_all
  have d: "\<forall>c \<in> set [demo_checkpoint QUEUED 0]. durable c" using demo_durable by simp
  show ?thesis using checkpoint_catalog_roundtrip[OF r d] by (auto simp: demo_checkpoint_def)
qed

text \<open>
  normalisation of URIs is not idempotent: a URI whose fragment or query is present but empty
  and preceded by white space loses one more character at each pass. The constructor of a target
  normalises again, so the frontier holds such a target under an identity derived from another
  text, and queueing the very same URI a second time is refused.
\<close>

definition spaced_uri :: pystr where
  "spaced_uri = ''https://a.org/p #''"

theorem enqueue_not_repeatable:
  "normalize_durable_http_uri spaced_uri ''traversal target URI'' = Inr ''https://a.org/p '' \<and>
   normalize_durable_http_uri ''https://a.org/p '' ''traversal target URI'' = Inr ''https://a.org/p'' \<and>
   (\<exists>c. enqueue (empty_checkpoint cid) spaced_uri 0 None None = Inr c \<and>
        enqueue c spaced_uri 0 None None =
          Inl (ValueError ''traversal checkpoint target IDs must be unique''))"
proof -
  have n: "normalize_durable_http_uri spaced_uri ''traversal target URI'' = Inr ''https://a.org/p ''"
    "normalize_durable_http_uri ''https://a.org/p '' ''traversal target URI'' = Inr ''https://a.org/p''"
    unfolding spaced_uri_def by code_simp+
  then show ?thesis
    by (auto simp: enqueue_def require_depth_def empty_checkpoint_def mk_target_def option_list_def
        mk_checkpoint_def Let_def)
qed

end
