(* ===== verification/HttpAcquisition.thy ===== *)
theory HttpAcquisition imports HttpPorts TraversalStore begin

text \<open>
  \<open>application/http_acquisition.py\<close>: acquiring one queued target. Every request is charged to a
  checkpoint that is durable before the request is made, redirects are followed one by one under the
  policy, and the outputs are committed between a FINALIZING and a COMPLETED checkpoint so that
  \<open>recover_finalization\<close> can tell what an interrupted commit left. The local variable \<open>active\<close> of the
  source, which its \<open>except\<close> clause reads, travels with the error of a statement (\<open>with_active\<close>).
\<close>

definition REDIRECT_STATUSES :: "int list" where
  "REDIRECT_STATUSES = [301, 302, 303, 307, 308]"

record acquisition =
  aq_checkpoint :: checkpoint
  aq_artifact :: artifact
  aq_observation :: observation
  aq_response :: snapshot

section \<open>The clock\<close>

definition read_clock :: "'w ports \<Rightarrow> ('w, rat) service" where
  "read_clock P =
    bindS (query (p_clock P)) (\<lambda>v.
    bindS (checkS (isfinite v)
             (ValueError ''HTTP acquisition clock must return a finite value'')) (\<lambda>_.
    ret (float_val v)))"

definition elapsed :: "'w ports \<Rightarrow> checkpoint \<Rightarrow> rat \<Rightarrow> ('w, rat) service" where
  "elapsed P c started_at =
    bindS (read_clock P) (\<lambda>now.
    bindS (checkS (0 \<le> now - started_at)
             (ValueError ''HTTP acquisition clock moved backwards'')) (\<lambda>_.
    ret (elapsed_seconds (cbudget c) + (now - started_at))))"

definition remaining_elapsed :: "'w ports \<Rightarrow> checkpoint \<Rightarrow> policy \<Rightarrow> rat \<Rightarrow> ('w, rat option) service" where
  "remaining_elapsed P c p started_at =
    (case max_elapsed_seconds p of
       None \<Rightarrow> ret None
     | Some limit \<Rightarrow>
         bindS (elapsed P c started_at) (\<lambda>e.
         bindS (checkS (0 < limit - e)
                  (ValueError ''HTTP acquisition elapsed-time budget is exhausted'')) (\<lambda>_.
         ret (Some (limit - e)))))"

definition ensure_elapsed_budget :: "'w ports \<Rightarrow> checkpoint \<Rightarrow> policy \<Rightarrow> rat \<Rightarrow> ('w, unit) service" where
  "ensure_elapsed_budget P c p started_at = bindS (remaining_elapsed P c p started_at) (\<lambda>_. ret ())"

section \<open>Steps\<close>

definition save :: "'w ports \<Rightarrow> checkpoint \<Rightarrow> ('w, unit) service" where
  "save P c = mapErr (\<lambda>_. CheckpointError) (perform (p_save_checkpoint P c) (\<lambda>ok. [Checkpointed c ok]))"

definition request_once ::
  "'w ports \<Rightarrow> checkpoint \<Rightarrow> policy \<Rightarrow> pystr \<Rightarrow> rat \<Rightarrow> ('w, response) service" where
  "request_once P c p u started_at =
    (let remaining_bytes = max_bytes p - bytes_used (cbudget c) in
     bindS (checkS (0 \<le> remaining_bytes)
              (ValueError ''HTTP acquisition byte budget is already exceeded'')) (\<lambda>_.
     exchange P u p remaining_bytes (remaining_elapsed P c p started_at)))"

definition wait_for_followup ::
  "'w ports \<Rightarrow> checkpoint \<Rightarrow> int \<Rightarrow> policy \<Rightarrow> rat \<Rightarrow> ('w, unit) service" where
  "wait_for_followup P c target_depth p started_at =
    (let interval = min_request_interval_seconds p in
     bindS (remaining_elapsed P c p started_at) (\<lambda>remaining.
     bindS (checkS (case remaining of None \<Rightarrow> True | Some r \<Rightarrow> interval \<le> r)
              (ValueError ''HTTP redirect wait would exceed elapsed-time budget'')) (\<lambda>_.
     bindS (liftS (allows_request (cbudget c) p target_depth 0 (Some (Fin interval)))) (\<lambda>ok.
     bindS (checkS ok (ValueError ''HTTP redirect request exceeds the acquisition budget'')) (\<lambda>_.
     bindS (if 0 < interval then perform (p_sleep P interval) (\<lambda>ok. [Slept interval ok]) else ret ()) (\<lambda>_.
     ensure_elapsed_budget P c p started_at))))))"

definition lookup_target :: "checkpoint \<Rightarrow> uuid \<Rightarrow> exc + target" where
  "lookup_target c tid =
    (case find_target c tid of
       None \<Rightarrow> Inl (ValueError ''target does not exist in traversal checkpoint'')
     | Some t \<Rightarrow> Inr t)"

definition queued_target :: "checkpoint \<Rightarrow> uuid \<Rightarrow> exc + target" where
  "queued_target c tid =
    bindE (lookup_target c tid) (\<lambda>t.
    bindE (check (status t = QUEUED) (ValueError ''HTTP acquisition target must be queued'')) (\<lambda>_.
    Inr t))"

definition join_location :: "pystr \<Rightarrow> pystr \<Rightarrow> exc + pystr" where
  "join_location base location =
    (case urljoin base location of None \<Rightarrow> Inl (ValueError ''Invalid URL'') | Some u \<Rightarrow> Inr u)"

text \<open>Writing the outputs: the artifact, whose identity is checked, then the observation.\<close>

definition media_type_or_default :: "snapshot \<Rightarrow> pystr" where
  "media_type_or_default sn = (case media_type sn of None \<Rightarrow> ''application/octet-stream'' | Some m \<Rightarrow> m)"

definition put_artifact :: "'w ports \<Rightarrow> snapshot \<Rightarrow> pystr \<Rightarrow> pystr \<Rightarrow> ('w, artifact) service" where
  "put_artifact P sn body digest =
    bindS (liftS (artifact_name (sn_final_uri sn))) (\<lambda>name.
    bindS (perform (p_put_bytes P body name (sn_final_uri sn) (media_type_or_default sn))
             (\<lambda>ok. [Stored body ok])) (\<lambda>artifact.
    bindS (checkS (ar_sha256 artifact = digest \<and> ar_id artifact = artifact_id_of digest)
             (RuntimeError ''artifact store returned unexpected finalization identity'')) (\<lambda>_.
    ret artifact)))"

definition save_observation :: "'w ports \<Rightarrow> observation \<Rightarrow> ('w, unit) service" where
  "save_observation P ob = perform (p_save_observation P ob) (\<lambda>ok. [Observed ob ok])"

definition finish ::
  "'w ports \<Rightarrow> checkpoint \<Rightarrow> target \<Rightarrow> pystr \<Rightarrow> pystr \<Rightarrow> pystr list \<Rightarrow> response \<Rightarrow> rat \<Rightarrow>
    ('w, acquisition) service" where
  "finish P c t requested_uri final_uri redirect_chain response started_at =
    bindS (utc_now P) (\<lambda>now.
    bindS (liftS (mk_snapshot \<lparr>sn_requested_uri = requested_uri, sn_final_uri = final_uri,
             sn_status_code = rs_status_code response, sn_headers = rs_headers response,
             sn_redirect_chain = redirect_chain, sn_depth = depth t, sn_observed_at = now\<rparr>)) (\<lambda>sn.
    let digest = sha256_hexdigest (rs_body response) in
    bindS (liftS (to_source_observation sn (artifact_id_of digest))) (\<lambda>ob.
    bindS (elapsed P c started_at) (\<lambda>e.
    bindS (liftS (begin_finalization c (target_id t) digest (ob_id ob) (Fin e))) (\<lambda>finalizing.
    bindS (save P finalizing) (\<lambda>_.
    bindS (mapErr (\<lambda>err. CommitError (''HTTP output commit interrupted: '' @ failure_name err) finalizing)
             (bindS (put_artifact P sn (rs_body response) digest) (\<lambda>artifact.
              bindS (save_observation P ob) (\<lambda>_. ret artifact)))) (\<lambda>artifact.
    bindS (elapsed P finalizing started_at) (\<lambda>e'.
    bindS (liftS (complete_finalization finalizing (target_id t) (Fin e'))) (\<lambda>completed.
    bindS (mapErr (\<lambda>_. CommitError
               ''HTTP outputs are durable but final checkpoint completion was interrupted'' finalizing)
             (save P completed)) (\<lambda>_.
    ret \<lparr>aq_checkpoint = completed, aq_artifact = artifact, aq_observation = ob, aq_response = sn\<rparr>))))))))))"

section \<open>Following redirects\<close>

definition with_active :: "checkpoint \<Rightarrow> ('w, 'a) service \<Rightarrow> ('w state, failure \<times> checkpoint, 'a) prog" where
  "with_active active m = mapErr (\<lambda>e. (e, active)) m"

lemma with_active_checkS: "with_active active (checkS b e) s = (Inr x, s') \<longleftrightarrow> b \<and> s' = s"
  by (auto simp: with_active_def mapErr_def catchS_def checkS_def)

text \<open>
  The body of \<open>while True\<close>. Each iteration that goes on has appended one redirect to the chain, and
  the policy bounds its length: the loop ends.
\<close>

function acquire_loop ::
  "'w ports \<Rightarrow> policy \<Rightarrow> target \<Rightarrow> pystr \<Rightarrow> rat \<Rightarrow> pystr list \<Rightarrow> checkpoint \<Rightarrow> pystr \<Rightarrow>
    ('w state, failure \<times> checkpoint, acquisition) prog" where
  "acquire_loop P p t requested_uri started_at chain active current_uri s =
    bindS (with_active active (request_once P active p current_uri started_at)) (\<lambda>response.
    bindS (with_active active (liftS (record_response_bytes active (target_id t)
             (int (length (rs_body response)))))) (\<lambda>active1.
    bindS (with_active active1 (save P active1)) (\<lambda>_.
    bindS (with_active active1 (checkS (\<not> (rs_limit_exceeded response \<or> max_bytes p < bytes_used (cbudget active1)))
             (ValueError ''HTTP response exceeded the acquisition byte budget''))) (\<lambda>_.
    bindS (with_active active1 (ensure_elapsed_budget P active1 p started_at)) (\<lambda>_.
    bindS (with_active active1 (liftS (redirect_location response))) (\<lambda>location.
    if \<not> List.member REDIRECT_STATUSES (rs_status_code response)
    then with_active active1 (finish P active1 t requested_uri current_uri chain response started_at)
    else
    bindS (with_active active1 (liftS (case location of
             None \<Rightarrow> Inl (ValueError ''HTTP redirect response requires a Location header'')
           | Some l \<Rightarrow> Inr l))) (\<lambda>l.
    bindS (with_active active1 (checkS (int (length chain) < max_redirects p)
             (ValueError ''HTTP redirect limit exceeded''))) (\<lambda>_.
    bindS (with_active active1 (liftS (join_location current_uri l))) (\<lambda>next_uri.
    bindS (with_active active1 (checkS (allows_uri p next_uri)
             (ValueError ''HTTP redirect target is not allowed by acquisition policy''))) (\<lambda>_.
    bindS (with_active active1 (wait_for_followup P active1 (depth t) p started_at)) (\<lambda>_.
    bindS (with_active active1 (liftS (record_followup_request active1 (target_id t) p 0
             (Some (Fin (min_request_interval_seconds p)))))) (\<lambda>active2.
    bindS (with_active active2 (save P active2)) (\<lambda>_.
    acquire_loop P p t requested_uri started_at (chain @ [next_uri]) active2 next_uri))))))))))))) s"
  by pat_completeness auto
termination
  by (relation "measure (\<lambda>(P, p, t, r, s, chain, a, c, st). nat (max_redirects p - int (length chain)))")
    (auto simp: with_active_checkS)

declare acquire_loop.simps [simp del]

section \<open>Acquiring a target\<close>

definition report_failure ::
  "'w ports \<Rightarrow> uuid \<Rightarrow> rat \<Rightarrow> failure \<times> checkpoint \<Rightarrow> ('w, acquisition) service" where
  "report_failure P tid started_at err =
    (case err of (e, active) \<Rightarrow>
      (case e of
         CheckpointError \<Rightarrow> throw e
       | CommitError _ _ \<Rightarrow> throw e
       | _ \<Rightarrow>
           bindS (elapsed P active started_at) (\<lambda>x.
           bindS (liftS (fail active tid (''http acquisition failed: '' @ failure_name e) (Fin x) 0)) (\<lambda>failed.
           bindS (save P failed) (\<lambda>_.
           throw (AcquisitionError (''HTTP acquisition failed: '' @ failure_name e) failed))))))"

definition acquire ::
  "'w ports \<Rightarrow> checkpoint \<Rightarrow> uuid \<Rightarrow> policy \<Rightarrow> pystr option \<Rightarrow> pyfloat option \<Rightarrow> ('w, acquisition) service" where
  "acquire P c tid p request_uri since =
    bindS (liftS (queued_target c tid)) (\<lambda>t.
    bindS (if request_uri = None
           then bindS (liftS (durable_http_uri_requires_transient_request (uri t))) (\<lambda>redacted.
                checkS (\<not> redacted)
                  (ValueError ''redacted traversal targets require the transient original request URI''))
           else ret ()) (\<lambda>_.
    let raw_requested_uri =
      (case request_uri of None \<Rightarrow> uri t | Some u \<Rightarrow> if u = [] then uri t else u) in
    bindS (liftS (normalize_durable_http_uri raw_requested_uri ''HTTP URI'')) (\<lambda>normalized.
    bindS (checkS (normalized = uri t)
             (ValueError ''request URI must normalize to the durable traversal target URI'')) (\<lambda>_.
    bindS (checkS (allows_uri p raw_requested_uri)
             (ValueError ''request URI is not allowed by the acquisition policy'')) (\<lambda>_.
    bindS (liftS (start c tid p since)) (\<lambda>active.
    bindS (save P active) (\<lambda>_.
    bindS (read_clock P) (\<lambda>started_at.
    catchS (acquire_loop P p t raw_requested_uri started_at [] active raw_requested_uri)
      (report_failure P tid started_at)))))))))"

section \<open>Recovering a commit\<close>

definition abandon_finalization :: "checkpoint \<Rightarrow> uuid \<Rightarrow> pystr \<Rightarrow> pyfloat \<Rightarrow> exc + checkpoint" where
  "abandon_finalization c tid reason e =
    bindE (lookup_target c tid) (\<lambda>t.
    bindE (check (status t = FINALIZING)
             (ValueError ''only finalizing traversal targets may be abandoned'')) (\<lambda>_.
    bindE (mk_target (t\<lparr>status := FAILED, last_error := Some reason, final_artifact_sha256 := None,
             final_observation_id := None\<rparr>)) (\<lambda>failed.
    bindE (mk_budget (requests_used (cbudget c)) (bytes_used (cbudget c)) e) (\<lambda>b.
    mk_checkpoint (c\<lparr>targets := map (\<lambda>x. if target_id x = tid then failed else x) (targets c),
                     cbudget := b\<rparr>)))))"

definition recover_finalization :: "'w ports \<Rightarrow> checkpoint \<Rightarrow> uuid \<Rightarrow> ('w, checkpoint) service" where
  "recover_finalization P c tid =
    bindS (liftS (lookup_target c tid)) (\<lambda>supplied.
    bindS (checkS (status supplied \<in> {FINALIZING, COMPLETED})
             (ValueError ''HTTP finalization recovery requires a finalizing target'')) (\<lambda>_.
    bindS (query (p_get_checkpoint P (checkpoint_id c))) (\<lambda>stored.
    case stored of
      None \<Rightarrow> throw (CommitError ''HTTP finalization checkpoint is not durable'' c)
    | Some persisted \<Rightarrow>
    bindS (liftS (lookup_target persisted tid)) (\<lambda>target.
    if (final_artifact_sha256 supplied, final_observation_id supplied) \<noteq>
       (final_artifact_sha256 target, final_observation_id target)
    then throw (CommitError ''HTTP finalization durable identity changed during recovery'' persisted)
    else if status target = COMPLETED then ret persisted
    else if status target \<noteq> FINALIZING
    then throw (CommitError ''HTTP finalization durable state already changed'' persisted)
    else
    bindS (read_clock P) (\<lambda>recovery_started_at.
    let digest = (case final_artifact_sha256 target of None \<Rightarrow> [] | Some a \<Rightarrow> a);
        observation_id = (case final_observation_id target of None \<Rightarrow> 0 | Some u \<Rightarrow> u) in
    bindS (query (p_exists P digest)) (\<lambda>artifact_exists.
    bindS (query (p_get_observation P observation_id)) (\<lambda>observation.
    case (if artifact_exists then observation else None) of
      None \<Rightarrow>
        bindS (elapsed P persisted recovery_started_at) (\<lambda>e.
        bindS (liftS (abandon_finalization persisted tid
                 ''http finalization outputs were not durable'' (Fin e))) (\<lambda>failed.
        bindS (mapErr (\<lambda>_. CommitError
                   ''HTTP finalization outputs are missing and retry state could not be saved'' persisted)
                 (save P failed)) (\<lambda>_.
        throw (CommitError ''HTTP finalization outputs were missing; target was marked failed for retry'' failed))))
    | Some ob \<Rightarrow>
        if ob_native_artifact_id ob \<noteq> Some (artifact_id_of digest)
        then throw (CommitError ''HTTP finalization observation references an unexpected artifact'' persisted)
        else
        bindS (elapsed P persisted recovery_started_at) (\<lambda>e.
        bindS (liftS (complete_finalization persisted tid (Fin e))) (\<lambda>completed.
        bindS (mapErr (\<lambda>_. CommitError
                   ''HTTP outputs are durable but final checkpoint completion is still interrupted'' persisted)
                 (save P completed)) (\<lambda>_.
        ret completed))))))))))"

section \<open>What a run may do\<close>

fun is_request :: "event \<Rightarrow> bool" where
  "is_request (Requested _ _ _ _) = True"
| "is_request _ = False"

fun requests :: "event list \<Rightarrow> nat" where
  "requests [] = 0"
| "requests (e # t) = (if is_request e then 1 else 0) + requests t"

text \<open>The checkpoint a restart would find: the last one whose save returned.\<close>

fun last_saved :: "event list \<Rightarrow> checkpoint option" where
  "last_saved [] = None"
| "last_saved (Checkpointed c True # t) = Some c"
| "last_saved (_ # t) = last_saved t"

definition paced :: "policy \<Rightarrow> event list \<Rightarrow> bool" where
  "paced p t \<longleftrightarrow>
    0 < min_request_interval_seconds p \<longrightarrow>
    Slept (min_request_interval_seconds p) True \<in> set (takeWhile (\<lambda>e. \<not> is_request e) t)"

text \<open>
  The discipline of a run that began with \<open>n\<close> requests charged: a request goes to a URI and an address
  the policy allows, is already charged in the checkpoint that is durable at that moment, may return
  no more bytes than that checkpoint leaves, and follows the one before it after a pause.
\<close>

fun disciplined :: "policy \<Rightarrow> int \<Rightarrow> event list \<Rightarrow> bool" where
  "disciplined p n [] \<longleftrightarrow> True"
| "disciplined p n (Requested u a cap ok # t) \<longleftrightarrow>
    disciplined p n t \<and> allows_uri p u \<and> allows_resolved_address p a \<and>
    (\<exists>c. last_saved t = Some c \<and> n + int (requests t) + 1 \<le> requests_used (cbudget c) \<and>
      0 \<le> cap \<and> cap = max_bytes p - bytes_used (cbudget c)) \<and>
    (0 < requests t \<longrightarrow> paced p t)"
| "disciplined p n (_ # t) \<longleftrightarrow> disciplined p n t"

lemma disciplined_suffix: "disciplined p n (xs @ ys) \<Longrightarrow> disciplined p n ys"
  by (induction p n xs rule: disciplined.induct) auto

definition orderly :: "policy \<Rightarrow> checkpoint \<Rightarrow> event list \<Rightarrow> bool" where
  "orderly p c0 t \<longleftrightarrow>
    disciplined p (requests_used (cbudget c0)) t \<and> int (requests t) \<le> max_redirects p + 1 \<and>
    (\<forall>c ok. Checkpointed c ok \<in> set t \<longrightarrow> (advances p)\<^sup>*\<^sup>* c0 c)"

definition has_status :: "checkpoint \<Rightarrow> uuid \<Rightarrow> tstatus \<Rightarrow> bool" where
  "has_status c tid st \<longleftrightarrow> (\<exists>t \<in> set (targets c). target_id t = tid \<and> status t = st)"

text \<open>
  How a run ends: with its outputs written between the two checkpoints of the commit, or with an error
  that tells what is durable.
\<close>

definition committed :: "uuid \<Rightarrow> acquisition \<Rightarrow> event list \<Rightarrow> bool" where
  "committed tid r t \<longleftrightarrow>
    (\<exists>body finalizing rest.
      t = [Checkpointed (aq_checkpoint r) True, Observed (aq_observation r) True, Stored body True,
           Checkpointed finalizing True] @ rest \<and>
      has_status finalizing tid FINALIZING \<and> has_status (aq_checkpoint r) tid COMPLETED \<and>
      ar_sha256 (aq_artifact r) = sha256_hexdigest body \<and>
      ar_id (aq_artifact r) = artifact_id_of (sha256_hexdigest body))"

definition loop_error :: "uuid \<Rightarrow> failure \<Rightarrow> checkpoint \<Rightarrow> event list \<Rightarrow> bool" where
  "loop_error tid e a t \<longleftrightarrow>
    (case e of
       CheckpointError \<Rightarrow> (\<exists>c rest. t = Checkpointed c False # rest)
     | CommitError _ c \<Rightarrow> last_saved t = Some c \<and> has_status c tid FINALIZING
     | Raised _ \<Rightarrow> (\<exists>c. last_saved t = Some c \<and> (c = a \<or> has_status c tid FINALIZING))
     | _ \<Rightarrow> False)"

section \<open>Steps of the traversal behind the effects\<close>

lemma updates_status:
  assumes "updates c t t' b c'" "target_id t = tid"
  shows "has_status c' tid (status t')"
  using assms by (auto simp: updates_def has_status_def set_replace_by)

lemma record_response_bytes_step:
  assumes "record_response_bytes c tid n = Inr c'"
  shows "advances p c c' \<and> has_status c' tid IN_PROGRESS \<and>
    requests_used (cbudget c') = requests_used (cbudget c) \<and> bytes_used (cbudget c') = bytes_used (cbudget c) + n"
  using record_response_bytes_updates[OF assms] updates_status record_response_bytes_advances[OF assms]
  by (fastforce simp: updates_def)

lemma record_followup_request_step:
  assumes "record_followup_request c tid p n since = Inr c'"
  shows "advances p c c' \<and> has_status c' tid IN_PROGRESS \<and>
    requests_used (cbudget c') = requests_used (cbudget c) + 1 \<and> bytes_used (cbudget c') = bytes_used (cbudget c)"
  using record_followup_request_Inr[OF assms] record_followup_request_advances[OF assms] by (auto simp: has_status_def)

lemma start_step:
  assumes "start c tid p since = Inr c'"
  shows "advances p c c' \<and> has_status c' tid IN_PROGRESS \<and>
    requests_used (cbudget c') = requests_used (cbudget c) + 1 \<and> bytes_used (cbudget c') = bytes_used (cbudget c)"
  using start_updates[OF assms] updates_status start_advances[OF assms] by (fastforce simp: updates_def)

lemma begin_finalization_step:
  assumes "begin_finalization c tid a obs el = Inr c'"
  shows "advances p c c' \<and> has_status c' tid FINALIZING"
  using begin_finalization_updates[OF assms] updates_status begin_finalization_advances[OF assms] by fastforce

lemma complete_finalization_step:
  assumes "complete_finalization c tid el = Inr c'"
  shows "advances p c c' \<and> has_status c' tid COMPLETED"
  using complete_finalization_updates[OF assms] updates_status complete_finalization_advances[OF assms] by fastforce

lemma fail_step:
  assumes "fail c tid err el n = Inr c'"
  shows "advances p c c' \<and> has_status c' tid FAILED"
  using fail_updates[OF assms] updates_status fail_advances[OF assms] by fastforce

section \<open>Preconditions of the steps\<close>

lemma quiet_clock [quiet_intros]: "quiet (read_clock P)" "quiet (elapsed P c s)"
  "quiet (remaining_elapsed P c p s)" "quiet (ensure_elapsed_budget P c p s)"
proof -
  show 1: "quiet (read_clock P)" unfolding read_clock_def by (intro quiet_intros)
  show 2: "quiet (elapsed P c s)" for c s unfolding elapsed_def by (intro quiet_intros 1)
  show 3: "quiet (remaining_elapsed P c p s)"
    unfolding remaining_elapsed_def by (cases "max_elapsed_seconds p") (auto intro!: quiet_intros 2)
  show "quiet (ensure_elapsed_budget P c p s)" unfolding ensure_elapsed_budget_def by (intro quiet_intros 3)
qed

lemmas twp_clock [twp_intros] = quiet_clock[THEN twp_quiet] quiet_utc_now[THEN twp_quiet]

lemma twp_save [twp_intros]:
  "Q () (Checkpointed c True # t) \<Longrightarrow> E CheckpointError (Checkpointed c False # t) \<Longrightarrow> twp (save P c) Q E t"
  unfolding save_def by (intro twp_intros) simp_all

lemma twp_with_active [twp_intros]: "twp m Q (\<lambda>e. E (e, c)) t \<Longrightarrow> twp (with_active c m) Q E t"
  unfolding with_active_def by (rule twp_mapErr)

lemma twp_put_artifact:
  assumes "\<And>a. ar_sha256 a = digest \<Longrightarrow> ar_id a = artifact_id_of digest \<Longrightarrow> Q a (Stored body True # t)"
    and "\<And>e. E (Raised e) t" and "\<And>e ok. E (Raised e) (Stored body ok # t)"
  shows "twp (put_artifact P sn body digest) Q E t"
  unfolding put_artifact_def by (intro twp_intros) (use assms in auto)

lemma twp_save_observation:
  assumes "Q () (Observed ob True # t)" and "\<And>e. E (Raised e) (Observed ob False # t)"
  shows "twp (save_observation P ob) Q E t"
  unfolding save_observation_def by (intro twp_intros) (use assms in auto)

lemma orderly_simps [simp]:
  "orderly p c0 (Checkpointed c ok # t) \<longleftrightarrow> (advances p)\<^sup>*\<^sup>* c0 c \<and> orderly p c0 t"
  "orderly p c0 (Stored b ok # t) \<longleftrightarrow> orderly p c0 t"
  "orderly p c0 (Observed ob ok # t) \<longleftrightarrow> orderly p c0 t"
  "orderly p c0 (Slept d ok # t) \<longleftrightarrow> orderly p c0 t"
  "orderly p c0 (Resolved h ok # t) \<longleftrightarrow> orderly p c0 t"
  by (auto simp: orderly_def)

lemma twp_finish:
  assumes t: "orderly p c0 t" "last_saved t = Some c" "(advances p)\<^sup>*\<^sup>* c0 c"
  shows "twp (finish P c tg req u chain r started)
    (\<lambda>res t'. orderly p c0 t' \<and> committed (target_id tg) res t')
    (\<lambda>e t'. orderly p c0 t' \<and> loop_error (target_id tg) e c t') t"
  unfolding finish_def Let_def
  apply (intro twp_intros twp_put_artifact twp_save_observation)
  apply (use t in \<open>auto simp: loop_error_def committed_def dest!: begin_finalization_step[where p = p]
      complete_finalization_step[where p = p] intro: rtranclp.rtrancl_into_rtrancl\<close>)
  done

lemma twp_request_once:
  assumes "\<And>h a r. 0 \<le> max_bytes p - bytes_used (cbudget c) \<Longrightarrow> allows_uri p u \<Longrightarrow> allows_resolved_address p a \<Longrightarrow>
      int (length (rs_body r)) \<le> max_bytes p - bytes_used (cbudget c) \<Longrightarrow>
      Q r (Requested u a (max_bytes p - bytes_used (cbudget c)) True # Resolved h True # t)"
    and "\<And>e. E (Raised e) t" "\<And>e h ok. E (Raised e) (Resolved h ok # t)"
    and "\<And>e h a ok. 0 \<le> max_bytes p - bytes_used (cbudget c) \<Longrightarrow> allows_uri p u \<Longrightarrow> allows_resolved_address p a \<Longrightarrow>
        E (Raised e) (Requested u a (max_bytes p - bytes_used (cbudget c)) ok # Resolved h True # t)"
  shows "twp (request_once P c p u started) Q E t"
  unfolding request_once_def Let_def
  by (intro twp_intros twp_exchange quiet_clock assms) simp_all

lemma twp_wait_for_followup:
  assumes "\<And>d. paced p (d @ t) \<Longrightarrow> d = [] \<or> d = [Slept (min_request_interval_seconds p) True] \<Longrightarrow> Q () (d @ t)"
    and "\<And>e. E (Raised e) t" "\<And>e ok. E (Raised e) (Slept (min_request_interval_seconds p) ok # t)"
  shows "twp (wait_for_followup P c d p started) Q E t"
  unfolding wait_for_followup_def Let_def
  apply (intro twp_intros)
  using assms(1)[of "[]"] assms(1)[of "[Slept (min_request_interval_seconds p) True]"] assms(2-)
  by (auto simp: paced_def)

lemma twp_cong: "(\<And>s. m s = m' s) \<Longrightarrow> twp m' Q E t \<Longrightarrow> twp m Q E t"
  by (simp add: twp_def wp_def)

text \<open>What holds whenever the loop is entered.\<close>

definition loop_inv :: "policy \<Rightarrow> checkpoint \<Rightarrow> uuid \<Rightarrow> pystr list \<Rightarrow> checkpoint \<Rightarrow> event list \<Rightarrow> bool" where
  "loop_inv p c0 tid chain active t \<longleftrightarrow>
    orderly p c0 t \<and> last_saved t = Some active \<and> (advances p)\<^sup>*\<^sup>* c0 active \<and> has_status active tid IN_PROGRESS \<and>
    requests t = length chain \<and> int (length chain) \<le> max_redirects p \<and>
    requests_used (cbudget active) = requests_used (cbudget c0) + int (length chain) + 1 \<and>
    (chain \<noteq> [] \<longrightarrow> paced p t)"

lemma twp_acquire_loop:
  "loop_inv p c0 (target_id tg) chain active t \<Longrightarrow>
    twp (acquire_loop P p tg req started chain active u)
      (\<lambda>r t'. orderly p c0 t' \<and> committed (target_id tg) r t')
      (\<lambda>(e, a) t'. orderly p c0 t' \<and> loop_error (target_id tg) e a t' \<and>
        (advances p)\<^sup>*\<^sup>* c0 a \<and> has_status a (target_id tg) IN_PROGRESS) t"
proof (induction "nat (max_redirects p - int (length chain))" arbitrary: chain active t u rule: less_induct)
  case less
  let ?tid = "target_id tg"
  let ?cap = "max_bytes p - bytes_used (cbudget active)"
  let ?Q = "\<lambda>r t'. orderly p c0 t' \<and> committed ?tid r t'"
  let ?E = "\<lambda>(e, a) t'. orderly p c0 t' \<and> loop_error ?tid e a t' \<and> (advances p)\<^sup>*\<^sup>* c0 a \<and> has_status a ?tid IN_PROGRESS"
  note inv = less.prems[unfolded loop_inv_def]
  have req: "orderly p c0 (Requested u a ?cap ok # Resolved h True # t)"
    if "allows_uri p u" "allows_resolved_address p a" "0 \<le> ?cap" for a h ok
    using inv that by (auto simp: orderly_def paced_def)
  have resp: "(advances p)\<^sup>*\<^sup>* c0 x \<and> has_status x ?tid IN_PROGRESS \<and>
      requests_used (cbudget x) = requests_used (cbudget active)"
    if "record_response_bytes active ?tid n = Inr x" for x n
    using record_response_bytes_step[OF that, of p] inv by (auto intro: rtranclp.rtrancl_into_rtrancl)
  have foll: "(advances p)\<^sup>*\<^sup>* c0 y \<and> has_status y ?tid IN_PROGRESS \<and>
      requests_used (cbudget y) = requests_used (cbudget active) + 1"
    if "record_response_bytes active ?tid n = Inr x" "record_followup_request x ?tid p 0 since = Inr y" for x y n since
    using resp[OF that(1)] record_followup_request_step[OF that(2)] by (auto intro: rtranclp.rtrancl_into_rtrancl)
  have fin: "twp (finish P x tg req u chain r started) ?Q (\<lambda>e. ?E (e, x)) t'"
    if "orderly p c0 t'" "last_saved t' = Some x" "(advances p)\<^sup>*\<^sup>* c0 x" "has_status x ?tid IN_PROGRESS" for x r t'
    by (rule twp_mono[OF twp_finish[OF that(1-3)]]) (use that in auto)
  have loop: "twp (acquire_loop P p tg req started (chain @ [v]) y v) ?Q ?E
      (Checkpointed y True # d @ Checkpointed x True # Requested u a ?cap True # Resolved h True # t)"
    if go: "int (length chain) < max_redirects p" "allows_uri p u" "allows_resolved_address p a" "0 \<le> ?cap"
      and d: "paced p (d @ Checkpointed x True # Requested u a ?cap True # Resolved h True # t)"
        "d = [] \<or> d = [Slept (min_request_interval_seconds p) True]"
      and x: "record_response_bytes active ?tid n = Inr x"
      and y: "record_followup_request x ?tid p 0 since = Inr y" for v x y d a h n since
  proof (rule less.hyps)
    show "nat (max_redirects p - int (length (chain @ [v]))) < nat (max_redirects p - int (length chain))"
      using go by simp
    show "loop_inv p c0 ?tid (chain @ [v]) y
        (Checkpointed y True # d @ Checkpointed x True # Requested u a ?cap True # Resolved h True # t)"
      using inv d req[OF go(2-4), of True h] resp[OF x] foll[OF x y] go(1) by (auto simp: loop_inv_def paced_def)
  qed
  show ?case
    apply (rule twp_cong, rule acquire_loop.simps)
    apply (intro twp_intros twp_request_once twp_wait_for_followup fin loop)
    using inv req resp foll by (auto simp: loop_error_def)
qed

section \<open>The whole acquisition\<close>

definition acquire_error :: "uuid \<Rightarrow> failure \<Rightarrow> event list \<Rightarrow> bool" where
  "acquire_error tid e t \<longleftrightarrow>
    (case e of
       AcquisitionError _ c \<Rightarrow> (\<exists>rest. t = Checkpointed c True # rest) \<and> has_status c tid FAILED
     | CommitError _ c \<Rightarrow> last_saved t = Some c \<and> has_status c tid FINALIZING
     | CheckpointError \<Rightarrow> (\<exists>c rest. t = Checkpointed c False # rest)
     | Raised _ \<Rightarrow>
         t = [] \<or> (\<exists>c. last_saved t = Some c \<and> (has_status c tid IN_PROGRESS \<or> has_status c tid FINALIZING))
     | _ \<Rightarrow> False)"

lemma lookup_target_mem: "lookup_target c tid = Inr t \<Longrightarrow> t \<in> set (targets c) \<and> target_id t = tid"
  by (auto simp: lookup_target_def find_target_def dest: find_Some_mem split: option.splits)

lemmas lookup_target_id = lookup_target_mem[THEN conjunct2]

lemma queued_target_id: "queued_target c tid = Inr t \<Longrightarrow> target_id t = tid"
  by (auto simp: queued_target_def res_simps dest: lookup_target_id)

lemma twp_report_failure:
  assumes "orderly p c0 t" "loop_error tid e a t" "(advances p)\<^sup>*\<^sup>* c0 a" "has_status a tid IN_PROGRESS"
  shows "twp (report_failure P tid started (e, a)) Q (\<lambda>e' t'. orderly p c0 t' \<and> acquire_error tid e' t') t"
proof (cases e)
  case (Raised x)
  show ?thesis unfolding report_failure_def prod.case Raised failure.case
    by (intro twp_intros) (use assms Raised in \<open>auto simp: loop_error_def acquire_error_def
      dest!: fail_step[where p = p] intro: rtranclp.rtrancl_into_rtrancl\<close>)
next
  case CheckpointError
  show ?thesis unfolding report_failure_def prod.case CheckpointError failure.case
    by (intro twp_intros) (use assms CheckpointError in \<open>auto simp: loop_error_def acquire_error_def\<close>)
next
  case (CommitError x21 x22)
  show ?thesis unfolding report_failure_def prod.case CommitError failure.case
    by (intro twp_intros) (use assms CommitError in \<open>auto simp: loop_error_def acquire_error_def\<close>)
qed (use assms in \<open>simp_all add: loop_error_def\<close>)

lemma loop_inv_start:
  assumes "start c tid p since = Inr c'" "0 \<le> max_redirects p"
  shows "loop_inv p c tid [] c' [Checkpointed c' True]"
  using start_step[OF assms(1)] assms(2) by (auto simp: loop_inv_def orderly_def)

lemma twp_acquire:
  assumes p: "0 \<le> max_redirects p"
  shows "twp (acquire P c tid p request_uri since)
    (\<lambda>r t. orderly p c t \<and> committed tid r t) (\<lambda>e t. orderly p c t \<and> acquire_error tid e t) []"
proof -
  have nil: "orderly p c []" using p by (simp add: orderly_def)
  have loop: "twp (acquire_loop P p tg u started [] c' u)
      (\<lambda>r t. orderly p c t \<and> committed tid r t)
      (\<lambda>err. twp (report_failure P tid started err) (\<lambda>r t. orderly p c t \<and> committed tid r t)
        (\<lambda>e t. orderly p c t \<and> acquire_error tid e t)) [Checkpointed c' True]"
    if "queued_target c tid = Inr tg" "start c tid p since = Inr c'" for tg u started c'
    by (rule twp_mono[OF twp_acquire_loop[OF loop_inv_start[OF that(2) p, folded queued_target_id[OF that(1)]]]])
      (use queued_target_id[OF that(1)] in \<open>auto intro!: twp_report_failure\<close>)
  show ?thesis unfolding acquire_def Let_def
    by (intro twp_intros loop)
      (use nil in \<open>auto simp: acquire_error_def dest!: start_step intro: rtranclp.rtrancl_into_rtrancl\<close>)
qed

lemma acquire_run:
  assumes "0 \<le> max_redirects p" "trace s = []" "acquire P c tid p request_uri since s = (res, s')"
  shows "orderly p c (trace s') \<and>
    (case res of Inl e \<Rightarrow> acquire_error tid e (trace s') | Inr r \<Rightarrow> committed tid r (trace s'))"
proof -
  have "twp (acquire P c tid p request_uri since)
    (\<lambda>r t. orderly p c t \<and> committed tid r t) (\<lambda>e t. orderly p c t \<and> acquire_error tid e t) (trace s)"
    using twp_acquire[OF assms(1)] assms(2) by simp
  from twp_run[OF this assms(3)] show ?thesis by (simp split: sum.splits)
qed

section \<open>Properties\<close>

text \<open>
  C2: whatever the network and the stores do, each request of an acquisition goes to a URI the policy
  allows, at an address the policy allows for that very connection (so a redirect or a second DNS
  answer cannot lead to an internal address), is charged in a checkpoint that is durable before the
  request is made, may return at most the bytes that checkpoint leaves, and waits the policy's interval
  after the request before it.
\<close>

theorem acquire_disciplined:
  assumes "policy_ok p" and "trace s = []" and "acquire P c tid p request_uri since s = (res, s')"
    and "trace s' = later @ Requested u a cap ok # earlier"
  shows "allows_uri p u \<and> allows_resolved_address p a \<and>
    (\<exists>d. last_saved earlier = Some d \<and>
      requests_used (cbudget c) + int (requests earlier) + 1 \<le> requests_used (cbudget d) \<and>
      0 \<le> cap \<and> cap = max_bytes p - bytes_used (cbudget d)) \<and>
    (0 < requests earlier \<longrightarrow> paced p earlier)"
proof -
  have "disciplined p (requests_used (cbudget c)) (later @ Requested u a cap ok # earlier)"
    using acquire_run[OF _ assms(2,3)] assms(1,4) by (auto simp: policy_ok_def orderly_def)
  from disciplined_suffix[OF this] show ?thesis by simp
qed

text \<open>
  C11: an acquisition ends after at most \<open>max_redirects + 1\<close> requests, and together with the requests
  charged before it never makes more than \<open>max_requests\<close>.
\<close>

lemma reachable_account: "reachable p c \<Longrightarrow> policy_ok p \<Longrightarrow> account_inv p c"
  by (induction rule: reachable.induct) (auto intro: account_inv_empty account_inv_step)

lemma account_inv_steps: "(tstep p)\<^sup>*\<^sup>* c c' \<Longrightarrow> account_inv p c \<Longrightarrow> policy_ok p \<Longrightarrow> account_inv p c'"
  by (induction rule: rtranclp_induct) (auto intro: account_inv_step)

lemma orderly_steps: "orderly p c t \<Longrightarrow> Checkpointed d ok \<in> set t \<Longrightarrow> (tstep p)\<^sup>*\<^sup>* c d"
  by (auto simp: orderly_def intro: advances_steps)

lemma last_saved_mem: "last_saved t = Some c \<Longrightarrow> Checkpointed c True \<in> set t"
  by (induction t rule: last_saved.induct) auto

lemma requests_charged:
  "disciplined p n t \<Longrightarrow> requests t = 0 \<or>
    (\<exists>c. Checkpointed c True \<in> set t \<and> n + int (requests t) \<le> requests_used (cbudget c))"
proof (induction p n t rule: disciplined.induct)
  case (2 p n u a cap ok t)
  then show ?case by (auto dest!: last_saved_mem)
qed auto

theorem acquire_request_bound:
  assumes "policy_ok p" and "reachable p c" and "trace s = []"
    and "acquire P c tid p request_uri since s = (res, s')"
  shows "int (requests (trace s')) \<le> max_redirects p + 1 \<and>
    requests_used (cbudget c) + int (requests (trace s')) \<le> max_requests p"
proof -
  have o: "orderly p c (trace s')"
    using acquire_run[OF _ assms(3,4)] assms(1) by (auto simp: policy_ok_def)
  have inv: "account_inv p c" using reachable_account assms(1,2) by blast
  show ?thesis
  proof (cases "requests (trace s') = 0")
    case True
    then show ?thesis using inv assms(1) by (simp add: account_inv_def policy_ok_def)
  next
    case False
    have "disciplined p (requests_used (cbudget c)) (trace s')" using o by (simp add: orderly_def)
    from requests_charged[OF this] False obtain d where "Checkpointed d True \<in> set (trace s')"
      "requests_used (cbudget c) + int (requests (trace s')) \<le> requests_used (cbudget d)" by blast
    moreover from this have "account_inv p d"
      using account_inv_steps[OF orderly_steps[OF o]] inv assms(1) by blast
    ultimately show ?thesis using o by (simp add: account_inv_def orderly_def)
  qed
qed


text \<open>
  C3: how an acquisition ends tells what is durable. A result means that the artifact and the
  observation were written between a durable FINALIZING and a durable COMPLETED checkpoint; a commit
  error carries the FINALIZING checkpoint that recovery needs; an acquisition error was preceded by the
  durable FAILED state it carries; after a failed save nothing else happens; any other exception came
  before the first effect or leaves a checkpoint that recovery accepts.
\<close>

theorem acquire_outcomes:
  assumes "policy_ok p" and "trace s = []" and "acquire P c tid p request_uri since s = (res, s')"
  shows "case res of Inl e \<Rightarrow> acquire_error tid e (trace s') | Inr r \<Rightarrow> committed tid r (trace s')"
  using acquire_run[OF _ assms(2,3)] assms(1) by (simp add: policy_ok_def)

text \<open>
  the commit charges the elapsed time twice. The checkpoint that \<open>begin_finalization\<close> leaves
  already includes the time since the start of the request, and \<open>complete_finalization\<close> adds the time
  since that same start again: with a clock that stands still during the commit, the completed
  checkpoint has spent twice the duration of the acquisition.
\<close>

lemma elapsed_run:
  assumes "\<And>w. p_clock P w = (Inr (Fin now), w)" "elapsed P c started s = (Inr e, s')"
  shows "e = elapsed_seconds (cbudget c) + (now - started)"
  using assms(2) by (auto simp: elapsed_def read_clock_def bindS_Inr query_def perform_def assms(1) checkS_def
      split: if_splits)

lemma begin_finalization_elapsed:
  "begin_finalization c tid a ob (Fin e) = Inr c' \<Longrightarrow> elapsed_seconds (cbudget c') = e"
  by (auto simp: begin_finalization_def res_simps mk_budget_Inr dest!: with_budget_Inr)

lemma complete_finalization_elapsed:
  "complete_finalization c tid (Fin e) = Inr c' \<Longrightarrow> elapsed_seconds (cbudget c') = e"
  by (auto simp: complete_finalization_def res_simps mk_budget_Inr dest!: with_budget_Inr)

lemma liftS_Inr: "liftS m s = (Inr x, s') \<longleftrightarrow> m = Inr x \<and> s' = s"
  by (cases m) (auto simp: liftS_def)

theorem elapsed_charged_twice:
  assumes "\<And>w. p_clock P w = (Inr (Fin now), w)"
    and "finish P c t req u chain r started s = (Inr res, s')"
  shows "elapsed_seconds (cbudget (aq_checkpoint res)) = elapsed_seconds (cbudget c) + 2 * (now - started)"
  using assms(2) unfolding finish_def Let_def bindS_Inr mapErr_Inr liftS_Inr
  by (auto dest!: elapsed_run[OF assms(1)] begin_finalization_elapsed complete_finalization_elapsed)

text \<open>
  recovering an interrupted commit makes no request and writes nothing but one checkpoint. It
  returns a checkpoint in which the target is COMPLETED, either the durable one or the one it has just
  saved; when the outputs are missing, the target is durably FAILED, so that it can be queued again;
  any other error leaves the world as it was, or is a failed save.
\<close>

definition recovery_end :: "uuid \<Rightarrow> failure + checkpoint \<Rightarrow> event list \<Rightarrow> bool" where
  "recovery_end tid res t \<longleftrightarrow>
    (case res of
       Inr c \<Rightarrow> has_status c tid COMPLETED \<and> (t = [] \<or> t = [Checkpointed c True])
     | Inl (CommitError _ c) \<Rightarrow>
         t = [] \<or> (\<exists>d. t = [Checkpointed d False]) \<or> t = [Checkpointed c True] \<and> has_status c tid FAILED
     | Inl (Raised _) \<Rightarrow> t = []
     | Inl _ \<Rightarrow> False)"

lemma abandon_finalization_status:
  assumes "abandon_finalization c tid reason e = Inr c'"
  shows "has_status c' tid FAILED"
proof -
  obtain t f where t: "t \<in> set (targets c)" "target_id t = tid"
    and f: "target_id f = tid" "status f = FAILED" "f \<in> set (targets c')"
    using assms
    by (force simp: abandon_finalization_def res_simps mk_checkpoint_Inr dest!: lookup_target_mem mk_target_Inr)
  then show ?thesis by (auto simp: has_status_def)
qed

lemma twp_option:
  assumes "x = None \<Longrightarrow> twp f Q E t" and "\<And>v. x = Some v \<Longrightarrow> twp (g v) Q E t"
  shows "twp (case x of None \<Rightarrow> f | Some v \<Rightarrow> g v) Q E t"
  using assms by (cases x) simp_all

theorem recover_finalization_outcomes:
  assumes "trace s = []" and "recover_finalization P c tid s = (res, s')"
  shows "recovery_end tid res (trace s')"
proof -
  have "twp (recover_finalization P c tid) (\<lambda>x. recovery_end tid (Inr x)) (\<lambda>e. recovery_end tid (Inl e)) []"
    unfolding recover_finalization_def Let_def
    by (intro twp_intros twp_option)
      (auto simp: recovery_end_def has_status_def dest!: lookup_target_mem complete_finalization_step
        abandon_finalization_status)
  from twp_run[OF this[folded assms(1)] assms(2)] show ?thesis by (simp split: sum.splits)
qed

end
