(* ===== verification/HttpPolicyFetch.thy ===== *)
theory HttpPolicyFetch imports HttpAcquisition begin

text \<open>
  \<open>application/http_policy_fetch.py\<close>: fetching a policy file (robots.txt) outside the frontier, under
  the same budget, redirect and address rules as an acquisition. Before its outputs are written, a
  finalization record is journaled; a later fetch of the same file first completes the record that an
  interruption left, without any request.
\<close>

record policy_result =
  pr_checkpoint :: checkpoint
  pr_artifact :: artifact
  pr_observation :: observation
  pr_response :: snapshot
  pr_body :: pystr

section \<open>Writing the outputs\<close>

definition save_finalization :: "'w ports \<Rightarrow> finalization \<Rightarrow> ('w, unit) service" where
  "save_finalization P v = perform (p_save_finalization P v) (\<lambda>ok. [Journaled v ok])"

definition delete_finalization :: "'w ports \<Rightarrow> finalization \<Rightarrow> ('w, unit) service" where
  "delete_finalization P v = perform (p_delete_finalization P v) (\<lambda>ok. [Unjournaled v ok])"

definition commit_policy_outputs ::
  "'w ports \<Rightarrow> finalization \<Rightarrow> observation \<Rightarrow> pystr \<Rightarrow> ('w, artifact) service" where
  "commit_policy_outputs P v ob body =
    bindS (put_artifact P (pf_response v) body (pf_artifact_sha256 v)) (\<lambda>artifact.
    bindS (save_observation P ob) (\<lambda>_.
    bindS (delete_finalization P v) (\<lambda>_.
    ret artifact)))"

definition finish_policy ::
  "'w ports \<Rightarrow> checkpoint \<Rightarrow> pystr \<Rightarrow> pystr \<Rightarrow> pystr list \<Rightarrow> response \<Rightarrow> int \<Rightarrow> ('w, policy_result) service" where
  "finish_policy P c requested_uri final_uri redirect_chain response d =
    bindS (utc_now P) (\<lambda>now.
    bindS (liftS (mk_snapshot \<lparr>sn_requested_uri = requested_uri, sn_final_uri = final_uri,
             sn_status_code = rs_status_code response, sn_headers = rs_headers response,
             sn_redirect_chain = redirect_chain, sn_depth = d, sn_observed_at = now\<rparr>)) (\<lambda>sn.
    let digest = sha256_hexdigest (rs_body response) in
    bindS (liftS (to_source_observation sn (artifact_id_of digest))) (\<lambda>ob.
    bindS (liftS (mk_finalization \<lparr>pf_checkpoint_id = checkpoint_id c, pf_requested_uri = requested_uri,
             pf_artifact_sha256 = digest, pf_observation_id = ob_id ob, pf_response = sn\<rparr>)) (\<lambda>v.
    bindS (mapErr (\<lambda>e. PolicyCommitError
               (''unable to persist policy output finalization: '' @ failure_name e) c)
             (save_finalization P v)) (\<lambda>_.
    bindS (mapErr (\<lambda>e. PolicyCommitError (''HTTP policy output commit interrupted: '' @ failure_name e) c)
             (commit_policy_outputs P v ob (rs_body response))) (\<lambda>artifact.
    ret \<lparr>pr_checkpoint = c, pr_artifact = artifact, pr_observation = ob, pr_response = sn,
         pr_body = rs_body response\<rparr>))))))"

definition recover_policy_result ::
  "'w ports \<Rightarrow> checkpoint \<Rightarrow> finalization \<Rightarrow> ('w, policy_result) service" where
  "recover_policy_result P c v =
    bindS (query (p_exists P (pf_artifact_sha256 v))) (\<lambda>present.
    if \<not> present
    then throw (PolicyCommitError ''policy fetch finalization artifact is not durable'' c)
    else
    bindS (mapErr (\<lambda>e. PolicyCommitError (''unable to read durable policy artifact: '' @ failure_name e) c)
             (query (p_read_bytes P (pf_artifact_sha256 v)))) (\<lambda>body.
    if sha256_hexdigest body \<noteq> pf_artifact_sha256 v
    then throw (PolicyCommitError ''policy fetch finalization artifact identity changed'' c)
    else
    bindS (liftS (to_source_observation (pf_response v) (artifact_id_of (pf_artifact_sha256 v)))) (\<lambda>ob.
    bindS (mapErr (\<lambda>e. PolicyCommitError
               (''policy fetch finalization recovery interrupted: '' @ failure_name e) c)
             (commit_policy_outputs P v ob body)) (\<lambda>artifact.
    ret \<lparr>pr_checkpoint = c, pr_artifact = artifact, pr_observation = ob, pr_response = pf_response v,
         pr_body = body\<rparr>))))"

section \<open>Following redirects\<close>

definition wait_for_policy_followup ::
  "'w ports \<Rightarrow> checkpoint \<Rightarrow> policy \<Rightarrow> int \<Rightarrow> rat \<Rightarrow> ('w, unit) service" where
  "wait_for_policy_followup P c p d started_at = wait_for_followup P c d p started_at"

definition charge_elapsed :: "'w ports \<Rightarrow> checkpoint \<Rightarrow> rat \<Rightarrow> ('w, checkpoint) service" where
  "charge_elapsed P c started_at =
    bindS (elapsed P c started_at) (\<lambda>e.
    bindS (liftS (record_policy_elapsed c (Fin e))) (\<lambda>c'.
    bindS (save P c') (\<lambda>_.
    ret c')))"

function fetch_loop ::
  "'w ports \<Rightarrow> policy \<Rightarrow> int \<Rightarrow> pystr \<Rightarrow> rat \<Rightarrow> pystr list \<Rightarrow> checkpoint \<Rightarrow> pystr \<Rightarrow>
    ('w state, failure \<times> checkpoint, policy_result) prog" where
  "fetch_loop P p d normalized_uri started_at chain active current_uri s =
    bindS (with_active active (request_once P active p current_uri started_at)) (\<lambda>response.
    bindS (with_active active (liftS (record_policy_response_bytes active
             (int (length (rs_body response)))))) (\<lambda>active1.
    bindS (with_active active1 (save P active1)) (\<lambda>_.
    bindS (with_active active1 (checkS
             (\<not> (rs_limit_exceeded response \<or> max_bytes p < bytes_used (cbudget active1)))
             (ValueError ''HTTP policy response exceeded the acquisition byte budget''))) (\<lambda>_.
    bindS (with_active active1 (ensure_elapsed_budget P active1 p started_at)) (\<lambda>_.
    bindS (with_active active1 (liftS (redirect_location response))) (\<lambda>location.
    if \<not> List.member REDIRECT_STATUSES (rs_status_code response)
    then with_active active1
      (bindS (charge_elapsed P active1 started_at) (\<lambda>completed.
       finish_policy P completed normalized_uri current_uri chain response d))
    else
    bindS (with_active active1 (liftS (case location of
             None \<Rightarrow> Inl (ValueError ''HTTP redirect response requires a Location header'')
           | Some l \<Rightarrow> Inr l))) (\<lambda>l.
    if max_redirects p \<le> int (length chain)
    then with_active active1
      (bindS (charge_elapsed P active1 started_at) (\<lambda>failed. throw (RedirectLimitError failed)))
    else
    bindS (with_active active1 (liftS (join_location current_uri l))) (\<lambda>next_uri.
    bindS (with_active active1 (checkS (allows_uri p next_uri)
             (ValueError ''HTTP redirect target is not allowed by acquisition policy''))) (\<lambda>_.
    bindS (with_active active1 (wait_for_policy_followup P active1 p d started_at)) (\<lambda>_.
    bindS (with_active active1 (liftS (begin_policy_request active1 p d 0
             (Some (Fin (min_request_interval_seconds p)))))) (\<lambda>active2.
    bindS (with_active active2 (save P active2)) (\<lambda>_.
    fetch_loop P p d normalized_uri started_at (chain @ [next_uri]) active2 next_uri)))))))))))) s"
  by pat_completeness auto
termination
  by (relation "measure (\<lambda>(P, p, d, r, s, chain, a, c, st). nat (max_redirects p - int (length chain)))") auto

declare fetch_loop.simps [simp del]

section \<open>Fetching\<close>

definition report_policy_failure ::
  "'w ports \<Rightarrow> rat \<Rightarrow> failure \<times> checkpoint \<Rightarrow> ('w, policy_result) service" where
  "report_policy_failure P started_at err =
    (case err of (e, active) \<Rightarrow>
      (case e of
         CheckpointError \<Rightarrow> throw e
       | PolicyCommitError _ _ \<Rightarrow> throw e
       | RedirectLimitError _ \<Rightarrow> throw e
       | _ \<Rightarrow>
           bindS (charge_elapsed P active started_at) (\<lambda>failed.
           throw (PolicyFetchError (''HTTP policy fetch failed: '' @ failure_name e) failed))))"

definition fetch ::
  "'w ports \<Rightarrow> checkpoint \<Rightarrow> policy \<Rightarrow> pystr \<Rightarrow> int \<Rightarrow> pyfloat option \<Rightarrow> ('w, policy_result) service" where
  "fetch P c p u d since =
    bindS (liftS (normalize_http_uri u ''policy resource URI'')) (\<lambda>normalized_uri.
    bindS (checkS (allows_uri p normalized_uri)
             (ValueError ''policy resource URI is outside the acquisition policy'')) (\<lambda>_.
    bindS (query (p_get_finalization P (checkpoint_id c) normalized_uri)) (\<lambda>pending.
    case pending of
      Some v \<Rightarrow> recover_policy_result P c v
    | None \<Rightarrow>
    bindS (liftS (begin_policy_request c p d 0 since)) (\<lambda>active.
    bindS (save P active) (\<lambda>_.
    bindS (read_clock P) (\<lambda>started_at.
    catchS (fetch_loop P p d normalized_uri started_at [] active normalized_uri)
      (report_policy_failure P started_at)))))))"

definition recover_policy_finalization ::
  "'w ports \<Rightarrow> checkpoint \<Rightarrow> pystr \<Rightarrow> ('w, observation) service" where
  "recover_policy_finalization P c requested_uri =
    bindS (liftS (normalize_http_uri requested_uri ''policy finalization requested URI'')) (\<lambda>normalized_uri.
    bindS (query (p_get_finalization P (checkpoint_id c) normalized_uri)) (\<lambda>pending.
    case pending of
      None \<Rightarrow> throw (PolicyCommitError ''policy fetch finalization marker does not exist'' c)
    | Some v \<Rightarrow> bindS (recover_policy_result P c v) (\<lambda>r. ret (pr_observation r))))"

section \<open>What a policy fetch may do\<close>

text \<open>A policy fetch only charges the checkpoint: its frontier stays as it was.\<close>

definition charged_within :: "policy \<Rightarrow> checkpoint \<Rightarrow> checkpoint \<Rightarrow> bool" where
  "charged_within p c0 c \<longleftrightarrow>
    requests_used (cbudget c) \<le> max (requests_used (cbudget c0)) (max_requests p) \<and>
    c = c0\<lparr>cbudget := cbudget c\<rparr> \<and> requests_used (cbudget c0) \<le> requests_used (cbudget c) \<and>
    bytes_used (cbudget c0) \<le> bytes_used (cbudget c) \<and>
    elapsed_seconds (cbudget c0) \<le> elapsed_seconds (cbudget c)"

definition charged_orderly :: "policy \<Rightarrow> checkpoint \<Rightarrow> event list \<Rightarrow> bool" where
  "charged_orderly p c0 t \<longleftrightarrow>
    disciplined p (requests_used (cbudget c0)) t \<and> int (requests t) \<le> max_redirects p + 1 \<and>
    (\<forall>c ok. Checkpointed c ok \<in> set t \<longrightarrow> charged_within p c0 c)"

lemma charged_refl: "charged_within p c c"
  by (simp add: charged_within_def)

lemma charged_trans: "charged_within p a b \<Longrightarrow> charged_within p b c \<Longrightarrow> charged_within p a c"
  by (cases a; cases b; cases c) (auto simp: charged_within_def)

lemma charged_steps:
  "begin_policy_request c p d n since = Inr c' \<Longrightarrow>
     charged_within p c c' \<and> requests_used (cbudget c') = requests_used (cbudget c) + 1 \<and>
     bytes_used (cbudget c') = bytes_used (cbudget c)"
  "record_policy_response_bytes c n = Inr c' \<Longrightarrow>
     charged_within p c c' \<and> requests_used (cbudget c') = requests_used (cbudget c)"
  "record_policy_elapsed c e = Inr c' \<Longrightarrow> charged_within p c c'"
  by (auto simp: charged_within_def dest!: begin_policy_request_Inr record_policy_response_bytes_Inr record_policy_elapsed_Inr
      dest: allows_requestD(3))

lemma charged_orderly_simps [simp]:
  "charged_orderly p c0 (Checkpointed c ok # t) \<longleftrightarrow> charged_within p c0 c \<and> charged_orderly p c0 t"
  "charged_orderly p c0 (Stored b ok # t) \<longleftrightarrow> charged_orderly p c0 t"
  "charged_orderly p c0 (Observed ob ok # t) \<longleftrightarrow> charged_orderly p c0 t"
  "charged_orderly p c0 (Journaled v ok # t) \<longleftrightarrow> charged_orderly p c0 t"
  "charged_orderly p c0 (Unjournaled v ok # t) \<longleftrightarrow> charged_orderly p c0 t"
  "charged_orderly p c0 (Slept d ok # t) \<longleftrightarrow> charged_orderly p c0 t"
  "charged_orderly p c0 (Resolved h ok # t) \<longleftrightarrow> charged_orderly p c0 t"
  "charged_orderly p c0 (Cached e ok # t) \<longleftrightarrow> charged_orderly p c0 t"
  by (auto simp: charged_orderly_def)

text \<open>
  The outputs of a fetch, newest effect first: the journal record was written before the artifact and
  the observation, and deleted after them. After a recovery there is no record to write.
\<close>

definition outputs_written :: "finalization \<Rightarrow> policy_result \<Rightarrow> event list \<Rightarrow> event list \<Rightarrow> bool" where
  "outputs_written v r t rest \<longleftrightarrow>
    t = [Unjournaled v True, Observed (pr_observation r) True, Stored (pr_body r) True] @ rest \<and>
    pf_artifact_sha256 v = sha256_hexdigest (pr_body r) \<and>
    to_source_observation (pr_response r) (artifact_id_of (pf_artifact_sha256 v)) = Inr (pr_observation r) \<and>
    ar_sha256 (pr_artifact r) = pf_artifact_sha256 v \<and>
    ar_id (pr_artifact r) = artifact_id_of (pf_artifact_sha256 v)"

definition fetch_committed :: "uuid \<Rightarrow> policy_result \<Rightarrow> event list \<Rightarrow> bool" where
  "fetch_committed cid r t \<longleftrightarrow>
    (\<exists>v rest. outputs_written v r t (Journaled v True # Checkpointed (pr_checkpoint r) True # rest) \<and>
      pf_checkpoint_id v = cid \<and> pf_response v = pr_response r)"

definition fetch_recovered :: "checkpoint \<Rightarrow> policy_result \<Rightarrow> event list \<Rightarrow> bool" where
  "fetch_recovered c r t \<longleftrightarrow>
    pr_checkpoint r = c \<and> (\<exists>v. outputs_written v r t [] \<and> pf_response v = pr_response r)"

text \<open>The requests of the run are charged in the checkpoint it ends with.\<close>

definition counted :: "checkpoint \<Rightarrow> checkpoint \<Rightarrow> event list \<Rightarrow> bool" where
  "counted c0 c t \<longleftrightarrow> requests_used (cbudget c0) + int (requests t) \<le> requests_used (cbudget c)"

definition still_journaled :: "event list \<Rightarrow> bool" where
  "still_journaled t \<longleftrightarrow> (\<forall>v. Unjournaled v True \<notin> set t)"

definition fetch_error :: "checkpoint \<Rightarrow> failure \<Rightarrow> event list \<Rightarrow> bool" where
  "fetch_error c0 e t \<longleftrightarrow> still_journaled t \<and>
    (case e of
       PolicyFetchError _ c \<Rightarrow> (\<exists>rest. t = Checkpointed c True # rest) \<and> counted c0 c t
     | RedirectLimitError c \<Rightarrow> (\<exists>rest. t = Checkpointed c True # rest) \<and> counted c0 c t
     | PolicyCommitError _ c \<Rightarrow> last_saved t = Some c \<or> c = c0 \<and> last_saved t = None
     | CheckpointError \<Rightarrow> \<exists>c rest. t = Checkpointed c False # rest
     | Raised _ \<Rightarrow> t = [] \<or> (\<exists>c. last_saved t = Some c)
     | _ \<Rightarrow> False)"

text \<open>What is known when an exception reaches the \<open>except\<close> clauses.\<close>

definition fetch_loop_error :: "checkpoint \<Rightarrow> failure \<Rightarrow> checkpoint \<Rightarrow> event list \<Rightarrow> bool" where
  "fetch_loop_error c0 e a t \<longleftrightarrow> still_journaled t \<and> counted c0 a t \<and>
    (case e of
       RedirectLimitError c \<Rightarrow> (\<exists>rest. t = Checkpointed c True # rest) \<and> counted c0 c t
     | PolicyCommitError _ c \<Rightarrow> last_saved t = Some c
     | CheckpointError \<Rightarrow> \<exists>c rest. t = Checkpointed c False # rest
     | Raised _ \<Rightarrow> \<exists>c. last_saved t = Some c
     | _ \<Rightarrow> False)"

section \<open>Preconditions of the steps\<close>

lemma still_journaled_simps [simp]:
  "still_journaled []" 
  "still_journaled (e # t) \<longleftrightarrow> (\<forall>v. e \<noteq> Unjournaled v True) \<and> still_journaled t"
  by (auto simp: still_journaled_def)

lemma twp_save_finalization:
  assumes "Q () (Journaled v True # t)" and "\<And>e. E (Raised e) (Journaled v False # t)"
  shows "twp (save_finalization P v) Q E t"
  unfolding save_finalization_def by (intro twp_intros) (use assms in auto)

text \<open>Effects that neither make a request nor change what is durable.\<close>

fun silent :: "event \<Rightarrow> bool" where
  "silent (Requested _ _ _ _) = False"
| "silent (Checkpointed _ _) = False"
| "silent (Unjournaled _ ok) = (\<not> ok)"
| "silent _ = True"

lemma silent_append:
  assumes "list_all silent d"
  shows "last_saved (d @ t) = last_saved t" "charged_orderly p c0 (d @ t) = charged_orderly p c0 t"
    "still_journaled (d @ t) = still_journaled t" "requests (d @ t) = requests t"
  using assms
proof (induction d)
  case (Cons e d)
  { case 1 then show ?case using Cons by (cases e) auto }
  { case 2 then show ?case using Cons by (cases e) auto }
  { case 3 then show ?case using Cons by (cases e) auto }
  { case 4 then show ?case using Cons by (cases e) auto }
qed simp_all

lemma twp_commit_policy_outputs:
  assumes "\<And>a. ar_sha256 a = pf_artifact_sha256 v \<Longrightarrow> ar_id a = artifact_id_of (pf_artifact_sha256 v) \<Longrightarrow>
      Q a (Unjournaled v True # Observed ob True # Stored body True # t)"
    and "\<And>e d. list_all silent d \<Longrightarrow> E (Raised e) (d @ t)"
  shows "twp (commit_policy_outputs P v ob body) Q E t"
  unfolding commit_policy_outputs_def delete_finalization_def
  apply (intro twp_intros twp_put_artifact twp_save_observation)
  using assms(1) assms(2)[of "[]"] assms(2)[of "[Stored body b]" for b]
    assms(2)[of "[Observed ob False, Stored body True]"]
    assms(2)[of "[Unjournaled v False, Observed ob True, Stored body True]"]
  by auto

lemma mk_finalization_keeps:
  assumes "mk_finalization v = Inr v'"
  shows "pf_checkpoint_id v' = pf_checkpoint_id v \<and> pf_artifact_sha256 v' = pf_artifact_sha256 v \<and>
    pf_response v' = pf_response v"
  using assms by (auto simp: mk_finalization_def res_simps)

lemma twp_finish_policy:
  assumes t: "charged_orderly p c0 t" "still_journaled t" "t = Checkpointed c True # rest" "checkpoint_id c = cid"
    and n: "counted c0 c t" "counted c0 a t"
  shows "twp (finish_policy P c requested final chain r d)
    (\<lambda>res t'. charged_orderly p c0 t' \<and> fetch_committed cid res t' \<and> counted c0 (pr_checkpoint res) t')
    (\<lambda>e t'. charged_orderly p c0 t' \<and> fetch_loop_error c0 e a t') t"
  unfolding finish_policy_def Let_def
  apply (intro twp_intros twp_save_finalization twp_commit_policy_outputs)
  using t n by (auto simp: fetch_loop_error_def fetch_committed_def outputs_written_def silent_append counted_def
      dest!: mk_finalization_keeps)

lemma silent_nil:
  "list_all silent d \<Longrightarrow> charged_orderly p c0 [] \<Longrightarrow> charged_orderly p c0 d \<and> still_journaled d \<and> last_saved d = None"
  using silent_append[where d = d and t = "[]"] by simp

lemma twp_recover_policy_result:
  assumes t: "charged_orderly p c0 []"
  shows "twp (recover_policy_result P c v)
    (\<lambda>res t'. charged_orderly p c0 t' \<and> fetch_recovered c res t') (\<lambda>e t'. charged_orderly p c0 t' \<and> fetch_error c e t') []"
  unfolding recover_policy_result_def
  apply (intro twp_intros twp_commit_policy_outputs)
  using t by (auto simp: fetch_error_def fetch_recovered_def outputs_written_def dest!: silent_nil)

text \<open>What holds whenever the loop is entered.\<close>

definition fetch_inv :: "policy \<Rightarrow> checkpoint \<Rightarrow> pystr list \<Rightarrow> checkpoint \<Rightarrow> event list \<Rightarrow> bool" where
  "fetch_inv p c0 chain active t \<longleftrightarrow>
    charged_orderly p c0 t \<and> still_journaled t \<and> last_saved t = Some active \<and> charged_within p c0 active \<and>
    requests t = length chain \<and> int (length chain) \<le> max_redirects p \<and>
    requests_used (cbudget active) = requests_used (cbudget c0) + int (length chain) + 1 \<and>
    (chain \<noteq> [] \<longrightarrow> paced p t)"

lemma twp_charge_elapsed:
  assumes "\<And>c'. charged_within p c c' \<Longrightarrow> Q c' (Checkpointed c' True # t)"
    and "\<And>c'. charged_within p c c' \<Longrightarrow> E CheckpointError (Checkpointed c' False # t)" and "\<And>e. E (Raised e) t"
  shows "twp (charge_elapsed P c started) Q E t"
  unfolding charge_elapsed_def by (intro twp_intros) (use assms charged_steps in auto)

lemma charged_id: "charged_within p c0 c \<Longrightarrow> checkpoint_id c = checkpoint_id c0"
  by (cases c0; cases c) (simp add: charged_within_def)

lemma twp_fetch_loop:
  "fetch_inv p c0 chain active t \<Longrightarrow>
    twp (fetch_loop P p d requested started chain active u)
      (\<lambda>r t'. charged_orderly p c0 t' \<and> fetch_committed (checkpoint_id c0) r t' \<and> counted c0 (pr_checkpoint r) t')
      (\<lambda>(e, a) t'. charged_orderly p c0 t' \<and> fetch_loop_error c0 e a t' \<and> charged_within p c0 a) t"
proof (induction "nat (max_redirects p - int (length chain))" arbitrary: chain active t u rule: less_induct)
  case less
  let ?cap = "max_bytes p - bytes_used (cbudget active)"
  let ?Q = "\<lambda>r t'. charged_orderly p c0 t' \<and> fetch_committed (checkpoint_id c0) r t' \<and> counted c0 (pr_checkpoint r) t'"
  let ?E = "\<lambda>(e, a) t'. charged_orderly p c0 t' \<and> fetch_loop_error c0 e a t' \<and> charged_within p c0 a"
  note inv = less.prems[unfolded fetch_inv_def]
  have req: "charged_orderly p c0 (Requested u a ?cap ok # Resolved h True # t)"
    if "allows_uri p u" "allows_resolved_address p a" "0 \<le> ?cap" for a h ok
    using inv that by (auto simp: charged_orderly_def paced_def)
  have resp: "charged_within p c0 x \<and> requests_used (cbudget x) = requests_used (cbudget active)"
    if "record_policy_response_bytes active n = Inr x" for x n
    using charged_steps(2)[OF that] inv charged_trans by blast
  have resp': "charged_within p c0 y" if "charged_within p x y" "record_policy_response_bytes active n = Inr x" for x y n
    using resp[OF that(2)] that(1) charged_trans by blast
  have grow: "requests_used (cbudget x) \<le> requests_used (cbudget y)" if "charged_within p x y" for x y
    using that by (simp add: charged_within_def)
  have foll: "charged_within p c0 y \<and> requests_used (cbudget y) = requests_used (cbudget active) + 1"
    if "record_policy_response_bytes active n = Inr x" "begin_policy_request x p d 0 since = Inr y" for x y n since
    using resp[OF that(1)] charged_steps(1)[OF that(2)] charged_trans by metis
  have fin: "twp (finish_policy P y requested u chain r d) ?Q (\<lambda>e. ?E (e, x)) (Checkpointed y True # t')"
    if "charged_orderly p c0 (Checkpointed x True # t')" "still_journaled t'" "charged_within p x y" "charged_within p c0 x"
      "counted c0 x t'" for x y r t'
  proof -
    have y: "charged_within p c0 y" using charged_trans that(3,4) by blast
    show ?thesis
      by (rule twp_mono[OF twp_finish_policy[where p = p and ?c0.0 = c0 and rest = t' and a = x]])
        (use that y charged_id[OF y] in \<open>auto simp: counted_def charged_within_def\<close>)
  qed
  have loop: "twp (fetch_loop P p d requested started (chain @ [v]) y v) ?Q ?E
      (Checkpointed y True # e @ Checkpointed x True # Requested u a ?cap True # Resolved h True # t)"
    if go: "int (length chain) < max_redirects p" "allows_uri p u" "allows_resolved_address p a" "0 \<le> ?cap"
      and e: "paced p (e @ Checkpointed x True # Requested u a ?cap True # Resolved h True # t)"
        "e = [] \<or> e = [Slept (min_request_interval_seconds p) True]"
      and x: "record_policy_response_bytes active n = Inr x"
      and y: "begin_policy_request x p d 0 since = Inr y" for v x y e a h n since
  proof (rule less.hyps)
    show "nat (max_redirects p - int (length (chain @ [v]))) < nat (max_redirects p - int (length chain))"
      using go by simp
    show "fetch_inv p c0 (chain @ [v]) y
        (Checkpointed y True # e @ Checkpointed x True # Requested u a ?cap True # Resolved h True # t)"
      using inv e req[OF go(2-4), of True h] resp[OF x] foll[OF x y] go(1) by (auto simp: fetch_inv_def paced_def)
  qed
  show ?case
    apply (rule twp_cong, rule fetch_loop.simps)
    apply (intro twp_intros twp_request_once twp_wait_for_followup[folded wait_for_policy_followup_def]
      twp_charge_elapsed fin loop)
    using inv req resp foll by (auto simp: fetch_loop_error_def counted_def dest: resp' grow)
qed

section \<open>The whole fetch\<close>

definition fetch_done :: "checkpoint \<Rightarrow> policy_result \<Rightarrow> event list \<Rightarrow> bool" where
  "fetch_done c r t \<longleftrightarrow>
    counted c (pr_checkpoint r) t \<and> (fetch_committed (checkpoint_id c) r t \<or> fetch_recovered c r t)"

lemma twp_report_policy_failure:
  assumes "charged_orderly p c0 t" "fetch_loop_error c0 e a t" "charged_within p c0 a"
  shows "twp (report_policy_failure P started (e, a)) Q
    (\<lambda>e' t'. charged_orderly p c0 t' \<and> fetch_error c0 e' t') t"
proof -
  have *: "charged_within p c0 x \<and> requests_used (cbudget a) \<le> requests_used (cbudget x)" if "charged_within p a x" for x
    using charged_trans[OF assms(3) that] that by (simp add: charged_within_def)
  show ?thesis
  proof (cases e)
    case (Raised x)
    show ?thesis unfolding report_policy_failure_def prod.case Raised failure.case
      by (intro twp_intros twp_charge_elapsed)
        (use assms Raised in \<open>auto simp: fetch_loop_error_def fetch_error_def counted_def dest: *\<close>)
  qed (unfold report_policy_failure_def prod.case failure.case,
       use assms in \<open>auto simp: fetch_loop_error_def fetch_error_def intro!: twp_throw\<close>)
qed

lemma fetch_inv_start:
  assumes "begin_policy_request c p d 0 since = Inr c'" "0 \<le> max_redirects p"
  shows "fetch_inv p c [] c' [Checkpointed c' True]"
  using charged_steps(1)[OF assms(1)] assms(2) by (auto simp: fetch_inv_def charged_orderly_def)

lemma twp_fetch:
  assumes p: "0 \<le> max_redirects p"
  shows "twp (fetch P c p u d since)
    (\<lambda>r t. charged_orderly p c t \<and> fetch_done c r t) (\<lambda>e t. charged_orderly p c t \<and> fetch_error c e t) []"
proof -
  have nil: "charged_orderly p c []" using p by (simp add: charged_orderly_def)
  have rec: "twp (recover_policy_result P c v) (\<lambda>r t. charged_orderly p c t \<and> fetch_done c r t)
      (\<lambda>e t. charged_orderly p c t \<and> fetch_error c e t) []" for v
    by (rule twp_mono[OF twp_recover_policy_result[OF nil]])
      (auto simp: fetch_done_def counted_def fetch_recovered_def outputs_written_def)
  have loop: "twp (fetch_loop P p d n started [] c' n) (\<lambda>r t. charged_orderly p c t \<and> fetch_done c r t)
      (\<lambda>err. twp (report_policy_failure P started err) (\<lambda>r t. charged_orderly p c t \<and> fetch_done c r t)
        (\<lambda>e t. charged_orderly p c t \<and> fetch_error c e t)) [Checkpointed c' True]"
    if "begin_policy_request c p d 0 since = Inr c'" for n started c'
    by (rule twp_mono[OF twp_fetch_loop[OF fetch_inv_start[OF that p]]])
      (auto simp: fetch_done_def intro!: twp_report_policy_failure)
  have begun: "charged_within p c c'" if "begin_policy_request c p d 0 since = Inr c'" for c'
    using charged_steps(1)[OF that] by blast
  have pending: "twp (case pending of Some v \<Rightarrow> recover_policy_result P c v
      | None \<Rightarrow> bindS (liftS (begin_policy_request c p d 0 since)) (\<lambda>active.
          bindS (save P active) (\<lambda>_. bindS (read_clock P) (\<lambda>started_at.
          catchS (fetch_loop P p d n started_at [] active n) (report_policy_failure P started_at)))))
      (\<lambda>r t. charged_orderly p c t \<and> fetch_done c r t) (\<lambda>e t. charged_orderly p c t \<and> fetch_error c e t) []"
    for pending n
    by (cases pending)
      (simp_all add: rec, intro twp_intros loop, use nil begun in \<open>auto simp: fetch_error_def\<close>)
  show ?thesis unfolding fetch_def
    by (intro twp_intros pending) (use nil in \<open>auto simp: fetch_error_def\<close>)
qed

lemma fetch_run:
  assumes "0 \<le> max_redirects p" "trace s = []" "fetch P c p u d since s = (res, s')"
  shows "charged_orderly p c (trace s') \<and>
    (case res of Inl e \<Rightarrow> fetch_error c e (trace s') | Inr r \<Rightarrow> fetch_done c r (trace s'))"
proof -
  have "twp (fetch P c p u d since)
    (\<lambda>r t. charged_orderly p c t \<and> fetch_done c r t) (\<lambda>e t. charged_orderly p c t \<and> fetch_error c e t) (trace s)"
    using twp_fetch[OF assms(1)] assms(2) by simp
  from twp_run[OF this assms(3)] show ?thesis by (simp split: sum.splits)
qed

section \<open>Properties\<close>

text \<open>
  C16: a policy fetch obeys the discipline of an acquisition: each of its requests goes to a URI and an
  address the policy allows, is charged in a checkpoint that is durable before it is made, asks for no
  more bytes than that checkpoint leaves, and waits the policy's interval after the one before it.
\<close>

theorem policy_fetch_disciplined:
  assumes "policy_ok p" and "trace s = []" and "fetch P c p u d since s = (res, s')"
    and "trace s' = later @ Requested v a cap ok # earlier"
  shows "allows_uri p v \<and> allows_resolved_address p a \<and>
    (\<exists>b. last_saved earlier = Some b \<and>
      requests_used (cbudget c) + int (requests earlier) + 1 \<le> requests_used (cbudget b) \<and>
      0 \<le> cap \<and> cap = max_bytes p - bytes_used (cbudget b)) \<and>
    (0 < requests earlier \<longrightarrow> paced p earlier)"
proof -
  have "disciplined p (requests_used (cbudget c)) (later @ Requested v a cap ok # earlier)"
    using fetch_run[OF _ assms(2,3)] assms(1,4) by (auto simp: policy_ok_def charged_orderly_def)
  from disciplined_suffix[OF this] show ?thesis by simp
qed

text \<open>
  a policy fetch leaves the frontier alone. Every checkpoint it persists has the identity, the
  targets and the labels of the given one, and its budget only grows, never past the policy's number of
  requests; a fetch makes at most \<open>max_redirects + 1\<close> of them.
\<close>

theorem policy_fetch_charges_only:
  assumes "policy_ok p" and "trace s = []" and "fetch P c p u d since s = (res, s')"
  shows "int (requests (trace s')) \<le> max_redirects p + 1 \<and>
    (\<forall>b ok. Checkpointed b ok \<in> set (trace s') \<longrightarrow>
      b = c\<lparr>cbudget := cbudget b\<rparr> \<and> requests_used (cbudget c) \<le> requests_used (cbudget b) \<and>
      requests_used (cbudget b) \<le> max (requests_used (cbudget c)) (max_requests p) \<and>
      bytes_used (cbudget c) \<le> bytes_used (cbudget b) \<and>
      elapsed_seconds (cbudget c) \<le> elapsed_seconds (cbudget b))"
  using fetch_run[OF _ assms(2,3)] assms(1) by (auto simp: policy_ok_def charged_orderly_def charged_within_def)

text \<open>
  C7: how a policy fetch ends tells what is durable. A result means that its record was journaled
  before the artifact and the observation were written and deleted after them, or that a record left
  by an interruption was completed, without a request. After any error the record is still in the
  journal if it was there, and the error carries the checkpoint that is durable.
\<close>

theorem policy_fetch_outcomes:
  assumes "policy_ok p" and "trace s = []" and "fetch P c p u d since s = (res, s')"
  shows "case res of Inl e \<Rightarrow> fetch_error c e (trace s')
    | Inr r \<Rightarrow> fetch_committed (checkpoint_id c) r (trace s') \<or> fetch_recovered c r (trace s')"
  using fetch_run[OF _ assms(2,3)] assms(1) by (simp add: policy_ok_def fetch_done_def split: sum.splits)

end
