(* ===== verification/RobotsRefresh.thy ===== *)
theory RobotsRefresh imports HttpPolicyFetch begin

text \<open>
  \<open>application/robots_refresh.py\<close>: fetching robots.txt through the bounded policy fetch, turning the
  response into a cache entry, and falling back on an old successful entry, for a limited time, when
  the site cannot be reached.
\<close>

definition SUCCESS_TTL :: int where "SUCCESS_TTL = 6 * HOUR"

definition UNAVAILABLE_TTL :: int where "UNAVAILABLE_TTL = HOUR"

definition UNREACHABLE_TTL :: int where "UNREACHABLE_TTL = 15 * 60 * SECOND"

definition REDIRECT_LIMIT_TTL :: int where "REDIRECT_LIMIT_TTL = HOUR"

definition MAX_STALE_SUCCESS_AGE :: int where "MAX_STALE_SUCCESS_AGE = 24 * HOUR"

lemmas ttl_defs = SUCCESS_TTL_def UNAVAILABLE_TTL_def UNREACHABLE_TTL_def REDIRECT_LIMIT_TTL_def
  MAX_STALE_SUCCESS_AGE_def MAX_CACHE_AGE_def HOUR_def SECOND_def

record refresh_result =
  rf_checkpoint :: checkpoint
  rf_entry :: robots_entry
  rf_refresh_entry :: robots_entry
  rf_used_stale_success :: bool

definition mk_refresh_result :: "refresh_result \<Rightarrow> exc + refresh_result" where
  "mk_refresh_result r =
    bindE (check (entry_uri (rf_entry r) = entry_uri (rf_refresh_entry r))
             (ValueError ''robots refresh entries must refer to the same canonical URI'')) (\<lambda>_.
    bindE (if rf_used_stale_success r
           then bindE (check (rr_outcome (re_result (rf_entry r)) = SUCCESS)
                         (ValueError ''robots stale fallback must use a successful cached result'')) (\<lambda>_.
                check (rr_outcome (re_result (rf_refresh_entry r)) = UNREACHABLE)
                  (ValueError ''robots stale fallback requires an unreachable refresh''))
           else Inr ()) (\<lambda>_.
    Inr r))"

section \<open>Entries\<close>

text \<open>\<open>bytes.decode('utf-8')\<close>: \<open>None\<close> is the decoding error; text is kept as its UTF-8 bytes.\<close>

function decode_utf8 :: "string \<Rightarrow> pystr option" where
  "decode_utf8 [] = Some []"
| "decode_utf8 (c # s) =
    (case utf8_step (c # s) of (n, ok) \<Rightarrow>
       if ok then map_option (\<lambda>r. take n (c # s) @ r) (decode_utf8 (drop (max 1 n) (c # s))) else None)"
  by pat_completeness auto
termination
  by (relation "measure length") auto

definition entry_from_http_fetch :: "policy_result \<Rightarrow> exc + robots_entry" where
  "entry_from_http_fetch fetched =
    (let status_code = sn_status_code (pr_response fetched);
         u = sn_requested_uri (pr_response fetched);
         result = (\<lambda>outcome content status ttl.
           bindE (mk_robots_result \<lparr>rr_robots_uri = u, rr_outcome = outcome, rr_content = content,
                    rr_status_code = status\<rparr>) (\<lambda>r. Inr (r, ttl)))
     in
     bindE (if 200 \<le> status_code \<and> status_code \<le> 299
            then if MAX_ROBOTS_BYTES < int (length (pr_body fetched))
                 then result UNREACHABLE None None UNREACHABLE_TTL
                 else (case decode_utf8 (pr_body fetched) of
                         None \<Rightarrow> result UNREACHABLE None None UNREACHABLE_TTL
                       | Some content \<Rightarrow> result SUCCESS (Some content) (Some status_code) SUCCESS_TTL)
            else if 400 \<le> status_code \<and> status_code \<le> 499
            then result UNAVAILABLE None (Some status_code) UNAVAILABLE_TTL
            else if 500 \<le> status_code \<and> status_code \<le> 599
            then result UNREACHABLE None (Some status_code) UNREACHABLE_TTL
            else result UNREACHABLE None None UNREACHABLE_TTL) (\<lambda>(r, ttl).
     let fetched_at = sn_observed_at (pr_response fetched) in
     mk_entry \<lparr>re_result = r, re_fetched_at = fetched_at, re_expires_at = plus_time fetched_at ttl,
       re_observation_id = Some (ob_id (pr_observation fetched)),
       re_artifact_sha256 = Some (ar_sha256 (pr_artifact fetched))\<rparr>))"

definition failure_entry :: "pystr \<Rightarrow> robots_outcome \<Rightarrow> datetime \<Rightarrow> int \<Rightarrow> exc + robots_entry" where
  "failure_entry robots_uri outcome fetched_at ttl =
    bindE (mk_robots_result \<lparr>rr_robots_uri = robots_uri, rr_outcome = outcome, rr_content = None,
             rr_status_code = None\<rparr>) (\<lambda>r.
    mk_entry \<lparr>re_result = r, re_fetched_at = fetched_at, re_expires_at = plus_time fetched_at ttl,
      re_observation_id = None, re_artifact_sha256 = None\<rparr>)"

text \<open>\<open>min\<close> of two instants: the first one unless the second is smaller.\<close>

definition earlier_of :: "datetime \<Rightarrow> datetime \<Rightarrow> datetime" where
  "earlier_of a b = (if instant b < instant a then b else a)"

definition stale_entry :: "robots_entry \<Rightarrow> datetime \<Rightarrow> exc + robots_entry" where
  "stale_entry previous now =
    mk_entry (previous\<lparr>re_expires_at :=
      earlier_of (plus_time now UNREACHABLE_TTL) (plus_time (re_fetched_at previous) MAX_STALE_SUCCESS_AGE)\<rparr>)"

section \<open>The refresh\<close>

definition save_robots :: "'w ports \<Rightarrow> robots_entry \<Rightarrow> ('w, unit) service" where
  "save_robots P e = perform (p_save_robots P e) (\<lambda>ok. [Cached e ok])"

definition finish_refresh ::
  "'w ports \<Rightarrow> checkpoint \<Rightarrow> robots_entry \<Rightarrow> robots_entry \<Rightarrow> bool \<Rightarrow> ('w, refresh_result) service" where
  "finish_refresh P c entry refresh_entry used_stale =
    bindS (save_robots P entry) (\<lambda>_.
    liftS (mk_refresh_result \<lparr>rf_checkpoint = c, rf_entry = entry, rf_refresh_entry = refresh_entry,
      rf_used_stale_success = used_stale\<rparr>))"

definition finish_unreachable ::
  "'w ports \<Rightarrow> checkpoint \<Rightarrow> robots_entry option \<Rightarrow> robots_entry \<Rightarrow> datetime \<Rightarrow> ('w, refresh_result) service" where
  "finish_unreachable P c previous refresh_entry now =
    bindS (liftS (case previous of None \<Rightarrow> Inr False
                  | Some old \<Rightarrow> may_reuse_after_unreachable old now)) (\<lambda>reuse.
    if reuse
    then bindS (liftS (stale_entry (the previous) now)) (\<lambda>selected.
         finish_refresh P c selected refresh_entry True)
    else finish_refresh P c refresh_entry refresh_entry False)"

text \<open>What the \<open>try\<close> statement around the fetch leaves.\<close>

datatype fetch_end =
    Fetched policy_result
  | RedirectsExhausted checkpoint
  | Unreached checkpoint

definition try_fetch ::
  "'w ports \<Rightarrow> checkpoint \<Rightarrow> policy \<Rightarrow> pystr \<Rightarrow> int \<Rightarrow> pyfloat option \<Rightarrow> ('w, fetch_end) service" where
  "try_fetch P c p robots_uri d since =
    catchS (bindS (fetch P c p robots_uri d since) (\<lambda>r. ret (Fetched r)))
      (\<lambda>e. case e of
         RedirectLimitError c' \<Rightarrow> ret (RedirectsExhausted c')
       | PolicyFetchError _ c' \<Rightarrow> ret (Unreached c')
       | _ \<Rightarrow> throw e)"

definition refresh ::
  "'w ports \<Rightarrow> checkpoint \<Rightarrow> policy \<Rightarrow> pystr \<Rightarrow> int \<Rightarrow> datetime \<Rightarrow> pyfloat option \<Rightarrow> ('w, refresh_result) service" where
  "refresh P c p robots_uri d now since =
    bindS (liftS (require_aware now ''robots refresh time'')) (\<lambda>_.
    bindS (query (p_get_robots P robots_uri)) (\<lambda>previous.
    bindS (try_fetch P c p robots_uri d since) (\<lambda>attempt.
    case attempt of
      RedirectsExhausted c' \<Rightarrow>
        bindS (liftS (failure_entry robots_uri REDIRECT_LIMIT_EXCEEDED now REDIRECT_LIMIT_TTL)) (\<lambda>e.
        finish_refresh P c' e e False)
    | Unreached c' \<Rightarrow>
        bindS (liftS (failure_entry robots_uri UNREACHABLE now UNREACHABLE_TTL)) (\<lambda>e.
        finish_unreachable P c' previous e now)
    | Fetched fetched \<Rightarrow>
        bindS (liftS (entry_from_http_fetch fetched)) (\<lambda>e.
        let status_code = sn_status_code (pr_response fetched) in
        if rr_outcome (re_result e) = UNREACHABLE \<and> 500 \<le> status_code \<and> status_code \<le> 599
        then finish_unreachable P (pr_checkpoint fetched) previous e now
        else finish_refresh P (pr_checkpoint fetched) e e False))))"

section \<open>Facts about entries\<close>

lemma mk_entry_keeps: "mk_entry e = Inr e' \<Longrightarrow> e' = e"
  by (auto simp: mk_entry_def res_simps split: option.splits)

lemma instant_earlier_of: "instant (earlier_of a b) = min (instant a) (instant b)"
  by (simp add: earlier_of_def)

text \<open>
  Falling back on an old entry: only a success, less than 24 hours after its fetch, for at most 15
  minutes and never past the 24 hours.
\<close>

lemma stale_entry_Inr:
  assumes "stale_entry old now = Inr e" "may_reuse_after_unreachable old now = Inr True"
  shows "re_result e = re_result old \<and> re_fetched_at e = re_fetched_at old \<and>
    re_observation_id e = re_observation_id old \<and> re_artifact_sha256 e = re_artifact_sha256 old \<and>
    rr_outcome (re_result old) = SUCCESS \<and> instant (re_fetched_at old) \<le> instant now \<and> instant now < instant (re_expires_at e) \<and>
    instant (re_expires_at e) \<le> instant now + UNREACHABLE_TTL \<and>
    instant (re_expires_at e) \<le> instant (re_fetched_at old) + MAX_STALE_SUCCESS_AGE"
  using assms mk_entry_keeps[OF assms(1)[unfolded stale_entry_def]]
  by (auto simp: may_reuse_after_unreachable_def res_simps instant_earlier_of ttl_defs)

lemma utf8_step_pos: "0 < fst (utf8_step (c # s))"
  by (auto simp: utf8_step_def Let_def split: if_splits list.splits)

lemma decode_utf8_Some: "decode_utf8 s = Some t \<Longrightarrow> t = s"
proof (induction s arbitrary: t rule: decode_utf8.induct)
  case (2 c s)
  obtain n ok where st: "utf8_step (c # s) = (n, ok)" by force
  have m: "max 1 n = n" using utf8_step_pos[of c s] st by simp
  obtain r where r: "ok" "decode_utf8 (drop n (c # s)) = Some r" "t = take n (c # s) @ r"
    using 2(2) st m by (auto split: if_splits)
  have "r = drop n (c # s)" using 2(1)[OF st[symmetric] r(1)] r(2) unfolding m .
  then show ?case using r(3) by simp
qed simp

lemma entry_from_http_fetch_Inr:
  assumes "entry_from_http_fetch r = Inr e"
  shows "re_fetched_at e = sn_observed_at (pr_response r) \<and>
    re_observation_id e = Some (ob_id (pr_observation r)) \<and>
    re_artifact_sha256 e = Some (ar_sha256 (pr_artifact r)) \<and>
    (rr_outcome (re_result e) = SUCCESS \<longrightarrow> rr_content (re_result e) = Some (pr_body r) \<and>
      200 \<le> sn_status_code (pr_response r) \<and> sn_status_code (pr_response r) \<le> 299 \<and>
      instant (re_expires_at e) = instant (re_fetched_at e) + SUCCESS_TTL)"
  using assms
  by (auto simp: entry_from_http_fetch_def mk_robots_result_def Let_def res_simps
      dest!: mk_entry_keeps decode_utf8_Some split: if_splits option.splits)

lemma failure_entry_Inr:
  assumes "failure_entry u outcome now ttl = Inr e"
  shows "re_fetched_at e = now \<and> rr_outcome (re_result e) = outcome"
  using assms by (auto simp: failure_entry_def mk_robots_result_def res_simps dest!: mk_entry_keeps)

section \<open>What a refresh leaves\<close>

text \<open>
  The entry a refresh selects is the last thing it writes. It is the entry of this attempt, whose
  content, when it has one, is the artifact stored just before; or an old success, as
  \<open>stale_entry_Inr\<close> says.
\<close>

definition selection_ok :: "datetime \<Rightarrow> refresh_result \<Rightarrow> event list \<Rightarrow> bool" where
  "selection_ok now r t \<longleftrightarrow>
    (if rf_used_stale_success r
     then rr_outcome (re_result (rf_entry r)) = SUCCESS \<and>
       rr_outcome (re_result (rf_refresh_entry r)) = UNREACHABLE \<and>
       instant (re_fetched_at (rf_entry r)) \<le> instant now \<and> instant now < instant (re_expires_at (rf_entry r)) \<and>
       instant (re_expires_at (rf_entry r)) \<le> instant now + UNREACHABLE_TTL \<and>
       instant (re_expires_at (rf_entry r)) \<le> instant (re_fetched_at (rf_entry r)) + MAX_STALE_SUCCESS_AGE
     else rf_entry r = rf_refresh_entry r \<and>
       (rr_outcome (re_result (rf_entry r)) = SUCCESS \<longrightarrow>
         (\<exists>body. rr_content (re_result (rf_entry r)) = Some body \<and> Stored body True \<in> set t \<and>
           re_artifact_sha256 (rf_entry r) = Some (sha256_hexdigest body) \<and>
           instant (re_expires_at (rf_entry r)) = instant (re_fetched_at (rf_entry r)) + SUCCESS_TTL)))"

definition refreshed :: "policy \<Rightarrow> checkpoint \<Rightarrow> datetime \<Rightarrow> refresh_result \<Rightarrow> event list \<Rightarrow> bool" where
  "refreshed p c now r t \<longleftrightarrow>
    (\<exists>t'. t = Cached (rf_entry r) True # t' \<and> charged_orderly p c t' \<and>
      charged_within p c (rf_checkpoint r) \<and> counted c (rf_checkpoint r) t' \<and> selection_ok now r t')"

lemma twp_finish_refresh:
  assumes "\<And>r. r = \<lparr>rf_checkpoint = c, rf_entry = e, rf_refresh_entry = e', rf_used_stale_success = b\<rparr> \<Longrightarrow>
      b \<longrightarrow> rr_outcome (re_result e) = SUCCESS \<and> rr_outcome (re_result e') = UNREACHABLE \<Longrightarrow> Q r (Cached e True # t)"
    and "\<And>x ok. E (Raised x) (Cached e ok # t)"
  shows "twp (finish_refresh P c e e' b) Q E t"
  unfolding finish_refresh_def save_robots_def
  by (intro twp_intros) (use assms in \<open>auto simp: mk_refresh_result_def res_simps split: if_splits\<close>)

lemma twp_finish_unreachable:
  assumes t: "charged_orderly p c0 t" "charged_within p c0 c" "counted c0 c t" "rr_outcome (re_result e) \<noteq> SUCCESS"
    and E: "\<And>x. E (Raised x) t" "\<And>x e ok. E (Raised x) (Cached e ok # t)"
  shows "twp (finish_unreachable P c previous e now) (refreshed p c0 now) E t"
  unfolding finish_unreachable_def
  by (intro twp_intros twp_finish_refresh)
    (use t in \<open>auto simp: E refreshed_def selection_ok_def dest: stale_entry_Inr split: option.splits\<close>)

lemma twp_try_fetch:
  assumes p: "0 \<le> max_redirects p"
    and Q: "\<And>r t. charged_orderly p c t \<Longrightarrow> fetch_done c r t \<Longrightarrow> Q (Fetched r) t"
      "\<And>c' t. charged_orderly p c t \<Longrightarrow> charged_within p c c' \<Longrightarrow> counted c c' t \<Longrightarrow>
        Q (RedirectsExhausted c') t"
      "\<And>c' t. charged_orderly p c t \<Longrightarrow> charged_within p c c' \<Longrightarrow> counted c c' t \<Longrightarrow>
        Q (Unreached c') t"
    and E: "\<And>e t. charged_orderly p c t \<Longrightarrow> E e t"
  shows "twp (try_fetch P c p u d since) Q E []"
  unfolding try_fetch_def
proof (intro twp_intros, rule twp_mono[OF twp_fetch[OF p]])
  fix e t
  assume a: "charged_orderly p c t \<and> fetch_error c e t"
  show "twp (case e of RedirectLimitError c' \<Rightarrow> ret (RedirectsExhausted c')
      | PolicyFetchError _ c' \<Rightarrow> ret (Unreached c') | _ \<Rightarrow> throw e) Q E t"
    by (cases e) (use a in \<open>auto intro!: twp_ret twp_throw Q E simp: fetch_error_def\<close>)
qed (auto intro: twp_ret Q)

lemma fetch_done_facts:
  assumes "fetch_done c r t" "charged_orderly p c t"
  shows "charged_within p c (pr_checkpoint r) \<and> counted c (pr_checkpoint r) t \<and> Stored (pr_body r) True \<in> set t \<and>
    ar_sha256 (pr_artifact r) = sha256_hexdigest (pr_body r)"
  using assms charged_refl
  by (auto simp: fetch_done_def fetch_committed_def fetch_recovered_def outputs_written_def)

lemma twp_refresh:
  assumes p: "0 \<le> max_redirects p"
  shows "twp (refresh P c p u d now since) (refreshed p c now) (\<lambda>e t. charged_orderly p c t) []"
proof -
  let ?E = "\<lambda>(e :: failure) t. charged_orderly p c t"
  have nil: "charged_orderly p c []" using p by (simp add: charged_orderly_def)
  have end1: "twp (bindS (liftS (failure_entry u o' now ttl)) (\<lambda>e. finish_refresh P c' e e False))
      (refreshed p c now) ?E t"
    if "charged_orderly p c t" "charged_within p c c'" "counted c c' t" "o' \<noteq> SUCCESS" for t c' o' ttl
    by (intro twp_intros twp_finish_refresh)
      (use that in \<open>auto simp: refreshed_def selection_ok_def dest: failure_entry_Inr\<close>)
  have end2: "twp (bindS (liftS (failure_entry u UNREACHABLE now ttl))
      (\<lambda>e. finish_unreachable P c' previous e now)) (refreshed p c now) ?E t"
    if "charged_orderly p c t" "charged_within p c c'" "counted c c' t" for t c' previous ttl
    by (intro twp_intros twp_finish_unreachable) (use that in \<open>auto dest: failure_entry_Inr\<close>)
  have end3: "twp (bindS (liftS (entry_from_http_fetch r)) (\<lambda>e.
        if rr_outcome (re_result e) = UNREACHABLE \<and> st e then finish_unreachable P (pr_checkpoint r) previous e now
        else finish_refresh P (pr_checkpoint r) e e False)) (refreshed p c now) ?E t"
    if "charged_orderly p c t" "fetch_done c r t" for t r previous st
    by (intro twp_intros twp_finish_unreachable twp_finish_refresh)
      (use that fetch_done_facts[OF that(2,1)] in
        \<open>auto simp: refreshed_def selection_ok_def dest!: entry_from_http_fetch_Inr\<close>)
  show ?thesis unfolding refresh_def Let_def
    by (intro twp_intros twp_try_fetch[OF p])
      (use nil in \<open>auto intro!: end1 end2 end3\<close>)
qed

section \<open>Outages\<close>

text \<open>What the cached copy becomes when refreshes at the given times all find the site unreachable.\<close>

fun outage :: "robots_entry \<Rightarrow> datetime list \<Rightarrow> exc + robots_entry" where
  "outage e [] = Inr e"
| "outage e (now # later) =
    bindE (may_reuse_after_unreachable e now) (\<lambda>reuse.
    if reuse then bindE (stale_entry e now) (\<lambda>e'. outage e' later) else Inr e)"

lemma stale_entry_window:
  assumes "stale_entry old now = Inr e" "may_reuse_after_unreachable old now = Inr True"
  shows "instant (re_expires_at e) \<le> instant (re_fetched_at e) + MAX_CACHE_AGE"
  using stale_entry_Inr[OF assms] by (simp add: ttl_defs)

lemma outage_Inr:
  "outage e nows = Inr e' \<Longrightarrow> instant (re_expires_at e) \<le> instant (re_fetched_at e) + MAX_CACHE_AGE \<Longrightarrow>
    re_result e' = re_result e \<and> re_fetched_at e' = re_fetched_at e \<and>
    instant (re_expires_at e') \<le> instant (re_fetched_at e) + MAX_CACHE_AGE"
proof (induction e nows rule: outage.induct)
  case (2 e now later)
  show ?case
  proof (cases "may_reuse_after_unreachable e now = Inr True")
    case True
    then obtain s where s: "stale_entry e now = Inr s" "outage s later = Inr e'"
      using 2(2) by (auto simp: res_simps)
    show ?thesis
      using 2(1)[OF _ _ s(1) s(2) stale_entry_window[OF s(1) True]] True stale_entry_Inr[OF s(1) True] by auto
  next
    case False
    then have "e' = e" using 2(2) by (auto simp: res_simps split: if_splits)
    then show ?thesis using 2(3) by simp
  qed
qed simp

section \<open>Properties\<close>

definition demo_success :: robots_entry where
  "demo_success =
    \<lparr>re_result = \<lparr>rr_robots_uri = ''https://a.org/robots.txt'', rr_outcome = SUCCESS, rr_content = Some [],
       rr_status_code = Some 200\<rparr>, re_fetched_at = Aware 0 0, re_expires_at = Aware HOUR 0,
     re_observation_id = None, re_artifact_sha256 = None\<rparr>"

lemma demo_success_ok: "entry_ok demo_success"
  using demo_entry_ok(1)
  by (auto simp: entry_ok_def demo_success_def demo_entry_def demo_robots_def mk_entry_def mk_robots_result_def
      status_within_def MAX_CACHED_BYTES_def ttl_defs res_simps split: option.splits)

lemma demo_stale: "stale_entry demo_success (Aware (2 * HOUR) 0) =
    Inr (demo_success\<lparr>re_expires_at := Aware (2 * HOUR + UNREACHABLE_TTL) 0\<rparr>)"
  using demo_success_ok
  by (auto simp: stale_entry_def earlier_of_def entry_ok_def mk_entry_def demo_success_def ttl_defs res_simps
      split: option.splits)

text \<open>
  a copy of robots.txt outlives its fetch by less than 24 hours, however often refreshes fail and
  the copy is cached again: whatever the outage left is neither fresh nor reusable from then on.
\<close>

theorem outage_copy_retires:
  assumes "entry_ok e" and "outage e nows = Inr e'" and "is_aware now"
    and "instant (re_fetched_at e) + 24 * HOUR \<le> instant now"
  shows "re_result e' = re_result e \<and> is_fresh e' now = Inr False \<and>
    may_reuse_after_unreachable e' now = Inr False"
proof -
  have "instant (re_expires_at e) \<le> instant (re_fetched_at e) + MAX_CACHE_AGE"
    using assms(1) mk_entry_Inr[of e e] by (simp add: entry_ok_def)
  with outage_Inr[OF assms(2)] assms(3,4) show ?thesis
    by (auto simp: is_fresh_def may_reuse_after_unreachable_def require_aware_def MAX_CACHE_AGE_def)
qed

theorem outage_copy_retires_witness:
  "\<exists>e'. outage demo_success [Aware (2 * HOUR) 0] = Inr e' \<and>
    is_fresh e' (Aware (2 * HOUR + 5) 0) = Inr True \<and> is_fresh e' (Aware (24 * HOUR) 0) = Inr False"
proof -
  let ?e = "demo_success\<lparr>re_expires_at := Aware (2 * HOUR + UNREACHABLE_TTL) 0\<rparr>"
  have "outage demo_success [Aware (2 * HOUR) 0] = Inr ?e"
    using demo_stale by (simp add: may_reuse_after_unreachable_def require_aware_def demo_success_def ttl_defs)
  moreover have "is_fresh ?e (Aware (2 * HOUR + 5) 0) = Inr True"
    by (simp add: is_fresh_def require_aware_def demo_success_def ttl_defs)
  ultimately show ?thesis
    using outage_copy_retires[OF demo_success_ok, of "[Aware (2 * HOUR) 0]" ?e "Aware (24 * HOUR) 0"]
    by (auto simp: demo_success_def)
qed

text \<open>
  the cache accepts the copy a failed refresh keeps: when the cached success is no longer fresh but
  still reusable, saving it with its new expiry conflicts with nothing, and makes it fresh again.
\<close>

theorem stale_copy_accepted:
  assumes "m (entry_uri old) = Some old" and "is_fresh old now = Inr False"
    and "may_reuse_after_unreachable old now = Inr True" and "stale_entry old now = Inr e"
  shows "view_save m e = Inr (m(entry_uri old \<mapsto> e)) \<and> is_fresh e now = Inr True"
  using stale_entry_Inr[OF assms(4,3)] assms(1,2)
  by (auto simp: view_save_def is_fresh_def entry_uri_def same_fetch_identity_def res_simps)

theorem stale_copy_accepted_witness:
  "\<exists>e m. stale_entry demo_success (Aware (2 * HOUR) 0) = Inr e \<and>
    view_save [entry_uri demo_success \<mapsto> demo_success] e = Inr m \<and>
    is_fresh e (Aware (2 * HOUR) 0) = Inr True"
proof -
  note st = demo_stale
  from stale_copy_accepted[where m = "[entry_uri demo_success \<mapsto> demo_success]", OF _ _ _ st] st
  show ?thesis
    by (auto simp: is_fresh_def may_reuse_after_unreachable_def require_aware_def demo_success_def ttl_defs)
qed

text \<open>
  a refresh that returns has saved the entry it selects as its last effect, and has only charged the
  checkpoint. The entry is the one of this attempt, whose content is the artifact stored and named by
  its digest; or, when the attempt failed, the old success, for at most 15 more minutes and less than
  24 hours after its fetch.
\<close>

theorem robots_refresh_selects:
  assumes "policy_ok p" and "trace s = []" and "refresh P c p u d now since s = (Inr r, s')"
  shows "refreshed p c now r (trace s')"
proof -
  have "twp (refresh P c p u d now since) (refreshed p c now) (\<lambda>e t. charged_orderly p c t) (trace s)"
    using twp_refresh[of p P c u d now since] assms(1,2) by (simp add: policy_ok_def)
  from twp_run[OF this assms(3)] show ?thesis by simp
qed

end
