(* ===== verification/RecursiveCrawl.thy ===== *)
theory RecursiveCrawl imports RobotsRefresh "HOL-Library.Char_ord" "HOL-Library.List_Lexorder" begin

text \<open>
  \<open>application/recursive_crawl.py\<close>: the gate that decides what may be done with one queued target
  (technical policy, budget, robots file, rights, pacing), and the coordinator that refreshes an
  outdated robots file at most once, asks the gate again, and acquires the target when it is ready.
\<close>

section \<open>Results\<close>

datatype gate_status = READY | ROBOTS_REFRESH_REQUIRED | DEFERRED_BUDGET | DEFERRED_PACING | GATE_SKIPPED

record gate_result =
  gr_status :: gate_status
  gr_checkpoint :: checkpoint
  gr_target_id :: uuid
  gr_robots_uri :: "pystr option"
  gr_robots_entry :: "robots_entry option"
  gr_eligibility :: "eligibility option"
  gr_effective_policy :: "policy option"

definition mk_gate_result :: "gate_result \<Rightarrow> exc + gate_result" where
  "mk_gate_result g =
    bindE (check (case gr_robots_entry g of None \<Rightarrow> True | Some e \<Rightarrow> gr_robots_uri g = Some (entry_uri e))
             (ValueError ''recursive crawl robots entry must match robots URI'')) (\<lambda>_.
    bindE (if gr_status g = READY
           then (case (gr_eligibility g, gr_effective_policy g) of
                   (Some e, Some _) \<Rightarrow>
                     bindE (check (el_allowed e)
                              (ValueError ''ready recursive crawl gate requires allowed eligibility'')) (\<lambda>_.
                     check (gr_robots_entry g \<noteq> None)
                       (ValueError ''ready recursive crawl gate requires robots provenance''))
                 | _ \<Rightarrow> Inl (ValueError ''ready recursive crawl gate requires eligibility and policy''))
           else check (gr_effective_policy g = None)
                  (ValueError ''only a ready recursive crawl gate may expose an effective policy'')) (\<lambda>_.
    bindE (if gr_status g = ROBOTS_REFRESH_REQUIRED
           then bindE (check (gr_robots_uri g \<noteq> None)
                         (ValueError ''robots refresh result requires a robots URI'')) (\<lambda>_.
                check (gr_eligibility g = None)
                  (ValueError ''robots refresh result must not claim final eligibility''))
           else Inr ()) (\<lambda>_.
    Inr g)))"

record crawl_result =
  cr_gate :: gate_result
  cr_acquisition :: "acquisition option"
  cr_robots_refresh :: "refresh_result option"

definition mk_crawl_result :: "crawl_result \<Rightarrow> exc + crawl_result" where
  "mk_crawl_result r =
    bindE (check (\<not> (cr_acquisition r \<noteq> None \<and> gr_status (cr_gate r) \<noteq> READY))
             (ValueError ''only a ready recursive crawl gate may produce an acquisition'')) (\<lambda>_.
    Inr r)"

definition crawl_checkpoint :: "crawl_result \<Rightarrow> checkpoint" where
  "crawl_checkpoint r =
    (case cr_acquisition r of Some a \<Rightarrow> aq_checkpoint a | None \<Rightarrow> gr_checkpoint (cr_gate r))"

section \<open>The gate\<close>

definition crawl_queued_target :: "checkpoint \<Rightarrow> uuid \<Rightarrow> exc + target" where
  "crawl_queued_target c tid =
    (case find_target c tid of
       None \<Rightarrow> Inl (ValueError ''recursive crawl target does not exist'')
     | Some t \<Rightarrow>
         bindE (check (status t = QUEUED)
                  (ValueError ''recursive crawl policy gate requires a queued target'')) (\<lambda>_.
         Inr t))"

definition validate_rights_for_target :: "target \<Rightarrow> rights \<Rightarrow> exc + unit" where
  "validate_rights_for_target t r =
    check (ri_target_uri r = uri t)
      (ValueError ''rights decision does not belong to the recursive crawl target'')"

definition gate_save :: "'w ports \<Rightarrow> checkpoint \<Rightarrow> ('w, unit) service" where
  "gate_save P c =
    mapErr (\<lambda>_. Raised (RuntimeError ''unable to persist recursive crawl policy decision''))
      (perform (p_save_checkpoint P c) (\<lambda>ok. [Checkpointed c ok]))"

definition gate_skip :: "'w ports \<Rightarrow> checkpoint \<Rightarrow> target \<Rightarrow> pystr \<Rightarrow> ('w, checkpoint) service" where
  "gate_skip P c t reason =
    bindS (liftS (skip c (target_id t) reason)) (\<lambda>skipped.
    bindS (gate_save P skipped) (\<lambda>_. ret skipped))"

definition plain_gate :: "gate_status \<Rightarrow> checkpoint \<Rightarrow> target \<Rightarrow> exc + gate_result" where
  "plain_gate st c t = mk_gate_result
    \<lparr>gr_status = st, gr_checkpoint = c, gr_target_id = target_id t, gr_robots_uri = None,
     gr_robots_entry = None, gr_eligibility = None, gr_effective_policy = None\<rparr>"

definition evaluate_early_policy ::
  "'w ports \<Rightarrow> checkpoint \<Rightarrow> target \<Rightarrow> policy \<Rightarrow> pyfloat option \<Rightarrow> ('w, gate_result option) service" where
  "evaluate_early_policy P c t p since =
    (if \<not> allows_uri p (uri t)
     then bindS (gate_skip P c t ''technical acquisition policy denied target'') (\<lambda>skipped.
          bindS (liftS (plain_gate GATE_SKIPPED skipped t)) (\<lambda>g. ret (Some g)))
     else bindS (liftS (allows_request (cbudget c) p (depth t) 0 since)) (\<lambda>ok.
          if \<not> ok then bindS (liftS (plain_gate DEFERRED_BUDGET c t)) (\<lambda>g. ret (Some g))
          else ret None))"

text \<open>
  \<open>dataclasses.replace(policy, min_request_interval_seconds=...)\<close>, which validates the policy again.
\<close>

definition with_interval :: "policy \<Rightarrow> rat \<Rightarrow> exc + policy" where
  "with_interval p interval =
    mk_policy (max_depth p) (max_requests p) (max_bytes p) (max_retries p) (max_redirects p)
      (map_option Fin (max_elapsed_seconds p)) (Fin interval)
      (sorted_list_of_set (allowed_schemes p)) (sorted_list_of_set (allowed_domains p))
      (allow_private_addresses p)"

fun eligibility_reason_value :: "eligibility_reason \<Rightarrow> pystr" where
  "eligibility_reason_value ALLOWED = ''allowed''"
| "eligibility_reason_value ROBOTS_OR_TECHNICAL_DENY = ''robots_or_technical_deny''"
| "eligibility_reason_value RIGHTS_RETRIEVAL_DENY = ''rights_retrieval_deny''"

definition entry_gate ::
  "gate_status \<Rightarrow> checkpoint \<Rightarrow> target \<Rightarrow> robots_entry \<Rightarrow> eligibility \<Rightarrow> policy option \<Rightarrow> exc + gate_result" where
  "entry_gate st c t e el p = mk_gate_result
    \<lparr>gr_status = st, gr_checkpoint = c, gr_target_id = target_id t, gr_robots_uri = Some (entry_uri e),
     gr_robots_entry = Some e, gr_eligibility = Some el, gr_effective_policy = p\<rparr>"

definition evaluate_entry_after_precheck ::
  "'w ports \<Rightarrow> checkpoint \<Rightarrow> target \<Rightarrow> policy \<Rightarrow> pystr \<Rightarrow> rights \<Rightarrow> robots_entry \<Rightarrow> pyfloat option \<Rightarrow>
    ('w, gate_result) service" where
  "evaluate_entry_after_precheck P c t p token rights e since =
    bindS (liftS (evaluate_robots_access (uri t) token p (re_result e))) (\<lambda>crawl.
    bindS (liftS (combine_crawl_eligibility crawl rights)) (\<lambda>el.
    if \<not> el_allowed el
    then bindS (gate_skip P c t
             (''recursive crawl policy denied target: '' @ eligibility_reason_value (el_reason el))) (\<lambda>skipped.
         liftS (entry_gate GATE_SKIPPED skipped t e el None))
    else
    bindS (liftS (with_interval p (max (min_request_interval_seconds p) (cd_interval crawl)))) (\<lambda>effective.
    bindS (liftS (allows_request (cbudget c) effective (depth t) 0 since)) (\<lambda>ok.
    if \<not> ok then liftS (entry_gate DEFERRED_PACING c t e el None)
    else liftS (entry_gate READY c t e el (Some effective))))))"

definition gate_evaluate ::
  "'w ports \<Rightarrow> checkpoint \<Rightarrow> uuid \<Rightarrow> policy \<Rightarrow> pystr \<Rightarrow> rights \<Rightarrow> datetime \<Rightarrow> pyfloat option \<Rightarrow>
    ('w, gate_result) service" where
  "gate_evaluate P c tid p token rights now since =
    bindS (liftS (crawl_queued_target c tid)) (\<lambda>t.
    bindS (liftS (validate_rights_for_target t rights)) (\<lambda>_.
    bindS (evaluate_early_policy P c t p since) (\<lambda>early.
    case early of
      Some g \<Rightarrow> ret g
    | None \<Rightarrow>
    bindS (liftS (robots_uri_for (uri t))) (\<lambda>robots_uri.
    bindS (query (p_get_robots P robots_uri)) (\<lambda>cached.
    bindS (liftS (case cached of None \<Rightarrow> Inr False | Some e \<Rightarrow> is_fresh e now)) (\<lambda>fresh.
    if \<not> fresh
    then liftS (mk_gate_result
           \<lparr>gr_status = ROBOTS_REFRESH_REQUIRED, gr_checkpoint = c, gr_target_id = tid,
            gr_robots_uri = Some robots_uri, gr_robots_entry = cached, gr_eligibility = None,
            gr_effective_policy = None\<rparr>)
    else evaluate_entry_after_precheck P c t p token rights (the cached) since))))))"

definition evaluate_refreshed_entry ::
  "'w ports \<Rightarrow> checkpoint \<Rightarrow> uuid \<Rightarrow> policy \<Rightarrow> pystr \<Rightarrow> rights \<Rightarrow> robots_entry \<Rightarrow> pyfloat option \<Rightarrow>
    ('w, gate_result) service" where
  "evaluate_refreshed_entry P c tid p token rights e since =
    bindS (liftS (crawl_queued_target c tid)) (\<lambda>t.
    bindS (liftS (validate_rights_for_target t rights)) (\<lambda>_.
    bindS (evaluate_early_policy P c t p since) (\<lambda>early.
    case early of
      Some g \<Rightarrow> ret g
    | None \<Rightarrow>
    bindS (liftS (robots_uri_for (uri t))) (\<lambda>expected_uri.
    bindS (checkS (entry_uri e = expected_uri)
             (ValueError ''robots entry does not belong to the recursive target authority'')) (\<lambda>_.
    evaluate_entry_after_precheck P c t p token rights e since)))))"

section \<open>The coordinator\<close>

definition acquire_if_ready ::
  "'w ports \<Rightarrow> uuid \<Rightarrow> pystr option \<Rightarrow> gate_result \<Rightarrow> refresh_result option \<Rightarrow> pyfloat option \<Rightarrow>
    ('w, crawl_result) service" where
  "acquire_if_ready P tid request_uri gate attempt interval =
    (if gr_status gate \<noteq> READY
     then liftS (mk_crawl_result \<lparr>cr_gate = gate, cr_acquisition = None, cr_robots_refresh = attempt\<rparr>)
     else
     bindS (acquire P (gr_checkpoint gate) tid (the (gr_effective_policy gate)) request_uri interval) (\<lambda>a.
     liftS (mk_crawl_result \<lparr>cr_gate = gate, cr_acquisition = Some a, cr_robots_refresh = attempt\<rparr>)))"

definition crawl_acquire ::
  "'w ports \<Rightarrow> checkpoint \<Rightarrow> uuid \<Rightarrow> policy \<Rightarrow> pystr \<Rightarrow> rights \<Rightarrow> datetime \<Rightarrow> pystr option \<Rightarrow> pyfloat option \<Rightarrow>
    ('w, crawl_result) service" where
  "crawl_acquire P c tid p token rights now request_uri since =
    bindS (gate_evaluate P c tid p token rights now since) (\<lambda>gate.
    if gr_status gate = ROBOTS_REFRESH_REQUIRED
    then
      bindS (liftS (crawl_queued_target (gr_checkpoint gate) tid)) (\<lambda>t.
      bindS (refresh P (gr_checkpoint gate) p (the (gr_robots_uri gate)) (depth t) now since) (\<lambda>r.
      bindS (evaluate_refreshed_entry P (rf_checkpoint r) tid p token rights (rf_entry r) (Some (Fin 0))) (\<lambda>gate'.
      acquire_if_ready P tid request_uri gate' (Some r) (Some (Fin 0)))))
    else acquire_if_ready P tid request_uri gate None since)"

end
