(* ===== verification/Framing.thy ===== *)
theory Framing imports RecursiveCrawl begin

text \<open>
  The operations only append to the trace, and no operation reads it: a run after a trace of earlier
  effects is the same run with its own effects in front. Facts proved of a run from the empty trace
  hold of the suffix it adds, so operations can be composed in sequence.
\<close>

definition framed :: "('w state, 'e, 'a) prog \<Rightarrow> bool" where
  "framed m \<longleftrightarrow>
    (\<forall>s t. m (s\<lparr>trace := trace s @ t\<rparr>) = (case m s of (r, s') \<Rightarrow> (r, s'\<lparr>trace := trace s' @ t\<rparr>)))"

lemma framedD: "framed m \<Longrightarrow> m s = (r, s') \<Longrightarrow> m (s\<lparr>trace := trace s @ t\<rparr>) = (r, s'\<lparr>trace := trace s' @ t\<rparr>)"
  by (simp add: framed_def)

lemma framedI:
  "(\<And>s t r s'. m s = (r, s') \<Longrightarrow> m (s\<lparr>trace := trace s @ t\<rparr>) = (r, s'\<lparr>trace := trace s' @ t\<rparr>)) \<Longrightarrow> framed m"
  by (simp add: framed_def split: prod.splits)

lemma twp_frame:
  assumes "framed m" "twp m Q E []"
  shows "twp m (\<lambda>x t'. \<exists>d. t' = d @ t \<and> Q x d) (\<lambda>e t'. \<exists>d. t' = d @ t \<and> E e d) t"
proof -
  have "wp m (\<lambda>x s. \<exists>d. trace s = d @ t \<and> Q x d) (\<lambda>e s. \<exists>d. trace s = d @ t \<and> E e d) s"
    if s: "trace s = t" for s
  proof -
    let ?s = "s\<lparr>trace := []\<rparr>"
    obtain r s' where m: "m ?s = (r, s')" by force
    have "s\<lparr>trace := t\<rparr> = s" using s by (cases s) simp
    then have "m s = (r, s'\<lparr>trace := trace s' @ t\<rparr>)" using framedD[OF assms(1) m, of t] by simp
    moreover have "case r of Inl e \<Rightarrow> E e (trace s') | Inr x \<Rightarrow> Q x (trace s')"
      using twp_run[of m Q E ?s] assms(2) m by simp
    ultimately show ?thesis by (auto simp: wp_def split: sum.splits)
  qed
  then show ?thesis by (simp add: twp_def)
qed

section \<open>Statements\<close>

named_theorems framed_intros \<open>framing of each kind of statement\<close>

lemma framed_ret [framed_intros]: "framed (ret x)"
  by (simp add: framed_def)

lemma framed_throw [framed_intros]: "framed (throw e)"
  by (simp add: framed_def)

lemma framed_bind [framed_intros]: "framed m \<Longrightarrow> (\<And>x s s'. m s = (Inr x, s') \<Longrightarrow> framed (f x)) \<Longrightarrow> framed (bindS m f)"
  by (fastforce simp: framed_def bindS_def split: prod.splits sum.splits)

lemma framed_catch [framed_intros]: "framed m \<Longrightarrow> (\<And>e. framed (h e)) \<Longrightarrow> framed (catchS m h)"
  by (auto simp: framed_def catchS_def split: prod.splits sum.splits)

lemma framed_mapErr [framed_intros]: "framed m \<Longrightarrow> framed (mapErr f m)"
  unfolding mapErr_def by (intro framed_intros)

lemma framed_if [framed_intros]: "(b \<Longrightarrow> framed m) \<Longrightarrow> (\<not> b \<Longrightarrow> framed n) \<Longrightarrow> framed (if b then m else n)"
  by simp

lemma framed_option [framed_intros]: "framed f \<Longrightarrow> (\<And>v. framed (g v)) \<Longrightarrow> framed (case x of None \<Rightarrow> f | Some v \<Rightarrow> g v)"
  by (cases x) simp_all

lemma framed_lift [framed_intros]: "framed (liftS m)"
  by (cases m) (simp_all add: liftS_def framed_intros)

lemma framed_check [framed_intros]: "framed (checkS b e)"
  by (simp add: checkS_def framed_intros)

lemma framed_perform [framed_intros]: "framed (perform call ev)"
  by (auto simp: framed_def perform_def split: prod.splits sum.splits)

lemma framed_query [framed_intros]: "framed (query call)" "framed (utc_now P)"
  by (simp_all add: query_def utc_now_def framed_perform)

lemma framed_with_active [framed_intros]: "framed m \<Longrightarrow> framed (with_active c m)"
  unfolding with_active_def by (intro framed_intros)

lemma framed_pair [framed_intros]: "(\<And>a b. framed (f a b)) \<Longrightarrow> framed (case x of (a, b) \<Rightarrow> f a b)"
  by (cases x) simp

lemma framed_triple [framed_intros]: "(\<And>a b c. framed (f a b c)) \<Longrightarrow> framed (case x of (a, b, c) \<Rightarrow> f a b c)"
  by (cases x) simp

lemma framed_cong: "(\<And>s. m s = m' s) \<Longrightarrow> framed m' \<Longrightarrow> framed m"
  by (simp add: framed_def)

section \<open>Operations\<close>

lemma framed_clock [framed_intros]:
  "framed (read_clock P)" "framed (elapsed P c s)" "framed (remaining_elapsed P c p s)"
  "framed (ensure_elapsed_budget P c p s)"
proof -
  show 1: "framed (read_clock P)" unfolding read_clock_def by (intro framed_intros)
  show 2: "framed (elapsed P c s)" for c s unfolding elapsed_def by (intro framed_intros 1)
  show 3: "framed (remaining_elapsed P c p s)" unfolding remaining_elapsed_def by (intro framed_intros 2)
  show "framed (ensure_elapsed_budget P c p s)" unfolding ensure_elapsed_budget_def by (intro framed_intros 3)
qed

lemma framed_steps [framed_intros]:
  "framed (save P c)" "framed (request_once P c p u s)" "framed (wait_for_followup P c d p s)"
  "framed (put_artifact P sn body digest)" "framed (save_observation P ob)"
  "framed (save_finalization P v)" "framed (delete_finalization P v)"
  unfolding save_def request_once_def exchange_def wait_for_followup_def put_artifact_def save_observation_def
    save_finalization_def delete_finalization_def Let_def
  by (intro framed_intros)+

lemma framed_finish [framed_intros]:
  "framed (finish P c tg req u chain r started)" "framed (finish_policy P c req u chain r d)"
  "framed (recover_policy_result P c v)" "framed (charge_elapsed P c started)"
  "framed (wait_for_policy_followup P c p d started)"
  unfolding finish_def finish_policy_def recover_policy_result_def commit_policy_outputs_def charge_elapsed_def
    wait_for_policy_followup_def Let_def
  by (intro framed_intros)+

lemma framed_acquire_loop [framed_intros]: "framed (acquire_loop P p tg req started chain active u)"
proof (induction "nat (max_redirects p - int (length chain))" arbitrary: chain active u rule: less_induct)
  case less
  show ?case
    by (rule framed_cong, rule acquire_loop.simps) (intro framed_intros less, auto simp: with_active_checkS)
qed

lemma framed_fetch_loop [framed_intros]: "framed (fetch_loop P p d req started chain active u)"
proof (induction "nat (max_redirects p - int (length chain))" arbitrary: chain active u rule: less_induct)
  case less
  show ?case
    by (rule framed_cong, rule fetch_loop.simps) (intro framed_intros less, auto)
qed

lemma framed_failure [framed_intros]:
  "(\<And>x. framed (f1 x)) \<Longrightarrow> framed f2 \<Longrightarrow> (\<And>x y. framed (f3 x y)) \<Longrightarrow> (\<And>x y. framed (f4 x y)) \<Longrightarrow>
    (\<And>x y. framed (f5 x y)) \<Longrightarrow> (\<And>x. framed (f6 x)) \<Longrightarrow> (\<And>x y. framed (f7 x y)) \<Longrightarrow>
    framed (case e of Raised x \<Rightarrow> f1 x | CheckpointError \<Rightarrow> f2 | AcquisitionError x y \<Rightarrow> f3 x y
      | CommitError x y \<Rightarrow> f4 x y | PolicyFetchError x y \<Rightarrow> f5 x y | RedirectLimitError x \<Rightarrow> f6 x
      | PolicyCommitError x y \<Rightarrow> f7 x y)"
  by (cases e) simp_all

lemma framed_fetch_end [framed_intros]:
  "(\<And>x. framed (f x)) \<Longrightarrow> (\<And>x. framed (g x)) \<Longrightarrow> (\<And>x. framed (h x)) \<Longrightarrow>
    framed (case e of Fetched x \<Rightarrow> f x | RedirectsExhausted x \<Rightarrow> g x | Unreached x \<Rightarrow> h x)"
  by (cases e) simp_all

lemma framed_services:
  "framed (acquire P c tid p request_uri since)" "framed (fetch P c p u d since)"
  unfolding acquire_def fetch_def report_failure_def report_policy_failure_def Let_def
  by (intro framed_intros)+

lemma framed_refresh: "framed (refresh P c p u d now since)"
  unfolding refresh_def try_fetch_def finish_refresh_def finish_unreachable_def save_robots_def Let_def
  by (intro framed_intros framed_services)

lemma framed_gate:
  "framed (gate_evaluate P c tid p token rights now since)"
  "framed (evaluate_refreshed_entry P c tid p token rights e since)"
  unfolding gate_evaluate_def evaluate_refreshed_entry_def evaluate_early_policy_def
    evaluate_entry_after_precheck_def gate_skip_def gate_save_def
  by (intro framed_intros)+

end
