(* ===== verification/CrawlSafety.thy ===== *)
theory CrawlSafety imports Framing begin

text \<open>
  What a recursive crawl step may do: the gate writes nothing but a skipped target, a request for the
  target is made only when every policy has cleared it, and under the interval its robots file asks for.
\<close>

section \<open>The gate\<close>

text \<open>A target every policy allows, the entry it was decided by, and the policy to acquire it under.\<close>

definition cleared ::
  "policy \<Rightarrow> checkpoint \<Rightarrow> uuid \<Rightarrow> pystr \<Rightarrow> rights \<Rightarrow> pyfloat option \<Rightarrow> robots_entry \<Rightarrow> policy \<Rightarrow> bool" where
  "cleared p c tid token rights since e effective \<longleftrightarrow>
    (\<exists>t crawl.
      t \<in> set (targets c) \<and> target_id t = tid \<and> status t = QUEUED \<and>
      allows_uri p (uri t) \<and> ri_target_uri rights = uri t \<and> ri_retrieval rights \<and>
      evaluate_robots_access (uri t) token p (re_result e) = Inr crawl \<and> cd_allowed crawl \<and>
      with_interval p (max (min_request_interval_seconds p) (cd_interval crawl)) = Inr effective \<and>
      allows_request (cbudget c) effective (depth t) 0 since = Inr True)"

definition gate_end ::
  "policy \<Rightarrow> checkpoint \<Rightarrow> uuid \<Rightarrow> pystr \<Rightarrow> rights \<Rightarrow> pyfloat option \<Rightarrow> gate_result \<Rightarrow> event list \<Rightarrow> bool" where
  "gate_end p c tid token rights since g t \<longleftrightarrow>
    (if gr_status g = GATE_SKIPPED
     then t = [Checkpointed (gr_checkpoint g) True] \<and> tstep p c (gr_checkpoint g) \<and>
       has_status (gr_checkpoint g) tid SKIPPED
     else t = [] \<and> gr_checkpoint g = c) \<and>
    (gr_status g = READY \<longrightarrow>
      (\<exists>e effective. gr_robots_entry g = Some e \<and> gr_effective_policy g = Some effective \<and>
        cleared p c tid token rights since e effective))"

definition gate_error :: "policy \<Rightarrow> checkpoint \<Rightarrow> event list \<Rightarrow> bool" where
  "gate_error p c t \<longleftrightarrow> t = [] \<or> (\<exists>d ok. t = [Checkpointed d ok] \<and> tstep p c d)"

lemma crawl_queued_target_Inr:
  "crawl_queued_target c tid = Inr t \<Longrightarrow> t \<in> set (targets c) \<and> target_id t = tid \<and> status t = QUEUED"
  by (auto simp: crawl_queued_target_def find_target_def res_simps dest: find_Some_mem split: option.splits)

lemma skip_status:
  assumes "skip c tid reason = Inr c'"
  shows "tstep p c c' \<and> has_status c' tid SKIPPED"
proof -
  obtain t f where t: "find_target c tid = Some t"
    and f: "target_id f = target_id t" "status f = SKIPPED" "c' = c\<lparr>targets := replace_by target_id f (targets c)\<rparr>"
    using assms
    by (auto simp: skip_def replace_target_def require_target_def res_simps mk_checkpoint_Inr
        dest!: mk_target_Inr split: option.splits)
  have "t \<in> set (targets c)" "target_id t = tid" using t by (auto simp: find_target_def dest: find_Some_mem)
  then have "f \<in> set (targets c')" using f by (auto simp: set_replace_by)
  then show ?thesis using tstep.skipped[OF assms] f \<open>target_id t = tid\<close> by (auto simp: has_status_def)
qed

lemma gate_result_Inr:
  "plain_gate st c t = Inr g \<Longrightarrow> gr_status g = st \<and> gr_checkpoint g = c \<and> st \<noteq> READY"
  "entry_gate st c t e el p = Inr g' \<Longrightarrow>
    gr_status g' = st \<and> gr_checkpoint g' = c \<and> gr_robots_entry g' = Some e \<and> gr_effective_policy g' = p"
  by (auto simp: plain_gate_def entry_gate_def mk_gate_result_def res_simps split: if_splits)

lemma twp_gate_skip:
  assumes "\<And>c'. skip c (target_id t) reason = Inr c' \<Longrightarrow> Q c' [Checkpointed c' True]"
    and "\<And>c' x. skip c (target_id t) reason = Inr c' \<Longrightarrow> E (Raised x) [Checkpointed c' False]"
    and "\<And>x. E (Raised x) []"
  shows "twp (gate_skip P c t reason) Q E []"
  unfolding gate_skip_def gate_save_def by (intro twp_intros) (use assms in auto)

lemma gate_end_skip:
  assumes "skip c tid reason = Inr c'" "gr_status g = GATE_SKIPPED" "gr_checkpoint g = c'"
  shows "gate_end p c tid token rights since g [Checkpointed c' True]"
  using assms skip_status[OF assms(1), of p] by (simp add: gate_end_def)

lemma gate_error_skip: "skip c tid reason = Inr c' \<Longrightarrow> gate_error p c [Checkpointed c' ok]"
  using skip_status[of c tid reason c' p] by (simp add: gate_error_def)

lemma gate_end_deferred:
  "gr_status g = st \<Longrightarrow> gr_checkpoint g = c \<Longrightarrow> st \<noteq> GATE_SKIPPED \<Longrightarrow> st \<noteq> READY \<Longrightarrow>
    gate_end p c tid token rights since g []"
  by (simp add: gate_end_def)

lemma gate_error_nil: "gate_error p c []"
  by (simp add: gate_error_def)

lemmas gate_ends = gate_end_skip gate_error_skip gate_end_deferred gate_error_nil

lemma twp_early:
  assumes t: "target_id t = tid"
    and Q: "\<And>g t. gate_end p c tid token rights since g t \<Longrightarrow> gr_status g \<noteq> READY \<Longrightarrow>
        gr_status g \<noteq> ROBOTS_REFRESH_REQUIRED \<Longrightarrow> Q (Some g) t"
      "allows_uri p (uri t) \<Longrightarrow> Q None []"
    and E: "\<And>e t. gate_error p c t \<Longrightarrow> E e t"
  shows "twp (evaluate_early_policy P c t p since) Q E []"
proof -
  have skipped: "Q (Some g) [Checkpointed c' True]"
    if "skip c tid reason = Inr c'" "plain_gate GATE_SKIPPED c' t = Inr g" for c' g reason
    using Q(1)[OF gate_end_skip[OF that(1)]] gate_result_Inr(1)[OF that(2)] by simp
  have deferred: "Q (Some g) []" if "plain_gate DEFERRED_BUDGET c t = Inr g" for g
    using Q(1)[OF gate_end_deferred] gate_result_Inr(1)[OF that] by simp
  show ?thesis unfolding evaluate_early_policy_def
    by (intro twp_intros twp_gate_skip)
      (simp_all add: t skipped deferred Q(2) E[OF gate_error_nil] E[OF gate_error_skip])
qed

lemma twp_entry:
  assumes t: "t \<in> set (targets c)" "target_id t = tid" "status t = QUEUED" "ri_target_uri rights = uri t"
      "allows_uri p (uri t)"
    and Q: "\<And>g t. gate_end p c tid token rights since g t \<Longrightarrow> gr_robots_entry g = Some e \<Longrightarrow>
      gr_status g \<noteq> ROBOTS_REFRESH_REQUIRED \<Longrightarrow> Q g t"
    and E: "\<And>x t. gate_error p c t \<Longrightarrow> E x t"
  shows "twp (evaluate_entry_after_precheck P c t p token rights e since) Q E []"
proof -
  have ok: "cd_allowed crawl \<and> ri_retrieval rights"
    if "combine_crawl_eligibility crawl rights = Inr el" "el_allowed el" for crawl el
    using combine_crawl_eligibility_Inr[OF that(1)] that(2)
    by (auto simp: expected_eligibility_def split: if_splits)
  have ready: "gate_end p c tid token rights since g []"
    if "evaluate_robots_access (uri t) token p (re_result e) = Inr crawl"
      "combine_crawl_eligibility crawl rights = Inr el" "el_allowed el"
      "with_interval p (max (min_request_interval_seconds p) (cd_interval crawl)) = Inr effective"
      "allows_request (cbudget c) effective (depth t) 0 since = Inr True"
      "entry_gate READY c t e el (Some effective) = Inr g" for crawl el effective g
  proof -
    have "cleared p c tid token rights since e effective"
      unfolding cleared_def using ok[OF that(2,3)] that(1,4,5) t
      by (intro exI[of _ t] exI[of _ crawl] conjI) simp_all
    then show ?thesis using gate_result_Inr(2)[OF that(6)] by (simp add: gate_end_def)
  qed
  have skipped: "gate_end p c tid token rights since g [Checkpointed c' True]"
    if "skip c tid reason = Inr c'" "entry_gate GATE_SKIPPED c' t e el None = Inr g" for c' g reason el
    using gate_end_skip[OF that(1)] gate_result_Inr(2)[OF that(2)] by simp
  have deferred: "gate_end p c tid token rights since g []"
    if "entry_gate DEFERRED_PACING c t e el None = Inr g" for g el
    using gate_end_deferred gate_result_Inr(2)[OF that] by simp
  have st: "gr_robots_entry g = Some e \<and> gr_status g = st"
    if "entry_gate st c' t e el q = Inr g" for st c' el q g
    using gate_result_Inr(2)[OF that] by simp
  show ?thesis unfolding evaluate_entry_after_precheck_def
    apply (intro twp_intros twp_gate_skip)
    apply (simp_all add: t(2) E[OF gate_error_nil] E[OF gate_error_skip])
    apply (rule Q[OF skipped], assumption+, simp_all add: st)
    apply (rule Q[OF deferred], assumption+, simp_all add: st)
    apply (rule Q[OF ready], assumption+, simp_all add: st)
    done
qed

definition fresh_end :: "datetime \<Rightarrow> gate_result \<Rightarrow> bool" where
  "fresh_end now g \<longleftrightarrow>
    (gr_status g = READY \<longrightarrow> (\<exists>e. gr_robots_entry g = Some e \<and> is_fresh e now = Inr True))"

lemma twp_gate_evaluate:
  assumes Q: "\<And>g t. gate_end p c tid token rights since g t \<Longrightarrow> fresh_end now g \<Longrightarrow> Q g t"
    and E: "\<And>x t. gate_error p c t \<Longrightarrow> E x t"
  shows "twp (gate_evaluate P c tid p token rights now since) Q E []"
proof -
  have refresh: "Q g []"
    if "mk_gate_result \<lparr>gr_status = ROBOTS_REFRESH_REQUIRED, gr_checkpoint = c, gr_target_id = tid,
        gr_robots_uri = u, gr_robots_entry = e, gr_eligibility = None, gr_effective_policy = None\<rparr> = Inr g" for u e g
    by (rule Q[OF gate_end_deferred[of g ROBOTS_REFRESH_REQUIRED]])
      (use that in \<open>auto simp: mk_gate_result_def fresh_end_def res_simps split: if_splits\<close>)
  have entry: "twp (evaluate_entry_after_precheck P c t p token rights (the cached) since) Q E []"
    if "crawl_queued_target c tid = Inr t" "validate_rights_for_target t rights = Inr ()" "allows_uri p (uri t)"
      "(case cached of None \<Rightarrow> Inr False | Some e \<Rightarrow> is_fresh e now) = Inr True" for t cached
    by (rule twp_entry)
      (use that crawl_queued_target_Inr[OF that(1)] in
        \<open>auto intro!: Q E simp: fresh_end_def validate_rights_for_target_def res_simps split: option.splits\<close>)
  show ?thesis unfolding gate_evaluate_def
    apply (intro twp_intros)
    apply (rule twp_early[of _ tid p c token rights since], simp add: crawl_queued_target_Inr)
    apply (simp add: twp_ret Q fresh_end_def)
    apply (simp, intro twp_intros)
    apply (simp_all add: refresh E gate_error_nil)
    apply (rule entry, assumption+)
    done
qed

lemma twp_evaluate_refreshed:
  assumes Q: "\<And>g t. gate_end p c tid token rights since g t \<Longrightarrow> gr_status g \<noteq> ROBOTS_REFRESH_REQUIRED \<Longrightarrow>
      (gr_status g = READY \<longrightarrow> gr_robots_entry g = Some e) \<Longrightarrow> Q g t"
    and E: "\<And>x t. gate_error p c t \<Longrightarrow> E x t"
  shows "twp (evaluate_refreshed_entry P c tid p token rights e since) Q E []"
proof -
  have entry: "twp (evaluate_entry_after_precheck P c t p token rights e since) Q E []"
    if "crawl_queued_target c tid = Inr t" "validate_rights_for_target t rights = Inr ()" "allows_uri p (uri t)" for t
    by (rule twp_entry)
      (use that crawl_queued_target_Inr[OF that(1)] in
        \<open>auto intro!: Q E simp: validate_rights_for_target_def res_simps\<close>)
  show ?thesis unfolding evaluate_refreshed_entry_def
    apply (intro twp_intros)
    apply (rule twp_early[of _ tid p c token rights since], simp add: crawl_queued_target_Inr)
    apply (simp add: twp_ret Q)
    apply (simp, intro twp_intros)
    apply (simp_all add: entry E gate_error_nil)
    done
qed

section \<open>The coordinator\<close>

lemma with_interval_Inr:
  assumes "with_interval p i = Inr e"
  shows "policy_ok e \<and> min_request_interval_seconds e = i"
  using mk_policy_ok[OF assms[unfolded with_interval_def]] assms
  by (auto simp: with_interval_def mk_policy_def res_simps)

text \<open>
  The trace of a step is that of a robots refresh, if there was one, followed by that of the
  acquisition, whose requests are made under the effective policy of a cleared target. After a refresh
  the gate counts no time as passed since the last request.
\<close>

definition gated ::
  "policy \<Rightarrow> checkpoint \<Rightarrow> uuid \<Rightarrow> pystr \<Rightarrow> rights \<Rightarrow> datetime \<Rightarrow> pyfloat option \<Rightarrow> event list \<Rightarrow> event list \<Rightarrow> bool" where
  "gated p c tid token rights now since acquiring refreshing \<longleftrightarrow>
    charged_orderly p c refreshing \<and>
    (requests acquiring = 0 \<or>
      (\<exists>e effective c' interval.
        cleared p c' tid token rights interval e effective \<and> charged_within p c c' \<and>
        counted c c' refreshing \<and> orderly effective c' acquiring \<and>
        (if refreshing = [] then c' = c \<and> interval = since \<and> is_fresh e now = Inr True
         else interval = Some (Fin 0) \<and> Cached e True \<in> set refreshing)))"

definition step_end :: "uuid \<Rightarrow> crawl_result \<Rightarrow> event list \<Rightarrow> bool" where
  "step_end tid r acquiring \<longleftrightarrow>
    (case cr_acquisition r of
       Some a \<Rightarrow> gr_status (cr_gate r) = READY \<and> committed tid a acquiring
     | None \<Rightarrow>
         gr_status (cr_gate r) \<noteq> READY \<and>
         (if gr_status (cr_gate r) = GATE_SKIPPED
          then acquiring = [Checkpointed (gr_checkpoint (cr_gate r)) True] \<and>
            has_status (gr_checkpoint (cr_gate r)) tid SKIPPED
          else acquiring = []))"

lemma gate_end_requests: "gate_end p c tid token rights since g t \<Longrightarrow> requests t = 0"
  by (auto simp: gate_end_def split: if_splits)

lemma gate_error_requests: "gate_error p c t \<Longrightarrow> requests t = 0"
  by (auto simp: gate_error_def)

lemma twp_acquire_if_ready:
  assumes g: "gate_end p c' tid token rights interval g d" "gr_status g \<noteq> ROBOTS_REFRESH_REQUIRED"
    and r: "charged_orderly p c rf" "charged_within p c c'" "counted c c' rf"
    and e: "gr_status g = READY \<Longrightarrow> \<exists>e. gr_robots_entry g = Some e \<and>
      (if rf = [] then c' = c \<and> interval = since \<and> is_fresh e now = Inr True
       else interval = Some (Fin 0) \<and> Cached e True \<in> set rf)"
  shows "twp (acquire_if_ready P tid request_uri g attempt interval)
    (\<lambda>res t. \<exists>d. t = d @ rf \<and> gated p c tid token rights now since d rf \<and> step_end tid res d)
    (\<lambda>x t. \<exists>d. t = d @ rf \<and> gated p c tid token rights now since d rf) (d @ rf)"
proof (cases "gr_status g = READY")
  case False
  then show ?thesis
    using g(1) gate_end_requests[OF g(1)] r
    by (auto simp: acquire_if_ready_def gated_def step_end_def gate_end_def mk_crawl_result_def res_simps
        intro!: twp_lift split: if_splits)
next
  case True
  then obtain e eff where x: "gr_robots_entry g = Some e" "gr_effective_policy g = Some eff" "gr_checkpoint g = c'"
      "d = []" "cleared p c' tid token rights interval e eff"
    using g(1) by (auto simp: gate_end_def)
  have "0 \<le> max_redirects eff" using x(5) by (auto simp: cleared_def policy_ok_def dest!: with_interval_Inr)
  note acq = twp_frame[OF framed_services(1) twp_acquire[OF this], of P c' tid request_uri interval rf]
  have gd: "gated p c tid token rights now since d' rf" if "orderly eff c' d'" for d'
    unfolding gated_def
    by (intro conjI disjI2 exI[of _ e] exI[of _ eff] exI[of _ c'] exI[of _ interval]) (use x(1,5) r e[OF True] that in simp_all)
  show ?thesis unfolding acquire_if_ready_def using True x(2-4)
    by (simp, intro twp_bind twp_mono[OF acq] twp_lift)
      (auto intro: gd simp: step_end_def mk_crawl_result_def res_simps)
qed

lemma twp_crawl_acquire:
  assumes p: "0 \<le> max_redirects p"
  shows "twp (crawl_acquire P c tid p token rights now request_uri since)
    (\<lambda>r t. \<exists>d rf. t = d @ rf \<and> gated p c tid token rights now since d rf \<and> step_end tid r d)
    (\<lambda>x t. \<exists>d rf. t = d @ rf \<and> gated p c tid token rights now since d rf) []"
proof -
  let ?Q = "\<lambda>r t. \<exists>d rf. t = d @ rf \<and> gated p c tid token rights now since d rf \<and> step_end tid r d"
  let ?E = "\<lambda>x t. \<exists>d rf. t = d @ rf \<and> gated p c tid token rights now since d rf"
  have nil: "charged_orderly p c []" using p by (simp add: charged_orderly_def)
  have counted_nil: "counted c c []" by (simp add: counted_def)
  have quiet: "?E x (d @ rf)" if "requests d = 0" "charged_orderly p c rf" for x :: failure and d rf
    using that unfolding gated_def by blast
  have direct: "twp (acquire_if_ready P tid request_uri g None since) ?Q ?E t"
    if "gate_end p c tid token rights since g t" "fresh_end now g" "gr_status g \<noteq> ROBOTS_REFRESH_REQUIRED" for g t
    by (rule twp_mono[OF twp_acquire_if_ready[where d = t and rf = "[]", unfolded append_Nil2, OF that(1,3) nil charged_refl counted_nil]])
      (use that(2) in \<open>auto simp: fresh_end_def\<close>)
  have again: "twp (evaluate_refreshed_entry P (rf_checkpoint r) tid p token rights (rf_entry r) (Some (Fin 0)))
      (\<lambda>g. twp (acquire_if_ready P tid request_uri g (Some r) (Some (Fin 0))) ?Q ?E) ?E rf"
    if "refreshed p c now r rf" for r rf
  proof -
    have rf: "charged_orderly p c rf" "charged_within p c (rf_checkpoint r)" "Cached (rf_entry r) True \<in> set rf" "rf \<noteq> []"
      "counted c (rf_checkpoint r) rf"
      using that by (auto simp: refreshed_def counted_def)
    note eval = twp_frame[OF framed_gate(2) twp_evaluate_refreshed[where p = p and c = "rf_checkpoint r"
        and since = "Some (Fin 0)" and e = "rf_entry r"
        and Q = "\<lambda>g t. gate_end p (rf_checkpoint r) tid token rights (Some (Fin 0)) g t \<and>
          gr_status g \<noteq> ROBOTS_REFRESH_REQUIRED \<and> (gr_status g = READY \<longrightarrow> gr_robots_entry g = Some (rf_entry r))"
        and E = "\<lambda>_. gate_error p (rf_checkpoint r)"]]
    show ?thesis
      apply (rule twp_mono[OF eval], simp, simp)
       apply (elim exE conjE, simp only:)
       apply (rule twp_mono[OF twp_acquire_if_ready[OF _ _ rf(1,2,5)]], assumption+)
         apply (use rf in auto)[3]
      apply (use quiet[OF gate_error_requests rf(1)] in blast)
      done
  qed
  show ?thesis unfolding crawl_acquire_def
  proof (intro twp_bind twp_gate_evaluate twp_if twp_lift)
    fix g t t0
    assume "gate_end p c tid token rights since g t" "gr_status g = ROBOTS_REFRESH_REQUIRED"
    then have t: "t = []" "gr_checkpoint g = c" by (simp_all add: gate_end_def)
    show "twp (refresh P (gr_checkpoint g) p (the (gr_robots_uri g)) (depth t0) now since)
        (\<lambda>r. twp (bindS (evaluate_refreshed_entry P (rf_checkpoint r) tid p token rights (rf_entry r) (Some (Fin 0)))
          (\<lambda>g'. acquire_if_ready P tid request_uri g' (Some r) (Some (Fin 0)))) ?Q ?E) ?E t"
      unfolding t by (rule twp_mono[OF twp_refresh[OF p] twp_bind[OF again]]) (use quiet[of "[]"] in auto)
  next
    fix g t and e :: exc
    assume "gate_end p c tid token rights since g t" "gr_status g = ROBOTS_REFRESH_REQUIRED"
    then show "?E (Raised e) t" using quiet[of "[]" "[]"] nil by (simp add: gate_end_def)
  next
    fix x :: failure and t
    assume "gate_error p c t"
    then show "?E x t" using quiet[of t "[]"] gate_error_requests nil by simp
  qed (rule direct)
qed

section \<open>Properties\<close>

text \<open>A policy its own constructor accepts unchanged.\<close>

definition constructed :: "policy \<Rightarrow> bool" where
  "constructed p \<longleftrightarrow> with_interval p (min_request_interval_seconds p) = Inr p"

lemma constructed_ok: "constructed p \<Longrightarrow> policy_ok p"
  using with_interval_Inr unfolding constructed_def by blast

lemma with_interval_constructed:
  assumes "constructed p" "with_interval p i = Inr e"
  shows "e = p\<lparr>min_request_interval_seconds := i\<rparr>"
  using assms unfolding constructed_def with_interval_def mk_policy_def
  by (cases p) (auto simp: res_simps)

lemma interval_fields:
  "allowed_schemes (p\<lparr>min_request_interval_seconds := i\<rparr>) = allowed_schemes p"
  "allowed_domains (p\<lparr>min_request_interval_seconds := i\<rparr>) = allowed_domains p"
  "allow_private_addresses (p\<lparr>min_request_interval_seconds := i\<rparr>) = allow_private_addresses p"
  by simp_all

lemma allows_uri_interval: "allows_uri (p\<lparr>min_request_interval_seconds := i\<rparr>) u = allows_uri p u"
  unfolding allows_uri_def interval_fields by (rule refl)

lemma allows_resolved_address_interval:
  "allows_resolved_address (p\<lparr>min_request_interval_seconds := i\<rparr>) a = allows_resolved_address p a"
  unfolding allows_resolved_address_def interval_fields by (rule refl)

lemma crawl_run:
  assumes "0 \<le> max_redirects p" "trace s = []"
    and "crawl_acquire P c tid p token rights now request_uri since s = (res, s')"
  shows "\<exists>d rf. trace s' = d @ rf \<and> gated p c tid token rights now since d rf \<and>
    (\<forall>r. res = Inr r \<longrightarrow> step_end tid r d)"
proof -
  have "twp (crawl_acquire P c tid p token rights now request_uri since)
    (\<lambda>r t. \<exists>d rf. t = d @ rf \<and> gated p c tid token rights now since d rf \<and> step_end tid r d)
    (\<lambda>x t. \<exists>d rf. t = d @ rf \<and> gated p c tid token rights now since d rf) (trace s)"
    using twp_crawl_acquire[OF assms(1)] assms(2) by simp
  from twp_run[OF this assms(3)] show ?thesis by (cases res) auto
qed

lemma requests_append [simp]: "requests (xs @ ys) = requests xs + requests ys"
  by (induction xs) simp_all

lemma split_at:
  assumes "d @ rf = later @ x # before"
  shows "(\<exists>m. rf = m @ x # before) \<or> (\<exists>m. d = later @ x # m \<and> before = m @ rf)"
  using assms by (auto simp: append_eq_append_conv2 append_eq_Cons_conv)


text \<open>
  the request for robots.txt does not count as the pause before the target's request. When a step
  has made a request for the robots file, it goes on to the target only if neither the policy nor the
  robots file asks for an interval; otherwise the target is left for a later step.
\<close>

theorem crawl_paces_after_refresh:
  assumes "constructed p" and "0 \<le> requests_used (cbudget c)" and "trace s = []"
    and "crawl_acquire P c tid p token rights now request_uri since s = (res, s')"
  shows "\<exists>acquiring refreshing. trace s' = acquiring @ refreshing \<and>
    (0 < requests acquiring \<longrightarrow>
      (\<exists>e effective c' interval. cleared p c' tid token rights interval e effective \<and>
        orderly effective c' acquiring \<and>
        (if refreshing = [] then is_fresh e now = Inr True else Cached e True \<in> set refreshing) \<and>
        (0 < requests refreshing \<longrightarrow>
          min_request_interval_seconds p = 0 \<and> min_request_interval_seconds effective = 0)))"
proof -
  obtain d rf where d: "trace s' = d @ rf" "gated p c tid token rights now since d rf"
    using crawl_run[OF _ assms(3,4)] constructed_ok[OF assms(1)] by (auto simp: policy_ok_def)
  have pace: "min_request_interval_seconds p = 0 \<and> min_request_interval_seconds eff = 0"
    if x: "cleared p c' tid token rights (Some (Fin 0)) e eff" "counted c c' rf" and n: "0 < requests rf" for c' e eff
  proof -
    obtain t :: target and crawl :: crawl_decision where a: "allows_request (cbudget c') eff (depth t) 0 (Some (Fin 0)) = Inr True"
      and i: "with_interval p (max (min_request_interval_seconds p) (cd_interval crawl)) = Inr eff"
      using x(1) by (auto simp: cleared_def)
    have "0 < requests_used (cbudget c')" using x(2) assms(2) n by (simp add: counted_def)
    then have "\<not> 0 < min_request_interval_seconds eff"
      using a by (auto simp: allows_request_def res_simps split: if_splits)
    moreover have "min_request_interval_seconds eff = max (min_request_interval_seconds p) (cd_interval crawl)"
      "policy_ok eff" using with_interval_Inr[OF i] by auto
    moreover have "0 \<le> min_request_interval_seconds p"
      using constructed_ok[OF assms(1)] by (simp add: policy_ok_def)
    ultimately show ?thesis by (simp add: policy_ok_def)
  qed
  show ?thesis
  proof (cases "0 < requests d")
    case True
    then obtain e eff c' i where x: "cleared p c' tid token rights i e eff" "counted c c' rf" "orderly eff c' d"
        "if rf = [] then is_fresh e now = Inr True else i = Some (Fin 0) \<and> Cached e True \<in> set rf"
      using d(2) unfolding gated_def by (auto split: if_splits)
    have "min_request_interval_seconds p = 0 \<and> min_request_interval_seconds eff = 0" if "0 < requests rf"
      by (rule pace[OF _ x(2) that]) (use x(1,4) that in \<open>auto split: if_splits\<close>)
    then show ?thesis using x d(1)
      by (intro exI[of _ d] exI[of _ rf] conjI impI exI[of _ e] exI[of _ eff] exI[of _ c'] exI[of _ i])
        (auto split: if_splits)
  next
    case False
    then show ?thesis using d(1) by (intro exI[of _ d] exI[of _ rf]) simp
  qed
qed

text \<open>
  C9: how a step that returns ends. The target was ready and its acquisition is committed; or it was
  skipped, and that is durable before the step returns; or it was left as it is, without any effect but
  those of the robots refresh.
\<close>

theorem crawl_step_outcomes:
  assumes "constructed p" and "trace s = []"
    and "crawl_acquire P c tid p token rights now request_uri since s = (Inr r, s')"
  shows "\<exists>acquiring refreshing. trace s' = acquiring @ refreshing \<and> charged_orderly p c refreshing \<and>
    step_end tid r acquiring"
  using crawl_run[OF _ assms(2,3)] constructed_ok[OF assms(1)] by (auto simp: policy_ok_def gated_def)

end
