(* ===== verification/Runs.thy ===== *)
theory Runs imports CrawlSafety begin

text \<open>
  What every run keeps. A relation between the states before and after each call of a port that is
  reflexive and transitive holds between the states before and after every service.
\<close>

definition keeps :: "('s \<Rightarrow> 's \<Rightarrow> bool) \<Rightarrow> ('s, 'e, 'a) prog \<Rightarrow> bool" where
  "keeps R m \<longleftrightarrow> (\<forall>s. R s (snd (m s)))"

lemma keepsD: "keeps R m \<Longrightarrow> m s = (r, s') \<Longrightarrow> R s s'"
  by (metis keeps_def snd_conv)

locale run_relation =
  fixes P :: "'w ports"
    and R :: "'w state \<Rightarrow> 'w state \<Rightarrow> bool"
  assumes refl: "R s s"
    and trans: "R s s' \<Longrightarrow> R s' s'' \<Longrightarrow> R s s''"
    and resolve: "keeps R (perform (p_resolve P h d) (\<lambda>ok. [Resolved h ok]))"
    and request: "keeps R (perform (p_request P u a cap d) (\<lambda>ok. [Requested u a cap ok]))"
    and put_bytes: "keeps R (perform (p_put_bytes P body name source media) (\<lambda>ok. [Stored body ok]))"
    and exists: "keeps R (query (p_exists P digest))"
    and read_bytes: "keeps R (query (p_read_bytes P digest))"
    and save_observation: "keeps R (perform (p_save_observation P ob) (\<lambda>ok. [Observed ob ok]))"
    and get_observation: "keeps R (query (p_get_observation P oid))"
    and save_checkpoint: "keeps R (perform (p_save_checkpoint P c) (\<lambda>ok. [Checkpointed c ok]))"
    and get_checkpoint: "keeps R (query (p_get_checkpoint P cid))"
    and save_finalization: "keeps R (perform (p_save_finalization P v) (\<lambda>ok. [Journaled v ok]))"
    and get_finalization: "keeps R (query (p_get_finalization P cid u))"
    and delete_finalization: "keeps R (perform (p_delete_finalization P v) (\<lambda>ok. [Unjournaled v ok]))"
    and get_robots: "keeps R (query (p_get_robots P u))"
    and save_robots: "keeps R (perform (p_save_robots P e) (\<lambda>ok. [Cached e ok]))"
    and clock: "keeps R (query (p_clock P))"
    and utc: "keeps R (utc_now P)"
    and sleep: "keeps R (perform (p_sleep P pause) (\<lambda>ok. [Slept pause ok]))"
begin

lemmas ports = resolve request put_bytes exists read_bytes save_observation get_observation save_checkpoint
  get_checkpoint save_finalization get_finalization delete_finalization get_robots save_robots clock utc sleep

lemma ret: "keeps R (ret x)" and throw: "keeps R (throw e)"
  by (simp_all add: keeps_def refl)

lemma bind: "keeps R m \<Longrightarrow> (\<And>x s s'. m s = (Inr x, s') \<Longrightarrow> keeps R (f x)) \<Longrightarrow> keeps R (bindS m f)"
  unfolding keeps_def bindS_def by (auto split: prod.splits sum.splits) (metis snd_conv trans)+

lemma catch: "keeps R m \<Longrightarrow> (\<And>e. keeps R (h e)) \<Longrightarrow> keeps R (catchS m h)"
  unfolding keeps_def catchS_def by (auto split: prod.splits sum.splits) (metis snd_conv trans)+

lemma mapE: "keeps R m \<Longrightarrow> keeps R (mapErr f m)" and active: "keeps R m \<Longrightarrow> keeps R (with_active c m)"
  unfolding with_active_def mapErr_def by (intro catch throw; assumption)+

lemma branch: "(b \<Longrightarrow> keeps R m) \<Longrightarrow> (\<not> b \<Longrightarrow> keeps R n) \<Longrightarrow> keeps R (if b then m else n)"
  by simp

lemma opt: "keeps R f \<Longrightarrow> (\<And>v. keeps R (g v)) \<Longrightarrow> keeps R (case x of None \<Rightarrow> f | Some v \<Rightarrow> g v)"
  by (cases x) simp_all

lemma lift: "keeps R (liftS m)" and guard: "keeps R (checkS b e)"
  by (cases m) (simp_all add: liftS_def checkS_def ret throw)

lemma failures:
  "(\<And>x. keeps R (f1 x)) \<Longrightarrow> keeps R f2 \<Longrightarrow> (\<And>x y. keeps R (f3 x y)) \<Longrightarrow> (\<And>x y. keeps R (f4 x y)) \<Longrightarrow>
    (\<And>x y. keeps R (f5 x y)) \<Longrightarrow> (\<And>x. keeps R (f6 x)) \<Longrightarrow> (\<And>x y. keeps R (f7 x y)) \<Longrightarrow>
    keeps R (case e of Raised x \<Rightarrow> f1 x | CheckpointError \<Rightarrow> f2 | AcquisitionError x y \<Rightarrow> f3 x y
      | CommitError x y \<Rightarrow> f4 x y | PolicyFetchError x y \<Rightarrow> f5 x y | RedirectLimitError x \<Rightarrow> f6 x
      | PolicyCommitError x y \<Rightarrow> f7 x y)"
  "(\<And>x. keeps R (g1 x)) \<Longrightarrow> (\<And>x. keeps R (g2 x)) \<Longrightarrow> (\<And>x. keeps R (g3 x)) \<Longrightarrow>
    keeps R (case a of Fetched x \<Rightarrow> g1 x | RedirectsExhausted x \<Rightarrow> g2 x | Unreached x \<Rightarrow> g3 x)"
  "(\<And>a b. keeps R (h a b)) \<Longrightarrow> keeps R (case z of (a, b) \<Rightarrow> h a b)"
  by (cases e; cases a; cases z; simp)+

lemmas statements = ret throw bind catch mapE active branch opt lift guard failures ports

lemma cong: "(\<And>s. m s = m' s) \<Longrightarrow> keeps R m' \<Longrightarrow> keeps R m"
  by (simp add: keeps_def)

lemma clock_steps:
  "keeps R (read_clock P)" "keeps R (elapsed P c s)" "keeps R (remaining_elapsed P c p s)"
  "keeps R (ensure_elapsed_budget P c p s)"
proof -
  show 1: "keeps R (read_clock P)" unfolding read_clock_def by (intro statements)
  show 2: "keeps R (elapsed P c s)" for c s unfolding elapsed_def by (intro statements 1)
  show 3: "keeps R (remaining_elapsed P c p s)" unfolding remaining_elapsed_def by (intro statements 2)
  show "keeps R (ensure_elapsed_budget P c p s)" unfolding ensure_elapsed_budget_def by (intro statements 3)
qed

lemma steps:
  "keeps R (save P c)" "keeps R (request_once P c p u s)" "keeps R (wait_for_followup P c d p s)"
  "keeps R (put_artifact P sn body digest)" "keeps R (HttpAcquisition.save_observation P ob)"
  "keeps R (HttpPolicyFetch.save_finalization P v)" "keeps R (HttpPolicyFetch.delete_finalization P v)"
  "keeps R (RobotsRefresh.save_robots P e)" "keeps R (gate_save P c)"
  unfolding save_def request_once_def exchange_def wait_for_followup_def put_artifact_def
    HttpAcquisition.save_observation_def HttpPolicyFetch.save_finalization_def
    HttpPolicyFetch.delete_finalization_def RobotsRefresh.save_robots_def gate_save_def Let_def
  by (intro statements clock_steps)+

lemma ends:
  "keeps R (finish P c tg req u chain r started)" "keeps R (finish_policy P c req u chain r d)"
  "keeps R (recover_policy_result P c v)" "keeps R (charge_elapsed P c started)"
  "keeps R (wait_for_policy_followup P c p d started)"
  unfolding finish_def finish_policy_def recover_policy_result_def commit_policy_outputs_def charge_elapsed_def
    wait_for_policy_followup_def Let_def
  by (intro statements clock_steps steps)+

lemma acquire_loop: "keeps R (acquire_loop P p tg req started chain active u)"
proof (induction "nat (max_redirects p - int (length chain))" arbitrary: chain active u rule: less_induct)
  case less
  show ?case
    by (rule cong, rule acquire_loop.simps)
      (intro statements clock_steps steps ends less, auto simp: with_active_checkS)
qed

lemma fetch_loop: "keeps R (fetch_loop P p d req started chain active u)"
proof (induction "nat (max_redirects p - int (length chain))" arbitrary: chain active u rule: less_induct)
  case less
  show ?case
    by (rule cong, rule fetch_loop.simps) (intro statements clock_steps steps ends less, auto)
qed

lemma services:
  "keeps R (acquire P c tid p request_uri since)" "keeps R (fetch P c p u d since)"
  "keeps R (recover_finalization P c tid)" "keeps R (recover_policy_finalization P c u)"
  unfolding acquire_def fetch_def report_failure_def report_policy_failure_def recover_finalization_def
    recover_policy_finalization_def Let_def
  by (intro statements clock_steps steps ends acquire_loop fetch_loop)+

lemma crawling:
  "keeps R (refresh P c p u d now since)"
  "keeps R (gate_evaluate P c tid p token rights now since)"
  "keeps R (evaluate_refreshed_entry P c tid p token rights e since)"
  unfolding refresh_def try_fetch_def finish_refresh_def finish_unreachable_def gate_evaluate_def
    evaluate_refreshed_entry_def evaluate_early_policy_def evaluate_entry_after_precheck_def gate_skip_def Let_def
  by (intro statements services steps)+

lemma crawl: "keeps R (crawl_acquire P c tid p token rights now request_uri since)"
  unfolding crawl_acquire_def acquire_if_ready_def by (intro statements services crawling)

end

end
