(* ===== verification/ArtifactStore.thy ===== *)
theory ArtifactStore imports HttpPorts begin

text \<open>
  \<open>infrastructure/storage/local_artifacts.py\<close>: the content-addressed store. A directory is a map from
  the storage keys of its regular files to their bytes; a file appears by an atomic rename, with its
  final content.
\<close>

type_synonym artifact_dir = "pystr \<rightharpoonup> string"

text \<open>\<open>domain/identifiers.py\<close>; digests are text, so only their form is checked.\<close>

definition require_sha256_named :: "pystr \<Rightarrow> pystr \<Rightarrow> exc + pystr" where
  "require_sha256_named v field_name =
    bindE (check (is_lower_sha256 v) (ValueError (field_name @ '' must be lowercase hexadecimal''))) (\<lambda>_.
    Inr v)"

definition artifact_id_from_sha256 :: "pystr \<Rightarrow> exc + uuid" where
  "artifact_id_from_sha256 digest =
    bindE (require_sha256_named digest ''artifact SHA-256'') (\<lambda>d.
    Inr (uuid5 NAMESPACE_URL (''urn:sha256:'' @ d)))"

text \<open>\<open>Artifact.__post_init__\<close>.\<close>

definition mk_artifact :: "artifact \<Rightarrow> exc + artifact" where
  "mk_artifact a =
    bindE (check (is_lower_sha256 (ar_sha256 a))
             (ValueError ''sha256 must be a lowercase 64-character hexadecimal digest'')) (\<lambda>_.
    bindE (check (0 \<le> ar_size a) (ValueError ''size_bytes must be non-negative'')) (\<lambda>_.
    bindE (check (ar_media_type a \<noteq> []) (ValueError ''media_type must not be blank'')) (\<lambda>_.
    Inr a)))"

section \<open>Operations\<close>

definition storage_key_for_digest :: "pystr \<Rightarrow> pystr" where
  "storage_key_for_digest d = join ''/'' [''sha256'', take 2 d, take 2 (drop 2 d), d]"

definition store_artifact ::
  "pystr \<Rightarrow> int \<Rightarrow> pystr \<Rightarrow> pystr \<Rightarrow> pystr option \<Rightarrow> pystr option \<Rightarrow> datetime \<Rightarrow> exc + artifact" where
  "store_artifact digest nbytes key media original_name source_uri now =
    bindE (artifact_id_from_sha256 digest) (\<lambda>aid.
    mk_artifact \<lparr>ar_id = aid, ar_sha256 = digest, ar_size = nbytes, ar_media_type = media,
      ar_storage_key = key, ar_original_name = original_name, ar_acquired_at = now,
      ar_source_uri = source_uri\<rparr>)"

text \<open>\<open>x.strip() if x else None\<close>.\<close>

definition strip_given :: "pystr option \<Rightarrow> pystr option" where
  "strip_given x = (case x of None \<Rightarrow> None | Some t \<Rightarrow> if t = [] then None else Some (strip t))"

definition put_bytes ::
  "artifact_dir \<Rightarrow> string \<Rightarrow> pystr option \<Rightarrow> pystr option \<Rightarrow> pystr \<Rightarrow> datetime \<Rightarrow> (exc + artifact) \<times> artifact_dir" where
  "put_bytes dir data original_name source_uri media now =
    (case bindE (check (case original_name of None \<Rightarrow> True | Some n \<Rightarrow> \<not> blank n)
               (ValueError ''artifact original_name must be non-blank when provided'')) (\<lambda>_.
          bindE (check (case source_uri of None \<Rightarrow> True | Some u \<Rightarrow> \<not> blank u)
               (ValueError ''artifact source_uri must be non-blank when provided'')) (\<lambda>_.
          check (\<not> blank media) (ValueError ''artifact media_type must be non-blank''))) of
       Inl e \<Rightarrow> (Inl e, dir)
     | Inr _ \<Rightarrow>
         let digest = sha256_hexdigest data;
             key = storage_key_for_digest digest;
             dir' = (if dir key = None then dir(key \<mapsto> data) else dir)
         in (store_artifact digest (int (length data)) key (strip media) (strip_given original_name)
               (strip_given source_uri) now, dir'))"

definition artifact_exists :: "artifact_dir \<Rightarrow> pystr \<Rightarrow> bool" where
  "artifact_exists dir digest = (dir (storage_key_for_digest digest) \<noteq> None)"

definition path_for :: "artifact_dir \<Rightarrow> artifact \<Rightarrow> exc + pystr" where
  "path_for dir a =
    (if dir (ar_storage_key a) = None then Inl (OtherError ''FileNotFoundError'' (ar_storage_key a))
     else Inr (ar_storage_key a))"

definition read_bytes :: "artifact_dir \<Rightarrow> artifact \<Rightarrow> exc + string" where
  "read_bytes dir a = bindE (path_for dir a) (\<lambda>key. Inr (the (dir key)))"

definition read_bytes_by_sha256 :: "artifact_dir \<Rightarrow> pystr \<Rightarrow> exc + string" where
  "read_bytes_by_sha256 dir digest =
    bindE (require_sha256_named digest ''artifact SHA-256'') (\<lambda>_.
    case dir (storage_key_for_digest digest) of
      None \<Rightarrow> Inl (OtherError ''FileNotFoundError'' (storage_key_for_digest digest))
    | Some data \<Rightarrow>
        bindE (check (sha256_hexdigest data = digest)
                 (OSError ''artifact content does not match its SHA-256 storage key'')) (\<lambda>_.
        Inr data))"

section \<open>The store keeps what it was given\<close>

text \<open>Every file is stored under the digest of its content.\<close>

definition content_addressed :: "artifact_dir \<Rightarrow> bool" where
  "content_addressed dir \<longleftrightarrow>
    (\<forall>key data. dir key = Some data \<longrightarrow> key = storage_key_for_digest (sha256_hexdigest data))"

lemma digest_form: "is_lower_sha256 (sha256_hexdigest s)"
  by (simp add: is_lower_sha256_def sha256_hexdigest_lower)

lemma storage_key_inject:
  assumes "is_lower_sha256 d" "is_lower_sha256 d'" "storage_key_for_digest d = storage_key_for_digest d'"
  shows "d = d'"
proof -
  have l: "length d = 64" "length d' = 64" using assms(1,2) by (simp_all add: is_lower_sha256_def)
  have "drop 13 (storage_key_for_digest x) = x" if "length x = 64" for x
    using that by (simp add: storage_key_for_digest_def)
  then show ?thesis using l assms(3) by metis
qed

lemma artifact_id_from_digest: "artifact_id_from_sha256 (sha256_hexdigest s) = Inr (artifact_id_of (sha256_hexdigest s))"
  by (simp add: artifact_id_from_sha256_def require_sha256_named_def digest_form artifact_id_of_def)

lemma put_bytes_Inr:
  assumes "put_bytes dir data name source media now = (Inr a, dir')"
  shows "ar_sha256 a = sha256_hexdigest data \<and> ar_id a = artifact_id_of (sha256_hexdigest data) \<and>
    ar_size a = int (length data) \<and> ar_storage_key a = storage_key_for_digest (sha256_hexdigest data) \<and>
    dir' = (if dir (ar_storage_key a) = None then dir(ar_storage_key a \<mapsto> data) else dir)"
  using assms
  by (auto simp: put_bytes_def Let_def store_artifact_def mk_artifact_def res_simps artifact_id_from_digest
      split: sum.splits)

text \<open>What a call leaves, whether it returns or raises.\<close>

lemma put_bytes_dir:
  assumes "put_bytes dir data name source media now = (r, dir')"
  shows "dir' = dir \<or> (\<exists>key. key = storage_key_for_digest (sha256_hexdigest data) \<and> dir key = None \<and>
    dir' = dir(key \<mapsto> data))"
  using assms by (auto simp: put_bytes_def Let_def split: sum.splits if_splits)

lemma put_bytes_invariant:
  assumes "content_addressed dir" "put_bytes dir data name source media now = (r, dir')"
  shows "content_addressed dir' \<and> dir \<subseteq>\<^sub>m dir'"
  using put_bytes_dir[OF assms(2)] assms(1) by (auto simp: content_addressed_def map_le_def split: if_splits)

lemma put_bytes_total:
  assumes "\<forall>n. name = Some n \<longrightarrow> \<not> blank n" "\<forall>u. source = Some u \<longrightarrow> \<not> blank u" "\<not> blank media"
  shows "\<exists>a dir'. put_bytes dir data name source media now = (Inr a, dir')"
proof -
  have "strip media \<noteq> []" using assms(3) by (simp add: blank_def)
  then show ?thesis using assms
    by (auto simp: put_bytes_def Let_def store_artifact_def mk_artifact_def artifact_id_from_digest digest_form
        split: option.splits)
qed

section \<open>Properties\<close>

text \<open>A history of writes.\<close>

fun put_all :: "artifact_dir \<Rightarrow> (string \<times> pystr option \<times> pystr option \<times> pystr \<times> datetime) list \<Rightarrow> artifact_dir" where
  "put_all dir [] = dir"
| "put_all dir ((data, name, source, media, now) # calls) =
    put_all (snd (put_bytes dir data name source media now)) calls"

lemma put_all_invariant:
  "content_addressed dir \<Longrightarrow> content_addressed (put_all dir calls) \<and> dir \<subseteq>\<^sub>m put_all dir calls"
proof (induction dir calls rule: put_all.induct)
  case (2 dir data name source media now calls)
  let ?d = "snd (put_bytes dir data name source media now)"
  have "content_addressed ?d \<and> dir \<subseteq>\<^sub>m ?d"
    by (rule put_bytes_invariant[OF 2(2), of data name source media now "fst (put_bytes dir data name source media now)"]) simp
  with 2(1) show ?case by (auto intro: map_le_trans)
qed simp

text \<open>
  C20: artifacts are immutable. After any further writes, returned or refused, an artifact that was put
  exists and reads back, by its digest and by its record, as bytes with exactly that digest; and they are
  the bytes that were put, unless others with the same digest had been put before.
\<close>

theorem artifact_immutable:
  assumes "content_addressed dir" and "put_bytes dir data name source media now = (Inr a, dir')"
  shows "\<exists>data'. artifact_exists (put_all dir' calls) (ar_sha256 a) \<and>
    read_bytes_by_sha256 (put_all dir' calls) (ar_sha256 a) = Inr data' \<and>
    read_bytes (put_all dir' calls) a = Inr data' \<and>
    sha256_hexdigest data' = sha256_hexdigest data \<and>
    (dir (ar_storage_key a) = None \<longrightarrow> data' = data)"
proof -
  note a = put_bytes_Inr[OF assms(2)]
  have inv: "content_addressed dir'" using put_bytes_invariant[OF assms] by blast
  obtain data' where d: "dir' (ar_storage_key a) = Some data'" "dir (ar_storage_key a) = None \<longrightarrow> data' = data"
    using a by (cases "dir (ar_storage_key a)") auto
  have "storage_key_for_digest (sha256_hexdigest data) = storage_key_for_digest (sha256_hexdigest data')"
    using inv[unfolded content_addressed_def, rule_format, OF d(1)] a by simp
  then have same: "sha256_hexdigest data' = sha256_hexdigest data"
    using storage_key_inject digest_form by metis
  have "put_all dir' calls (ar_storage_key a) = Some data'"
    using put_all_invariant[OF inv, of calls] d(1) by (auto simp: map_le_def dom_def)
  then show ?thesis
    using a same d(2) digest_form[of data]
    by (intro exI[of _ data'])
      (simp add: artifact_exists_def read_bytes_by_sha256_def require_sha256_named_def read_bytes_def path_for_def)
qed

theorem artifact_immutable_witness:
  "\<exists>a dir'. put_bytes (\<lambda>_. None) ''x'' None None ''text/plain'' (Aware 0 0) = (Inr a, dir') \<and>
    read_bytes_by_sha256 dir' (ar_sha256 a) = Inr ''x''"
proof -
  have b: "\<not> blank ''text/plain''" by code_simp
  obtain a dir' where p: "put_bytes (\<lambda>_. None) ''x'' None None ''text/plain'' (Aware 0 0) = (Inr a, dir')"
    using put_bytes_total[of None None, OF _ _ b] by fastforce
  have "content_addressed (\<lambda>_. None)" by (simp add: content_addressed_def)
  from artifact_immutable[OF this p, of "[]"]
  have "read_bytes_by_sha256 dir' (ar_sha256 a) = Inr ''x''" by force
  with p show ?thesis by blast
qed

end
