(* ===== verification/ObservationStore.thy ===== *)
theory ObservationStore imports HttpPorts begin

text \<open>
  \<open>infrastructure/storage/json_source_observation_repository.py\<close>: the catalogue
  \<open>{"schema_version": 1, "observations": {...}, "resource_links": {...}}\<close> of source observations and of
  the links found in them. A record is written once; writing it again changes nothing, and keeps the
  time at which an observation was first seen.
\<close>

section \<open>Links\<close>

datatype relation =
    CANONICAL | ALTERNATE | FULL_TEXT | SUPPLEMENT | DATASET | SOFTWARE | CITATION | RELATED | VERSION
  | CORRECTION | RETRACTION

fun relation_value :: "relation \<Rightarrow> pystr" where
  "relation_value CANONICAL = ''canonical''"
| "relation_value ALTERNATE = ''alternate''"
| "relation_value FULL_TEXT = ''full_text''"
| "relation_value SUPPLEMENT = ''supplement''"
| "relation_value DATASET = ''dataset''"
| "relation_value SOFTWARE = ''software''"
| "relation_value CITATION = ''citation''"
| "relation_value RELATED = ''related''"
| "relation_value VERSION = ''version''"
| "relation_value CORRECTION = ''correction''"
| "relation_value RETRACTION = ''retraction''"

record resource_link =
  rl_id :: uuid
  rl_observation_id :: uuid
  rl_target_uri :: pystr
  rl_relation :: relation
  rl_media_type :: "pystr option"
  rl_label :: "pystr option"
  rl_metadata :: metadata

definition mk_resource_link :: "resource_link \<Rightarrow> exc + resource_link" where
  "mk_resource_link l =
    bindE (require_non_blank (rl_target_uri l) ''resource target URI'') (\<lambda>_.
    bindE (require_optional_non_blank (rl_media_type l) ''resource media type'') (\<lambda>_.
    bindE (require_optional_non_blank (rl_label l) ''resource label'') (\<lambda>_.
    bindE (freeze (rl_metadata l)) (\<lambda>frozen.
    Inr (l\<lparr>rl_metadata := frozen\<rparr>)))))"

section \<open>Documents\<close>

fun basis_value :: "basis \<Rightarrow> pystr" where
  "basis_value NATIVE = ''native''"
| "basis_value RECONSTRUCTED = ''reconstructed''"
| "basis_value INFERRED = ''inferred''"

definition parse_enum :: "('a \<Rightarrow> pystr) \<Rightarrow> 'a list \<Rightarrow> pystr \<Rightarrow> exc + 'a" where
  "parse_enum val all v =
    (case find (\<lambda>x. val x = v) all of
       Some x \<Rightarrow> Inr x
     | None \<Rightarrow> Inl (ValueError (v @ '' is not a valid value'')))"

definition parse_basis :: "pystr \<Rightarrow> exc + basis" where
  "parse_basis = parse_enum basis_value [NATIVE, RECONSTRUCTED, INFERRED]"

definition parse_relation :: "pystr \<Rightarrow> exc + relation" where
  "parse_relation = parse_enum relation_value
    [CANONICAL, ALTERNATE, FULL_TEXT, SUPPLEMENT, DATASET, SOFTWARE, CITATION, RELATED, VERSION,
     CORRECTION, RETRACTION]"

text \<open>
  \<open>_json_value\<close>, and the value \<open>json.loads\<close> gives back. Frozen metadata holds finite floats only, and
  a text of it that reads as a timestamp is not modelled.
\<close>

fun json_value :: "metadata \<Rightarrow> json" where
  "json_value MNull = JNull"
| "json_value (MBool b) = JBool b"
| "json_value (MInt i) = JInt i"
| "json_value (MFloat x) = JFloat (float_val x)"
| "json_value (MStr s) = JStr s"
| "json_value (MList xs) = JList (map json_value xs)"
| "json_value (MObj kvs) = JObj (map (\<lambda>(k, v). (k, json_value v)) kvs)"

fun metadata_of :: "json \<Rightarrow> exc + metadata" where
  "metadata_of JNull = Inr MNull"
| "metadata_of (JBool b) = Inr (MBool b)"
| "metadata_of (JInt i) = Inr (MInt i)"
| "metadata_of (JFloat x) = Inr (MFloat (Fin x))"
| "metadata_of (JStr s) = Inr (MStr s)"
| "metadata_of (JTime d) = Inl type_error"
| "metadata_of (JList xs) = bindE (mapM metadata_of xs) (\<lambda>ms. Inr (MList ms))"
| "metadata_of (JObj kvs) =
    bindE (mapM (\<lambda>(k, v). bindE (metadata_of v) (\<lambda>m. Inr (k, m))) kvs) (\<lambda>ms. Inr (MObj ms))"

text \<open>\<open>raw.get('metadata', {})\<close>; the constructor refuses what is not a mapping.\<close>

definition read_metadata :: "json \<Rightarrow> exc + metadata" where
  "read_metadata raw =
    (case jget raw ''metadata'' of
       None \<Rightarrow> Inr (MObj [])
     | Some j \<Rightarrow>
         bindE (check (is_object j) (ValueError ''native metadata must be a mapping'')) (\<lambda>_. metadata_of j))"

definition observation_to_dict :: "observation \<Rightarrow> json" where
  "observation_to_dict v = JObj
    [(''observation_id'', JStr (uuid_str (ob_id v))),
     (''source_name'', JStr (ob_source_name v)),
     (''basis'', JStr (basis_value (ob_basis v))),
     (''source_version'', jopt JStr (ob_source_version v)),
     (''provider_record_id'', jopt JStr (ob_provider_record_id v)),
     (''media_type'', jopt JStr (ob_media_type v)),
     (''native_artifact_id'', jopt (\<lambda>u. JStr (uuid_str u)) (ob_native_artifact_id v)),
     (''metadata'', json_value (ob_metadata v)),
     (''observed_at'', JTime (ob_observed_at v))]"

definition require_record :: "json \<Rightarrow> exc + unit" where
  "require_record raw = check (is_object raw) (OtherError ''TypeError'' ''record is not an object'')"

definition observation_from_dict :: "json \<Rightarrow> exc + observation" where
  "observation_from_dict raw =
    bindE (require_record raw) (\<lambda>_.
    bindE (bindE (jitem raw ''observation_id'') juuid) (\<lambda>oid.
    bindE (bindE (jitem raw ''source_name'') jstr) (\<lambda>name.
    bindE (bindE (bindE (jitem raw ''basis'') jstr) parse_basis) (\<lambda>b.
    bindE (jopt_str (jget raw ''source_version'')) (\<lambda>version.
    bindE (jopt_str (jget raw ''provider_record_id'')) (\<lambda>rid.
    bindE (jopt_str (jget raw ''media_type'')) (\<lambda>media.
    bindE (jopt_uuid (jget raw ''native_artifact_id'')) (\<lambda>artifact.
    bindE (read_metadata raw) (\<lambda>meta.
    bindE (bindE (jitem raw ''observed_at'') jtime) (\<lambda>at_time.
    mk_observation \<lparr>ob_id = oid, ob_source_name = name, ob_basis = b, ob_source_version = version,
      ob_provider_record_id = rid, ob_media_type = media, ob_native_artifact_id = artifact,
      ob_metadata = meta, ob_observed_at = at_time\<rparr>))))))))))"

definition resource_link_to_dict :: "resource_link \<Rightarrow> json" where
  "resource_link_to_dict v = JObj
    [(''link_id'', JStr (uuid_str (rl_id v))),
     (''observation_id'', JStr (uuid_str (rl_observation_id v))),
     (''target_uri'', JStr (rl_target_uri v)),
     (''relation'', JStr (relation_value (rl_relation v))),
     (''media_type'', jopt JStr (rl_media_type v)),
     (''label'', jopt JStr (rl_label v)),
     (''metadata'', json_value (rl_metadata v))]"

definition resource_link_from_dict :: "json \<Rightarrow> exc + resource_link" where
  "resource_link_from_dict raw =
    bindE (require_record raw) (\<lambda>_.
    bindE (bindE (jitem raw ''link_id'') juuid) (\<lambda>lid.
    bindE (bindE (jitem raw ''observation_id'') juuid) (\<lambda>oid.
    bindE (bindE (jitem raw ''target_uri'') jstr) (\<lambda>target.
    bindE (bindE (bindE (jitem raw ''relation'') jstr) parse_relation) (\<lambda>rel.
    bindE (jopt_str (jget raw ''media_type'')) (\<lambda>media.
    bindE (jopt_str (jget raw ''label'')) (\<lambda>label.
    bindE (read_metadata raw) (\<lambda>meta.
    mk_resource_link \<lparr>rl_id = lid, rl_observation_id = oid, rl_target_uri = target, rl_relation = rel,
      rl_media_type = media, rl_label = label, rl_metadata = meta\<rparr>))))))))"

section \<open>The catalogue\<close>

definition empty_catalog :: json_file where
  "empty_catalog = Document (JObj
    [(''schema_version'', JInt 1), (''observations'', JObj []), (''resource_links'', JObj [])])"

definition init_observations :: "json_file \<Rightarrow> json_file" where
  "init_observations f = (if f = Missing then empty_catalog else f)"

definition read_observations :: "json_file \<Rightarrow> exc + (pystr \<times> json) list" where
  "read_observations f =
    (case f of
       Missing \<Rightarrow> Inl (OSError ''unable to read source observation catalog'')
     | Malformed \<Rightarrow> Inl (RuntimeError ''invalid source observation catalog JSON'')
     | Document doc \<Rightarrow>
         bindE (check (is_object doc)
                  (RuntimeError ''invalid source observation catalog: root must be an object'')) (\<lambda>_.
         bindE (check (json_is_one (jget doc ''schema_version''))
                  (RuntimeError ''invalid or unsupported source observation catalog'')) (\<lambda>_.
         bindE (mapM (\<lambda>bucket. check (case jget doc bucket of None \<Rightarrow> False | Some b \<Rightarrow> is_object b)
                  (RuntimeError (''invalid source observation catalog bucket: '' @ bucket)))
                  [''observations'', ''resource_links'']) (\<lambda>_.
         Inr (entries doc)))))"

definition same_payload :: "json \<Rightarrow> json \<Rightarrow> pystr list \<Rightarrow> bool" where
  "same_payload existing incoming ignored =
    (let keep = \<lambda>j. JObj (filter (\<lambda>(k, v). k \<notin> set ignored) (entries j))
     in json_eq (keep existing) (keep incoming))"

definition save_record ::
  "json_file \<Rightarrow> pystr \<Rightarrow> uuid \<Rightarrow> json \<Rightarrow> pystr list \<Rightarrow> exc + json_file" where
  "save_record f bucket stable_id payload ignored =
    bindE (read_observations f) (\<lambda>data.
    case bucket_get (json_bucket data bucket) (uuid_str stable_id) of
      Some existing \<Rightarrow>
        bindE (check (is_object existing) (OtherError ''AttributeError'' ''object has no attribute items'')) (\<lambda>_.
        if same_payload existing payload ignored then Inr f
        else Inl (OtherError ''SourceObservationConflictError''
               (''conflicting '' @ bucket @ '' entry for stable ID '' @ uuid_str stable_id)))
    | None \<Rightarrow> Inr (set_bucket data bucket (jset (json_bucket data bucket) (uuid_str stable_id) payload)))"

definition save_source_observation :: "json_file \<Rightarrow> observation \<Rightarrow> exc + json_file" where
  "save_source_observation f ob =
    save_record f ''observations'' (ob_id ob) (observation_to_dict ob) [''observed_at'']"

definition save_resource_link :: "json_file \<Rightarrow> resource_link \<Rightarrow> exc + json_file" where
  "save_resource_link f l = save_record f ''resource_links'' (rl_id l) (resource_link_to_dict l) []"

definition get_observation :: "json_file \<Rightarrow> uuid \<Rightarrow> exc + observation option" where
  "get_observation f oid =
    bindE (read_observations f) (\<lambda>data.
    case bucket_get (json_bucket data ''observations'') (uuid_str oid) of
      None \<Rightarrow> Inr None
    | Some payload \<Rightarrow> bindE (observation_from_dict payload) (\<lambda>ob. Inr (Some ob)))"

section \<open>Queries\<close>

text \<open>\<open>raw.get(key)\<close> on a record that is not an object raises.\<close>

definition record_get :: "json \<Rightarrow> pystr \<Rightarrow> exc + json option" where
  "record_get raw k =
    bindE (check (is_object raw) (OtherError ''AttributeError'' ''object has no attribute get'')) (\<lambda>_.
    Inr (jget raw k))"

definition record_item :: "json \<Rightarrow> pystr \<Rightarrow> exc + json" where
  "record_item raw k = bindE (require_record raw) (\<lambda>_. jitem raw k)"

fun filterM :: "('a \<Rightarrow> exc + bool) \<Rightarrow> 'a list \<Rightarrow> exc + 'a list" where
  "filterM p [] = Inr []"
| "filterM p (x # xs) =
    bindE (p x) (\<lambda>b. bindE (filterM p xs) (\<lambda>ys. Inr (if b then x # ys else ys)))"

text \<open>Tuples of texts are compared in lexicographic order, as lists of equal length are.\<close>

definition list_resource_links :: "json_file \<Rightarrow> uuid \<Rightarrow> exc + resource_link list" where
  "list_resource_links f oid =
    bindE (read_observations f) (\<lambda>data.
    bindE (filterM (\<lambda>item. bindE (record_item item ''observation_id'') (\<lambda>j. Inr (j = JStr (uuid_str oid))))
             (map snd (json_bucket data ''resource_links''))) (\<lambda>items.
    bindE (mapM resource_link_from_dict items) (\<lambda>values.
    Inr (sort_key (\<lambda>l. [relation_value (rl_relation l), rl_target_uri l, uuid_str (rl_id l)]) values))))"

definition observation_ids_for :: "(pystr \<times> json) list \<Rightarrow> uuid \<Rightarrow> exc + pystr list" where
  "observation_ids_for data artifact =
    bindE (filterM (\<lambda>(k, ob). bindE (record_get ob ''native_artifact_id'') (\<lambda>j.
             Inr (j = Some (JStr (uuid_str artifact))))) (json_bucket data ''observations'')) (\<lambda>kvs.
    Inr (map fst kvs))"

definition links_for :: "(pystr \<times> json) list \<Rightarrow> pystr list \<Rightarrow> exc + json list" where
  "links_for data ids =
    filterM (\<lambda>item. bindE (record_item item ''observation_id'') (\<lambda>j. Inr (list_ex (\<lambda>i. j = JStr i) ids)))
      (map snd (json_bucket data ''resource_links''))"

definition resource_link_sort_key :: "json \<Rightarrow> exc + pystr list" where
  "resource_link_sort_key raw =
    mapM (\<lambda>k. bindE (jitem raw k) jstr) [''relation'', ''target_uri'', ''link_id'']"

text \<open>\<open>heapq.nsmallest(n, items, key)\<close> is \<open>sorted(items, key=key)[:n]\<close>.\<close>

definition nsmallest :: "int \<Rightarrow> (pystr list \<times> 'a) list \<Rightarrow> 'a list" where
  "nsmallest n keyed = take (nat n) (map snd (sort_key fst keyed))"

text \<open>\<open>xs[i:]\<close>.\<close>

definition slice_from :: "int \<Rightarrow> 'a list \<Rightarrow> 'a list" where
  "slice_from i xs = (if 0 \<le> i then drop (nat i) xs else drop (length xs - nat (- i)) xs)"

definition page_resource_links_for_artifact ::
  "json_file \<Rightarrow> uuid \<Rightarrow> int \<Rightarrow> int \<Rightarrow> exc + int \<times> resource_link list" where
  "page_resource_links_for_artifact f artifact offset limit =
    bindE (read_observations f) (\<lambda>data.
    bindE (observation_ids_for data artifact) (\<lambda>ids.
    let selected_count = offset + limit in
    if selected_count = 0
    then bindE (links_for data ids) (\<lambda>matching. Inr (int (length matching), []))
    else
    bindE (links_for data ids) (\<lambda>matching.
    bindE (mapM (\<lambda>item. bindE (resource_link_sort_key item) (\<lambda>k. Inr (k, item))) matching) (\<lambda>keyed.
    let selected = nsmallest selected_count keyed in
    bindE (if int (length selected) = selected_count
           then bindE (links_for data ids) (\<lambda>again. Inr (int (length again)))
           else Inr (int (length selected))) (\<lambda>total.
    bindE (mapM resource_link_from_dict (slice_from offset selected)) (\<lambda>links.
    Inr (total, links)))))))"

definition get_resource_link_for_artifact ::
  "json_file \<Rightarrow> uuid \<Rightarrow> uuid \<Rightarrow> exc + resource_link option" where
  "get_resource_link_for_artifact f artifact lid =
    bindE (read_observations f) (\<lambda>data.
    case bucket_get (json_bucket data ''resource_links'') (uuid_str lid) of
      None \<Rightarrow> Inr None
    | Some payload \<Rightarrow>
        bindE (resource_link_from_dict payload) (\<lambda>l.
        case bucket_get (json_bucket data ''observations'') (uuid_str (rl_observation_id l)) of
          None \<Rightarrow> Inr None
        | Some ob \<Rightarrow>
            bindE (record_get ob ''native_artifact_id'') (\<lambda>j.
            Inr (if j = Some (JStr (uuid_str artifact)) then Some l else None))))"

definition list_observations_for_artifact :: "json_file \<Rightarrow> uuid \<Rightarrow> exc + observation list" where
  "list_observations_for_artifact f artifact =
    bindE (read_observations f) (\<lambda>data.
    bindE (filterM (\<lambda>item. bindE (record_get item ''native_artifact_id'') (\<lambda>j.
             Inr (j = Some (JStr (uuid_str artifact)))))
             (map snd (json_bucket data ''observations''))) (\<lambda>items.
    bindE (mapM observation_from_dict items) (\<lambda>values.
    Inr (sort_key (\<lambda>ob. [ob_source_name ob, uuid_str (ob_id ob)]) values))))"

section \<open>Records read back\<close>

text \<open>Metadata as a validated record holds it: distinct keys, finite floats.\<close>

fun metadata_ok :: "metadata \<Rightarrow> bool" where
  "metadata_ok (MObj kvs) \<longleftrightarrow> distinct (map fst kvs) \<and> list_all (\<lambda>(k, v). \<not> blank k \<and> metadata_ok v) kvs"
| "metadata_ok (MList xs) \<longleftrightarrow> list_all metadata_ok xs"
| "metadata_ok (MFloat x) \<longleftrightarrow> isfinite x"
| "metadata_ok _ \<longleftrightarrow> True"

lemma metadata_of_value: "metadata_ok m \<Longrightarrow> metadata_of (json_value m) = Inr m"
proof (induction m rule: metadata_ok.induct)
  case (1 kvs)
  have "mapM (\<lambda>(k, v). bindE (metadata_of v) (\<lambda>m. Inr (k, m))) (map (\<lambda>(k, v). (k, json_value v)) kvs) = Inr kvs"
    by (rule mapM_map_id) (use 1 in \<open>auto simp: list_all_iff\<close>)
  then show ?case by simp
next
  case (2 xs)
  have "mapM metadata_of (map json_value xs) = Inr xs"
    by (rule mapM_map_id) (use 2 in \<open>auto simp: list_all_iff\<close>)
  then show ?case by simp
qed (auto simp: isfinite_iff)

lemma freeze_ok: "metadata_ok m \<Longrightarrow> freeze m = Inr m"
proof (induction m rule: metadata_ok.induct)
  case (1 kvs)
  have "mapM (\<lambda>(k, v). bindE (check (\<not> blank k) (ValueError ''native metadata keys must be non-empty strings''))
      (\<lambda>_. bindE (freeze v) (\<lambda>v'. Inr (k, v')))) (map (\<lambda>x. x) kvs) = Inr kvs"
    by (rule mapM_map_id) (use 1 in \<open>auto simp: list_all_iff\<close>)
  then show ?case by simp
next
  case (2 xs)
  have "mapM freeze (map (\<lambda>x. x) xs) = Inr xs"
    by (rule mapM_map_id) (use 2 in \<open>auto simp: list_all_iff\<close>)
  then show ?case by simp
qed (auto simp: isfinite_iff)

lemma json_value_wf: "metadata_ok m \<Longrightarrow> json_wf (json_value m)"
proof (induction m rule: metadata_ok.induct)
  case (1 kvs)
  then show ?case by (force simp: list_all_iff comp_def case_prod_unfold)
qed (auto simp: list_all_iff)

definition observation_ok :: "observation \<Rightarrow> bool" where
  "observation_ok ob \<longleftrightarrow> mk_observation ob = Inr ob \<and> metadata_ok (ob_metadata ob) \<and> (\<exists>kvs. ob_metadata ob = MObj kvs)"

lemma parse_basis_value [simp]: "parse_basis (basis_value b) = Inr b"
  by (cases b) (simp_all add: parse_basis_def parse_enum_def)

lemma parse_relation_value [simp]: "parse_relation (relation_value r) = Inr r"
  by (cases r) (simp_all add: parse_relation_def parse_enum_def)

lemma observation_eta:
  "\<lparr>ob_id = ob_id ob, ob_source_name = ob_source_name ob, ob_basis = ob_basis ob,
    ob_source_version = ob_source_version ob, ob_provider_record_id = ob_provider_record_id ob,
    ob_media_type = ob_media_type ob, ob_native_artifact_id = ob_native_artifact_id ob,
    ob_metadata = ob_metadata ob, ob_observed_at = ob_observed_at ob\<rparr> = ob"
  by simp

lemma observation_from_to_dict:
  assumes "observation_ok ob"
  shows "observation_from_dict (observation_to_dict ob) = Inr ob"
proof -
  obtain kvs where k: "ob_metadata ob = MObj kvs" "metadata_ok (MObj kvs)" "mk_observation ob = Inr ob"
    using assms by (auto simp: observation_ok_def)
  have "is_object (json_value (ob_metadata ob))" "metadata_of (json_value (ob_metadata ob)) = Inr (ob_metadata ob)"
    using k metadata_of_value[OF k(2)] by simp_all
  then show ?thesis using k(3)
    by (simp add: observation_from_dict_def observation_to_dict_def jitem_def require_record_def read_metadata_def
        observation_eta)
qed

lemma read_observations_Inr:
  "read_observations f = Inr data \<longleftrightarrow>
    f = Document (JObj data) \<and> json_is_one (map_of data ''schema_version'') \<and>
    (\<exists>b. map_of data ''observations'' = Some (JObj b)) \<and> (\<exists>b. map_of data ''resource_links'' = Some (JObj b))"
proof -
  have obj: "is_object x \<longleftrightarrow> (\<exists>b. x = JObj b)" for x by (cases x) auto
  show ?thesis
    by (cases f) (auto simp: read_observations_def res_simps obj jget_entries split: option.splits)
qed

definition observations_readable :: "json_file \<Rightarrow> bool" where
  "observations_readable f \<longleftrightarrow> (\<exists>data. read_observations f = Inr data \<and>
    (\<forall>oid payload. bucket_get (json_bucket data ''observations'') (uuid_str oid) = Some payload \<longrightarrow>
      (\<exists>ob. observation_ok ob \<and> payload = observation_to_dict ob \<and> ob_id ob = oid)))"

lemma get_observation_read:
  assumes "read_observations f = Inr data"
  shows "get_observation f oid = (case bucket_get (json_bucket data ''observations'') (uuid_str oid) of
      None \<Rightarrow> Inr None
    | Some payload \<Rightarrow> bindE (observation_from_dict payload) (\<lambda>ob. Inr (Some ob)))"
  by (simp add: get_observation_def assms)

lemma read_set_observation:
  assumes "read_observations f = Inr data"
  shows "\<exists>data'. read_observations (set_bucket data ''observations'' b) = Inr data' \<and>
    json_bucket data' ''observations'' = b \<and> json_bucket data' ''resource_links'' = json_bucket data ''resource_links''"
  using assms by (auto simp: read_observations_Inr set_bucket_def json_bucket_def)

lemma observation_to_dict_object: "is_object (observation_to_dict ob)" "observation_to_dict ob \<noteq> JNull"
  by (simp_all add: observation_to_dict_def)

lemma save_source_observation_cases:
  assumes r: "observations_readable f" and ok: "observation_ok ob" and s: "save_source_observation f ob = Inr f'"
  obtains (known) old where "get_observation f (ob_id ob) = Inr (Some old)" "f' = f"
      "same_payload (observation_to_dict old) (observation_to_dict ob) [''observed_at'']"
  | (new) "get_observation f (ob_id ob) = Inr None" "observations_readable f'"
      "\<And>k. get_observation f' k = (if k = ob_id ob then Inr (Some ob) else get_observation f k)"
proof -
  obtain data where d: "read_observations f = Inr data"
    and p: "\<And>oid payload. bucket_get (json_bucket data ''observations'') (uuid_str oid) = Some payload \<Longrightarrow>
      \<exists>ob. observation_ok ob \<and> payload = observation_to_dict ob \<and> ob_id ob = oid"
    using r by (auto simp: observations_readable_def)
  note get = get_observation_read[OF d]
  show thesis
  proof (cases "bucket_get (json_bucket data ''observations'') (uuid_str (ob_id ob))")
    case (Some payload)
    then obtain old where old: "observation_ok old" "payload = observation_to_dict old" using p by blast
    show thesis
      by (rule known[of old])
        (use s d Some old get in \<open>auto simp: save_source_observation_def save_record_def observation_from_to_dict
          observation_to_dict_object split: if_splits\<close>)
  next
    case None
    let ?b = "jset (json_bucket data ''observations'') (uuid_str (ob_id ob)) (observation_to_dict ob)"
    have f': "f' = set_bucket data ''observations'' ?b"
      using s d None by (simp add: save_source_observation_def save_record_def)
    obtain data' where d': "read_observations f' = Inr data'" "json_bucket data' ''observations'' = ?b"
      using read_set_observation[OF d] f' by blast
    have look: "bucket_get ?b (uuid_str k) =
        (if k = ob_id ob then Some (observation_to_dict ob) else bucket_get (json_bucket data ''observations'') (uuid_str k))" for k
      by (simp add: observation_to_dict_object)
    show thesis
    proof (rule new)
      show "get_observation f (ob_id ob) = Inr None" using get None by simp
      show "observations_readable f'"
        using d' look p ok unfolding observations_readable_def by (auto split: if_splits)
      show "get_observation f' k = (if k = ob_id ob then Inr (Some ob) else get_observation f k)" for k
        using get_observation_read[OF d'(1), of k] get[of k] d'(2) look[of k] observation_from_to_dict[OF ok] by simp
    qed
  qed
qed

section \<open>Properties\<close>

text \<open>
  C19: an observation is written once. A save that returns leaves the record it found, with the time it
  was first seen, when its content is the same; otherwise there was none, and the observation reads back
  unchanged. No other record changes, and the catalogue stays readable.
\<close>

theorem observation_first_seen:
  assumes "observations_readable f" and "observation_ok ob" and "save_source_observation f ob = Inr f'"
  shows "observations_readable f' \<and>
    (\<exists>stored. get_observation f' (ob_id ob) = Inr (Some stored) \<and>
      (get_observation f (ob_id ob) = Inr None \<and> stored = ob \<or>
       get_observation f (ob_id ob) = Inr (Some stored) \<and> f' = f \<and>
       same_payload (observation_to_dict stored) (observation_to_dict ob) [''observed_at''])) \<and>
    (\<forall>k. k \<noteq> ob_id ob \<longrightarrow> get_observation f' k = get_observation f k)"
  using assms(1) by (cases rule: save_source_observation_cases[OF assms]) auto

definition demo_source :: observation where
  "demo_source = \<lparr>ob_id = 7, ob_source_name = ''http'', ob_basis = NATIVE, ob_source_version = None,
    ob_provider_record_id = None, ob_media_type = None, ob_native_artifact_id = Some 9,
    ob_metadata = MObj [(''depth'', MInt 1)], ob_observed_at = Aware 5 0\<rparr>"

lemma demo_source_ok: "observation_ok demo_source" "observation_ok (demo_source\<lparr>ob_observed_at := Aware 6 0\<rparr>)"
proof -
  have "\<not> blank ''http''" "\<not> blank ''depth''" by code_simp+
  then show "observation_ok demo_source" "observation_ok (demo_source\<lparr>ob_observed_at := Aware 6 0\<rparr>)"
    by (simp_all add: observation_ok_def demo_source_def mk_observation_def require_non_blank_def
        require_optional_non_blank_def)
qed

lemma empty_catalog_readable: "observations_readable empty_catalog"
  by (simp add: observations_readable_def empty_catalog_def read_observations_def json_is_one_def json_bucket_def
      bucket_get_def)

lemma demo_source_again:
  "same_payload (observation_to_dict demo_source) (observation_to_dict (demo_source\<lparr>ob_observed_at := Aware 6 0\<rparr>)) [''observed_at'']"
  by (simp add: same_payload_def observation_to_dict_def demo_source_def jopt_def)

theorem observation_first_seen_witness:
  "\<exists>f f'. save_source_observation empty_catalog demo_source = Inr f \<and>
    save_source_observation f (demo_source\<lparr>ob_observed_at := Aware 6 0\<rparr>) = Inr f' \<and>
    get_observation f' 7 = Inr (Some demo_source)"
proof -
  let ?data = "\<lambda>b. [(''schema_version'', JInt 1), (''observations'', JObj b), (''resource_links'', JObj [])]"
  have read: "read_observations (Document (JObj (?data b))) = Inr (?data b)" for b
    by (simp add: read_observations_def json_is_one_def)
  let ?f = "Document (JObj (?data [(uuid_str 7, observation_to_dict demo_source)]))"
  have f: "save_source_observation empty_catalog demo_source = Inr ?f"
    unfolding empty_catalog_def save_source_observation_def save_record_def read
    by (simp add: json_bucket_def bucket_get_def set_bucket_def demo_source_def)
  have again: "save_source_observation ?f (demo_source\<lparr>ob_observed_at := Aware 6 0\<rparr>) = Inr ?f"
    unfolding save_source_observation_def save_record_def read
    using demo_source_again observation_to_dict_object
    by (simp add: json_bucket_def bucket_get_def demo_source_def)
  have get: "get_observation ?f 7 = Inr (Some demo_source)"
    unfolding get_observation_def read using observation_from_to_dict[OF demo_source_ok(1)] observation_to_dict_object
    by (simp add: json_bucket_def bucket_get_def)
  have r: "observations_readable ?f" using observation_first_seen[OF empty_catalog_readable demo_source_ok(1) f] by blast
  show ?thesis using f again get observation_first_seen[OF r demo_source_ok(2) again] by blast
qed

text \<open>
  one page of the links of an artifact is a slice of all of them, in the order of relation, target
  and identity, and its total is their number, although only the first \<open>offset + limit\<close> are sorted out
  and the total is counted again only when it has to be.
\<close>

theorem page_resource_links_slice:
  assumes "0 \<le> offset" and "0 \<le> limit" and "0 < offset + limit"
    and "page_resource_links_for_artifact f artifact offset limit = Inr (n, links)"
  shows "\<exists>data ids matching keyed.
    read_observations f = Inr data \<and> observation_ids_for data artifact = Inr ids \<and>
    links_for data ids = Inr matching \<and>
    mapM (\<lambda>item. bindE (resource_link_sort_key item) (\<lambda>k. Inr (k, item))) matching = Inr keyed \<and>
    n = int (length matching) \<and>
    mapM resource_link_from_dict
      (take (nat limit) (drop (nat offset) (map snd (sort_key fst keyed)))) = Inr links"
proof -
  obtain data ids matching keyed where d: "read_observations f = Inr data" "observation_ids_for data artifact = Inr ids"
      "links_for data ids = Inr matching"
      "mapM (\<lambda>item. bindE (resource_link_sort_key item) (\<lambda>k. Inr (k, item))) matching = Inr keyed"
    and t: "(if int (length (nsmallest (offset + limit) keyed)) = offset + limit
      then bindE (links_for data ids) (\<lambda>again. Inr (int (length again)))
      else Inr (int (length (nsmallest (offset + limit) keyed)))) = Inr n"
    and l: "mapM resource_link_from_dict (slice_from offset (nsmallest (offset + limit) keyed)) = Inr links"
    using assms(3,4) unfolding page_resource_links_for_artifact_def Let_def
    by (auto simp: res_simps split: if_splits)
  have len: "length keyed = length matching" using d(4) by (auto simp: mapM_Inr_iff dest: list_all2_lengthD)
  have "n = int (length matching)"
    using t d(3) len assms(1,2) by (auto simp: nsmallest_def split: if_splits)
  moreover have "slice_from offset (nsmallest (offset + limit) keyed) =
      take (nat limit) (drop (nat offset) (map snd (sort_key fst keyed)))"
    using assms(1,2) by (simp add: slice_from_def nsmallest_def take_drop nat_add_distrib add.commute)
  ultimately show ?thesis using d l by auto
qed

definition demo_link :: "uuid \<Rightarrow> relation \<Rightarrow> resource_link" where
  "demo_link lid r = \<lparr>rl_id = lid, rl_observation_id = 7, rl_target_uri = ''https://a.org/x'', rl_relation = r,
    rl_media_type = None, rl_label = None, rl_metadata = MObj []\<rparr>"

definition demo_links_catalog :: json_file where
  "demo_links_catalog = Document (JObj
    [(''schema_version'', JInt 1),
     (''observations'', JObj [(uuid_str 7, observation_to_dict demo_source)]),
     (''resource_links'', JObj
       [(uuid_str 2, resource_link_to_dict (demo_link 2 VERSION)),
        (uuid_str 1, resource_link_to_dict (demo_link 1 CITATION))])])"

lemma demo_page: "page_resource_links_for_artifact demo_links_catalog 9 0 1 = Inr (2, [demo_link 1 CITATION])"
proof -
  have c: "CHR ''c'' < CHR ''v''" by code_simp

  have m: "\<not> blank ''https://a.org/x''" by code_simp
  show ?thesis
    using m c
    by (simp add: page_resource_links_for_artifact_def demo_links_catalog_def read_observations_def json_is_one_def
        json_bucket_def observation_ids_for_def links_for_def nsmallest_def slice_from_def demo_source_def
        observation_to_dict_def record_get_def record_item_def require_record_def resource_link_to_dict_def
        demo_link_def jitem_def jopt_def resource_link_sort_key_def resource_link_from_dict_def read_metadata_def
        mk_resource_link_def require_non_blank_def require_optional_non_blank_def parse_relation_def parse_enum_def)
qed

theorem page_resource_links_slice_witness:
  "\<exists>data ids matching. read_observations demo_links_catalog = Inr data \<and> observation_ids_for data 9 = Inr ids \<and>
    links_for data ids = Inr matching \<and> length matching = 2"
  using page_resource_links_slice[OF _ _ _ demo_page] by auto

end
