(* ===== verification/Deployment.thy ===== *)
theory Deployment imports Runs TraversalStore ArtifactStore ObservationStore begin

text \<open>
  The services on the local stores: the ports of a process whose repositories are the JSON catalogues
  and whose artifacts are files of one directory. The network, the clock and the sleeper remain
  arbitrary functions on a state of their own.
\<close>

record 'n network =
  nw_resolve :: "pystr \<Rightarrow> rat option \<Rightarrow> 'n \<Rightarrow> (exc + pystr list) \<times> 'n"
  nw_request :: "pystr \<Rightarrow> pystr \<Rightarrow> int \<Rightarrow> rat option \<Rightarrow> 'n \<Rightarrow> (exc + response) \<times> 'n"
  nw_clock :: "'n \<Rightarrow> (exc + pyfloat) \<times> 'n"
  nw_utc_now :: "'n \<Rightarrow> datetime \<times> 'n"
  nw_sleep :: "rat \<Rightarrow> 'n \<Rightarrow> (exc + unit) \<times> 'n"

record 'n local_world =
  lw_checkpoints :: json_file
  lw_journal :: json_file
  lw_robots :: json_file
  lw_observations :: json_file
  lw_artifacts :: artifact_dir
  lw_net :: 'n

text \<open>A call of the network, a read of a file, and a write of one: a refused write changes nothing.\<close>

definition on_net :: "('n \<Rightarrow> 'r \<times> 'n) \<Rightarrow> 'n local_world \<Rightarrow> 'r \<times> 'n local_world" where
  "on_net call w = (case call (lw_net w) of (r, n) \<Rightarrow> (r, w\<lparr>lw_net := n\<rparr>))"

definition reading :: "('n local_world \<Rightarrow> exc + 'a) \<Rightarrow> 'n local_world \<Rightarrow> (exc + 'a) \<times> 'n local_world" where
  "reading f w = (f w, w)"

definition writing ::
  "('n local_world \<Rightarrow> exc + 'f) \<Rightarrow> ('f \<Rightarrow> 'n local_world \<Rightarrow> 'n local_world) \<Rightarrow> 'n local_world \<Rightarrow>
    (exc + unit) \<times> 'n local_world" where
  "writing op put w = (case op w of Inl e \<Rightarrow> (Inl e, w) | Inr f \<Rightarrow> (Inr (), put f w))"

definition local_ports :: "'n network \<Rightarrow> 'n local_world ports" where
  "local_ports N = \<lparr>
    p_resolve = (\<lambda>h d. on_net (nw_resolve N h d)),
    p_request = (\<lambda>u a cap d. on_net (nw_request N u a cap d)),
    p_put_bytes = (\<lambda>body name source media w.
      case on_net (nw_utc_now N) w of (now, w') \<Rightarrow>
      case put_bytes (lw_artifacts w') body name (Some source) media now of
        (r, dir) \<Rightarrow> (r, w'\<lparr>lw_artifacts := dir\<rparr>)),
    p_exists = (\<lambda>digest. reading (\<lambda>w. Inr (artifact_exists (lw_artifacts w) digest))),
    p_read_bytes = (\<lambda>digest. reading (\<lambda>w. read_bytes_by_sha256 (lw_artifacts w) digest)),
    p_save_observation = (\<lambda>ob. writing (\<lambda>w. save_source_observation (lw_observations w) ob)
      (\<lambda>f w. w\<lparr>lw_observations := f\<rparr>)),
    p_get_observation = (\<lambda>oid. reading (\<lambda>w. get_observation (lw_observations w) oid)),
    p_save_checkpoint = (\<lambda>c. writing (\<lambda>w. save_checkpoint (lw_checkpoints w) c)
      (\<lambda>f w. w\<lparr>lw_checkpoints := f\<rparr>)),
    p_get_checkpoint = (\<lambda>cid. reading (\<lambda>w. get_checkpoint (lw_checkpoints w) cid)),
    p_save_finalization = (\<lambda>v. writing (\<lambda>w. journal_save (lw_journal w) v) (\<lambda>f w. w\<lparr>lw_journal := f\<rparr>)),
    p_get_finalization = (\<lambda>cid u. reading (\<lambda>w. journal_get (lw_journal w) cid u)),
    p_delete_finalization = (\<lambda>v. writing (\<lambda>w. journal_delete (lw_journal w) v) (\<lambda>f w. w\<lparr>lw_journal := f\<rparr>)),
    p_get_robots = (\<lambda>u. reading (\<lambda>w. cache_get (lw_robots w) u)),
    p_save_robots = (\<lambda>e. writing (\<lambda>w. cache_save (lw_robots w) e) (\<lambda>f w. w\<lparr>lw_robots := f\<rparr>)),
    p_clock = on_net (nw_clock N),
    p_utc_now = on_net (nw_utc_now N),
    p_sleep = (\<lambda>d. on_net (nw_sleep N d))\<rparr>"

section \<open>The files of a run\<close>

text \<open>The last checkpoint of an identity whose save returned.\<close>

fun saved :: "uuid \<Rightarrow> event list \<Rightarrow> checkpoint option" where
  "saved cid [] = None"
| "saved cid (Checkpointed c ok # t) = (if ok \<and> checkpoint_id c = cid then Some c else saved cid t)"
| "saved cid (_ # t) = saved cid t"

lemma saved_append: "saved cid (d @ t) = (case saved cid d of None \<Rightarrow> saved cid t | Some c \<Rightarrow> Some c)"
  by (induction cid d rule: saved.induct) auto

text \<open>
  What a run of effects \<open>d\<close> does to each file: the checkpoint catalogue holds the checkpoints whose saves
  returned on top of what it held; the artifacts stay, content-addressed, with those that were stored;
  the observation records stay, with those that were saved.
\<close>

definition checkpoints_follow :: "event list \<Rightarrow> json_file \<Rightarrow> json_file \<Rightarrow> bool" where
  "checkpoints_follow d f f' \<longleftrightarrow>
    (readable f \<longrightarrow> (\<forall>c. Checkpointed c True \<in> set d \<longrightarrow> durable c) \<longrightarrow>
      readable f' \<and>
      (\<forall>cid. get_checkpoint f' cid = (case saved cid d of None \<Rightarrow> get_checkpoint f cid | Some c \<Rightarrow> Inr (Some c))))"

definition artifacts_follow :: "event list \<Rightarrow> artifact_dir \<Rightarrow> artifact_dir \<Rightarrow> bool" where
  "artifacts_follow d dir dir' \<longleftrightarrow>
    (content_addressed dir \<longrightarrow> content_addressed dir') \<and> dir \<subseteq>\<^sub>m dir' \<and>
    (\<forall>body. Stored body True \<in> set d \<longrightarrow> artifact_exists dir' (sha256_hexdigest body))"

definition recorded :: "json_file \<Rightarrow> uuid \<Rightarrow> json option" where
  "recorded f oid =
    (case read_observations f of
       Inl _ \<Rightarrow> None
     | Inr data \<Rightarrow> bucket_get (json_bucket data ''observations'') (uuid_str oid))"

definition recorded_as :: "json_file \<Rightarrow> observation \<Rightarrow> bool" where
  "recorded_as f ob \<longleftrightarrow> (\<exists>payload. recorded f (ob_id ob) = Some payload \<and>
    (payload = observation_to_dict ob \<or> same_payload payload (observation_to_dict ob) [''observed_at'']))"

definition observations_follow :: "event list \<Rightarrow> json_file \<Rightarrow> json_file \<Rightarrow> bool" where
  "observations_follow d f f' \<longleftrightarrow>
    (\<forall>oid payload. recorded f oid = Some payload \<longrightarrow> recorded f' oid = Some payload) \<and>
    (\<forall>ob. Observed ob True \<in> set d \<longrightarrow> recorded_as f' ob)"

lemmas follow_defs = checkpoints_follow_def artifacts_follow_def observations_follow_def

lemma checkpoints_follow_append:
  assumes "checkpoints_follow d f f'" "checkpoints_follow e f' f''"
  shows "checkpoints_follow (e @ d) f f''"
  unfolding checkpoints_follow_def
proof (intro impI)
  assume r: "readable f" and "\<forall>c. Checkpointed c True \<in> set (e @ d) \<longrightarrow> durable c"
  then have d: "\<forall>c. Checkpointed c True \<in> set d \<longrightarrow> durable c" and e: "\<forall>c. Checkpointed c True \<in> set e \<longrightarrow> durable c"
    by simp_all
  note 1 = assms(1)[unfolded checkpoints_follow_def, rule_format, OF r d[rule_format]]
  note 2 = assms(2)[unfolded checkpoints_follow_def, rule_format, OF conjunct1[OF 1] e[rule_format]]
  from 1 2 show "readable f'' \<and> (\<forall>cid. get_checkpoint f'' cid =
      (case saved cid (e @ d) of None \<Rightarrow> get_checkpoint f cid | Some c \<Rightarrow> Inr (Some c)))"
    by (simp add: saved_append split: option.split)
qed

lemma artifact_exists_mono: "dir \<subseteq>\<^sub>m dir' \<Longrightarrow> artifact_exists dir k \<Longrightarrow> artifact_exists dir' k"
  unfolding artifact_exists_def map_le_def dom_def by (metis (mono_tags, lifting) mem_Collect_eq)

lemma artifacts_follow_append:
  assumes "artifacts_follow d dir dir'" "artifacts_follow e dir' dir''"
  shows "artifacts_follow (e @ d) dir dir''"
proof -
  have 1: "dir \<subseteq>\<^sub>m dir'" "dir' \<subseteq>\<^sub>m dir''" using assms by (simp_all add: artifacts_follow_def)
  show ?thesis
    unfolding artifacts_follow_def
    using assms map_le_trans[OF 1] artifact_exists_mono[OF 1(2)]
    by (simp add: artifacts_follow_def)
qed

lemma observations_follow_append:
  assumes "observations_follow d f f'" "observations_follow e f' f''"
  shows "observations_follow (e @ d) f f''"
proof -
  have "recorded_as f' ob \<Longrightarrow> recorded_as f'' ob" for ob
    using assms(2) unfolding recorded_as_def observations_follow_def by blast
  then show ?thesis using assms unfolding observations_follow_def set_append by blast
qed

lemmas follow_append = checkpoints_follow_append artifacts_follow_append observations_follow_append

definition files_follow :: "'n local_world state \<Rightarrow> 'n local_world state \<Rightarrow> bool" where
  "files_follow s s' \<longleftrightarrow>
    (\<exists>d. trace s' = d @ trace s \<and>
      checkpoints_follow d (lw_checkpoints (world s)) (lw_checkpoints (world s')) \<and>
      artifacts_follow d (lw_artifacts (world s)) (lw_artifacts (world s')) \<and>
      observations_follow d (lw_observations (world s)) (lw_observations (world s')))"

lemma files_follow_refl: "files_follow s s"
  by (simp add: files_follow_def follow_defs)

lemma files_follow_trans: "files_follow s s' \<Longrightarrow> files_follow s' s'' \<Longrightarrow> files_follow s s''"
  unfolding files_follow_def
  by (elim exE conjE, rule exI[where x = "_ @ _"]) (auto intro: follow_append)

section \<open>The effect of each port on the files\<close>

definition same_files :: "'n local_world \<Rightarrow> 'n local_world \<Rightarrow> bool" where
  "same_files w w' \<longleftrightarrow> lw_checkpoints w' = lw_checkpoints w \<and> lw_artifacts w' = lw_artifacts w \<and>
    lw_observations w' = lw_observations w"

text \<open>Events that say nothing of these files.\<close>

definition foreign :: "event list \<Rightarrow> bool" where
  "foreign d \<longleftrightarrow> (\<forall>c ok. Checkpointed c ok \<notin> set d) \<and> (\<forall>b ok. Stored b ok \<notin> set d) \<and> (\<forall>ob ok. Observed ob ok \<notin> set d)"

lemma foreign_saved: "foreign d \<Longrightarrow> saved cid d = None"
  by (induction cid d rule: saved.induct) (auto simp: foreign_def)

lemma foreign_follow: "foreign d \<Longrightarrow> checkpoints_follow d f f" "foreign d \<Longrightarrow> artifacts_follow d dir dir"
  "foreign d \<Longrightarrow> observations_follow d g g"
  by (simp_all add: follow_defs foreign_saved) (simp_all add: foreign_def)

lemma follow_same:
  fixes call :: "'n local_world \<Rightarrow> (exc + 'a) \<times> 'n local_world"
  assumes "\<And>w. same_files w (snd (call w))" and "\<And>ok. foreign (ev ok)"
  shows "keeps files_follow (perform call ev)"
  unfolding keeps_def
proof
  fix s :: "'n local_world state"
  obtain r w' where c: "call (world s) = (r, w')" by force
  have "same_files (world s) w'" using assms(1)[of "world s"] c by simp
  then show "files_follow s (snd (perform call ev s))"
    using c assms(2) foreign_follow
    by (cases r) (auto simp: perform_def files_follow_def same_files_def intro!: exI)
qed

lemma follow_net: "(\<And>ok. foreign (ev ok)) \<Longrightarrow> keeps files_follow (perform (on_net f) ev)"
  by (rule follow_same) (auto simp: on_net_def same_files_def split: prod.splits)

lemma follow_reading: "(\<And>ok. foreign (ev ok)) \<Longrightarrow> keeps files_follow (perform (reading f) ev)"
  by (rule follow_same) (auto simp: reading_def same_files_def)

lemma follow_writing:
  "(\<And>f w. same_files w (put f w)) \<Longrightarrow> (\<And>ok. foreign (ev ok)) \<Longrightarrow> keeps files_follow (perform (writing op put) ev)"
  by (rule follow_same) (auto simp: writing_def same_files_def split: sum.splits)

lemma follow_checkpoint:
  fixes N :: "'n network"
  shows "keeps files_follow (perform (p_save_checkpoint (local_ports N) c) (\<lambda>ok. [Checkpointed c ok]))"
  unfolding keeps_def
proof
  fix s :: "'n local_world state"
  show "files_follow s (snd (perform (p_save_checkpoint (local_ports N) c) (\<lambda>ok. [Checkpointed c ok]) s))"
  proof (cases "save_checkpoint (lw_checkpoints (world s)) c")
    case (Inl e)
    then show ?thesis by (simp add: perform_def local_ports_def writing_def files_follow_def follow_defs)
  next
    case (Inr f)
    then show ?thesis
      using tcs.save_inv[OF _ Inr] tcs.get_save[OF _ _ Inr]
      by (auto simp: perform_def local_ports_def writing_def files_follow_def follow_defs)
  qed
qed

lemma put_bytes_exists:
  "put_bytes dir data name source media now = (Inr a, dir') \<Longrightarrow> artifact_exists dir' (sha256_hexdigest data)"
  using put_bytes_Inr[of dir data name source media now a dir']
  by (cases "dir (storage_key_for_digest (sha256_hexdigest data))") (auto simp: artifact_exists_def)

lemma put_bytes_grows: "put_bytes dir data name source media now = (r, dir') \<Longrightarrow> dir \<subseteq>\<^sub>m dir'"
  by (drule put_bytes_dir) (auto simp: map_le_def)

lemma follow_put_bytes:
  fixes N :: "'n network"
  shows "keeps files_follow (perform (p_put_bytes (local_ports N) body name source media) (\<lambda>ok. [Stored body ok]))"
  unfolding keeps_def
proof
  fix s :: "'n local_world state"
  obtain now w where n: "on_net (nw_utc_now N) (world s) = (now, w)" by force
  then have same: "same_files (world s) w" by (auto simp: on_net_def same_files_def split: prod.splits)
  obtain r dir where p: "put_bytes (lw_artifacts w) body name (Some source) media now = (r, dir)" by force
  show "files_follow s (snd (perform (p_put_bytes (local_ports N) body name source media) (\<lambda>ok. [Stored body ok]) s))"
    using n p same put_bytes_invariant[OF _ p] put_bytes_grows[OF p] put_bytes_exists[of "lw_artifacts w"]
    by (cases r) (auto simp: perform_def local_ports_def files_follow_def follow_defs same_files_def)
qed

lemma save_record_follows:
  assumes s: "save_source_observation f ob = Inr f'"
  shows "recorded_as f' ob \<and> (\<forall>oid payload. recorded f oid = Some payload \<longrightarrow> recorded f' oid = Some payload)"
proof -
  from s obtain data where d: "read_observations f = Inr data"
    by (auto simp: save_source_observation_def save_record_def res_simps)
  show ?thesis
  proof (cases "bucket_get (json_bucket data ''observations'') (uuid_str (ob_id ob))")
    case (Some old)
    then have "f' = f" "same_payload old (observation_to_dict ob) [''observed_at'']"
      using s d by (auto simp: save_source_observation_def save_record_def res_simps split: if_splits)
    then show ?thesis using d Some by (auto simp: recorded_as_def recorded_def)
  next
    case None
    let ?b = "jset (json_bucket data ''observations'') (uuid_str (ob_id ob)) (observation_to_dict ob)"
    have "f' = set_bucket data ''observations'' ?b"
      using s d None by (simp add: save_source_observation_def save_record_def)
    then obtain data' where "read_observations f' = Inr data'" "json_bucket data' ''observations'' = ?b"
      using read_set_observation[OF d, of ?b] by blast
    then show ?thesis using d None observation_to_dict_object
      by (auto simp: recorded_as_def recorded_def)
  qed
qed

lemma follow_observation:
  fixes N :: "'n network"
  shows "keeps files_follow (perform (p_save_observation (local_ports N) ob) (\<lambda>ok. [Observed ob ok]))"
  unfolding keeps_def
proof
  fix s :: "'n local_world state"
  show "files_follow s (snd (perform (p_save_observation (local_ports N) ob) (\<lambda>ok. [Observed ob ok]) s))"
    using save_record_follows[of "lw_observations (world s)" ob]
    by (cases "save_source_observation (lw_observations (world s)) ob")
      (simp_all add: perform_def local_ports_def writing_def files_follow_def follow_defs)
qed

interpretation local_run: run_relation "local_ports N" files_follow for N :: "'n network"
proof
  show "files_follow s s" for s :: "'n local_world state" by (rule files_follow_refl)
  show "files_follow s s' \<Longrightarrow> files_follow s' s'' \<Longrightarrow> files_follow s s''" for s s' s'' :: "'n local_world state"
    by (rule files_follow_trans)
  show "keeps files_follow (perform (p_save_checkpoint (local_ports N) c) (\<lambda>ok. [Checkpointed c ok]))" for c
    by (rule follow_checkpoint)
  show "keeps files_follow (perform (p_put_bytes (local_ports N) body name source media) (\<lambda>ok. [Stored body ok]))"
    for body name source media by (rule follow_put_bytes)
  show "keeps files_follow (perform (p_save_observation (local_ports N) ob) (\<lambda>ok. [Observed ob ok]))" for ob
    by (rule follow_observation)
  show "keeps files_follow (utc_now (local_ports N))"
    unfolding utc_now_def query_def
    by (rule follow_same) (auto simp: local_ports_def on_net_def same_files_def foreign_def split: prod.splits)
qed (simp_all add: local_ports_def query_def follow_net follow_reading follow_writing foreign_def same_files_def)

section \<open>Properties\<close>

lemma last_saved_saved:
  assumes "\<forall>c. Checkpointed c True \<in> set t \<longrightarrow> checkpoint_id c = cid"
  shows "saved cid t = last_saved t"
  using assms by (induction t rule: last_saved.induct) auto

text \<open>Every checkpoint that an acquisition of a readable checkpoint saves is readable and has its identity.\<close>

lemma acquire_durable_checkpoints:
  assumes "policy_ok p" "durable c" "trace s = []" "acquire P c tid p request_uri since s = (res, s')"
    and "Checkpointed d ok \<in> set (trace s')"
  shows "durable d \<and> checkpoint_id d = checkpoint_id c"
proof -
  have "(advances p)\<^sup>*\<^sup>* c d"
    using acquire_run[OF _ assms(3,4)] assms(1,5) by (auto simp: policy_ok_def orderly_def)
  from advances_durable[OF this assms(2)] show ?thesis .
qed

lemma acquire_files:
  fixes s :: "'n local_world state"
  assumes "trace s = []" "acquire (local_ports N) c tid p request_uri since s = (res, s')"
  shows "checkpoints_follow (trace s') (lw_checkpoints (world s)) (lw_checkpoints (world s'))"
    "artifacts_follow (trace s') (lw_artifacts (world s)) (lw_artifacts (world s'))"
    "observations_follow (trace s') (lw_observations (world s)) (lw_observations (world s'))"
  using keepsD[OF local_run.services(1) assms(2)] assms(1) by (auto simp: files_follow_def)

text \<open>
  C4: what an acquisition says is what the files hold. Run on the local stores, with any network, an
  acquisition of a stored checkpoint leaves in the catalogue exactly the last checkpoint whose save
  returned, and the checkpoints of other crawls as they were; when it returns a result, the catalogue
  holds that result's checkpoint, in which the target is COMPLETED, and after a restart the bytes of
  the artifact and the observation that this checkpoint refers to are there.
\<close>

theorem acquire_is_durable:
  fixes s :: "'n local_world state"
  assumes "policy_ok p" and "durable c" and "readable (lw_checkpoints (world s))" and "trace s = []"
    and "acquire (local_ports N) c tid p request_uri since s = (res, s')"
  shows "readable (lw_checkpoints (world s')) \<and>
    get_checkpoint (lw_checkpoints (world s')) (checkpoint_id c) =
      (case last_saved (trace s') of
         None \<Rightarrow> get_checkpoint (lw_checkpoints (world s)) (checkpoint_id c)
       | Some d \<Rightarrow> Inr (Some d)) \<and>
    (\<forall>cid. cid \<noteq> checkpoint_id c \<longrightarrow>
      get_checkpoint (lw_checkpoints (world s')) cid = get_checkpoint (lw_checkpoints (world s)) cid) \<and>
    (case res of
       Inl _ \<Rightarrow> True
     | Inr r \<Rightarrow>
         get_checkpoint (lw_checkpoints (world s')) (checkpoint_id c) = Inr (Some (aq_checkpoint r)) \<and>
         has_status (aq_checkpoint r) tid COMPLETED \<and>
         artifact_exists (lw_artifacts (world s')) (ar_sha256 (aq_artifact r)) \<and>
         recorded_as (lw_observations (world s')) (aq_observation r))"
proof -
  have dur: "durable d \<and> checkpoint_id d = checkpoint_id c" if "Checkpointed d ok \<in> set (trace s')" for d ok
    using acquire_durable_checkpoints[OF assms(1,2,4,5) that] .
  note files = acquire_files[OF assms(4,5)]
  have get: "readable (lw_checkpoints (world s'))"
    "\<And>cid. get_checkpoint (lw_checkpoints (world s')) cid = (case saved cid (trace s') of
       None \<Rightarrow> get_checkpoint (lw_checkpoints (world s)) cid | Some c \<Rightarrow> Inr (Some c))"
    using files(1) assms(3) dur by (auto simp: checkpoints_follow_def)
  have same: "saved (checkpoint_id c) (trace s') = last_saved (trace s')"
    using dur by (intro last_saved_saved) blast
  have other: "saved cid (trace s') = None" if "cid \<noteq> checkpoint_id c" for cid
  proof -
    have "saved cid t = None" if "\<forall>d. Checkpointed d True \<in> set t \<longrightarrow> checkpoint_id d \<noteq> cid" for t
      using that by (induction cid t rule: saved.induct) auto
    with dur that show ?thesis by blast
  qed
  have ends: "committed tid r (trace s')" if "res = Inr r" for r
    using acquire_run[OF _ assms(4,5)] assms(1) that by (simp add: policy_ok_def)
  show ?thesis
  proof (cases res)
    case (Inl e)
    then show ?thesis using get same other by simp
  next
    case (Inr r)
    obtain body rest where t: "trace s' = Checkpointed (aq_checkpoint r) True # Observed (aq_observation r) True #
        Stored body True # rest" "has_status (aq_checkpoint r) tid COMPLETED"
        "ar_sha256 (aq_artifact r) = sha256_hexdigest body"
      using ends[OF Inr] by (auto simp: committed_def)
    have "artifact_exists (lw_artifacts (world s')) (ar_sha256 (aq_artifact r))"
      using files(2) t by (simp add: artifacts_follow_def)
    moreover have "recorded_as (lw_observations (world s')) (aq_observation r)"
      using files(3) t by (simp add: observations_follow_def)
    ultimately show ?thesis using get same other t Inr by simp
  qed
qed

end
