(* ===== verification/Scenario.thy ===== *)
theory Scenario imports Deployment begin

text \<open>
  One concrete crawl, at which the properties of the services are applied: a queued target, a network
  that answers its only request, and the local stores.
\<close>

section \<open>The target\<close>

definition demo_tid :: uuid where
  "demo_tid = new_target_id 1 demo_uri"

definition demo_in :: "tstatus \<Rightarrow> int \<Rightarrow> rat \<Rightarrow> pystr option \<Rightarrow> pystr option \<Rightarrow> uuid option \<Rightarrow> checkpoint" where
  "demo_in st n e err artifact observation =
    \<lparr>checkpoint_id = 1,
     targets = [\<lparr>target_id = demo_tid, uri = demo_uri, depth = 0, status = st, attempts = 1, bytes_acquired = n,
       discovery_link_ids = [], parent_target_ids = [], last_error = err,
       final_artifact_sha256 = artifact, final_observation_id = observation\<rparr>],
     cbudget = \<lparr>requests_used = 1, bytes_used = n, elapsed_seconds = e\<rparr>\<rparr>"

lemma demo_started: "demo_checkpoint IN_PROGRESS 1 = demo_in IN_PROGRESS 0 0 None None None"
  by (simp add: demo_checkpoint_def demo_target_def demo_in_def demo_tid_def)

lemmas demo_ops = require_target_def find_target_def demo_in_def mk_target_def demo_uri_canonical require_depth_def
  mk_budget_def replace_target_def replace_by_def mk_checkpoint_def with_budget_def require_non_negative_int_def
  require_monotonic_elapsed_def require_reason_def

lemma demo_fail:
  "\<not> blank reason \<Longrightarrow> \<not> blank (strip reason) \<Longrightarrow> 0 \<le> e \<Longrightarrow> fail (demo_in IN_PROGRESS 0 0 None None None) demo_tid reason (Fin e) 0 =
    Inr (demo_in FAILED 0 e (Some (strip reason)) None None)"
  by (simp add: fail_def demo_ops)

lemma demo_respond:
  "0 \<le> n \<Longrightarrow> record_response_bytes (demo_in IN_PROGRESS 0 0 None None None) demo_tid n =
    Inr (demo_in IN_PROGRESS n 0 None None None)"
  by (simp add: record_response_bytes_def demo_ops)

lemma demo_begin:
  "0 \<le> n \<Longrightarrow> 0 \<le> e \<Longrightarrow> is_sha256 a \<Longrightarrow>
    begin_finalization (demo_in IN_PROGRESS n 0 None None None) demo_tid a ob (Fin e) =
      Inr (demo_in FINALIZING n e None (Some a) (Some ob))"
  by (simp add: begin_finalization_def require_sha256_def demo_ops)

lemma demo_complete:
  "0 \<le> n \<Longrightarrow> 0 \<le> e \<Longrightarrow> e \<le> e' \<Longrightarrow> is_sha256 a \<Longrightarrow>
    complete_finalization (demo_in FINALIZING n e None (Some a) (Some ob)) demo_tid (Fin e') =
      Inr (demo_in COMPLETED n e' None (Some a) (Some ob))"
  by (simp add: complete_finalization_def require_sha256_def demo_ops)

section \<open>The network and the stores\<close>

definition demo_response :: response where
  "demo_response = \<lparr>rs_status_code = 200, rs_headers = [], rs_body = ''ok'', rs_limit_exceeded = False\<rparr>"

text \<open>The clock counts its readings; the transport gives the answer of the scenario.\<close>

definition demo_net :: "exc + response \<Rightarrow> unit network" where
  "demo_net answer =
    \<lparr>nw_resolve = (\<lambda>h d n. (Inr [''93.184.216.34''], n)),
     nw_request = (\<lambda>u a cap d n. (answer, n)),
     nw_clock = (\<lambda>n. (Inr (Fin 3), n)),
     nw_utc_now = (\<lambda>n. (Aware 0 0, n)),
     nw_sleep = (\<lambda>d n. (Inr (), n))\<rparr>"

definition demo_world :: "unit local_world" where
  "demo_world =
    \<lparr>lw_checkpoints = init_catalog Missing, lw_journal = init_journal Missing, lw_robots = init_robots_cache Missing,
     lw_observations = empty_catalog, lw_artifacts = (\<lambda>_. None), lw_net = ()\<rparr>"

definition demo_state :: "unit local_world state" where
  "demo_state = \<lparr>world = demo_world, trace = []\<rparr>"

lemma demo_address: "allows_resolved_address demo_policy ''93.184.216.34''"
  unfolding demo_policy_def by code_simp

lemma demo_hostname: "request_hostname demo_uri = Inr ''a.org''"
  unfolding demo_uri_def by code_simp

lemma demo_transient: "durable_http_uri_requires_transient_request demo_uri = Inr False"
  unfolding demo_uri_def by code_simp

lemma demo_queued: "queued_target (demo_checkpoint QUEUED 0) demo_tid = Inr (demo_target QUEUED 0)"
  by (simp add: queued_target_def lookup_target_def find_target_def demo_checkpoint_def demo_target_def demo_tid_def)

lemmas run = bindS_def liftS_def checkS_def mapErr_def catchS_def

text \<open>Reading the clock and saving a checkpoint on the local stores.\<close>

lemma demo_clock: "read_clock (local_ports (demo_net answer)) s = (Inr 3, s)"
  by (simp add: read_clock_def query_def perform_def local_ports_def demo_net_def on_net_def run)

lemma demo_elapsed:
  "started \<le> 3 \<Longrightarrow>
    elapsed (local_ports (demo_net answer)) c started s = (Inr (elapsed_seconds (cbudget c) + (3 - started)), s)"
  by (simp add: elapsed_def demo_clock run)

lemma local_save:
  fixes s :: "'n local_world state"
  assumes "readable (lw_checkpoints (world s))" "durable c"
  obtains s' where "save (local_ports N) c s = (Inr (), s')" "trace s' = Checkpointed c True # trace s"
    "readable (lw_checkpoints (world s'))" "lw_artifacts (world s') = lw_artifacts (world s)"
    "lw_observations (world s') = lw_observations (world s)" "lw_robots (world s') = lw_robots (world s)"
proof -
  obtain f where f: "save_checkpoint (lw_checkpoints (world s)) c = Inr f" using tcs.save_total[OF assms] by blast
  show thesis
    by (rule that[of "s\<lparr>world := (world s)\<lparr>lw_checkpoints := f\<rparr>, trace := Checkpointed c True # trace s\<rparr>"])
      (simp_all add: save_def perform_def local_ports_def writing_def run f tcs.save_inv[OF assms(1) f])
qed

definition demo_trace_of :: "pystr \<Rightarrow> bool \<Rightarrow> event list" where
  "demo_trace_of u ok = [Requested u ''93.184.216.34'' 1000 ok, Resolved ''a.org'' True]"

abbreviation demo_trace :: "bool \<Rightarrow> event list" where
  "demo_trace \<equiv> demo_trace_of demo_uri"

lemma demo_limits: "max_bytes demo_policy = 1000" "max_elapsed_seconds demo_policy = Some 300"
  "max_redirects demo_policy = 5"
  by (simp_all add: demo_policy_def)

lemma demo_calls:
  "p_resolve (local_ports (demo_net answer)) h d w = (Inr [''93.184.216.34''], w)"
  "p_request (local_ports (demo_net answer)) u a cap d w = (answer, w)"
  by (simp_all add: local_ports_def on_net_def demo_net_def)

lemma demo_answered:
  assumes "bytes_used (cbudget c) = 0" "elapsed_seconds (cbudget c) = 0"
  obtains s' where "request_once (local_ports (demo_net (Inr demo_response))) c demo_policy demo_uri 3 s = (Inr demo_response, s')"
    "trace s' = demo_trace True @ trace s" "world s' = world s"
  by (rule that[of "s\<lparr>trace := demo_trace True @ trace s\<rparr>"])
    (simp_all add: request_once_def exchange_def remaining_elapsed_def demo_elapsed demo_allowed demo_hostname
        demo_address demo_limits perform_def demo_calls demo_trace_of_def run demo_response_def assms)

lemma demo_refused:
  assumes "allows_uri demo_policy u" "request_hostname u = Inr ''a.org''" "bytes_used (cbudget c) = 0" "elapsed_seconds (cbudget c) = 0"
  obtains s' where "request_once (local_ports (demo_net (Inl e))) c demo_policy u 3 s = (Inl (Raised e), s')"
    "trace s' = demo_trace_of u False @ trace s" "world s' = world s"
  by (rule that[of "s\<lparr>trace := demo_trace_of u False @ trace s\<rparr>"])
    (simp_all add: request_once_def exchange_def remaining_elapsed_def demo_elapsed         demo_address demo_limits perform_def demo_calls demo_trace_of_def run demo_response_def assms)

lemma demo_in_durable:
  assumes "0 \<le> n" "0 \<le> e" "st = COMPLETED \<or> st = FINALIZING \<or> st = IN_PROGRESS \<or> st = FAILED"
    and "err \<noteq> None \<longleftrightarrow> st = FAILED" "\<forall>x. err = Some x \<longrightarrow> \<not> blank x"
    and "a \<noteq> None \<longleftrightarrow> st = FINALIZING \<or> st = COMPLETED" "ob \<noteq> None \<longleftrightarrow> a \<noteq> None" "\<forall>x. a = Some x \<longrightarrow> is_sha256 x"
  shows "durable (demo_in st n e err a ob)"
  using assms demo_uri_canonical
  by (auto simp: durable_def checkpoint_ok_def demo_in_def target_ok_def budget_ok_def canonical_uri_def)

section \<open>The refused request\<close>

abbreviation demo_reason :: pystr where
  "demo_reason \<equiv> ''http acquisition failed: OSError''"

lemma demo_reason_text: "\<not> blank demo_reason" "strip demo_reason = demo_reason"
  by code_simp+

lemma demo_start_step: "start (demo_checkpoint QUEUED 0) demo_tid demo_policy None = Inr (demo_in IN_PROGRESS 0 0 None None None)"
  using demo_start by (simp add: demo_started demo_tid_def)

lemma demo_entry:
  assumes "save P (demo_in IN_PROGRESS 0 0 None None None) demo_state = (Inr (), s1)" "read_clock P s1 = (Inr 3, s1)"
  shows "acquire P (demo_checkpoint QUEUED 0) demo_tid demo_policy None None demo_state =
    catchS (acquire_loop P demo_policy (demo_target QUEUED 0) demo_uri 3 [] (demo_in IN_PROGRESS 0 0 None None None) demo_uri)
      (report_failure P demo_tid 3) s1"
proof -
  have u: "uri (demo_target QUEUED 0) = demo_uri" by (simp add: demo_target_def)
  show ?thesis
    using assms
    by (simp add: acquire_def demo_queued demo_transient u demo_uri_canonical demo_allowed demo_start_step run)
qed

lemma demo_readable: "readable (lw_checkpoints (world demo_state))"
  by (simp add: demo_state_def demo_world_def readable_init)

lemma demo_failing_run:
  obtains s' where "acquire (local_ports (demo_net (Inl (OSError m)))) (demo_checkpoint QUEUED 0) demo_tid demo_policy
      None None demo_state = (Inl (AcquisitionError ''HTTP acquisition failed: OSError''
        (demo_in FAILED 0 0 (Some demo_reason) None None)), s')"
    "trace s' = Checkpointed (demo_in FAILED 0 0 (Some demo_reason) None None) True # demo_trace False @
      [Checkpointed (demo_in IN_PROGRESS 0 0 None None None) True]"
proof -
  let ?P = "local_ports (demo_net (Inl (OSError m)))"
  let ?c = "demo_in IN_PROGRESS 0 0 None None None"
  let ?f = "demo_in FAILED 0 0 (Some demo_reason) None None"
  have c0: "bytes_used (cbudget ?c) = 0" "elapsed_seconds (cbudget ?c) = 0" by (simp_all add: demo_in_def)
  have fl: "fail ?c demo_tid demo_reason (Fin 0) 0 = Inr ?f"
    using demo_fail[of demo_reason 0] demo_reason_text by simp
  have d: "durable ?c" "durable ?f" using demo_reason_text(1) by (simp_all add: demo_in_durable)
  obtain s1 where 1: "save ?P ?c demo_state = (Inr (), s1)" "trace s1 = [Checkpointed ?c True]"
    "readable (lw_checkpoints (world s1))"
    using local_save[OF demo_readable d(1)] by (auto simp: demo_state_def)
  obtain s2 where 2: "request_once ?P ?c demo_policy demo_uri 3 s1 = (Inl (Raised (OSError m)), s2)"
    "trace s2 = demo_trace False @ trace s1" "world s2 = world s1"
    using demo_refused[OF demo_allowed demo_hostname c0] .
  have "readable (lw_checkpoints (world s2))" using 1(3) 2(3) by simp
  then obtain s3 where 3: "save ?P ?f s2 = (Inr (), s3)" "trace s3 = Checkpointed ?f True # trace s2"
    using local_save[OF _ d(2)] by metis
  have loop: "acquire_loop ?P demo_policy (demo_target QUEUED 0) demo_uri 3 [] ?c demo_uri s1 =
      (Inl (Raised (OSError m), ?c), s2)"
    by (subst acquire_loop.simps) (simp add: with_active_def run 2)
  have "acquire ?P (demo_checkpoint QUEUED 0) demo_tid demo_policy None None demo_state =
      (Inl (AcquisitionError ''HTTP acquisition failed: OSError'' ?f), s3)"
    unfolding demo_entry[OF 1(1) demo_clock] by (simp add: loop report_failure_def demo_elapsed c0 fl 3 run)
  then show thesis by (rule that) (simp add: 1 2 3)
qed

section \<open>The answered request\<close>

definition demo_sn :: snapshot where
  "demo_sn =
    \<lparr>sn_requested_uri = demo_uri, sn_final_uri = demo_uri, sn_status_code = 200, sn_headers = [],
     sn_redirect_chain = [], sn_depth = 0, sn_observed_at = Aware 0 0\<rparr>"

abbreviation demo_body_digest :: pystr where
  "demo_body_digest \<equiv> sha256_hexdigest ''ok''"

lemma demo_sn_fixed: "mk_snapshot demo_sn = Inr demo_sn"
  by (simp add: mk_snapshot_def demo_sn_def demo_uri_canonical)

lemma demo_sn_observation: "\<exists>ob. to_source_observation demo_sn aid = Inr ob"
proof -
  have "\<not> blank ''http''" "\<not> blank (sn_final_uri demo_sn)" "HttpResponses.media_type demo_sn = None"
    "isOk (freeze (MObj (snapshot_metadata demo_sn)))"
    unfolding demo_sn_def demo_uri_def by code_simp+
  then show ?thesis
    by (auto simp: to_source_observation_def mk_observation_def require_non_blank_def
        require_optional_non_blank_def isOk_iff)
qed

lemma lower_hex: "list_all is_lower_hex s \<Longrightarrow> lower s = s"
  by (induction s) (auto simp: is_lower_hex_def is_digit_def ascii_lower_def is_upper_def)

lemma digest_is_sha256: "is_sha256 (sha256_hexdigest s)"
  using sha256_hexdigest_lower[of s] by (simp add: is_sha256_def lower_hex)

lemma demo_location: "redirect_location demo_response = Inr None"
  unfolding demo_response_def by code_simp

lemma demo_name: "artifact_name demo_uri = Inr None"
  unfolding demo_uri_def by code_simp

abbreviation demo_final :: "tstatus \<Rightarrow> rat \<Rightarrow> uuid \<Rightarrow> checkpoint" where
  "demo_final st e ob \<equiv> demo_in st 2 e None (Some demo_body_digest) (Some ob)"

text \<open>The outputs are written, and the checkpoint is completed.\<close>

lemma demo_outputs:
  fixes s :: "unit local_world state"
  assumes "to_source_observation demo_sn (artifact_id_of demo_body_digest) = Inr ob"
  obtains a s' where "put_artifact (local_ports (demo_net answer)) demo_sn ''ok'' demo_body_digest s = (Inr a, s')"
    "trace s' = Stored ''ok'' True # trace s" "lw_checkpoints (world s') = lw_checkpoints (world s)"
    "lw_observations (world s') = lw_observations (world s)"
proof -
  have m: "\<not> blank ''application/octet-stream''" "\<not> blank demo_uri" "HttpResponses.media_type demo_sn = None"
    unfolding demo_sn_def demo_uri_def by code_simp+
  obtain a dir where p: "put_bytes (lw_artifacts (world s)) ''ok'' None (Some demo_uri) ''application/octet-stream'' (Aware 0 0) = (Inr a, dir)"
    using put_bytes_total[of None "Some demo_uri" "''application/octet-stream''" "lw_artifacts (world s)" "''ok''" "Aware 0 0"] m
    by auto
  note id = put_bytes_Inr[OF p]
  show thesis
    by (rule that[of a "s\<lparr>world := (world s)\<lparr>lw_artifacts := dir\<rparr>, trace := Stored ''ok'' True # trace s\<rparr>"])
      (simp_all add: put_artifact_def demo_sn_def demo_name perform_def local_ports_def on_net_def demo_net_def run p id
        media_type_or_default_def m(3)[unfolded demo_sn_def])
qed

lemma demo_observed:
  fixes s :: "unit local_world state"
  assumes "lw_observations (world s) = empty_catalog"
  obtains s' where "HttpAcquisition.save_observation (local_ports (demo_net answer)) ob s = (Inr (), s')"
    "trace s' = Observed ob True # trace s" "lw_checkpoints (world s') = lw_checkpoints (world s)"
proof -
  obtain data where "read_observations empty_catalog = Inr data" "bucket_get (json_bucket data ''observations'') (uuid_str (ob_id ob)) = None"
    by (simp add: empty_catalog_def read_observations_def json_is_one_def json_bucket_def bucket_get_def)
  then obtain f where f: "save_source_observation empty_catalog ob = Inr f"
    by (simp add: save_source_observation_def save_record_def)
  show thesis
    by (rule that[of "s\<lparr>world := (world s)\<lparr>lw_observations := f\<rparr>, trace := Observed ob True # trace s\<rparr>"])
      (simp_all add: HttpAcquisition.save_observation_def perform_def local_ports_def writing_def assms f)
qed

lemma demo_utc: "utc_now (local_ports (demo_net answer)) s = (Inr (Aware 0 0), s)"
  by (simp add: utc_now_def query_def perform_def local_ports_def on_net_def demo_net_def)

lemma demo_finish:
  fixes s :: "unit local_world state"
  assumes "started \<le> 3" "readable (lw_checkpoints (world s))" "lw_observations (world s) = empty_catalog"
  obtains ob a s' where "finish (local_ports (demo_net answer)) (demo_in IN_PROGRESS 2 0 None None None) (demo_target QUEUED 0)
      demo_uri demo_uri [] demo_response started s =
      (Inr \<lparr>aq_checkpoint = demo_final COMPLETED (6 - 2 * started) (ob_id ob), aq_artifact = a, aq_observation = ob, aq_response = demo_sn\<rparr>, s')"
    "trace s' = [Checkpointed (demo_final COMPLETED (6 - 2 * started) (ob_id ob)) True, Observed ob True, Stored ''ok'' True,
      Checkpointed (demo_final FINALIZING (3 - started) (ob_id ob)) True] @ trace s"
proof -
  let ?P = "local_ports (demo_net answer)"
  obtain ob where ob: "to_source_observation demo_sn (artifact_id_of demo_body_digest) = Inr ob"
    using demo_sn_observation by blast
  let ?f = "demo_final FINALIZING (3 - started) (ob_id ob)" and ?d = "demo_final COMPLETED (6 - 2 * started) (ob_id ob)"
  note sha = digest_is_sha256[of "''ok''"]
  have d: "durable ?f" "durable ?d" using assms(1) by (simp_all add: demo_in_durable sha)
  obtain s1 where 1: "save ?P ?f s = (Inr (), s1)" "trace s1 = Checkpointed ?f True # trace s"
    "readable (lw_checkpoints (world s1))" "lw_observations (world s1) = empty_catalog"
    using local_save[OF assms(2) d(1)] assms(3) by metis
  obtain a s2 where 2: "put_artifact ?P demo_sn ''ok'' demo_body_digest s1 = (Inr a, s2)"
    "trace s2 = Stored ''ok'' True # trace s1" "readable (lw_checkpoints (world s2))" "lw_observations (world s2) = empty_catalog"
    using demo_outputs[OF ob, of answer s1] 1(3,4) by metis
  obtain s3 where 3: "HttpAcquisition.save_observation ?P ob s2 = (Inr (), s3)"
    "trace s3 = Observed ob True # trace s2" "readable (lw_checkpoints (world s3))"
    using demo_observed[OF 2(4), of answer ob] 2(3) by metis
  obtain s4 where 4: "save ?P ?d s3 = (Inr (), s4)" "trace s4 = Checkpointed ?d True # trace s3"
    using local_save[OF 3(3) d(2)] by metis
  have t: "depth (demo_target QUEUED 0) = 0" "target_id (demo_target QUEUED 0) = demo_tid"
    by (simp_all add: demo_target_def demo_tid_def)
  have sn: "mk_snapshot \<lparr>sn_requested_uri = demo_uri, sn_final_uri = demo_uri, sn_status_code = 200, sn_headers = [],
      sn_redirect_chain = [], sn_depth = 0, sn_observed_at = Aware 0 0\<rparr> = Inr demo_sn"
    using demo_sn_fixed by (simp add: demo_sn_def)
  have e: "elapsed_seconds (cbudget (demo_in st n z x y w)) = z" for st n x y z w by (simp add: demo_in_def)
  have "finish ?P (demo_in IN_PROGRESS 2 0 None None None) (demo_target QUEUED 0) demo_uri demo_uri [] demo_response started s =
      (Inr \<lparr>aq_checkpoint = ?d, aq_artifact = a, aq_observation = ob, aq_response = demo_sn\<rparr>, s4)"
    using ob assms(1) by (simp add: finish_def Let_def demo_utc demo_response_def sn t demo_elapsed e demo_begin demo_complete sha run 1 2 3 4)
  then show thesis by (rule that) (simp add: 1 2 3 4)
qed

lemma demo_answered_run:
  obtains ob a s' where "acquire (local_ports (demo_net (Inr demo_response))) (demo_checkpoint QUEUED 0) demo_tid demo_policy
      None None demo_state =
      (Inr \<lparr>aq_checkpoint = demo_final COMPLETED 0 (ob_id ob), aq_artifact = a, aq_observation = ob, aq_response = demo_sn\<rparr>, s')"
    "trace s' = [Checkpointed (demo_final COMPLETED 0 (ob_id ob)) True, Observed ob True, Stored ''ok'' True,
      Checkpointed (demo_final FINALIZING 0 (ob_id ob)) True, Checkpointed (demo_in IN_PROGRESS 2 0 None None None) True] @
      demo_trace True @ [Checkpointed (demo_in IN_PROGRESS 0 0 None None None) True]"
proof -
  let ?P = "local_ports (demo_net (Inr demo_response))"
  let ?c = "demo_in IN_PROGRESS 0 0 None None None" and ?b = "demo_in IN_PROGRESS 2 0 None None None"
  have c0: "bytes_used (cbudget ?c) = 0" "elapsed_seconds (cbudget ?c) = 0" "bytes_used (cbudget ?b) = 2"
    "elapsed_seconds (cbudget ?b) = 0" by (simp_all add: demo_in_def)
  have d: "durable ?c" "durable ?b" by (simp_all add: demo_in_durable)
  have t: "target_id (demo_target QUEUED 0) = demo_tid" by (simp add: demo_target_def demo_tid_def)
  obtain s1 where 1: "save ?P ?c demo_state = (Inr (), s1)" "trace s1 = [Checkpointed ?c True]"
    "readable (lw_checkpoints (world s1))" "lw_observations (world s1) = empty_catalog"
    using local_save[OF demo_readable d(1)] by (auto simp: demo_state_def demo_world_def)
  obtain s2 where 2: "request_once ?P ?c demo_policy demo_uri 3 s1 = (Inr demo_response, s2)"
    "trace s2 = demo_trace True @ trace s1" "world s2 = world s1"
    using demo_answered[OF c0(1,2)] .
  have "readable (lw_checkpoints (world s2))" using 1(3) 2(3) by simp
  then obtain s3 where 3: "save ?P ?b s2 = (Inr (), s3)" "trace s3 = Checkpointed ?b True # trace s2"
    "readable (lw_checkpoints (world s3))" "lw_observations (world s3) = empty_catalog"
    using local_save[OF _ d(2)] 1(4) 2(3) by metis
  obtain ob a s4 where 4: "finish ?P ?b (demo_target QUEUED 0) demo_uri demo_uri [] demo_response 3 s3 =
      (Inr \<lparr>aq_checkpoint = demo_final COMPLETED 0 (ob_id ob), aq_artifact = a, aq_observation = ob, aq_response = demo_sn\<rparr>, s4)"
    "trace s4 = [Checkpointed (demo_final COMPLETED 0 (ob_id ob)) True, Observed ob True, Stored ''ok'' True,
      Checkpointed (demo_final FINALIZING 0 (ob_id ob)) True] @ trace s3"
    using demo_finish[OF _ 3(3,4), where started = 3 and answer = "Inr demo_response"] by auto
  have r: "rs_body demo_response = ''ok''" "rs_limit_exceeded demo_response = False" "rs_status_code demo_response = 200"
    by (simp_all add: demo_response_def)
  have loop: "acquire_loop ?P demo_policy (demo_target QUEUED 0) demo_uri 3 [] ?c demo_uri s1 =
      (Inr \<lparr>aq_checkpoint = demo_final COMPLETED 0 (ob_id ob), aq_artifact = a, aq_observation = ob, aq_response = demo_sn\<rparr>, s4)"
    by (subst acquire_loop.simps)
      (simp add: with_active_def run 2 3 4 r t demo_respond c0 demo_limits ensure_elapsed_budget_def remaining_elapsed_def
        demo_elapsed demo_location REDIRECT_STATUSES_def)
  have "acquire ?P (demo_checkpoint QUEUED 0) demo_tid demo_policy None None demo_state =
      (Inr \<lparr>aq_checkpoint = demo_final COMPLETED 0 (ob_id ob), aq_artifact = a, aq_observation = ob, aq_response = demo_sn\<rparr>, s4)"
    unfolding demo_entry[OF 1(1) demo_clock] by (simp add: loop catchS_def)
  then show thesis by (rule that) (simp add: 1 2 3 4)
qed

section \<open>The properties of an acquisition at this crawl\<close>

lemma demo_queued_reachable: "reachable demo_policy (demo_checkpoint QUEUED 0)"
  by (meson demo_enqueue reachable.intros tstep.enqueued)

lemma demo_no_trace: "trace demo_state = []"
  by (simp add: demo_state_def)

theorem acquire_disciplined_witness:
  "\<exists>res s' later. acquire (local_ports (demo_net (Inr demo_response))) (demo_checkpoint QUEUED 0) demo_tid demo_policy
      None None demo_state = (Inr res, s') \<and>
    trace s' = later @ demo_trace True @ [Checkpointed (demo_in IN_PROGRESS 0 0 None None None) True] \<and>
    allows_resolved_address demo_policy ''93.184.216.34''"
proof (rule demo_answered_run)
  fix ob a s'
  assume run: "acquire (local_ports (demo_net (Inr demo_response))) (demo_checkpoint QUEUED 0) demo_tid demo_policy
      None None demo_state =
      (Inr \<lparr>aq_checkpoint = demo_final COMPLETED 0 (ob_id ob), aq_artifact = a, aq_observation = ob, aq_response = demo_sn\<rparr>, s')"
    and t: "trace s' = [Checkpointed (demo_final COMPLETED 0 (ob_id ob)) True, Observed ob True, Stored ''ok'' True,
      Checkpointed (demo_final FINALIZING 0 (ob_id ob)) True, Checkpointed (demo_in IN_PROGRESS 2 0 None None None) True] @
      demo_trace True @ [Checkpointed (demo_in IN_PROGRESS 0 0 None None None) True]"
  then have "trace s' = [Checkpointed (demo_final COMPLETED 0 (ob_id ob)) True, Observed ob True, Stored ''ok'' True,
      Checkpointed (demo_final FINALIZING 0 (ob_id ob)) True, Checkpointed (demo_in IN_PROGRESS 2 0 None None None) True] @
      Requested demo_uri ''93.184.216.34'' 1000 True #
      [Resolved ''a.org'' True, Checkpointed (demo_in IN_PROGRESS 0 0 None None None) True]"
    by (simp add: demo_trace_of_def)
  from acquire_disciplined[OF demo_policy_ok demo_no_trace run this]
  have "allows_resolved_address demo_policy ''93.184.216.34''" by simp
  with run t show ?thesis by blast
qed

theorem acquire_request_bound_witness:
  "\<exists>res s'. acquire (local_ports (demo_net (Inr demo_response))) (demo_checkpoint QUEUED 0) demo_tid demo_policy
      None None demo_state = (Inr res, s') \<and> requests (trace s') = 1 \<and> int (requests (trace s')) \<le> max_redirects demo_policy + 1"
  using acquire_request_bound[OF demo_policy_ok demo_queued_reachable demo_no_trace]
  by (rule_tac demo_answered_run) (fastforce simp: demo_trace_of_def)


theorem acquire_outcomes_witness:
  "\<exists>res s'. acquire (local_ports (demo_net (Inr demo_response))) (demo_checkpoint QUEUED 0) demo_tid demo_policy
      None None demo_state = (Inr res, s') \<and> committed demo_tid res (trace s')"
  by (rule demo_answered_run) (use acquire_outcomes[OF demo_policy_ok demo_no_trace] in fastforce)

theorem acquire_is_durable_witness:
  "\<exists>res s'. acquire (local_ports (demo_net (Inr demo_response))) (demo_checkpoint QUEUED 0) demo_tid demo_policy
      None None demo_state = (Inr res, s') \<and>
    get_checkpoint (lw_checkpoints (world s')) 1 = Inr (Some (aq_checkpoint res)) \<and>
    artifact_exists (lw_artifacts (world s')) (ar_sha256 (aq_artifact res))"
proof (rule demo_answered_run)
  fix ob a s'
  assume run: "acquire (local_ports (demo_net (Inr demo_response))) (demo_checkpoint QUEUED 0) demo_tid demo_policy
      None None demo_state =
      (Inr \<lparr>aq_checkpoint = demo_final COMPLETED 0 (ob_id ob), aq_artifact = a, aq_observation = ob, aq_response = demo_sn\<rparr>, s')"
  have i: "checkpoint_id (demo_checkpoint QUEUED 0) = 1" by (simp add: demo_checkpoint_def)
  show ?thesis
    using acquire_is_durable[OF demo_policy_ok demo_durable demo_readable demo_no_trace run] run i by auto
qed

theorem elapsed_charged_twice_witness:
  "\<exists>res s'. finish (local_ports (demo_net (Inr demo_response))) (demo_in IN_PROGRESS 2 0 None None None) (demo_target QUEUED 0)
      demo_uri demo_uri [] demo_response 1 demo_state = (Inr res, s') \<and>
    elapsed_seconds (cbudget (aq_checkpoint res)) = 4"
proof -
  have c: "p_clock (local_ports (demo_net (Inr demo_response))) w = (Inr (Fin 3), w)" for w
    by (simp add: local_ports_def on_net_def demo_net_def)
  have o: "lw_observations (world demo_state) = empty_catalog" by (simp add: demo_state_def demo_world_def)
  obtain res s' where run: "finish (local_ports (demo_net (Inr demo_response))) (demo_in IN_PROGRESS 2 0 None None None)
      (demo_target QUEUED 0) demo_uri demo_uri [] demo_response 1 demo_state = (Inr res, s')"
    by (rule demo_finish[OF _ demo_readable o, where started = 1 and answer = "Inr demo_response"]) simp_all
  show ?thesis using elapsed_charged_twice[OF c run] run by (auto simp: demo_in_def)
qed

theorem recover_finalization_outcomes_witness:
  "\<exists>res s'. recover_finalization (local_ports (demo_net (Inr demo_response))) (demo_final FINALIZING 0 7) demo_tid demo_state =
      (Inl res, s') \<and> recovery_end demo_tid (Inl res) (trace s')"
proof -
  have "get_checkpoint (lw_checkpoints demo_world) 1 = Inr None"
    by (simp add: demo_world_def init_catalog_def get_checkpoint_def read_catalog_def read_document_def empty_document_def
        json_is_one_def json_bucket_def bucket_get_def)
  then have run: "recover_finalization (local_ports (demo_net (Inr demo_response))) (demo_final FINALIZING 0 7) demo_tid demo_state =
      (Inl (CommitError ''HTTP finalization checkpoint is not durable'' (demo_final FINALIZING 0 7)), demo_state)"
    by (simp add: recover_finalization_def lookup_target_def find_target_def demo_in_def query_def perform_def
        local_ports_def reading_def demo_state_def run)
  from recover_finalization_outcomes[OF demo_no_trace run] run show ?thesis by blast
qed

end
