(* ===== verification/ScenarioCrawl.thy ===== *)
theory ScenarioCrawl imports Scenario begin

text \<open>
  One step of a recursive crawl whose request for robots.txt fails: the refresh is charged and cached,
  and the target is skipped. The properties of the policy fetch, of the refresh and of the crawl are
  applied at it.
\<close>

abbreviation robots_txt :: pystr where
  "robots_txt \<equiv> ''https://a.org/robots.txt''"

lemma robots_txt_facts:
  "allows_uri demo_policy robots_txt" "request_hostname robots_txt = Inr ''a.org''"
  "normalize_http_uri robots_txt n = Inr robots_txt" "robots_uri_for demo_uri = Inr robots_txt"
proof -
  show "allows_uri demo_policy robots_txt" unfolding demo_policy_def by code_simp
  show "request_hostname robots_txt = Inr ''a.org''" by code_simp
  show "normalize_http_uri robots_txt n = Inr robots_txt" by (rule normalize_http_uri_name[of _ "''x''"]) code_simp
  show "robots_uri_for demo_uri = Inr robots_txt" unfolding demo_uri_def by code_simp
qed

section \<open>The policy fetch\<close>

definition demo_charged :: checkpoint where
  "demo_charged = (demo_checkpoint QUEUED 0)\<lparr>cbudget := \<lparr>requests_used = 1, bytes_used = 0, elapsed_seconds = 0\<rparr>\<rparr>"

lemma demo_charged_budget: "bytes_used (cbudget demo_charged) = 0" "elapsed_seconds (cbudget demo_charged) = 0"
  by (simp_all add: demo_charged_def)

lemma demo_charged_durable: "durable demo_charged"
  using demo_durable by (simp add: durable_def checkpoint_ok_def demo_charged_def budget_ok_def)

lemma demo_begin_request: "begin_policy_request (demo_checkpoint QUEUED 0) demo_policy 0 0 None = Inr demo_charged"
  by (simp add: begin_policy_request_def allows_request_def demo_policy_def demo_checkpoint_def demo_charged_def
      mk_budget_def require_non_negative_int_def with_budget_def mk_checkpoint_def demo_target_def)

lemma demo_record_elapsed: "record_policy_elapsed demo_charged (Fin 0) = Inr demo_charged"
  by (simp add: record_policy_elapsed_def require_elapsed_def demo_checkpoint_def demo_charged_def
      mk_budget_def require_non_negative_int_def with_budget_def mk_checkpoint_def demo_target_def)

abbreviation dead_ports :: "unit local_world ports" where
  "dead_ports \<equiv> local_ports (demo_net (Inl (OSError [])))"

lemma demo_fetch:
  obtains s' where "fetch dead_ports (demo_checkpoint QUEUED 0) demo_policy robots_txt 0 None demo_state =
      (Inl (PolicyFetchError ''HTTP policy fetch failed: OSError'' demo_charged), s')"
    "trace s' = Checkpointed demo_charged True # demo_trace_of robots_txt False @ [Checkpointed demo_charged True]"
    "readable (lw_checkpoints (world s'))" "lw_robots (world s') = init_robots_cache Missing"
proof -
  have j: "journal_get (lw_journal (world demo_state)) 1 robots_txt = Inr None"
    by (simp add: demo_state_def demo_world_def journal_get_def robots_txt_facts journal_lookup_def
        init_journal_def read_journal_def read_document_def empty_document_def json_is_one_def json_bucket_def bucket_get_def
        policy_fetch_finalization_id_def)
  have c: "checkpoint_id (demo_checkpoint QUEUED 0) = 1" by (simp add: demo_checkpoint_def)
  have q: "query (p_get_finalization dead_ports 1 robots_txt) demo_state = (Inr None, demo_state)"
    using j by (simp add: query_def perform_def local_ports_def reading_def demo_state_def)
  obtain s1 where 1: "save dead_ports demo_charged demo_state = (Inr (), s1)" "trace s1 = [Checkpointed demo_charged True]"
    "readable (lw_checkpoints (world s1))" "lw_robots (world s1) = init_robots_cache Missing"
    using local_save[OF demo_readable demo_charged_durable] by (auto simp: demo_state_def demo_world_def)
  obtain s2 where 2: "request_once dead_ports demo_charged demo_policy robots_txt 3 s1 = (Inl (Raised (OSError [])), s2)"
    "trace s2 = demo_trace_of robots_txt False @ trace s1" "world s2 = world s1"
    using demo_refused[OF robots_txt_facts(1,2) demo_charged_budget] .
  have r2: "readable (lw_checkpoints (world s2))" using 1(3) 2(3) by simp
  obtain s3 where 3: "save dead_ports demo_charged s2 = (Inr (), s3)" "trace s3 = Checkpointed demo_charged True # trace s2"
    "readable (lw_checkpoints (world s3))" "lw_robots (world s3) = init_robots_cache Missing"
    using local_save[OF r2 demo_charged_durable] 1(4) 2(3) by metis
  have loop: "fetch_loop dead_ports demo_policy 0 robots_txt 3 [] demo_charged robots_txt s1 =
      (Inl (Raised (OSError []), demo_charged), s2)"
    by (subst fetch_loop.simps) (simp add: with_active_def run 2)
  have "fetch dead_ports (demo_checkpoint QUEUED 0) demo_policy robots_txt 0 None demo_state =
      (Inl (PolicyFetchError ''HTTP policy fetch failed: OSError'' demo_charged), s3)"
    by (simp add: fetch_def robots_txt_facts c q demo_begin_request 1 demo_clock run loop report_policy_failure_def
        charge_elapsed_def demo_elapsed demo_charged_budget demo_record_elapsed 3)
  then show thesis by (rule that) (simp_all add: 1 2 3)
qed

section \<open>The refresh\<close>

definition demo_unreached :: robots_entry where
  "demo_unreached =
    \<lparr>re_result = \<lparr>rr_robots_uri = robots_txt, rr_outcome = UNREACHABLE, rr_content = None, rr_status_code = None\<rparr>,
     re_fetched_at = Aware 0 0, re_expires_at = plus_time (Aware 0 0) UNREACHABLE_TTL,
     re_observation_id = None, re_artifact_sha256 = None\<rparr>"

lemma demo_failure_entry: "failure_entry robots_txt UNREACHABLE (Aware 0 0) UNREACHABLE_TTL = Inr demo_unreached"
proof -
  have "urlsplit robots_txt = Some \<lparr>sp_scheme = ''https'', sp_netloc = ''a.org'', sp_path = ''/robots.txt'',
      sp_query = [], sp_fragment = []\<rparr>" by code_simp
  then show ?thesis
    by (simp add: failure_entry_def mk_robots_result_def robots_txt_facts mk_entry_def demo_unreached_def ttl_defs
        status_within_def)
qed

lemma demo_no_robots:
  assumes "lw_robots (world s) = init_robots_cache Missing"
  shows "query (p_get_robots (local_ports N) robots_txt) s = (Inr None, s)"
    "\<exists>s'. save_robots (local_ports N) demo_unreached s = (Inr (), s') \<and> trace s' = Cached demo_unreached True # trace s \<and>
      lw_checkpoints (world s') = lw_checkpoints (world s)"
  using assms
  by (simp_all add: query_def save_robots_def perform_def local_ports_def reading_def writing_def cache_get_def robots_txt_facts cache_lookup_def
      init_robots_cache_def read_robots_cache_def read_document_def empty_document_def json_is_one_def json_bucket_def
      bucket_get_def cache_save_def)

lemma demo_refresh:
  obtains s' where "refresh dead_ports (demo_checkpoint QUEUED 0) demo_policy robots_txt 0 (Aware 0 0) None demo_state =
      (Inr \<lparr>rf_checkpoint = demo_charged, rf_entry = demo_unreached, rf_refresh_entry = demo_unreached,
        rf_used_stale_success = False\<rparr>, s')"
    "trace s' = Cached demo_unreached True # Checkpointed demo_charged True # demo_trace_of robots_txt False @
      [Checkpointed demo_charged True]"
    "readable (lw_checkpoints (world s'))"
proof -
  obtain s1 where 1: "fetch dead_ports (demo_checkpoint QUEUED 0) demo_policy robots_txt 0 None demo_state =
      (Inl (PolicyFetchError ''HTTP policy fetch failed: OSError'' demo_charged), s1)"
    "trace s1 = Checkpointed demo_charged True # demo_trace_of robots_txt False @ [Checkpointed demo_charged True]"
    "readable (lw_checkpoints (world s1))" "lw_robots (world s1) = init_robots_cache Missing"
    by (rule demo_fetch)
  obtain s2 where 2: "save_robots dead_ports demo_unreached s1 = (Inr (), s2)" "trace s2 = Cached demo_unreached True # trace s1"
    "readable (lw_checkpoints (world s2))"
    using demo_no_robots(2)[OF 1(4)] 1(3) by metis
  have r0: "lw_robots (world demo_state) = init_robots_cache Missing" by (simp add: demo_state_def demo_world_def)
  have "refresh dead_ports (demo_checkpoint QUEUED 0) demo_policy robots_txt 0 (Aware 0 0) None demo_state =
      (Inr \<lparr>rf_checkpoint = demo_charged, rf_entry = demo_unreached, rf_refresh_entry = demo_unreached,
        rf_used_stale_success = False\<rparr>, s2)"
    by (simp add: refresh_def require_aware_def demo_no_robots(1)[OF r0] try_fetch_def 1 run demo_failure_entry
        finish_unreachable_def finish_refresh_def 2 mk_refresh_result_def)
  then show thesis by (rule that) (simp_all add: 1 2)
qed

section \<open>The step\<close>

abbreviation demo_skip_reason :: pystr where
  "demo_skip_reason \<equiv> ''recursive crawl policy denied target: robots_or_technical_deny''"

definition demo_skipped :: checkpoint where
  "demo_skipped = demo_charged\<lparr>targets := [(demo_target QUEUED 0)\<lparr>status := SKIPPED, last_error := Some demo_skip_reason\<rparr>]\<rparr>"

lemma demo_skip: "skip demo_charged demo_tid demo_skip_reason = Inr demo_skipped"
proof -
  have "\<not> blank demo_skip_reason" "strip demo_skip_reason = demo_skip_reason" by code_simp+
  then show ?thesis
    by (simp add: skip_def require_reason_def require_target_def find_target_def mk_target_def demo_uri_canonical
        require_depth_def replace_target_def replace_by_def mk_checkpoint_def demo_skipped_def demo_charged_def
        demo_checkpoint_def demo_target_def demo_tid_def)
qed

lemma demo_skipped_durable: "durable demo_skipped"
proof -
  have "\<not> blank demo_skip_reason" by code_simp
  then show ?thesis using demo_charged_durable
    by (simp add: durable_def checkpoint_ok_def demo_skipped_def demo_charged_def demo_checkpoint_def demo_target_def
        target_ok_def)
qed

definition demo_grant :: rights where
  "demo_grant = (demo_rights True)\<lparr>ri_target_uri := demo_uri\<rparr>"

definition demo_denial :: crawl_decision where
  "demo_denial =
    \<lparr>cd_target_uri = demo_uri, cd_robots_uri = robots_txt, cd_product_token = ''Bot'', cd_allowed = False,
     cd_reason = ROBOTS_UNREACHABLE, cd_outcome = UNREACHABLE, cd_interval = 0\<rparr>"

lemma demo_normal: "normalize_http_uri demo_uri n = Inr demo_uri"
  using demo_uri_canonical by (simp add: normalize_durable_http_uri_def)

lemma demo_denied: "evaluate_robots_access demo_uri ''Bot'' demo_policy (re_result demo_unreached) = Inr demo_denial"
proof -
  have "is_product_token (strip ''Bot'')" "strip ''Bot'' = ''Bot''" by code_simp+
  then show ?thesis
    by (simp add: evaluate_robots_access_def demo_normal robots_txt_facts demo_allowed demo_unreached_def decision_def
        mk_crawl_decision_def demo_denial_def Let_def)
       (simp add: demo_policy_def)
qed

definition demo_ineligible :: eligibility where
  "demo_ineligible =
    \<lparr>el_target_uri = demo_uri, el_allowed = False, el_reason = ROBOTS_OR_TECHNICAL_DENY, el_crawl = demo_denial,
     el_rights = demo_grant\<rparr>"

lemma demo_combined: "combine_crawl_eligibility demo_denial demo_grant = Inr demo_ineligible"
  by (simp add: combine_crawl_eligibility_def mk_eligibility_def expected_eligibility_def demo_denial_def demo_grant_def
      demo_ineligible_def demo_normal)

lemma demo_gate_save:
  fixes s :: "unit local_world state"
  assumes "readable (lw_checkpoints (world s))"
  obtains s' where "gate_save (local_ports N) demo_skipped s = (Inr (), s')" "trace s' = Checkpointed demo_skipped True # trace s"
proof -
  obtain s' where "save (local_ports N) demo_skipped s = (Inr (), s')" "trace s' = Checkpointed demo_skipped True # trace s"
    using local_save[OF assms demo_skipped_durable] by metis
  then show thesis using that by (simp add: save_def gate_save_def mapErr_Inr)
qed

lemma demo_gate_facts:
  assumes "c = demo_checkpoint QUEUED 0 \<or> c = demo_charged"
  shows "crawl_queued_target c demo_tid = Inr (demo_target QUEUED 0)"
    "validate_rights_for_target (demo_target QUEUED 0) demo_grant = Inr ()"
    "uri (demo_target QUEUED 0) = demo_uri" "depth (demo_target QUEUED 0) = 0"
    "target_id (demo_target QUEUED 0) = demo_tid"
    "allows_request (cbudget c) demo_policy 0 0 None = Inr (c \<noteq> demo_charged \<or> True)"
    "allows_request (cbudget c) demo_policy 0 0 (Some (Fin 0)) = Inr True"
  using assms
  by (auto simp: crawl_queued_target_def find_target_def validate_rights_for_target_def demo_checkpoint_def demo_charged_def
      demo_target_def demo_tid_def demo_grant_def allows_request_def demo_policy_def nonneg_float_def)

lemma demo_early:
  assumes "c = demo_checkpoint QUEUED 0 \<and> since = None \<or> c = demo_charged \<and> since = Some (Fin 0)"
  shows "evaluate_early_policy P c (demo_target QUEUED 0) demo_policy since s = (Inr None, s)"
  using assms demo_gate_facts[of c] by (auto simp: evaluate_early_policy_def demo_allowed run)

lemma demo_crawl:
  obtains g r s' where "crawl_acquire dead_ports (demo_checkpoint QUEUED 0) demo_tid demo_policy ''Bot'' demo_grant (Aware 0 0)
      None None demo_state = (Inr \<lparr>cr_gate = g, cr_acquisition = None, cr_robots_refresh = Some r\<rparr>, s')"
    "gr_status g = GATE_SKIPPED" "gr_checkpoint g = demo_skipped"
    "trace s' = [Checkpointed demo_skipped True, Cached demo_unreached True, Checkpointed demo_charged True] @
      demo_trace_of robots_txt False @ [Checkpointed demo_charged True]"
proof -
  let ?c = "demo_checkpoint QUEUED 0"
  let ?r = "\<lparr>rf_checkpoint = demo_charged, rf_entry = demo_unreached, rf_refresh_entry = demo_unreached,
    rf_used_stale_success = False\<rparr>"
  let ?need = "\<lparr>gr_status = ROBOTS_REFRESH_REQUIRED, gr_checkpoint = ?c, gr_target_id = demo_tid,
    gr_robots_uri = Some robots_txt, gr_robots_entry = None, gr_eligibility = None, gr_effective_policy = None\<rparr>"
  let ?g = "\<lparr>gr_status = GATE_SKIPPED, gr_checkpoint = demo_skipped, gr_target_id = demo_tid,
    gr_robots_uri = Some robots_txt, gr_robots_entry = Some demo_unreached, gr_eligibility = Some demo_ineligible,
    gr_effective_policy = None\<rparr>"
  note facts = demo_gate_facts[of ?c, simplified] demo_gate_facts[of demo_charged, simplified]
  have r0: "lw_robots (world demo_state) = init_robots_cache Missing" by (simp add: demo_state_def demo_world_def)
  have gate: "gate_evaluate dead_ports ?c demo_tid demo_policy ''Bot'' demo_grant (Aware 0 0) None demo_state = (Inr ?need, demo_state)"
    by (simp add: gate_evaluate_def facts demo_early robots_txt_facts demo_no_robots(1)[OF r0] mk_gate_result_def run)
  obtain s1 where 1: "refresh dead_ports ?c demo_policy robots_txt 0 (Aware 0 0) None demo_state = (Inr ?r, s1)"
    "trace s1 = Cached demo_unreached True # Checkpointed demo_charged True # demo_trace_of robots_txt False @
      [Checkpointed demo_charged True]" "readable (lw_checkpoints (world s1))"
    by (rule demo_refresh)
  obtain s2 where 2: "gate_save dead_ports demo_skipped s1 = (Inr (), s2)" "trace s2 = Checkpointed demo_skipped True # trace s1"
    using demo_gate_save[OF 1(3)] .
  have e: "entry_uri demo_unreached = robots_txt" by (simp add: entry_uri_def demo_unreached_def)
  have again: "evaluate_refreshed_entry dead_ports demo_charged demo_tid demo_policy ''Bot'' demo_grant demo_unreached
      (Some (Fin 0)) s1 = (Inr ?g, s2)"
    by (simp add: evaluate_refreshed_entry_def facts demo_early robots_txt_facts e evaluate_entry_after_precheck_def demo_denied
        demo_combined gate_skip_def demo_skip 2 entry_gate_def mk_gate_result_def run demo_ineligible_def)
  have "crawl_acquire dead_ports ?c demo_tid demo_policy ''Bot'' demo_grant (Aware 0 0) None None demo_state =
      (Inr \<lparr>cr_gate = ?g, cr_acquisition = None, cr_robots_refresh = Some ?r\<rparr>, s2)"
    by (simp add: crawl_acquire_def gate facts 1 again acquire_if_ready_def mk_crawl_result_def run)
  then show thesis by (rule that) (simp_all add: 1 2)
qed

section \<open>The properties of the services at this step\<close>

lemma demo_constructed: "constructed demo_policy"
proof -
  have "normalize_scheme ''https'' = Inr ''https''" "normalize_domain ''a.org'' = Inr ''a.org''" by code_simp+
  then show ?thesis
    by (simp add: constructed_def with_interval_def mk_policy_def demo_policy_def require_non_negative_int_def pos_float_def
        nonneg_float_def)
qed

theorem policy_fetch_disciplined_witness:
  "\<exists>res s' later. fetch dead_ports (demo_checkpoint QUEUED 0) demo_policy robots_txt 0 None demo_state = (res, s') \<and>
    trace s' = later @ demo_trace_of robots_txt False @ [Checkpointed demo_charged True] \<and>
    allows_uri demo_policy robots_txt \<and> last_saved [Checkpointed demo_charged True] = Some demo_charged"
proof (rule demo_fetch)
  fix s'
  assume run: "fetch dead_ports (demo_checkpoint QUEUED 0) demo_policy robots_txt 0 None demo_state =
      (Inl (PolicyFetchError ''HTTP policy fetch failed: OSError'' demo_charged), s')"
    and t: "trace s' = Checkpointed demo_charged True # demo_trace_of robots_txt False @ [Checkpointed demo_charged True]"
  have "trace s' = [Checkpointed demo_charged True] @ Requested robots_txt ''93.184.216.34'' 1000 False #
      Resolved ''a.org'' True # [Checkpointed demo_charged True]"
    using t by (simp add: demo_trace_of_def)
  from policy_fetch_disciplined[OF demo_policy_ok demo_no_trace run this]
  have "allows_uri demo_policy robots_txt" by blast
  with run t show ?thesis by (intro exI[of _ "[Checkpointed demo_charged True]"] exI conjI) auto
qed

theorem policy_fetch_charges_only_witness:
  "\<exists>res s'. fetch dead_ports (demo_checkpoint QUEUED 0) demo_policy robots_txt 0 None demo_state = (res, s') \<and>
    Checkpointed demo_charged True \<in> set (trace s') \<and> requests_used (cbudget demo_charged) \<le> 10"
proof (rule demo_fetch)
  fix s'
  assume run: "fetch dead_ports (demo_checkpoint QUEUED 0) demo_policy robots_txt 0 None demo_state =
      (Inl (PolicyFetchError ''HTTP policy fetch failed: OSError'' demo_charged), s')"
    and t: "trace s' = Checkpointed demo_charged True # demo_trace_of robots_txt False @ [Checkpointed demo_charged True]"
  have m: "Checkpointed demo_charged True \<in> set (trace s')" using t by simp
  have "requests_used (cbudget demo_charged) \<le> 10"
    using conjunct2[OF policy_fetch_charges_only[OF demo_policy_ok demo_no_trace run], rule_format, OF m]
    by (simp add: demo_policy_def demo_checkpoint_def)
  with run m show ?thesis by blast
qed

theorem policy_fetch_outcomes_witness:
  "\<exists>e s'. fetch dead_ports (demo_checkpoint QUEUED 0) demo_policy robots_txt 0 None demo_state = (Inl e, s') \<and>
    fetch_error (demo_checkpoint QUEUED 0) e (trace s')"
  by (rule demo_fetch) (use policy_fetch_outcomes[OF demo_policy_ok demo_no_trace] in fastforce)

theorem robots_refresh_selects_witness:
  "\<exists>r s'. refresh dead_ports (demo_checkpoint QUEUED 0) demo_policy robots_txt 0 (Aware 0 0) None demo_state = (Inr r, s') \<and>
    rf_entry r = demo_unreached \<and> refreshed demo_policy (demo_checkpoint QUEUED 0) (Aware 0 0) r (trace s')"
  by (rule demo_refresh) (use robots_refresh_selects[OF demo_policy_ok demo_no_trace] in fastforce)


theorem crawl_paces_after_refresh_witness:
  "\<exists>r s' acquiring refreshing. crawl_acquire dead_ports (demo_checkpoint QUEUED 0) demo_tid demo_policy ''Bot'' demo_grant
      (Aware 0 0) None None demo_state = (Inr r, s') \<and> trace s' = acquiring @ refreshing \<and> requests (trace s') = 1"
proof (rule demo_crawl)
  fix g r s'
  assume run: "crawl_acquire dead_ports (demo_checkpoint QUEUED 0) demo_tid demo_policy ''Bot'' demo_grant (Aware 0 0)
      None None demo_state = (Inr \<lparr>cr_gate = g, cr_acquisition = None, cr_robots_refresh = Some r\<rparr>, s')"
    and t: "trace s' = [Checkpointed demo_skipped True, Cached demo_unreached True, Checkpointed demo_charged True] @
      demo_trace_of robots_txt False @ [Checkpointed demo_charged True]"
  have "0 \<le> requests_used (cbudget (demo_checkpoint QUEUED 0))" by (simp add: demo_checkpoint_def)
  from crawl_paces_after_refresh[OF demo_constructed this demo_no_trace run] run t show ?thesis
    by (auto simp: demo_trace_of_def)
qed

theorem crawl_step_outcomes_witness:
  "\<exists>r s' acquiring refreshing. crawl_acquire dead_ports (demo_checkpoint QUEUED 0) demo_tid demo_policy ''Bot'' demo_grant
      (Aware 0 0) None None demo_state = (Inr r, s') \<and> trace s' = acquiring @ refreshing \<and>
    gr_status (cr_gate r) = GATE_SKIPPED \<and> step_end demo_tid r acquiring"
proof (rule demo_crawl)
  fix g r s'
  assume run: "crawl_acquire dead_ports (demo_checkpoint QUEUED 0) demo_tid demo_policy ''Bot'' demo_grant (Aware 0 0)
      None None demo_state = (Inr \<lparr>cr_gate = g, cr_acquisition = None, cr_robots_refresh = Some r\<rparr>, s')"
    and "gr_status g = GATE_SKIPPED"
  then show ?thesis using crawl_step_outcomes[OF demo_constructed demo_no_trace run] by auto
qed

end
