(* ===== verification/PyCoerce.thy ===== *)
theory PyCoerce imports PyData begin

text \<open>
  Python's \<open>str(x)\<close>, \<open>int(x)\<close>, \<open>dict(x)\<close>, \<open>tuple(x)\<close> and \<open>datetime.fromisoformat(str(x))\<close> on decoded JSON, as the
  stores of jobs and wallets apply them to fields. On a value of the type the program writes they are
  the identity; what they make of a value of any other type is a parameter.
\<close>

record coercions =
  co_str :: "json \<Rightarrow> pystr"
  co_int :: "json \<Rightarrow> exc + int"
  co_dict :: "json \<Rightarrow> exc + (pystr \<times> json) list"
  co_time :: "json \<Rightarrow> exc + datetime"
  co_list :: "json \<Rightarrow> exc + json list"

fun as_str :: "coercions \<Rightarrow> json \<Rightarrow> pystr" where
  "as_str K (JStr s) = s"
| "as_str K j = co_str K j"

fun as_int :: "coercions \<Rightarrow> json \<Rightarrow> exc + int" where
  "as_int K (JInt i) = Inr i"
| "as_int K j = co_int K j"

fun as_dict :: "coercions \<Rightarrow> json \<Rightarrow> exc + (pystr \<times> json) list" where
  "as_dict K (JObj kvs) = Inr kvs"
| "as_dict K j = co_dict K j"

fun as_time :: "coercions \<Rightarrow> json \<Rightarrow> exc + datetime" where
  "as_time K (JTime d) = Inr d"
| "as_time K j = co_time K j"

fun as_list :: "coercions \<Rightarrow> json \<Rightarrow> exc + json list" where
  "as_list K (JList xs) = Inr xs"
| "as_list K j = co_list K j"

text \<open>An enumeration called on a value: the member with that value, or a \<open>ValueError\<close>.\<close>

definition parse_member :: "('a \<Rightarrow> pystr) \<Rightarrow> 'a list \<Rightarrow> json \<Rightarrow> exc + 'a" where
  "parse_member val members v =
    (case find (\<lambda>x. v = JStr (val x)) members of
       Some x \<Rightarrow> Inr x
     | None \<Rightarrow> Inl (ValueError ''not a valid member''))"

text \<open>Coercions that accept nothing but the types the program writes.\<close>

definition no_coercions :: coercions where
  "no_coercions = \<lparr>co_str = (\<lambda>_. []), co_int = (\<lambda>_. Inl (OtherError ''TypeError'' [])), co_dict = (\<lambda>_. Inl (OtherError ''TypeError'' [])),
    co_time = (\<lambda>_. Inl (OtherError ''TypeError'' [])), co_list = (\<lambda>_. Inl (OtherError ''TypeError'' []))\<rparr>"

text \<open>\<open>len(text)\<close> counts code points: the bytes that do not continue a character.\<close>

definition char_count :: "pystr \<Rightarrow> nat" where
  "char_count s = length (filter (\<lambda>c. code c < 128 \<or> 192 \<le> code c) s)"

text \<open>\<open>bool(x)\<close> of a decoded value.\<close>

fun truthy :: "json \<Rightarrow> bool" where
  "truthy JNull = False"
| "truthy (JBool b) = b"
| "truthy (JInt i) = (i \<noteq> 0)"
| "truthy (JFloat x) = (x \<noteq> 0)"
| "truthy (JStr s) = (s \<noteq> [])"
| "truthy (JTime d) = True"
| "truthy (JList xs) = (xs \<noteq> [])"
| "truthy (JObj kvs) = (kvs \<noteq> [])"

text \<open>
  \<open>json.dump(data, sort_keys=True)\<close>: the records of a bucket are written, and later read, in the order of
  their keys.
\<close>

definition write_sorted :: "(pystr \<times> json) list \<Rightarrow> pystr \<Rightarrow> (pystr \<times> json) list \<Rightarrow> json_file" where
  "write_sorted data name bucket = set_bucket data name (sort_key fst bucket)"

text \<open>
  The documents of these stores, \<open>{"schema_version": 1, name: {key: record}}\<close>: a file that is missing or
  does not decode is a \<open>RuntimeError\<close>.
\<close>

definition read_store :: "pystr \<Rightarrow> pystr \<Rightarrow> json_file \<Rightarrow> exc + (pystr \<times> json) list" where
  "read_store what name f =
    (case f of
       Missing \<Rightarrow> Inl (RuntimeError (''unable to read '' @ what))
     | Malformed \<Rightarrow> Inl (RuntimeError (''unable to read '' @ what))
     | Document doc \<Rightarrow>
         bindE (check (is_object doc \<and> json_is_one (jget doc ''schema_version''))
                  (RuntimeError (''unsupported '' @ what @ '' schema''))) (\<lambda>_.
         bindE (check (case jget doc name of None \<Rightarrow> False | Some b \<Rightarrow> is_object b)
                  (RuntimeError (''invalid '' @ what @ '': '' @ name @ '' must be a JSON object''))) (\<lambda>_.
         Inr (entries doc))))"

lemma read_store_Inr:
  "read_store what name f = Inr data \<longleftrightarrow>
    f = Document (JObj data) \<and> json_is_one (map_of data ''schema_version'') \<and>
    (\<exists>b. map_of data name = Some (JObj b))"
proof -
  have obj: "is_object x \<longleftrightarrow> (\<exists>b. x = JObj b)" for x by (cases x) auto
  show ?thesis
    by (cases f) (auto simp: read_store_def res_simps obj jget_entries split: option.splits)
qed

lemma read_write_sorted:
  assumes "read_store what name f = Inr data" "name \<noteq> ''schema_version''"
  shows "\<exists>data'. read_store what name (write_sorted data name b) = Inr data' \<and> json_bucket data' name = sort_key fst b"
  using assms by (auto simp: read_store_Inr write_sorted_def set_bucket_def json_bucket_def)

lemma read_empty_store [simp]:
  "name \<noteq> ''schema_version'' \<Longrightarrow>
    \<exists>data. read_store what name (empty_document name) = Inr data \<and> json_bucket data name = []"
  by (auto simp: read_store_Inr empty_document_def json_is_one_def json_bucket_def)

section \<open>Records kept under their keys\<close>

text \<open>A bucket that holds the records \<open>xs\<close> in the order of their keys.\<close>

definition bucket_of :: "('a \<Rightarrow> pystr) \<Rightarrow> ('a \<Rightarrow> json) \<Rightarrow> 'a list \<Rightarrow> (pystr \<times> json) list" where
  "bucket_of key put xs = map (\<lambda>x. (key x, put x)) xs"

lemma map_insort_key: "map g (insort_key (\<lambda>x. f (g x)) x xs) = insort_key f (g x) (map g xs)"
  by (induction xs) auto

lemma map_sort_key: "map g (sort_key (\<lambda>x. f (g x)) xs) = sort_key f (map g xs)"
  by (induction xs) (simp_all add: map_insort_key)

lemma sort_bucket_of: "sort_key fst (bucket_of key put xs) = bucket_of key put (sort_key key xs)"
  unfolding bucket_of_def using map_sort_key[of "\<lambda>x. (key x, put x)" fst xs] by (simp add: comp_def)

lemma replace_by_absent: "key v \<notin> key ` set xs \<Longrightarrow> replace_by key v xs = xs"
  unfolding replace_by_def by (intro map_idI) (metis image_eqI)

lemma jset_replace:
  assumes "distinct (map key xs)" "key v \<in> key ` set xs"
  shows "jset (bucket_of key put xs) (key v) (put v) = bucket_of key put (replace_by key v xs)"
  using assms
proof (induction xs)
  case (Cons x xs)
  have r: "replace_by key v (x # xs) = (if key x = key v then v else x) # replace_by key v xs"
    by (simp add: replace_by_def)
  show ?case
  proof (cases "key x = key v")
    case True
    with Cons have "key v \<notin> key ` set xs" by auto
    then show ?thesis using True by (simp add: r replace_by_absent bucket_of_def)
  next
    case False
    with Cons show ?thesis by (auto simp: r bucket_of_def)
  qed
qed simp

lemma jset_append:
  "key v \<notin> key ` set xs \<Longrightarrow> jset (bucket_of key put xs) (key v) (put v) = bucket_of key put (xs @ [v])"
  by (induction xs) (auto simp: bucket_of_def)

lemma sorted_replace: "sorted (map key xs) \<Longrightarrow> sort_key key (replace_by key v xs) = replace_by key v xs"
  by (rule sort_key_id_if_sorted) simp

text \<open>
  A file that holds the records \<open>xs\<close>: what a store keeps of it under replacing one record and adding
  another.
\<close>

definition records_at ::
  "pystr \<Rightarrow> pystr \<Rightarrow> ('a \<Rightarrow> pystr) \<Rightarrow> ('a \<Rightarrow> json) \<Rightarrow> json_file \<Rightarrow> 'a list \<Rightarrow> bool" where
  "records_at what name key put f xs \<longleftrightarrow> distinct (map key xs) \<and> sorted (map key xs) \<and>
    (\<exists>data. read_store what name f = Inr data \<and> json_bucket data name = bucket_of key put xs)"

lemma records_init:
  "name \<noteq> ''schema_version'' \<Longrightarrow> records_at what name key put (empty_document name) []"
  using read_empty_store[of name what] by (auto simp: records_at_def bucket_of_def)

lemma records_lookup:
  "(\<And>x. put x \<noteq> JNull) \<Longrightarrow>
    bucket_get (bucket_of key put xs) k = map_option put (find (\<lambda>x. key x = k) xs)"
  by (induction xs) (auto simp: bucket_of_def bucket_get_def split: json.splits)

lemma write_records:
  assumes "read_store what name f = Inr data" "name \<noteq> ''schema_version''"
    and "jset (json_bucket data name) (key v) (put v) = bucket_of key put xs" "distinct (map key xs)"
  shows "records_at what name key put (write_sorted data name (jset (json_bucket data name) (key v) (put v)))
    (sort_key key xs)"
  using read_write_sorted[OF assms(1,2), of "bucket_of key put xs"] assms(3,4)
  by (auto simp: records_at_def sort_bucket_of distinct_map)

lemma records_known:
  assumes "records_at what name key put f xs" "key v \<in> key ` set xs"
    and "read_store what name f = Inr data" "name \<noteq> ''schema_version''"
  shows "records_at what name key put (write_sorted data name (jset (json_bucket data name) (key v) (put v)))
    (replace_by key v xs)"
proof -
  have d: "distinct (map key xs)" "sorted (map key xs)" "json_bucket data name = bucket_of key put xs"
    using assms(1,3) by (auto simp: records_at_def)
  then have "jset (json_bucket data name) (key v) (put v) = bucket_of key put (replace_by key v xs)"
    using assms(2) by (simp add: jset_replace)
  from write_records[OF assms(3,4) this] show ?thesis using d(1,2) by (simp add: sorted_replace)
qed

lemma records_new:
  assumes "records_at what name key put f xs" "key v \<notin> key ` set xs"
    and "read_store what name f = Inr data" "name \<noteq> ''schema_version''"
  shows "records_at what name key put (write_sorted data name (jset (json_bucket data name) (key v) (put v)))
    (sort_key key (xs @ [v]))"
proof -
  have d: "distinct (map key xs)" "json_bucket data name = bucket_of key put xs"
    using assms(1,3) by (auto simp: records_at_def)
  then have "jset (json_bucket data name) (key v) (put v) = bucket_of key put (xs @ [v])"
    using assms(2) by (simp add: jset_append)
  from write_records[OF assms(3,4) this] show ?thesis using d(1) assms(2) by simp
qed

section \<open>Texts\<close>

text \<open>\<open>x.strip()\<close> of a value that is no text is an \<open>AttributeError\<close>.\<close>

fun jtext :: "json \<Rightarrow> exc + pystr" where
  "jtext (JStr s) = Inr s"
| "jtext _ = Inl (OtherError ''AttributeError'' ''object has no attribute strip'')"

fun jopt_text :: "json option \<Rightarrow> exc + pystr option" where
  "jopt_text None = Inr None"
| "jopt_text (Some JNull) = Inr None"
| "jopt_text (Some j) = mapE Some (jtext j)"

lemma jopt_text_str [simp]: "jopt_text (Some (jopt JStr x)) = Inr x"
  by (cases x) (simp_all add: jopt_def)

end
