(* ===== verification/Jobs.thy ===== *)
theory Jobs imports PyCoerce begin

text \<open>
  \<open>application/scale.py\<close> and \<open>infrastructure/storage/json_job_store.py\<close>: scale quotas, and research jobs
  that are claimed by one worker at a time. A job is identified by its kind, input, configuration and
  scope; a failed job can be claimed again.
\<close>

section \<open>Quotas\<close>

record quota =
  qu_wallet_tokens :: int
  qu_expansions :: int
  qu_provider_calls :: int
  qu_bytes_stored :: int
  qu_crawl_depth :: int

definition mk_quota :: "quota \<Rightarrow> exc + quota" where
  "mk_quota q =
    bindE (mapM (\<lambda>(name, value). check (0 \<le> value)
             (ValueError (''scale quota '' @ name @ '' must be a non-negative integer'')))
             [(''wallet_tokens'', qu_wallet_tokens q), (''expansions'', qu_expansions q),
              (''provider_calls'', qu_provider_calls q), (''bytes_stored'', qu_bytes_stored q),
              (''crawl_depth'', qu_crawl_depth q)]) (\<lambda>_.
    Inr q)"

definition require_within :: "pystr \<Rightarrow> int \<Rightarrow> int \<Rightarrow> exc + unit" where
  "require_within dimension used limit =
    bindE (check (0 \<le> used)
             (ValueError (''scale quota usage '' @ dimension @ '' must be a non-negative integer''))) (\<lambda>_.
    check (used \<le> limit) (OtherError ''ScaleQuotaExceededError'' dimension))"

definition require_tokens :: "quota \<Rightarrow> int \<Rightarrow> exc + unit" where
  "require_tokens q estimated = require_within ''wallet_tokens'' estimated (qu_wallet_tokens q)"

definition require_expansions :: "quota \<Rightarrow> int \<Rightarrow> exc + unit" where
  "require_expansions q count = require_within ''expansions'' count (qu_expansions q)"

definition require_provider_calls :: "quota \<Rightarrow> int \<Rightarrow> exc + unit" where
  "require_provider_calls q count = require_within ''provider_calls'' count (qu_provider_calls q)"

definition require_bytes :: "quota \<Rightarrow> int \<Rightarrow> exc + unit" where
  "require_bytes q n = require_within ''bytes_stored'' n (qu_bytes_stored q)"

definition require_crawl_depth :: "quota \<Rightarrow> int \<Rightarrow> exc + unit" where
  "require_crawl_depth q d = require_within ''crawl_depth'' d (qu_crawl_depth q)"

section \<open>Jobs\<close>

datatype job_kind = INGEST | EXTRACT | INDEX | COMPILE

datatype job_status = JOB_QUEUED | JOB_RUNNING | JOB_COMPLETED | JOB_FAILED

record job =
  jb_id :: uuid
  jb_kind :: job_kind
  jb_input_digest :: pystr
  jb_configuration :: pystr
  jb_library :: "uuid option"
  jb_workspace :: "uuid option"
  jb_checkpoint :: "(pystr \<times> json) list"
  jb_status :: job_status
  jb_created_at :: datetime
  jb_updated_at :: datetime

definition mk_job :: "job \<Rightarrow> exc + job" where
  "mk_job j =
    bindE (check (\<not> blank (jb_input_digest j))
             (ValueError ''research job input_digest must not be blank'')) (\<lambda>_.
    bindE (check (\<not> blank (jb_configuration j))
             (ValueError ''research job configuration_fingerprint must not be blank'')) (\<lambda>_.
    Inr j))"

record claim =
  cl_job :: job
  cl_acquired :: bool

fun kind_value :: "job_kind \<Rightarrow> pystr" where
  "kind_value INGEST = ''ingest''"
| "kind_value EXTRACT = ''extract''"
| "kind_value INDEX = ''index''"
| "kind_value COMPILE = ''compile''"

fun job_status_value :: "job_status \<Rightarrow> pystr" where
  "job_status_value JOB_QUEUED = ''queued''"
| "job_status_value JOB_RUNNING = ''running''"
| "job_status_value JOB_COMPLETED = ''completed''"
| "job_status_value JOB_FAILED = ''failed''"

definition parse_kind :: "json \<Rightarrow> exc + job_kind" where
  "parse_kind = parse_member kind_value [INGEST, EXTRACT, INDEX, COMPILE]"

definition parse_job_status :: "json \<Rightarrow> exc + job_status" where
  "parse_job_status = parse_member job_status_value [JOB_QUEUED, JOB_RUNNING, JOB_COMPLETED, JOB_FAILED]"

definition job_to_dict :: "job \<Rightarrow> json" where
  "job_to_dict j = JObj
    [(''job_id'', JStr (uuid_str (jb_id j))),
     (''kind'', JStr (kind_value (jb_kind j))),
     (''input_digest'', JStr (jb_input_digest j)),
     (''configuration_fingerprint'', JStr (jb_configuration j)),
     (''library_id'', jopt (\<lambda>u. JStr (uuid_str u)) (jb_library j)),
     (''workspace_id'', jopt (\<lambda>u. JStr (uuid_str u)) (jb_workspace j)),
     (''checkpoint'', JObj (jb_checkpoint j)),
     (''status'', JStr (job_status_value (jb_status j))),
     (''created_at'', JTime (jb_created_at j)),
     (''updated_at'', JTime (jb_updated_at j))]"

definition job_view :: "job \<Rightarrow> json" where
  "job_view j = JObj
    [(''job_id'', JStr (uuid_str (jb_id j))),
     (''kind'', JStr (kind_value (jb_kind j))),
     (''status'', JStr (job_status_value (jb_status j))),
     (''input_digest'', JStr (jb_input_digest j)),
     (''configuration_fingerprint'', JStr (jb_configuration j)),
     (''library_id'', jopt (\<lambda>u. JStr (uuid_str u)) (jb_library j)),
     (''workspace_id'', jopt (\<lambda>u. JStr (uuid_str u)) (jb_workspace j)),
     (''checkpoint'', JObj (jb_checkpoint j))]"

definition job_from_dict :: "coercions \<Rightarrow> json \<Rightarrow> exc + job" where
  "job_from_dict K raw =
    as_runtime ''invalid job record''
     (bindE (bindE (jitem raw ''job_id'') juuid) (\<lambda>jid.
      bindE (bindE (jitem raw ''kind'') parse_kind) (\<lambda>kind.
      bindE (jitem raw ''input_digest'') (\<lambda>digest.
      bindE (jitem raw ''configuration_fingerprint'') (\<lambda>configuration.
      bindE (jopt_uuid_given (jget raw ''library_id'')) (\<lambda>lib.
      bindE (jopt_uuid_given (jget raw ''workspace_id'')) (\<lambda>workspace.
      bindE (case jget raw ''checkpoint'' of
               None \<Rightarrow> Inr []
             | Some v \<Rightarrow> if truthy v then as_dict K v else Inr []) (\<lambda>checkpoint.
      bindE (bindE (jitem raw ''status'') parse_job_status) (\<lambda>st.
      bindE (bindE (jitem raw ''created_at'') jtime) (\<lambda>created.
      bindE (bindE (jitem raw ''updated_at'') jtime) (\<lambda>updated.
      mk_job \<lparr>jb_id = jid, jb_kind = kind, jb_input_digest = as_str K digest,
        jb_configuration = as_str K configuration, jb_library = lib, jb_workspace = workspace,
        jb_checkpoint = checkpoint, jb_status = st, jb_created_at = created,
        jb_updated_at = updated\<rparr>)))))))))))"

definition same_identity :: "job \<Rightarrow> job \<Rightarrow> bool" where
  "same_identity l r \<longleftrightarrow>
    jb_kind l = jb_kind r \<and> jb_input_digest l = jb_input_digest r \<and>
    jb_configuration l = jb_configuration r \<and> jb_library l = jb_library r \<and> jb_workspace l = jb_workspace r"

section \<open>The store\<close>

definition init_jobs :: "json_file \<Rightarrow> json_file" where
  "init_jobs f = (if f = Missing then empty_document ''jobs'' else f)"

definition read_jobs :: "json_file \<Rightarrow> exc + (pystr \<times> json) list" where
  "read_jobs f = read_store ''job store'' ''jobs'' f"

definition job_save :: "json_file \<Rightarrow> job \<Rightarrow> exc + json_file" where
  "job_save f j =
    bindE (read_jobs f) (\<lambda>data.
    Inr (write_sorted data ''jobs'' (jset (json_bucket data ''jobs'') (uuid_str (jb_id j)) (job_to_dict j))))"

definition job_get :: "coercions \<Rightarrow> json_file \<Rightarrow> uuid \<Rightarrow> exc + job option" where
  "job_get K f jid =
    bindE (read_jobs f) (\<lambda>data.
    case bucket_get (json_bucket data ''jobs'') (uuid_str jid) of
      None \<Rightarrow> Inr None
    | Some payload \<Rightarrow> bindE (job_from_dict K payload) (\<lambda>j. Inr (Some j)))"

text \<open>The loop of \<open>acquire\<close>: the first record with the identity of the job; each record on the way is read.\<close>

fun find_identity :: "coercions \<Rightarrow> (pystr \<times> json) list \<Rightarrow> job \<Rightarrow> exc + (pystr \<times> job) option" where
  "find_identity K [] j = Inr None"
| "find_identity K ((key, payload) # jobs) j =
    bindE (job_from_dict K payload) (\<lambda>existing.
    if same_identity existing j then Inr (Some (key, existing)) else find_identity K jobs j)"

definition job_acquire :: "coercions \<Rightarrow> json_file \<Rightarrow> datetime \<Rightarrow> job \<Rightarrow> exc + claim \<times> json_file" where
  "job_acquire K f now j =
    bindE (read_jobs f) (\<lambda>data.
    let jobs = json_bucket data ''jobs'' in
    bindE (find_identity K jobs j) (\<lambda>found.
    case found of
      Some (key, existing) \<Rightarrow>
        if jb_status existing = JOB_FAILED
        then bindE (mk_job (existing\<lparr>jb_status := JOB_RUNNING, jb_updated_at := now\<rparr>)) (\<lambda>retried.
             Inr (\<lparr>cl_job = retried, cl_acquired = True\<rparr>,
                  write_sorted data ''jobs'' (jset jobs key (job_to_dict retried))))
        else Inr (\<lparr>cl_job = existing, cl_acquired = False\<rparr>, f)
    | None \<Rightarrow>
        Inr (\<lparr>cl_job = j, cl_acquired = True\<rparr>,
             write_sorted data ''jobs'' (jset jobs (uuid_str (jb_id j)) (job_to_dict j)))))"

section \<open>The service\<close>

definition new_job :: "uuid \<Rightarrow> job_kind \<Rightarrow> pystr \<Rightarrow> pystr \<Rightarrow> uuid option \<Rightarrow> uuid option \<Rightarrow>
    datetime \<Rightarrow> datetime \<Rightarrow> job" where
  "new_job jid kind digest configuration lib workspace created updated =
    \<lparr>jb_id = jid, jb_kind = kind, jb_input_digest = digest, jb_configuration = configuration,
     jb_library = lib, jb_workspace = workspace, jb_checkpoint = [], jb_status = JOB_RUNNING,
     jb_created_at = created, jb_updated_at = updated\<rparr>"

definition acquire_job :: "coercions \<Rightarrow> json_file \<Rightarrow> datetime \<Rightarrow> job \<Rightarrow> exc + claim \<times> json_file" where
  "acquire_job K f now raw = bindE (mk_job raw) (\<lambda>j. job_acquire K f now j)"

definition start_job :: "coercions \<Rightarrow> json_file \<Rightarrow> datetime \<Rightarrow> job \<Rightarrow> (exc + job) \<times> json_file" where
  "start_job K f now raw =
    (case acquire_job K f now raw of
       Inl e \<Rightarrow> (Inl e, f)
     | Inr (c, f') \<Rightarrow>
         if \<not> cl_acquired c \<and> jb_status (cl_job c) = JOB_RUNNING
         then (Inl (OtherError ''JobInProgressError'' (uuid_str (jb_id (cl_job c)))), f')
         else (Inr (cl_job c), f'))"

definition show_job :: "coercions \<Rightarrow> json_file \<Rightarrow> uuid \<Rightarrow> exc + job" where
  "show_job K f jid =
    bindE (job_get K f jid) (\<lambda>found.
    case found of None \<Rightarrow> Inl (LookupError ''job not found'') | Some j \<Rightarrow> Inr j)"

text \<open>
  \<open>_update\<close> reads the job and writes it back in two steps, each under the lock of its own; \<open>write_update\<close> is
  the second.
\<close>

definition write_update ::
  "json_file \<Rightarrow> datetime \<Rightarrow> job \<Rightarrow> job_status \<Rightarrow> (pystr \<times> json) list \<Rightarrow> exc + job \<times> json_file" where
  "write_update f now current st progress =
    bindE (mk_job (current\<lparr>jb_status := st, jb_checkpoint := progress, jb_updated_at := now\<rparr>)) (\<lambda>updated.
    bindE (job_save f updated) (\<lambda>f'.
    Inr (updated, f')))"

definition update_job ::
  "coercions \<Rightarrow> json_file \<Rightarrow> datetime \<Rightarrow> uuid \<Rightarrow> job_status \<Rightarrow> (pystr \<times> json) list \<Rightarrow> exc + job \<times> json_file" where
  "update_job K f now jid st progress =
    bindE (show_job K f jid) (\<lambda>current. write_update f now current st progress)"

definition complete_job ::
  "coercions \<Rightarrow> json_file \<Rightarrow> datetime \<Rightarrow> uuid \<Rightarrow> (pystr \<times> json) list \<Rightarrow> exc + job \<times> json_file" where
  "complete_job K f now jid progress = update_job K f now jid JOB_COMPLETED progress"

definition checkpoint_job ::
  "coercions \<Rightarrow> json_file \<Rightarrow> datetime \<Rightarrow> uuid \<Rightarrow> (pystr \<times> json) list \<Rightarrow> exc + job \<times> json_file" where
  "checkpoint_job K f now jid progress =
    bindE (show_job K f jid) (\<lambda>current. update_job K f now jid (jb_status current) progress)"

definition fail_job ::
  "coercions \<Rightarrow> json_file \<Rightarrow> datetime \<Rightarrow> uuid \<Rightarrow> (pystr \<times> json) list option \<Rightarrow> exc + job \<times> json_file" where
  "fail_job K f now jid progress =
    update_job K f now jid JOB_FAILED (case progress of None \<Rightarrow> [] | Some p \<Rightarrow> p)"

section \<open>The table of jobs\<close>

lemma parse_values [simp]:
  "parse_kind (JStr (kind_value k)) = Inr k" "parse_job_status (JStr (job_status_value st)) = Inr st"
  by (cases k; simp add: parse_kind_def parse_member_def) (cases st; simp add: parse_job_status_def parse_member_def)

lemma mk_job_Inr: "mk_job j = Inr j' \<longleftrightarrow> j' = j \<and> \<not> blank (jb_input_digest j) \<and> \<not> blank (jb_configuration j)"
  by (auto simp: mk_job_def res_simps)

lemma job_from_to_dict: "mk_job j = Inr j \<Longrightarrow> job_from_dict K (job_to_dict j) = Inr j"
  by (cases j; cases "jb_checkpoint j") (simp_all add: job_from_dict_def job_to_dict_def jitem_def as_runtime_def)

definition job_key :: "job \<Rightarrow> pystr" where
  "job_key j = uuid_str (jb_id j)"

text \<open>The abstract state of a store: its jobs, each identity once, in the order of the file.\<close>

definition job_table :: "job list \<Rightarrow> bool" where
  "job_table js \<longleftrightarrow> distinct (map job_key js) \<and> (\<forall>j \<in> set js. mk_job j = Inr j) \<and>
    (\<forall>i \<in> set js. \<forall>j \<in> set js. same_identity i j \<longrightarrow> i = j)"

definition holds_jobs :: "json_file \<Rightarrow> job list \<Rightarrow> bool" where
  "holds_jobs f js \<longleftrightarrow> job_table js \<and> records_at ''job store'' ''jobs'' job_key job_to_dict f js"

lemma holds_jobs_data:
  assumes "holds_jobs f js"
  obtains data where "read_jobs f = Inr data" "json_bucket data ''jobs'' = bucket_of job_key job_to_dict js"
  using assms by (auto simp: holds_jobs_def records_at_def read_jobs_def)

lemma find_identity_table:
  "\<forall>j \<in> set js. mk_job j = Inr j \<Longrightarrow>
    find_identity K (bucket_of job_key job_to_dict js) j =
      Inr (map_option (\<lambda>e. (job_key e, e)) (find (\<lambda>e. same_identity e j) js))"
  by (induction js) (auto simp: bucket_of_def job_from_to_dict)

lemma bucket_get_table:
  "bucket_get (bucket_of job_key job_to_dict js) (uuid_str jid) = map_option job_to_dict (find (\<lambda>e. jb_id e = jid) js)"
  by (subst records_lookup) (simp_all add: job_to_dict_def job_key_def)

lemma job_get_table:
  assumes "holds_jobs f js"
  shows "job_get K f jid = Inr (find (\<lambda>e. jb_id e = jid) js)"
proof -
  have ok: "mk_job e = Inr e" if "find (\<lambda>e. jb_id e = jid) js = Some e" for e
    using assms find_Some_mem[OF that] by (auto simp: holds_jobs_def job_table_def)
  obtain data where "read_jobs f = Inr data" "json_bucket data ''jobs'' = bucket_of job_key job_to_dict js"
    using holds_jobs_data[OF assms] .
  then show ?thesis
    using bucket_get_table[of js jid] ok
    by (cases "find (\<lambda>e. jb_id e = jid) js") (auto simp: job_get_def job_from_to_dict)
qed

text \<open>Writing back a job that is there, and adding one.\<close>

lemma same_identity_sym: "same_identity i j \<longleftrightarrow> same_identity j i"
  and same_identity_trans: "same_identity i j \<Longrightarrow> same_identity j k \<Longrightarrow> same_identity i k"
  by (auto simp: same_identity_def)

lemma job_table_replace:
  assumes "job_table js" "e \<in> set js" "mk_job v = Inr v" "jb_id v = jb_id e" "same_identity v e"
  shows "job_table (replace_by job_key v js)"
proof -
  have k: "job_key v = job_key e" using assms(4) by (simp add: job_key_def)
  have r: "x = v \<or> x \<in> set js \<and> x \<noteq> e" if "x \<in> set (replace_by job_key v js)" for x
    using replace_by_memD[OF that] k by auto
  have u: "i = j" if "i \<in> set js" "j \<in> set js" "same_identity i j" for i j
    using assms(1) that by (simp add: job_table_def)
  have v: False if "x \<in> set js" "x \<noteq> e" "same_identity v x \<or> same_identity x v" for x
    using u[OF assms(2) that(1)] that(2,3) assms(5) by (auto simp: same_identity_def)
  have "i = j" if "i \<in> set (replace_by job_key v js)" "j \<in> set (replace_by job_key v js)" "same_identity i j" for i j
    using r[OF that(1)] r[OF that(2)] that(3) u v by blast
  moreover have "mk_job i = Inr i" if "i \<in> set (replace_by job_key v js)" for i
    using r[OF that] assms(1,3) by (auto simp: job_table_def)
  ultimately show ?thesis using assms(1) by (simp add: job_table_def)
qed

lemma write_known:
  assumes "holds_jobs f js" "e \<in> set js" "mk_job v = Inr v" "jb_id v = jb_id e" "same_identity v e"
    and "read_jobs f = Inr data"
  shows "holds_jobs (write_sorted data ''jobs'' (jset (json_bucket data ''jobs'') (job_key v) (job_to_dict v)))
    (replace_by job_key v js)"
proof -
  have "job_key v \<in> job_key ` set js" using assms(2,4) by (simp add: job_key_def)
  then show ?thesis
    using records_known[of "''job store''" "''jobs''" job_key job_to_dict f js v] job_table_replace[OF _ assms(2-5)] assms(1,6)
    by (simp add: holds_jobs_def read_jobs_def)
qed

lemma write_new:
  assumes "holds_jobs f js" "mk_job v = Inr v" "jb_id v \<notin> jb_id ` set js" "\<forall>e \<in> set js. \<not> same_identity e v"
    and "read_jobs f = Inr data"
  shows "holds_jobs (write_sorted data ''jobs'' (jset (json_bucket data ''jobs'') (job_key v) (job_to_dict v)))
    (sort_key job_key (js @ [v]))"
proof -
  have n: "job_key v \<notin> job_key ` set js" using assms(3) by (auto simp: job_key_def)
  from records_new[OF conjunct2[OF assms(1)[unfolded holds_jobs_def]] n assms(5)[unfolded read_jobs_def]]
  have r: "records_at ''job store'' ''jobs'' job_key job_to_dict
      (write_sorted data ''jobs'' (jset (json_bucket data ''jobs'') (job_key v) (job_to_dict v)))
      (sort_key job_key (js @ [v]))" by simp
  moreover from r have "job_table (sort_key job_key (js @ [v]))"
    using assms(1,2,4) same_identity_sym by (auto simp: holds_jobs_def job_table_def records_at_def)
  ultimately show ?thesis by (simp add: holds_jobs_def)
qed

section \<open>What the store promises\<close>

text \<open>
  On the table: a job of the same identity is handed over only when it failed, and otherwise shown to
  the caller as it is; the first claim of an identity adds the job of the caller.
\<close>

definition table_claim :: "job list \<Rightarrow> datetime \<Rightarrow> job \<Rightarrow> claim \<times> job list" where
  "table_claim js now j =
    (case find (\<lambda>e. same_identity e j) js of
       None \<Rightarrow> (\<lparr>cl_job = j, cl_acquired = True\<rparr>, sort_key job_key (js @ [j]))
     | Some e \<Rightarrow>
         if jb_status e = JOB_FAILED
         then let r = e\<lparr>jb_status := JOB_RUNNING, jb_updated_at := now\<rparr> in
              (\<lparr>cl_job = r, cl_acquired = True\<rparr>, replace_by job_key r js)
         else (\<lparr>cl_job = e, cl_acquired = False\<rparr>, js))"

lemma same_identity_simps [simp]:
  "same_identity j j" "same_identity (i\<lparr>jb_status := st\<rparr>) j = same_identity i j"
  "same_identity (i\<lparr>jb_updated_at := now\<rparr>) j = same_identity i j"
  "same_identity (i\<lparr>jb_checkpoint := p\<rparr>) j = same_identity i j"
  by (simp_all add: same_identity_def)

lemma claim_identity: "same_identity (cl_job (fst (table_claim js now j))) j"
proof (cases "find (\<lambda>e. same_identity e j) js")
  case (Some e)
  then show ?thesis using find_Some_mem[OF Some] by (simp add: table_claim_def Let_def)
qed (simp add: table_claim_def)

lemma mk_job_update [simp]:
  "mk_job j = Inr j \<Longrightarrow> mk_job (j\<lparr>jb_status := st, jb_updated_at := now\<rparr>) = Inr (j\<lparr>jb_status := st, jb_updated_at := now\<rparr>)"
  "mk_job j = Inr j \<Longrightarrow> mk_job (j\<lparr>jb_status := st, jb_checkpoint := p, jb_updated_at := now\<rparr>) =
    Inr (j\<lparr>jb_status := st, jb_checkpoint := p, jb_updated_at := now\<rparr>)"
  by (simp_all add: mk_job_Inr)

lemma acquire_table:
  assumes "holds_jobs f js" "mk_job j = Inr j" "jb_id j \<notin> jb_id ` set js"
  shows "\<exists>f'. acquire_job K f now j = Inr (fst (table_claim js now j), f') \<and> holds_jobs f' (snd (table_claim js now j))"
proof -
  obtain data where d: "read_jobs f = Inr data" "json_bucket data ''jobs'' = bucket_of job_key job_to_dict js"
    using holds_jobs_data[OF assms(1)] .
  have t: "job_table js" using assms(1) by (simp add: holds_jobs_def)
  have fi: "find_identity K (bucket_of job_key job_to_dict js) j =
      Inr (map_option (\<lambda>e. (job_key e, e)) (find (\<lambda>e. same_identity e j) js))"
    using t by (intro find_identity_table) (simp add: job_table_def)
  show ?thesis
  proof (cases "find (\<lambda>e. same_identity e j) js")
    case None
    then have "\<forall>e \<in> set js. \<not> same_identity e j" by (simp add: find_None_iff)
    from write_new[OF assms(1,2,3) this d(1)] show ?thesis
      using None fi assms(2) by (simp add: acquire_job_def job_acquire_def d table_claim_def job_key_def)
  next
    case (Some e)
    then have e: "e \<in> set js" "mk_job e = Inr e" using find_Some_mem[OF Some] t by (auto simp: job_table_def)
    let ?r = "e\<lparr>jb_status := JOB_RUNNING, jb_updated_at := now\<rparr>"
    have "holds_jobs (write_sorted data ''jobs'' (jset (json_bucket data ''jobs'') (job_key ?r) (job_to_dict ?r)))
        (replace_by job_key ?r js)"
      using e by (intro write_known[OF assms(1) e(1) _ _ _ d(1)]) (simp_all add: same_identity_def)
    then show ?thesis
      using Some fi assms(1,2) e
      by (simp add: acquire_job_def job_acquire_def d table_claim_def Let_def job_key_def)
  qed
qed

lemma write_update_table:
  assumes "holds_jobs f js" "e \<in> set js" "jb_id current = jb_id e" "same_identity current e" "mk_job current = Inr current"
    and "r = current\<lparr>jb_status := st, jb_checkpoint := p, jb_updated_at := now\<rparr>"
  shows "\<exists>f'. write_update f now current st p = Inr (r, f') \<and> holds_jobs f' (replace_by job_key r js)"
proof -
  obtain data where d: "read_jobs f = Inr data" using holds_jobs_data[OF assms(1)] .
  have "holds_jobs (write_sorted data ''jobs'' (jset (json_bucket data ''jobs'') (job_key r) (job_to_dict r)))
      (replace_by job_key r js)"
    using assms by (intro write_known[OF assms(1,2) _ _ _ d]) simp_all
  then show ?thesis using assms(5,6) d by (simp add: write_update_def job_save_def job_key_def)
qed

lemma update_table:
  assumes "holds_jobs f js"
  shows "find (\<lambda>e. jb_id e = jid) js = None \<Longrightarrow> update_job K f now jid st p = Inl (LookupError ''job not found'')"
    and "find (\<lambda>e. jb_id e = jid) js = Some e \<Longrightarrow> r = e\<lparr>jb_status := st, jb_checkpoint := p, jb_updated_at := now\<rparr> \<Longrightarrow>
      \<exists>f'. update_job K f now jid st p = Inr (r, f') \<and> holds_jobs f' (replace_by job_key r js)"
proof -
  show "find (\<lambda>e. jb_id e = jid) js = None \<Longrightarrow> update_job K f now jid st p = Inl (LookupError ''job not found'')"
    using job_get_table[OF assms] by (simp add: update_job_def show_job_def)
next
  assume s: "find (\<lambda>e. jb_id e = jid) js = Some e"
    and r: "r = e\<lparr>jb_status := st, jb_checkpoint := p, jb_updated_at := now\<rparr>"
  have e: "e \<in> set js" using find_Some_mem[OF s] by simp
  have ok: "mk_job e = Inr e" using assms e by (simp add: holds_jobs_def job_table_def)
  from write_update_table[OF assms e refl _ ok r] job_get_table[OF assms, of K jid] s
  show "\<exists>f'. update_job K f now jid st p = Inr (r, f') \<and> holds_jobs f' (replace_by job_key r js)"
    by (simp add: update_job_def show_job_def)
qed

section \<open>One owner at a time\<close>

text \<open>
  Any number of workers on one store, claiming, completing, checkpointing and failing jobs. A claim is one
  step. The others read the job at one moment and write it at a later one, and \<open>checkpoint\<close> reads it
  twice, so what they write may rest on any earlier file of the run. Calls that raise leave the file as it
  is. The events are the writes, newest first; a checkpoint notes the status it wrote back and whether
  that status was read from the file it replaced.
\<close>

datatype job_event = Claimed job bool | Completed uuid | Checkpointed uuid job_status bool | Failed uuid

abbreviation claims :: "job \<Rightarrow> bool" where
  "claims raw \<equiv> (\<exists>jid kind digest configuration lib workspace created updated.
    raw = new_job jid kind digest configuration lib workspace created updated)"

inductive job_run :: "coercions \<Rightarrow> json_file list \<Rightarrow> job_event list \<Rightarrow> bool" for K where
  job_run_init: "job_run K [init_jobs Missing] []"
| job_run_claim: "job_run K (f # fs) es \<Longrightarrow> claims raw \<Longrightarrow> job_get K f (jb_id raw) = Inr None \<Longrightarrow>
    acquire_job K f now raw = Inr (c, f') \<Longrightarrow>
    job_run K (f' # f # fs) (Claimed (cl_job c) (cl_acquired c) # es)"
| job_run_complete: "job_run K (f # fs) es \<Longrightarrow> g \<in> set (f # fs) \<Longrightarrow> show_job K g jid = Inr current \<Longrightarrow>
    write_update f now current JOB_COMPLETED p = Inr (j, f') \<Longrightarrow>
    job_run K (f' # f # fs) (Completed jid # es)"
| job_run_checkpoint: "job_run K (f # fs) es \<Longrightarrow> g \<in> set (f # fs) \<Longrightarrow> show_job K g jid = Inr seen \<Longrightarrow>
    h \<in> set (f # fs) \<Longrightarrow> show_job K h jid = Inr current \<Longrightarrow>
    write_update f now current (jb_status seen) p = Inr (j, f') \<Longrightarrow>
    job_run K (f' # f # fs) (Checkpointed jid (jb_status seen) (g = f) # es)"
| job_run_fail: "job_run K (f # fs) es \<Longrightarrow> g \<in> set (f # fs) \<Longrightarrow> show_job K g jid = Inr current \<Longrightarrow>
    write_update f now current JOB_FAILED p = Inr (j, f') \<Longrightarrow>
    job_run K (f' # f # fs) (Failed jid # es)"

inductive_cases job_run_claimedE: "job_run K fs (Claimed j b # es)"

text \<open>
  The events that make a job claimable: a failure, and a checkpoint that writes back a failure that is no
  longer the status of the job.
\<close>

fun reopens :: "uuid \<Rightarrow> job_event \<Rightarrow> bool" where
  "reopens jid (Failed i) \<longleftrightarrow> i = jid"
| "reopens jid (Checkpointed i st fresh) \<longleftrightarrow> i = jid \<and> st = JOB_FAILED \<and> \<not> fresh"
| "reopens jid _ \<longleftrightarrow> False"

text \<open>What the events say of the table: a job that was handed over is in it, and failed only when reopened.\<close>

definition accounts :: "job list \<Rightarrow> job_event list \<Rightarrow> bool" where
  "accounts js es \<longleftrightarrow>
    (\<forall>ys i zs. es = ys @ Claimed i True # zs \<longrightarrow>
      (\<exists>e \<in> set js. jb_id e = jb_id i \<and> same_identity e i \<and> (jb_status e = JOB_FAILED \<longrightarrow> (\<exists>ev \<in> set ys. reopens (jb_id i) ev))))"

lemma accountsD:
  "accounts js (ys @ Claimed i True # zs) \<Longrightarrow>
    \<exists>e \<in> set js. jb_id e = jb_id i \<and> same_identity e i \<and> (jb_status e = JOB_FAILED \<longrightarrow> (\<exists>ev \<in> set ys. reopens (jb_id i) ev))"
  by (auto simp: accounts_def)

lemma accounts_Nil [simp]: "accounts js []"
  by (simp add: accounts_def)

lemma accounts_Cons:
  assumes "accounts js es"
    and "\<And>e. e \<in> set js \<Longrightarrow> \<exists>e' \<in> set js'. jb_id e' = jb_id e \<and> same_identity e' e \<and>
      (jb_status e' = JOB_FAILED \<longrightarrow> jb_status e = JOB_FAILED \<or> reopens (jb_id e) ev)"
    and "\<And>i. ev = Claimed i True \<Longrightarrow> i \<in> set js' \<and> jb_status i \<noteq> JOB_FAILED"
  shows "accounts js' (ev # es)"
  unfolding accounts_def
proof (intro allI impI)
  fix ys i zs assume e: "ev # es = ys @ Claimed i True # zs"
  show "\<exists>e \<in> set js'. jb_id e = jb_id i \<and> same_identity e i \<and> (jb_status e = JOB_FAILED \<longrightarrow> (\<exists>ev \<in> set ys. reopens (jb_id i) ev))"
  proof (cases ys)
    case Nil
    then show ?thesis using e assms(3) by auto
  next
    case (Cons y ys')
    then have y: "y = ev" "es = ys' @ Claimed i True # zs" using e by auto
    then obtain e where e: "e \<in> set js" "jb_id e = jb_id i" "same_identity e i"
      "jb_status e = JOB_FAILED \<longrightarrow> (\<exists>ev \<in> set ys'. reopens (jb_id i) ev)"
      using accountsD[of js ys' i zs] assms(1) by auto
    obtain e' where e': "e' \<in> set js'" "jb_id e' = jb_id e" "same_identity e' e"
      "jb_status e' = JOB_FAILED \<longrightarrow> jb_status e = JOB_FAILED \<or> reopens (jb_id e) ev"
      using assms(2)[OF e(1)] by blast
    then show ?thesis using e e' Cons y same_identity_trans by (intro bexI[of _ e']) auto
  qed
qed

text \<open>The table after a claim and after an update, seen from the jobs that were in it.\<close>

lemma kept_in_table:
  assumes "job_table js" "e \<in> set js" "jb_id r = jb_id e" "same_identity r e"
  shows "r \<in> set (replace_by job_key r js)"
    and "x \<in> set js \<Longrightarrow> \<exists>x' \<in> set (replace_by job_key r js). jb_id x' = jb_id x \<and> same_identity x' x \<and> (x' = x \<or> x' = r \<and> x = e)"
proof -
  have k: "job_key r = job_key e" using assms(3) by (simp add: job_key_def)
  show r: "r \<in> set (replace_by job_key r js)"
    using assms(2) k by (auto simp: set_replace_by)
  assume x: "x \<in> set js"
  show "\<exists>x' \<in> set (replace_by job_key r js). jb_id x' = jb_id x \<and> same_identity x' x \<and> (x' = x \<or> x' = r \<and> x = e)"
  proof (cases "job_key x = job_key e")
    case True
    then have "x = e" using assms(1,2) x by (auto simp: job_table_def distinct_map dest: inj_onD)
    then show ?thesis using r assms(3,4) by blast
  next
    case False
    then have "x \<in> set (replace_by job_key r js)" using x k by (auto simp: set_replace_by)
    then show ?thesis by (intro bexI[of _ x]) (auto simp: same_identity_def)
  qed
qed

lemma update_accounts:
  assumes "job_table js" "accounts js es" "e \<in> set js" "jb_id r = jb_id e" "same_identity r e"
    and "jb_status r = JOB_FAILED \<longrightarrow> jb_status e = JOB_FAILED \<or> reopens (jb_id e) ev"
    and "\<And>i. ev = Claimed i True \<Longrightarrow> i = r \<and> jb_status r \<noteq> JOB_FAILED"
  shows "accounts (replace_by job_key r js) (ev # es)"
proof (rule accounts_Cons[OF assms(2)])
  fix x assume "x \<in> set js"
  from kept_in_table(2)[OF assms(1,3-5) this] assms(6)
  show "\<exists>x' \<in> set (replace_by job_key r js). jb_id x' = jb_id x \<and> same_identity x' x \<and>
      (jb_status x' = JOB_FAILED \<longrightarrow> jb_status x = JOB_FAILED \<or> reopens (jb_id x) ev)" by blast
qed (use assms(7) kept_in_table(1)[OF assms(1,3-5)] in blast)

text \<open>Jobs are never removed, and keep their identity: what was read from an earlier file is still there.\<close>

definition remain :: "job list \<Rightarrow> job list \<Rightarrow> bool" where
  "remain js js' \<longleftrightarrow> (\<forall>e \<in> set js. \<exists>e' \<in> set js'. jb_id e' = jb_id e \<and> same_identity e' e)"

lemma remain_refl: "remain js js"
  by (auto simp: remain_def)

lemma remain_trans: "remain is js \<Longrightarrow> remain js ks \<Longrightarrow> remain is ks"
  unfolding remain_def using same_identity_trans by metis

lemma claim_accounts:
  assumes "job_table js" "accounts js es" "jb_status j = JOB_RUNNING" "c = fst (table_claim js now j)"
  shows "accounts (snd (table_claim js now j)) (Claimed (cl_job c) (cl_acquired c) # es)"
proof (cases "find (\<lambda>e. same_identity e j) js")
  case None
  then show ?thesis using assms by (intro accounts_Cons[OF assms(2)]) (auto simp: table_claim_def same_identity_def)
next
  case (Some e)
  have e: "e \<in> set js" using find_Some_mem[OF Some] by simp
  show ?thesis
  proof (cases "jb_status e = JOB_FAILED")
    case True
    let ?r = "e\<lparr>jb_status := JOB_RUNNING, jb_updated_at := now\<rparr>"
    have "accounts (replace_by job_key ?r js) (Claimed ?r True # es)"
      by (intro update_accounts[OF assms(1,2) e]) (auto simp: same_identity_def)
    then show ?thesis using assms(4) Some True by (simp add: table_claim_def Let_def)
  next
    case False
    then show ?thesis
      using assms(4) Some by (intro accounts_Cons[OF assms(2)]) (auto simp: table_claim_def same_identity_def)
  qed
qed

lemma claim_remain:
  assumes "job_table js"
  shows "remain js (snd (table_claim js now j))"
proof (cases "find (\<lambda>e. same_identity e j) js")
  case None
  then show ?thesis by (auto simp: table_claim_def remain_def)
next
  case (Some e)
  have e: "e \<in> set js" using find_Some_mem[OF Some] by simp
  show ?thesis
  proof (cases "jb_status e = JOB_FAILED")
    case True
    then show ?thesis
      using kept_in_table(2)[OF assms e, of "e\<lparr>jb_status := JOB_RUNNING, jb_updated_at := now\<rparr>"] Some
      by (auto simp: table_claim_def remain_def Let_def)
  next
    case False
    then show ?thesis using Some by (simp add: table_claim_def remain_refl)
  qed
qed

text \<open>Every run keeps a table, its events account for it, and the earlier files hold less.\<close>

definition run_state :: "json_file list \<Rightarrow> job list \<Rightarrow> job_event list \<Rightarrow> bool" where
  "run_state fs js es \<longleftrightarrow> fs \<noteq> [] \<and> holds_jobs (hd fs) js \<and> accounts js es \<and>
    (\<forall>g \<in> set fs. \<exists>hs. holds_jobs g hs \<and> remain hs js)"

lemma run_state_step:
  assumes "run_state fs js es" "holds_jobs f' js'" "accounts js' (ev # es)" "remain js js'"
  shows "run_state (f' # fs) js' (ev # es)"
  using assms remain_trans remain_refl unfolding run_state_def by (simp, blast)

lemma holds_init: "holds_jobs (init_jobs Missing) []"
  by (simp add: holds_jobs_def job_table_def init_jobs_def records_init)

lemma fresh_in_table: "holds_jobs f js \<Longrightarrow> job_get K f jid = Inr None \<longleftrightarrow> jid \<notin> jb_id ` set js"
  by (auto simp: job_get_table find_None_iff)

lemma job_table_ids: "job_table js \<Longrightarrow> i \<in> set js \<Longrightarrow> j \<in> set js \<Longrightarrow> jb_id i = jb_id j \<Longrightarrow> i = j"
  using inj_onD[of job_key "set js" i j] by (simp add: job_table_def job_key_def distinct_map)

lemma shown_remains:
  assumes "run_state fs js es" "g \<in> set fs" "show_job K g jid = Inr seen"
  obtains e where "e \<in> set js" "jb_id e = jid" "jb_id seen = jid" "same_identity seen e" "mk_job seen = Inr seen"
proof -
  obtain hs where hs: "holds_jobs g hs" "remain hs js" using assms(1,2) by (auto simp: run_state_def)
  have "find (\<lambda>e. jb_id e = jid) hs = Some seen"
    using assms(3) by (simp add: show_job_def job_get_table[OF hs(1)] split: option.splits)
  then have seen: "seen \<in> set hs" "jb_id seen = jid" using find_Some_mem by fastforce+
  then obtain e where "e \<in> set js" "jb_id e = jid" "same_identity e seen" using hs(2) by (auto simp: remain_def)
  then show ?thesis using that seen hs(1) same_identity_sym by (auto simp: holds_jobs_def job_table_def)
qed

lemma update_run:
  assumes "run_state (f # fs) js es" "h \<in> set (f # fs)" "show_job K h jid = Inr current"
    and "write_update f now current st p = Inr (j, f')"
    and "\<And>e. e \<in> set js \<Longrightarrow> jb_id e = jid \<Longrightarrow> st = JOB_FAILED \<Longrightarrow> jb_status e = JOB_FAILED \<or> reopens jid ev"
    and "\<And>i. ev \<noteq> Claimed i True"
  shows "\<exists>js'. run_state (f' # f # fs) js' (ev # es)"
proof -
  obtain e where e: "e \<in> set js" "jb_id e = jid" "jb_id current = jid" "same_identity current e" "mk_job current = Inr current"
    using shown_remains[OF assms(1-3)] .
  have js: "holds_jobs f js" "job_table js" "accounts js es" using assms(1) by (auto simp: run_state_def holds_jobs_def)
  let ?r = "current\<lparr>jb_status := st, jb_checkpoint := p, jb_updated_at := now\<rparr>"
  have id: "jb_id current = jb_id e" using e(2,3) by simp
  have h: "holds_jobs f' (replace_by job_key ?r js)"
    using write_update_table[OF js(1) e(1) id e(4,5) refl, of now st p] assms(4) by auto
  have "accounts (replace_by job_key ?r js) (ev # es)"
    using e assms(5,6) by (intro update_accounts[OF js(2,3) e(1)]) auto
  moreover have "remain js (replace_by job_key ?r js)"
    using kept_in_table(2)[OF js(2) e(1), of ?r] id e(4) by (auto simp: remain_def)
  ultimately show ?thesis using run_state_step[OF assms(1) h] by blast
qed

lemma job_run_state: "job_run K fs es \<Longrightarrow> \<exists>js. run_state fs js es"
proof (induction rule: job_run.induct)
  case job_run_init
  then show ?case using holds_init remain_refl by (intro exI[of _ "[]"]) (auto simp: run_state_def)
next
  case (job_run_claim f fs es raw now c f')
  then obtain js where st: "run_state (f # fs) js es" by blast
  then have js: "holds_jobs f js" "job_table js" "accounts js es" by (auto simp: run_state_def holds_jobs_def)
  have raw: "mk_job raw = Inr raw" "jb_id raw \<notin> jb_id ` set js" "jb_status raw = JOB_RUNNING"
    using job_run_claim(2-4) fresh_in_table[OF js(1)] by (auto simp: acquire_job_def mk_job_Inr res_simps new_job_def)
  from acquire_table[OF js(1) raw(1,2), of K now]
  have c: "c = fst (table_claim js now raw)" "holds_jobs f' (snd (table_claim js now raw))"
    using job_run_claim(4) by auto
  from run_state_step[OF st c(2) claim_accounts[OF js(2,3) raw(3) c(1)] claim_remain[OF js(2)]]
  show ?case by blast
next
  case (job_run_complete f fs es g jid current now p j f')
  then obtain js where "run_state (f # fs) js es" by blast
  from update_run[OF this job_run_complete(2-4)] show ?case by simp
next
  case (job_run_checkpoint f fs es g jid seen h current now p j f')
  then obtain js where st: "run_state (f # fs) js es" by blast
  have stale: "jb_status e = JOB_FAILED \<or> reopens jid (Checkpointed jid (jb_status seen) (g = f))"
    if e: "e \<in> set js" "jb_id e = jid" "jb_status seen = JOB_FAILED" for e
  proof (cases "g = f")
    case True
    then have js: "holds_jobs g js" using st by (simp add: run_state_def)
    have "find (\<lambda>e. jb_id e = jid) js = Some seen"
      using job_run_checkpoint(3) by (simp add: show_job_def job_get_table[OF js] split: option.splits)
    from find_Some_mem[OF this] have "seen \<in> set js" "jb_id seen = jb_id e" using e(2) by simp_all
    with e(1) js have "seen = e" by (intro job_table_ids[of js]) (simp_all add: holds_jobs_def)
    then show ?thesis using e(3) by simp
  next
    case False
    then show ?thesis using e(3) by simp
  qed
  show ?case by (rule update_run[OF st job_run_checkpoint(4-6) stale]) simp_all
next
  case (job_run_fail f fs es g jid current now p j f')
  then obtain js where "run_state (f # fs) js es" by blast
  from update_run[OF this job_run_fail(2-4)] show ?case by simp
qed

lemma job_run_suffix: "job_run K fs (xs @ es) \<Longrightarrow> \<exists>gs. job_run K gs es"
proof (induction xs arbitrary: fs)
  case (Cons x xs)
  from Cons.prems have "\<exists>gs. job_run K gs (xs @ es)" by (auto elim: job_run.cases)
  then show ?case using Cons.IH by blast
qed auto

text \<open>A job is handed over a second time only as the same job, after something reopened it.\<close>

lemma claimed_again:
  assumes "job_run K fs (Claimed j True # ys @ Claimed i True # zs)" "same_identity i j"
  shows "jb_id j = jb_id i \<and> (\<exists>ev \<in> set ys. reopens (jb_id i) ev)"
proof -
  from assms(1) obtain f gs f' raw now c where r: "job_run K (f # gs) (ys @ Claimed i True # zs)"
      "job_get K f (jb_id raw) = Inr None" "acquire_job K f now raw = Inr (c, f')" "cl_job c = j" "cl_acquired c"
    by (rule job_run_claimedE) blast
  obtain js where js: "holds_jobs f js" "accounts js (ys @ Claimed i True # zs)"
    using job_run_state[OF r(1)] by (auto simp: run_state_def)
  obtain e where e: "e \<in> set js" "jb_id e = jb_id i" "same_identity e i"
      "jb_status e = JOB_FAILED \<longrightarrow> (\<exists>ev \<in> set ys. reopens (jb_id i) ev)" using accountsD[OF js(2)] by blast
  have raw: "mk_job raw = Inr raw" "jb_id raw \<notin> jb_id ` set js"
    using r(2,3) fresh_in_table[OF js(1)] by (auto simp: acquire_job_def mk_job_Inr res_simps)
  have c: "c = fst (table_claim js now raw)" using acquire_table[OF js(1) raw, of K now] r(3) by auto
  have "same_identity j raw" unfolding r(4)[symmetric] c by (rule claim_identity)
  then have er: "same_identity e raw" using e(3) assms(2) same_identity_trans by blast
  then obtain x where x: "find (\<lambda>e. same_identity e raw) js = Some x"
    using e(1) by (cases "find (\<lambda>e. same_identity e raw) js") (auto simp: find_None_iff)
  have "same_identity x e" using find_Some_mem[OF x] er by (simp add: same_identity_def)
  then have "x = e" using find_Some_mem[OF x] e(1) js(1) by (simp add: holds_jobs_def job_table_def)
  then show ?thesis using x c r(4,5) e(2,4) by (auto simp: table_claim_def Let_def split: if_splits)
qed

section \<open>Properties\<close>

text \<open>
  C38: The store refines the table of jobs. On a file that holds a table (each identity once, the records
  readable), a claim with a fresh identifier never raises: it reports or hands over the job of the same
  identity, exactly as the table says, or adds the job of the caller, and leaves a file that holds the
  new table. An update of a job that is there rewrites that one record, and of one that is not there is
  the \<open>LookupError\<close>.
\<close>

theorem job_store_refines:
  assumes "holds_jobs f js"
  shows "(mk_job j = Inr j \<and> jb_id j \<notin> jb_id ` set js \<longrightarrow>
      (\<exists>f'. acquire_job K f now j = Inr (fst (table_claim js now j), f') \<and> holds_jobs f' (snd (table_claim js now j)))) \<and>
    (case find (\<lambda>e. jb_id e = jid) js of
       None \<Rightarrow> update_job K f now jid st p = Inl (LookupError ''job not found'')
     | Some e \<Rightarrow>
         let r = e\<lparr>jb_status := st, jb_checkpoint := p, jb_updated_at := now\<rparr> in
         \<exists>f'. update_job K f now jid st p = Inr (r, f') \<and> holds_jobs f' (replace_by job_key r js))"
  using acquire_table[OF assms] update_table[OF assms] by (auto simp: Let_def split: option.splits)

text \<open>
  C39: One owner at a time. In every run of claims, completions, checkpoints and failures by any number of
  workers from an empty store, with every reading of a job possibly older than the write that rests on
  it, when a job is handed over twice to callers with the same kind, input, configuration and scope, the
  second claim gets the same job, and between the two the job was reported as failed, or a checkpoint
  wrote back a failure it had read from an older file.
\<close>

theorem job_single_owner:
  assumes "job_run K fs (xs @ Claimed j True # ys @ Claimed i True # zs)" "same_identity i j"
  shows "jb_id j = jb_id i \<and>
    (\<exists>ev \<in> set ys. ev = Failed (jb_id i) \<or> ev = Checkpointed (jb_id i) JOB_FAILED False)"
proof -
  obtain gs where "job_run K gs (Claimed j True # ys @ Claimed i True # zs)" using job_run_suffix[OF assms(1)] by blast
  from claimed_again[OF this assms(2)] obtain ev where "jb_id j = jb_id i" "ev \<in> set ys" "reopens (jb_id i) ev" by blast
  moreover from this(3) have "ev = Failed (jb_id i) \<or> ev = Checkpointed (jb_id i) JOB_FAILED False"
    by (cases ev) auto
  ultimately show ?thesis by blast
qed

section \<open>Witnesses\<close>

definition sample_job :: "uuid \<Rightarrow> job" where
  "sample_job jid = new_job jid INGEST ''digest'' ''config'' None (Some 7) (Aware 0 0) (Aware 0 0)"

lemma sample_not_blank [simp]: "\<not> blank ''digest''" "\<not> blank ''config''"
  by code_simp+

lemma sample_job_ok: "mk_job (sample_job jid) = Inr (sample_job jid)" "jb_id (sample_job jid) = jid"
    "jb_status (sample_job jid) = JOB_RUNNING" "claims (sample_job jid)"
  by (auto simp: sample_job_def new_job_def mk_job_Inr)

lemma job_store_refines_witness:
  "\<exists>f. acquire_job no_coercions (init_jobs Missing) (Aware 0 0) (sample_job 1) =
      Inr (\<lparr>cl_job = sample_job 1, cl_acquired = True\<rparr>, f) \<and> holds_jobs f [sample_job 1] \<and>
    update_job no_coercions (init_jobs Missing) (Aware 0 0) 2 JOB_FAILED [] = Inl (LookupError ''job not found'')"
  using job_store_refines[OF holds_init, of "sample_job 1" no_coercions "Aware 0 0" 2 JOB_FAILED "[]"]
  by (simp add: sample_job_ok table_claim_def)

abbreviation sample_time :: datetime where
  "sample_time \<equiv> Aware 0 0"

abbreviation put_status :: "job \<Rightarrow> job_status \<Rightarrow> job" where
  "put_status j st \<equiv> j\<lparr>jb_status := st, jb_checkpoint := [], jb_updated_at := sample_time\<rparr>"

text \<open>Claiming a failed job, and writing one, on a file that holds it alone.\<close>

lemma claim_failed:
  assumes "job_run no_coercions (f # fs) es" "holds_jobs f [e]" "jb_status e = JOB_FAILED" "same_identity e (sample_job 2)" "jb_id e = 1"
    and "r = e\<lparr>jb_status := JOB_RUNNING, jb_updated_at := sample_time\<rparr>"
  obtains f' where "job_run no_coercions (f' # f # fs) (Claimed r True # es)" "holds_jobs f' [r]"
proof -
  obtain f' where f': "acquire_job no_coercions f sample_time (sample_job 2) = Inr (\<lparr>cl_job = r, cl_acquired = True\<rparr>, f')"
      "holds_jobs f' [r]"
    using acquire_table[OF assms(2), of "sample_job 2" no_coercions sample_time] assms(3-6)
    by (auto simp: sample_job_ok table_claim_def Let_def replace_by_def job_key_def)
  have "job_get no_coercions f (jb_id (sample_job 2)) = Inr None"
    using fresh_in_table[OF assms(2)] assms(5) by (simp add: sample_job_ok)
  from job_run_claim[OF assms(1) sample_job_ok(4) this f'(1)] f'(2) show ?thesis using that by simp
qed

lemma write_alone:
  assumes "holds_jobs f [e]" "jb_id current = jb_id e" "same_identity current e" "mk_job current = Inr current"
  obtains f' where "write_update f sample_time current st [] = Inr (put_status current st, f')" "holds_jobs f' [put_status current st]"
proof -
  obtain f' where "write_update f sample_time current st [] = Inr (put_status current st, f')"
      "holds_jobs f' (replace_by job_key (put_status current st) [e])"
    using write_update_table[OF assms(1) _ assms(2-4) refl, of sample_time st "[]"] by auto
  then show ?thesis using that assms(2) by (simp add: replace_by_def job_key_def)
qed

text \<open>A job is claimed, fails, and is claimed again.\<close>

lemma sample_reclaimed:
  obtains f fs g where "job_run no_coercions (f # g # fs)
      [Claimed (put_status (sample_job 1) JOB_RUNNING) True, Failed 1, Claimed (sample_job 1) True]"
    and "holds_jobs f [put_status (sample_job 1) JOB_RUNNING]" "holds_jobs g [put_status (sample_job 1) JOB_FAILED]"
proof -
  let ?K = no_coercions and ?s = "sample_job 1" and ?d = "put_status (sample_job 1) JOB_FAILED"
  obtain f1 where f1: "acquire_job ?K (init_jobs Missing) sample_time ?s = Inr (\<lparr>cl_job = ?s, cl_acquired = True\<rparr>, f1)"
      "holds_jobs f1 [?s]"
    using acquire_table[OF holds_init, of ?s ?K sample_time] by (auto simp: sample_job_ok table_claim_def)
  have "job_get ?K (init_jobs Missing) (jb_id ?s) = Inr None" using fresh_in_table[OF holds_init] by simp
  from job_run_claim[OF job_run_init sample_job_ok(4) this f1(1)]
  have r1: "job_run ?K [f1, init_jobs Missing] [Claimed ?s True]" by simp
  obtain f2 where f2: "write_update f1 sample_time ?s JOB_FAILED [] = Inr (?d, f2)" "holds_jobs f2 [?d]"
    by (rule write_alone[OF f1(2) refl _ sample_job_ok(1)]) simp
  have "show_job ?K f1 1 = Inr ?s" by (simp add: show_job_def job_get_table[OF f1(2)] sample_job_ok)
  from job_run_fail[OF r1 _ this f2(1)]
  have r2: "job_run ?K [f2, f1, init_jobs Missing] [Failed 1, Claimed ?s True]" by simp
  have same: "same_identity ?d (sample_job 2)" by (simp add: same_identity_def sample_job_def new_job_def)
  have eq: "put_status ?s JOB_RUNNING = ?d\<lparr>jb_status := JOB_RUNNING, jb_updated_at := sample_time\<rparr>" by simp
  obtain f3 where f3: "job_run ?K [f3, f2, f1, init_jobs Missing]
      [Claimed (put_status ?s JOB_RUNNING) True, Failed 1, Claimed ?s True]" "holds_jobs f3 [put_status ?s JOB_RUNNING]"
    by (rule claim_failed[OF r2 f2(2) _ same _ eq]) (simp_all add: sample_job_ok)
  show ?thesis by (rule that[OF f3 f2(2)])
qed

lemma job_single_owner_witness:
  "\<exists>fs j. job_run no_coercions fs [Claimed j True, Failed 1, Claimed (sample_job 1) True] \<and> jb_id j = 1"
proof -
  let ?j = "put_status (sample_job 1) JOB_RUNNING"
  obtain f fs g where r: "job_run no_coercions (f # g # fs) [Claimed ?j True, Failed 1, Claimed (sample_job 1) True]"
    by (rule sample_reclaimed)
  have "jb_id ?j = jb_id (sample_job 1)"
    using job_single_owner[where xs = "[]" and ys = "[Failed 1]" and zs = "[]" and j = ?j and i = "sample_job 1"] r by simp
  then show ?thesis using r by (intro exI[of _ "f # g # fs"] exI[of _ ?j]) (simp add: sample_job_ok)
qed

section \<open>A checkpoint that races\<close>

text \<open>
  C40: A stale checkpoint hands a running job to a second worker. There is a run in which the same job is
  handed over twice although nobody reported it as failed in between: \<open>checkpoint\<close> reads the status of the
  failed job, the job is claimed and runs again, the checkpoint then writes back the failure it had read,
  and the next claim acquires the job while its owner is at work.
\<close>

theorem stale_checkpoint_reopens:
  "\<exists>fs i j es. job_run no_coercions fs (Claimed j True # Checkpointed 1 JOB_FAILED False # Claimed i True # es) \<and>
    jb_id i = 1 \<and> jb_id j = 1"
proof -
  let ?K = no_coercions
  let ?d = "put_status (sample_job 1) JOB_FAILED" and ?r = "put_status (sample_job 1) JOB_RUNNING"
  let ?es = "[Claimed ?r True, Failed 1, Claimed (sample_job 1) True]"
  obtain f fs g where r: "job_run ?K (f # g # fs) ?es" "holds_jobs f [?r]" "holds_jobs g [?d]"
    by (rule sample_reclaimed)
  have shown: "show_job ?K f 1 = Inr ?r" "show_job ?K g 1 = Inr ?d"
    by (simp_all add: show_job_def job_get_table[OF r(2)] job_get_table[OF r(3)] sample_job_ok)
  have "jb_status ?r \<noteq> jb_status ?d" by simp
  then have "?r \<noteq> ?d" by metis
  then have ne: "g \<noteq> f" using shown by (metis sum.inject(2))
  have ok: "mk_job ?r = Inr ?r" by (intro mk_job_update sample_job_ok)
  obtain f1 where f1: "write_update f sample_time ?r JOB_FAILED [] = Inr (put_status ?r JOB_FAILED, f1)"
      "holds_jobs f1 [put_status ?r JOB_FAILED]"
    by (rule write_alone[OF r(2) refl _ ok]) simp
  have "write_update f sample_time ?r (jb_status ?d) [] = Inr (put_status ?r JOB_FAILED, f1)" using f1(1) by simp
  from job_run_checkpoint[OF r(1) _ shown(2) _ shown(1) this]
  have r1: "job_run ?K (f1 # f # g # fs) (Checkpointed 1 JOB_FAILED False # ?es)" using ne by simp
  have same: "same_identity (put_status ?r JOB_FAILED) (sample_job 2)"
    by (simp add: same_identity_def sample_job_def new_job_def)
  have eq: "?r = put_status ?r JOB_FAILED\<lparr>jb_status := JOB_RUNNING, jb_updated_at := sample_time\<rparr>" by simp
  obtain f2 where "job_run ?K (f2 # f1 # f # g # fs) (Claimed ?r True # Checkpointed 1 JOB_FAILED False # ?es)"
    by (rule claim_failed[OF r1 f1(2) _ same _ eq]) (simp_all add: sample_job_ok)
  then show ?thesis by (intro exI) (auto simp: sample_job_ok)
qed

end
