(* ===== verification/ContextWallets.thy ===== *)
theory ContextWallets imports PyCoerce PyHash begin

text \<open>
  \<open>application/context_wallet.py\<close> and \<open>infrastructure/storage/json_context_wallet_store.py\<close>: wallets of
  estimated tokens that a session spends from, once per operation key. The exceptions of the file
  system under the lock are left out; the clock and the fresh identifier are arguments.
\<close>

section \<open>Records\<close>

text \<open>\<open>ContextWallet(max_tokens)\<close>.\<close>

definition mk_wallet :: "int \<Rightarrow> exc + int" where
  "mk_wallet max_tokens =
    bindE (check (0 \<le> max_tokens) (ValueError ''wallet max_tokens must be non-negative'')) (\<lambda>_.
    Inr max_tokens)"

definition wallet_admits :: "int \<Rightarrow> int \<Rightarrow> bool" where
  "wallet_admits max_tokens estimated \<longleftrightarrow> estimated \<le> max_tokens"

record wallet_operation =
  wo_estimated :: int
  wo_consumed :: int
  wo_completed_at :: datetime

record wallet =
  wa_id :: uuid
  wa_max :: int
  wa_consumed :: int
  wa_created_at :: datetime
  wa_updated_at :: datetime
  wa_operations :: "(pystr \<times> wallet_operation) list"

definition mk_wallet_record :: "wallet \<Rightarrow> exc + wallet" where
  "mk_wallet_record w =
    bindE (mk_wallet (wa_max w)) (\<lambda>_.
    bindE (check (0 \<le> wa_consumed w \<and> wa_consumed w \<le> wa_max w)
             (ValueError ''wallet consumed_tokens must be within its configured limit'')) (\<lambda>_.
    Inr w))"

definition wallet_handle :: "wallet \<Rightarrow> pystr" where
  "wallet_handle w = ''context_wallet:'' @ uuid_str (wa_id w)"

definition wallet_remaining :: "wallet \<Rightarrow> int" where
  "wallet_remaining w = wa_max w - wa_consumed w"

record balance =
  ba_handle :: pystr
  ba_max :: int
  ba_consumed :: int
  ba_remaining :: int

definition wallet_balance :: "wallet \<Rightarrow> balance" where
  "wallet_balance w = \<lparr>ba_handle = wallet_handle w, ba_max = wa_max w, ba_consumed = wa_consumed w,
    ba_remaining = wallet_remaining w\<rparr>"

text \<open>The balance a retry of the operation reports.\<close>

definition operation_balance :: "wallet \<Rightarrow> int \<Rightarrow> balance" where
  "operation_balance w consumed = \<lparr>ba_handle = wallet_handle w, ba_max = wa_max w, ba_consumed = consumed,
    ba_remaining = wa_max w - consumed\<rparr>"

abbreviation handle_error :: exc where
  "handle_error \<equiv> OtherError ''InvalidContextWalletHandleError'' ''wallet_handle must be a context_wallet:UUID handle''"

abbreviation unknown_wallet :: exc where
  "unknown_wallet \<equiv> OtherError ''UnknownContextWalletError'' ''context wallet not found''"

abbreviation wallet_exhausted :: exc where
  "wallet_exhausted \<equiv> OtherError ''WalletExhaustedError'' ''representation exceeds the configured estimated-token maximum''"

abbreviation persistence_error :: "pystr \<Rightarrow> exc" where
  "persistence_error message \<equiv> OtherError ''ContextWalletPersistenceError'' message"

definition parse_handle :: "pystr \<Rightarrow> exc + uuid" where
  "parse_handle raw =
    (let prefix = ''context_wallet:'' in
     if take (length prefix) raw \<noteq> prefix then Inl handle_error
     else case parse_uuid (drop (length prefix) raw) of
            Inl _ \<Rightarrow> Inl handle_error
          | Inr u \<Rightarrow> Inr u)"

definition operation_key :: "pystr option \<Rightarrow> exc + pystr" where
  "operation_key raw =
    (case raw of
       None \<Rightarrow> Inl (ValueError ''operation_key must be a non-blank string when wallet_handle is supplied'')
     | Some s \<Rightarrow>
         bindE (check (\<not> blank s)
                  (ValueError ''operation_key must be a non-blank string when wallet_handle is supplied'')) (\<lambda>_.
         bindE (check (char_count s \<le> 256)
                  (ValueError ''operation_key must not exceed 256 characters'')) (\<lambda>_.
         Inr (sha256_hexdigest s))))"

section \<open>The store\<close>

definition wallet_operation_to_dict :: "wallet_operation \<Rightarrow> json" where
  "wallet_operation_to_dict x = JObj
    [(''estimated_tokens'', JInt (wo_estimated x)),
     (''consumed_tokens'', JInt (wo_consumed x)),
     (''completed_at'', JTime (wo_completed_at x))]"

definition wallet_to_dict :: "wallet \<Rightarrow> json" where
  "wallet_to_dict w = JObj
    [(''wallet_id'', JStr (uuid_str (wa_id w))),
     (''max_tokens'', JInt (wa_max w)),
     (''consumed_tokens'', JInt (wa_consumed w)),
     (''created_at'', JTime (wa_created_at w)),
     (''updated_at'', JTime (wa_updated_at w)),
     (''operations'', JObj (map (\<lambda>(k, x). (k, wallet_operation_to_dict x)) (wa_operations w)))]"

definition wallet_operation_from_dict :: "coercions \<Rightarrow> json \<Rightarrow> exc + wallet_operation" where
  "wallet_operation_from_dict K raw =
    bindE (check (is_object raw) type_error) (\<lambda>_.
    bindE (bindE (jitem raw ''estimated_tokens'') (as_int K)) (\<lambda>estimated.
    bindE (bindE (jitem raw ''consumed_tokens'') (as_int K)) (\<lambda>consumed.
    bindE (bindE (jitem raw ''completed_at'') (as_time K)) (\<lambda>completed.
    Inr \<lparr>wo_estimated = estimated, wo_consumed = consumed, wo_completed_at = completed\<rparr>))))"

definition wallet_from_dict :: "coercions \<Rightarrow> json \<Rightarrow> exc + wallet" where
  "wallet_from_dict K raw =
    as_runtime ''invalid context wallet record''
     (bindE (check (is_object raw) type_error) (\<lambda>_.
      let operations = (case jget raw ''operations'' of None \<Rightarrow> JObj [] | Some v \<Rightarrow> v) in
      bindE (check (is_object operations) type_error) (\<lambda>_.
      bindE (mapM (\<lambda>(k, v). mapE (Pair k) (wallet_operation_from_dict K v)) (entries operations)) (\<lambda>ops.
      bindE (parse_uuid (as_str K (case jget raw ''wallet_id'' of None \<Rightarrow> JStr [] | Some v \<Rightarrow> v))) (\<lambda>wid.
      bindE (bindE (jitem raw ''max_tokens'') (as_int K)) (\<lambda>max_tokens.
      bindE (bindE (jitem raw ''consumed_tokens'') (as_int K)) (\<lambda>consumed.
      bindE (bindE (jitem raw ''created_at'') (as_time K)) (\<lambda>created.
      bindE (bindE (jitem raw ''updated_at'') (as_time K)) (\<lambda>updated.
      mk_wallet_record \<lparr>wa_id = wid, wa_max = max_tokens, wa_consumed = consumed, wa_created_at = created,
        wa_updated_at = updated, wa_operations = ops\<rparr>)))))))))"

definition read_wallets :: "json_file \<Rightarrow> exc + (pystr \<times> json) list" where
  "read_wallets f = read_store ''context wallet store'' ''wallets'' f"

definition wallet_create :: "json_file \<Rightarrow> wallet \<Rightarrow> exc + json_file" where
  "wallet_create f w =
    bindE (if f = Missing then Inr [(''schema_version'', JInt 1), (''wallets'', JObj [])] else read_wallets f) (\<lambda>data.
    let wallets = json_bucket data ''wallets'' in
    bindE (check (map_of wallets (uuid_str (wa_id w)) = None)
             (RuntimeError ''context wallet identifier collision'')) (\<lambda>_.
    Inr (write_sorted data ''wallets'' (jset wallets (uuid_str (wa_id w)) (wallet_to_dict w)))))"

definition wallet_get :: "coercions \<Rightarrow> json_file \<Rightarrow> uuid \<Rightarrow> exc + wallet option" where
  "wallet_get K f wid =
    (if f = Missing then Inr None
     else bindE (read_wallets f) (\<lambda>data.
       case bucket_get (json_bucket data ''wallets'') (uuid_str wid) of
         None \<Rightarrow> Inr None
       | Some payload \<Rightarrow> mapE Some (wallet_from_dict K payload)))"

definition commit_success ::
  "coercions \<Rightarrow> json_file \<Rightarrow> uuid \<Rightarrow> pystr \<Rightarrow> int \<Rightarrow> datetime \<Rightarrow> exc + wallet \<times> json_file" where
  "commit_success K f wid key estimated completed =
    (if f = Missing then Inl (KeyError (uuid_str wid))
     else bindE (read_wallets f) (\<lambda>data.
       let wallets = json_bucket data ''wallets'' in
       case bucket_get wallets (uuid_str wid) of
         None \<Rightarrow> Inl (KeyError (uuid_str wid))
       | Some payload \<Rightarrow>
           bindE (wallet_from_dict K payload) (\<lambda>current.
           if map_of (wa_operations current) key \<noteq> None then Inr (current, f)
           else if estimated > wallet_remaining current then Inl wallet_exhausted
           else
             let consumed = wa_consumed current + estimated in
             bindE (mk_wallet_record (current
                \<lparr>wa_consumed := consumed, wa_updated_at := completed,
                 wa_operations := wa_operations current @
                   [(key, \<lparr>wo_estimated = estimated, wo_consumed = consumed, wo_completed_at = completed\<rparr>)]\<rparr>)) (\<lambda>updated.
             Inr (updated, write_sorted data ''wallets'' (jset wallets (uuid_str wid) (wallet_to_dict updated)))))))"

section \<open>The service\<close>

text \<open>\<open>except (OSError, RuntimeError) as exc: raise ContextWalletPersistenceError(...)\<close>.\<close>

fun as_persistence :: "pystr \<Rightarrow> exc + 'a \<Rightarrow> exc + 'a" where
  "as_persistence message (Inl (OSError e)) = Inl (persistence_error message)"
| "as_persistence message (Inl (RuntimeError e)) = Inl (persistence_error message)"
| "as_persistence message r = r"

lemma as_persistence_Inr [res_simps]: "as_persistence message r = Inr x \<longleftrightarrow> r = Inr x"
  by (cases "(message, r)" rule: as_persistence.cases) auto

definition create_wallet :: "json_file \<Rightarrow> uuid \<Rightarrow> datetime \<Rightarrow> int \<Rightarrow> exc + balance \<times> json_file" where
  "create_wallet f wid now max_tokens =
    bindE (mk_wallet max_tokens) (\<lambda>_.
    bindE (mk_wallet_record \<lparr>wa_id = wid, wa_max = max_tokens, wa_consumed = 0, wa_created_at = now,
             wa_updated_at = now, wa_operations = []\<rparr>) (\<lambda>w.
    bindE (as_persistence ''unable to create context wallet'' (wallet_create f w)) (\<lambda>f'.
    Inr (wallet_balance w, f'))))"

definition wallet_record :: "coercions \<Rightarrow> json_file \<Rightarrow> pystr \<Rightarrow> exc + wallet" where
  "wallet_record K f handle =
    bindE (parse_handle handle) (\<lambda>wid.
    bindE (as_persistence ''unable to read context wallet'' (wallet_get K f wid)) (\<lambda>found.
    case found of None \<Rightarrow> Inl unknown_wallet | Some w \<Rightarrow> Inr w))"

definition get_wallet :: "coercions \<Rightarrow> json_file \<Rightarrow> pystr \<Rightarrow> exc + balance" where
  "get_wallet K f handle = mapE wallet_balance (wallet_record K f handle)"

definition spend_success ::
  "coercions \<Rightarrow> json_file \<Rightarrow> datetime \<Rightarrow> pystr \<Rightarrow> pystr option \<Rightarrow> int \<Rightarrow> exc + balance \<times> json_file" where
  "spend_success K f now handle raw estimated =
    bindE (parse_handle handle) (\<lambda>wid.
    bindE (operation_key raw) (\<lambda>key.
    bindE (check (0 \<le> estimated) (ValueError ''estimated_tokens must be non-negative'')) (\<lambda>_.
    bindE (case commit_success K f wid key estimated now of
             Inl (KeyError e) \<Rightarrow> Inl unknown_wallet
           | r \<Rightarrow> as_persistence ''unable to commit context wallet spend'' r) (\<lambda>(w, f').
    case map_of (wa_operations w) key of
      None \<Rightarrow> Inl (KeyError key)
    | Some x \<Rightarrow> Inr (operation_balance w (wo_consumed x), f')))))"

definition preview_success ::
  "coercions \<Rightarrow> json_file \<Rightarrow> pystr \<Rightarrow> pystr option \<Rightarrow> int \<Rightarrow> exc + balance" where
  "preview_success K f handle raw estimated =
    bindE (operation_key raw) (\<lambda>key.
    bindE (check (0 \<le> estimated) (ValueError ''estimated_tokens must be non-negative'')) (\<lambda>_.
    bindE (wallet_record K f handle) (\<lambda>w.
    case map_of (wa_operations w) key of
      Some prior \<Rightarrow> Inr (operation_balance w (wo_consumed prior))
    | None \<Rightarrow>
        if estimated > wallet_remaining w then Inl wallet_exhausted
        else Inr \<lparr>ba_handle = wallet_handle w, ba_max = wa_max w, ba_consumed = wa_consumed w + estimated,
                  ba_remaining = wallet_remaining w - estimated\<rparr>)))"

section \<open>The wallets of a file\<close>

lemma mk_wallet_record_Inr: "mk_wallet_record w = Inr w' \<longleftrightarrow> w' = w \<and> 0 \<le> wa_consumed w \<and> wa_consumed w \<le> wa_max w"
  by (auto simp: mk_wallet_record_def mk_wallet_def res_simps)

lemma operations_from_to_dict:
  "mapM (\<lambda>(k, v). mapE (Pair k) (wallet_operation_from_dict K v)) (map (\<lambda>(k, x). (k, wallet_operation_to_dict x)) ops) = Inr ops"
  by (induction ops) (auto simp: wallet_operation_from_dict_def wallet_operation_to_dict_def jitem_def)

lemma wallet_from_to_dict:
  assumes "mk_wallet_record w = Inr w"
  shows "wallet_from_dict K (wallet_to_dict w) = Inr w"
  using assms operations_from_to_dict[of K "wa_operations w"]
  by (cases w) (simp add: wallet_from_dict_def wallet_to_dict_def jitem_def Let_def)

definition wallet_key :: "wallet \<Rightarrow> pystr" where
  "wallet_key w = uuid_str (wa_id w)"

definition holds_wallets :: "json_file \<Rightarrow> wallet list \<Rightarrow> bool" where
  "holds_wallets f ws \<longleftrightarrow> (\<forall>w \<in> set ws. mk_wallet_record w = Inr w) \<and>
    (f = Missing \<and> ws = [] \<or> records_at ''context wallet store'' ''wallets'' wallet_key wallet_to_dict f ws)"

lemma holds_wallets_data:
  assumes "holds_wallets f ws" "f \<noteq> Missing"
  obtains data where "read_wallets f = Inr data" "json_bucket data ''wallets'' = bucket_of wallet_key wallet_to_dict ws"
  using assms by (auto simp: holds_wallets_def records_at_def read_wallets_def)

lemma holds_wallets_ids: "holds_wallets f ws \<Longrightarrow> v \<in> set ws \<Longrightarrow> w \<in> set ws \<Longrightarrow> wa_id v = wa_id w \<Longrightarrow> v = w"
  using inj_onD[of wallet_key "set ws" v w] by (auto simp: holds_wallets_def records_at_def wallet_key_def distinct_map)

lemma bucket_get_wallets:
  "bucket_get (bucket_of wallet_key wallet_to_dict ws) (uuid_str wid) = map_option wallet_to_dict (find (\<lambda>w. wa_id w = wid) ws)"
  by (subst records_lookup) (simp_all add: wallet_to_dict_def wallet_key_def)

lemma wallet_get_table:
  assumes "holds_wallets f ws"
  shows "wallet_get K f wid = Inr (find (\<lambda>w. wa_id w = wid) ws)"
proof (cases "f = Missing")
  case True
  then have "ws = []" using assms by (auto simp: holds_wallets_def records_at_def read_store_Inr)
  then show ?thesis using True by (simp add: wallet_get_def)
next
  case False
  have ok: "mk_wallet_record w = Inr w" if "find (\<lambda>w. wa_id w = wid) ws = Some w" for w
    using assms find_Some_mem[OF that] by (auto simp: holds_wallets_def)
  obtain data where "read_wallets f = Inr data" "json_bucket data ''wallets'' = bucket_of wallet_key wallet_to_dict ws"
    using holds_wallets_data[OF assms False] .
  then show ?thesis
    using bucket_get_wallets[of ws wid] ok False
    by (cases "find (\<lambda>w. wa_id w = wid) ws") (auto simp: wallet_get_def wallet_from_to_dict)
qed

text \<open>The charge of a new operation.\<close>

definition charge :: "wallet \<Rightarrow> pystr \<Rightarrow> int \<Rightarrow> datetime \<Rightarrow> wallet" where
  "charge w key estimated completed =
    (let consumed = wa_consumed w + estimated in
     w\<lparr>wa_consumed := consumed, wa_updated_at := completed,
       wa_operations := wa_operations w @
         [(key, \<lparr>wo_estimated = estimated, wo_consumed = consumed, wo_completed_at = completed\<rparr>)]\<rparr>)"

lemma charge_simps [simp]:
  "wa_id (charge w key n t) = wa_id w" "wa_max (charge w key n t) = wa_max w"
  "wa_consumed (charge w key n t) = wa_consumed w + n"
  "wallet_key (charge w key n t) = wallet_key w" "wallet_handle (charge w key n t) = wallet_handle w"
  by (simp_all add: charge_def Let_def wallet_key_def wallet_handle_def)

lemma commit_cases:
  assumes "holds_wallets f ws" "commit_success K f wid key n t = Inr (w', f')" "0 \<le> n"
  obtains (retry) "w' \<in> set ws" "wa_id w' = wid" "map_of (wa_operations w') key \<noteq> None" "f' = f"
  | (charged) w where "w \<in> set ws" "wa_id w = wid" "map_of (wa_operations w) key = None" "n \<le> wallet_remaining w"
      "w' = charge w key n t" "holds_wallets f' (replace_by wallet_key w' ws)"
proof -
  have f: "f \<noteq> Missing" using assms(2) by (auto simp: commit_success_def)
  obtain data where d: "read_wallets f = Inr data" "json_bucket data ''wallets'' = bucket_of wallet_key wallet_to_dict ws"
    using holds_wallets_data[OF assms(1) f] .
  obtain w where w: "find (\<lambda>w. wa_id w = wid) ws = Some w"
    using assms(2) f d bucket_get_wallets[of ws wid] by (cases "find (\<lambda>w. wa_id w = wid) ws") (auto simp: commit_success_def)
  have m: "w \<in> set ws" "wa_id w = wid" and ok: "mk_wallet_record w = Inr w"
    using find_Some_mem[OF w] assms(1) by (auto simp: holds_wallets_def)
  have step: "(if map_of (wa_operations w) key \<noteq> None then Inr (w, f)
      else if n > wallet_remaining w then Inl wallet_exhausted
      else bindE (mk_wallet_record (charge w key n t)) (\<lambda>u.
        Inr (u, write_sorted data ''wallets'' (jset (json_bucket data ''wallets'') (uuid_str wid) (wallet_to_dict u))))) = Inr (w', f')"
    using assms(2) f w wallet_from_to_dict[OF ok, of K]
    by (simp add: commit_success_def d bucket_get_wallets charge_def Let_def cong: if_cong)
  show ?thesis
  proof (cases "map_of (wa_operations w) key = None")
    case False
    then show ?thesis using retry m step by auto
  next
    case True
    then have n: "n \<le> wallet_remaining w" using step by (auto split: if_splits)
    let ?w = "charge w key n t"
    have ok': "mk_wallet_record ?w = Inr ?w" using ok n assms(3) by (auto simp: mk_wallet_record_Inr wallet_remaining_def)
    then have w': "w' = ?w"
      "f' = write_sorted data ''wallets'' (jset (json_bucket data ''wallets'') (wallet_key ?w) (wallet_to_dict ?w))"
      using True n step m(2) by (auto simp: wallet_key_def)
    have "records_at ''context wallet store'' ''wallets'' wallet_key wallet_to_dict f' (replace_by wallet_key ?w ws)"
      unfolding w'(2) using m f assms(1) d(1)
      by (intro records_known[where f = f]) (auto simp: holds_wallets_def read_wallets_def)
    then have "holds_wallets f' (replace_by wallet_key ?w ws)"
      using ok' assms(1) by (auto simp: holds_wallets_def dest!: replace_by_memD)
    then show ?thesis using charged[OF m True n] w'(1) by simp
  qed
qed

section \<open>Runs\<close>

text \<open>
  Sessions share a store: wallets are created, and operations spent by any caller in any order, each
  under the lock of the file. The events are the calls that returned, newest first; \<open>charged\<close> counts
  each operation key of a wallet once.
\<close>

datatype wallet_event = Created uuid int | Spent uuid pystr int balance

inductive wallet_run :: "coercions \<Rightarrow> json_file \<Rightarrow> wallet_event list \<Rightarrow> bool" for K where
  wallet_run_init: "wallet_run K Missing []"
| wallet_run_create: "wallet_run K f es \<Longrightarrow> create_wallet f wid now m = Inr (b, f') \<Longrightarrow>
    wallet_run K f' (Created wid m # es)"
| wallet_run_spend: "wallet_run K f es \<Longrightarrow> parse_handle handle = Inr wid \<Longrightarrow> operation_key raw = Inr key \<Longrightarrow>
    spend_success K f now handle raw n = Inr (b, f') \<Longrightarrow> wallet_run K f' (Spent wid key n b # es)"

primrec spent_keys :: "uuid \<Rightarrow> wallet_event list \<Rightarrow> pystr list" where
  "spent_keys wid [] = []"
| "spent_keys wid (e # es) =
    (case e of Created _ _ \<Rightarrow> spent_keys wid es
     | Spent w key n b \<Rightarrow> if w = wid then key # spent_keys wid es else spent_keys wid es)"

primrec charged :: "uuid \<Rightarrow> wallet_event list \<Rightarrow> int" where
  "charged wid [] = 0"
| "charged wid (e # es) = charged wid es +
    (case e of Created _ _ \<Rightarrow> 0
     | Spent w key n b \<Rightarrow> if w = wid \<and> key \<notin> set (spent_keys wid es) then n else 0)"

definition accounted :: "wallet list \<Rightarrow> wallet_event list \<Rightarrow> bool" where
  "accounted ws es \<longleftrightarrow>
    (\<forall>wid m. Created wid m \<in> set es \<longrightarrow> (\<exists>w \<in> set ws. wa_id w = wid \<and> wa_max w = m)) \<and>
    (\<forall>w \<in> set ws. wa_consumed w = charged (wa_id w) es \<and> fst ` set (wa_operations w) = set (spent_keys (wa_id w) es)) \<and>
    (\<forall>wid key n b. Spent wid key n b \<in> set es \<longrightarrow>
      (\<exists>w \<in> set ws. \<exists>x. wa_id w = wid \<and> map_of (wa_operations w) key = Some x \<and> b = operation_balance w (wo_consumed x)))"

lemma spent_keys_events: "key \<in> set (spent_keys wid es) \<longleftrightarrow> (\<exists>n b. Spent wid key n b \<in> set es)"
  by (induction es) (auto split: wallet_event.splits)

lemma no_spent: "spent_keys wid es = [] \<Longrightarrow> charged wid es = 0"
  by (induction es) (auto split: wallet_event.splits if_splits)

lemma charge_operations:
  "map_of (wa_operations (charge w key n t)) k =
    (case map_of (wa_operations w) k of
       Some x \<Rightarrow> Some x
     | None \<Rightarrow> if k = key then Some \<lparr>wo_estimated = n, wo_consumed = wa_consumed w + n, wo_completed_at = t\<rparr> else None)"
  "fst ` set (wa_operations (charge w key n t)) = insert key (fst ` set (wa_operations w))"
  by (auto simp: charge_def Let_def map_add_def image_Un split: option.splits)

lemma operation_balance_charge [simp]: "operation_balance (charge w key n t) c = operation_balance w c"
  by (simp add: operation_balance_def wallet_handle_def)

lemma map_of_None_keys: "map_of xs k = None \<longleftrightarrow> k \<notin> fst ` set xs"
  by (rule map_of_eq_None_iff)

lemma accounted_wallet:
  "accounted ws es \<Longrightarrow> w \<in> set ws \<Longrightarrow>
    wa_consumed w = charged (wa_id w) es \<and> fst ` set (wa_operations w) = set (spent_keys (wa_id w) es)"
  by (simp add: accounted_def)

lemma accounted_created: "accounted ws es \<Longrightarrow> Created wid m \<in> set es \<Longrightarrow> \<exists>w \<in> set ws. wa_id w = wid \<and> wa_max w = m"
  by (simp add: accounted_def)

lemma create_accounted:
  assumes "holds_wallets f ws" "accounted ws es" "create_wallet f wid now m = Inr (b, f')"
  shows "\<exists>ws'. holds_wallets f' ws' \<and> accounted ws' (Created wid m # es)"
proof -
  let ?w = "\<lparr>wa_id = wid, wa_max = m, wa_consumed = 0, wa_created_at = now, wa_updated_at = now, wa_operations = []\<rparr>"
  obtain data where d: "0 \<le> m" "f' = write_sorted data ''wallets'' (jset (json_bucket data ''wallets'') (uuid_str wid) (wallet_to_dict ?w))"
      "map_of (json_bucket data ''wallets'') (uuid_str wid) = None"
      "if f = Missing then data = [(''schema_version'', JInt 1), (''wallets'', JObj [])] else read_wallets f = Inr data"
    using assms(3)
    by (auto simp: create_wallet_def wallet_create_def mk_wallet_record_def mk_wallet_def Let_def res_simps split: if_splits)
  have r: "\<exists>g. read_store ''context wallet store'' ''wallets'' g = Inr data \<and>
      records_at ''context wallet store'' ''wallets'' wallet_key wallet_to_dict g ws"
  proof (cases "f = Missing")
    case True
    then have "ws = []" "read_store ''context wallet store'' ''wallets'' (empty_document ''wallets'') = Inr data"
      using d(4) assms(1) by (auto simp: holds_wallets_def records_at_def read_store_Inr empty_document_def json_is_one_def)
    then show ?thesis using records_init[of "''wallets''"] by auto
  next
    case False
    then show ?thesis using d(4) assms(1) by (auto simp: holds_wallets_def read_wallets_def)
  qed
  then obtain g where g: "read_store ''context wallet store'' ''wallets'' g = Inr data"
      "records_at ''context wallet store'' ''wallets'' wallet_key wallet_to_dict g ws" by blast
  then have b: "json_bucket data ''wallets'' = bucket_of wallet_key wallet_to_dict ws"
    by (auto simp: records_at_def)
  have k: "wallet_key ?w = uuid_str wid" by (simp add: wallet_key_def)
  have n: "wallet_key ?w \<notin> wallet_key ` set ws"
    using d(3) by (auto simp: b bucket_of_def map_of_eq_None_iff wallet_key_def image_iff)
  have h: "holds_wallets f' (sort_key wallet_key (ws @ [?w]))"
    using records_new[OF g(2) n g(1)] assms(1) d(1,2) by (auto simp: holds_wallets_def k mk_wallet_record_Inr)
  have fresh: "spent_keys wid es = []"
  proof (rule ccontr)
    assume "spent_keys wid es \<noteq> []"
    then obtain key where "key \<in> set (spent_keys wid es)" by (cases "spent_keys wid es") auto
    then obtain w where "w \<in> set ws" "wa_id w = wid"
      using assms(2) unfolding spent_keys_events accounted_def by blast
    then show False using n by (auto simp: wallet_key_def)
  qed
  have "accounted (sort_key wallet_key (ws @ [?w])) (Created wid m # es)"
    using assms(2) fresh no_spent[OF fresh] by (auto simp: accounted_def)
  then show ?thesis using h by blast
qed

lemma spend_cases:
  assumes "holds_wallets f ws" "parse_handle handle = Inr wid" "operation_key raw = Inr key"
    and "spend_success K f now handle raw n = Inr (b, f')"
  obtains (retry) w x where "w \<in> set ws" "wa_id w = wid" "map_of (wa_operations w) key = Some x" "f' = f"
      "b = operation_balance w (wo_consumed x)"
  | (charged) w where "w \<in> set ws" "wa_id w = wid" "map_of (wa_operations w) key = None" "0 \<le> n" "n \<le> wallet_remaining w"
      "holds_wallets f' (replace_by wallet_key (charge w key n now) ws)" "b = operation_balance w (wa_consumed w + n)"
proof -
  obtain w x where w: "commit_success K f wid key n now = Inr (w, f')" "0 \<le> n"
      "map_of (wa_operations w) key = Some x" "b = operation_balance w (wo_consumed x)"
    using assms(2-4)
    by (cases "commit_success K f wid key n now")
      (auto simp: spend_success_def res_simps split: option.splits exc.splits prod.splits)
  from assms(1) w(1,2) show ?thesis
  proof (cases rule: commit_cases)
    case retry
    then show ?thesis using that(1) w(3,4) by blast
  next
    case (charged v)
    then show ?thesis using that(2)[of v] w(2-4) by (auto simp: charge_operations)
  qed
qed

lemma spend_accounted:
  assumes "holds_wallets f ws" "accounted ws es" "parse_handle handle = Inr wid" "operation_key raw = Inr key"
    and "spend_success K f now handle raw n = Inr (b, f')"
  shows "\<exists>ws'. holds_wallets f' ws' \<and> accounted ws' (Spent wid key n b # es)"
  using assms(1,3-5)
proof (cases rule: spend_cases)
  case (retry w x)
  then have "key \<in> set (spent_keys wid es)"
    using assms(2) map_of_eq_None_iff[of "wa_operations w" key] by (simp add: accounted_def)
  then have "accounted ws (Spent wid key n b # es)"
    using assms(2) retry by (auto simp: accounted_def)
  then show ?thesis using retry assms(1) by blast
next
  case (charged w)
  let ?w = "charge w key n now"
  let ?ws = "replace_by wallet_key ?w ws"
  have new: "?w \<in> set ?ws" using charged(1) by (auto simp: set_replace_by)
  have mem: "v = ?w \<or> v \<in> set ws \<and> wa_id v \<noteq> wid" if "v \<in> set ?ws" for v
    using replace_by_memD[OF that] charged(2) by (auto simp: wallet_key_def)
  have old: "v = w \<or> v \<in> set ?ws" if "v \<in> set ws" for v
    using that charged(1,2) holds_wallets_ids[OF assms(1) that charged(1)] by (auto simp: set_replace_by wallet_key_def)
  have fresh: "key \<notin> set (spent_keys wid es)"
    using assms(2) charged(1-3) unfolding accounted_def map_of_eq_None_iff by metis
  have acc: "wa_consumed v = charged (wa_id v) es" "fst ` set (wa_operations v) = set (spent_keys (wa_id v) es)"
    if "v \<in> set ws" for v
    using accounted_wallet[OF assms(2) that] by simp_all
  have "accounted ?ws (Spent wid key n b # es)"
    unfolding accounted_def
  proof (intro conjI allI impI ballI)
    fix i m assume "Created i m \<in> set (Spent wid key n b # es)"
    then obtain v where v: "v \<in> set ws" "wa_id v = i" "wa_max v = m" using assms(2) by (auto simp: accounted_def)
    from old[OF v(1)] show "\<exists>v \<in> set ?ws. wa_id v = i \<and> wa_max v = m"
    proof
      assume "v = w"
      then show ?thesis using new v by (intro bexI[of _ ?w]) auto
    qed (use v in blast)
  next
    fix v assume "v \<in> set ?ws"
    from mem[OF this] consider "v = ?w" | "v \<in> set ws" "wa_id v \<noteq> wid" by blast
    then show "wa_consumed v = charged (wa_id v) (Spent wid key n b # es)"
    proof cases
      case 1
      then show ?thesis using acc(1)[OF charged(1)] charged(2) fresh by simp
    next
      case 2
      then show ?thesis using acc(1)[OF 2(1)] by simp
    qed
  next
    fix v assume "v \<in> set ?ws"
    from mem[OF this] consider "v = ?w" | "v \<in> set ws" "wa_id v \<noteq> wid" by blast
    then show "fst ` set (wa_operations v) = set (spent_keys (wa_id v) (Spent wid key n b # es))"
    proof cases
      case 1
      then show ?thesis using acc(2)[OF charged(1)] charged(2) by (simp add: charge_operations)
    next
      case 2
      then show ?thesis using acc(2)[OF 2(1)] by simp
    qed
  next
    fix i k m c assume "Spent i k m c \<in> set (Spent wid key n b # es)"
    then consider "i = wid" "k = key" "c = b" | "Spent i k m c \<in> set es" by auto
    then show "\<exists>v \<in> set ?ws. \<exists>x. wa_id v = i \<and> map_of (wa_operations v) k = Some x \<and> c = operation_balance v (wo_consumed x)"
    proof cases
      case 1
      then show ?thesis using new charged(2,3,7) by (intro bexI[of _ ?w]) (auto simp: charge_operations)
    next
      case 2
      then obtain v x where v: "v \<in> set ws" "wa_id v = i" "map_of (wa_operations v) k = Some x"
          "c = operation_balance v (wo_consumed x)" using assms(2) unfolding accounted_def by blast
      from old[OF v(1)] show ?thesis
      proof
        assume "v = w"
        then show ?thesis using new v by (intro bexI[of _ ?w]) (auto simp: charge_operations)
      qed (use v in blast)
    qed
  qed
  then show ?thesis using charged(6) by blast
qed

lemma wallet_run_accounted: "wallet_run K f es \<Longrightarrow> \<exists>ws. holds_wallets f ws \<and> accounted ws es"
proof (induction rule: wallet_run.induct)
  case wallet_run_init
  then show ?case by (intro exI[of _ "[]"]) (simp add: holds_wallets_def accounted_def)
next
  case (wallet_run_create f es wid now m b f')
  then show ?case using create_accounted by blast
next
  case (wallet_run_spend f es handle wid raw key now n b f')
  then show ?case using spend_accounted by blast
qed

lemma wallet_run_suffix: "wallet_run K f (xs @ es) \<Longrightarrow> \<exists>g. wallet_run K g es"
proof (induction xs arbitrary: f)
  case (Cons x xs)
  from Cons.prems have "\<exists>g. wallet_run K g (xs @ es)" by (auto elim: wallet_run.cases)
  then show ?case using Cons.IH by blast
qed auto

lemma parse_wallet_handle [simp]: "parse_handle (''context_wallet:'' @ uuid_str wid) = Inr wid"
  by (simp add: parse_handle_def)

lemma wallet_from_dict_ok: "wallet_from_dict K raw = Inr w \<Longrightarrow> mk_wallet_record w = Inr w"
  by (auto simp: wallet_from_dict_def res_simps Let_def mk_wallet_record_Inr)

lemma commit_stored:
  assumes "wallet_get K f wid = Inr (Some w)" "0 \<le> n"
  shows "\<exists>f'. commit_success K f wid key n t =
    (if map_of (wa_operations w) key \<noteq> None then Inr (w, f)
     else if n > wallet_remaining w then Inl wallet_exhausted else Inr (charge w key n t, f'))"
proof -
  obtain data payload where d: "f \<noteq> Missing" "read_wallets f = Inr data" "wallet_from_dict K payload = Inr w"
      "bucket_get (json_bucket data ''wallets'') (uuid_str wid) = Some payload"
    using assms(1) by (cases "read_wallets f") (auto simp: wallet_get_def res_simps split: if_splits option.splits)
  have "mk_wallet_record (charge w key n t) = Inr (charge w key n t)" if "n \<le> wallet_remaining w"
    using wallet_from_dict_ok[OF d(3)] that assms(2) by (auto simp: mk_wallet_record_Inr wallet_remaining_def)
  then show ?thesis using d by (auto simp: commit_success_def charge_def Let_def not_less)
qed

lemma commit_unstored: "commit_success K f wid key n t = Inr r \<Longrightarrow> \<exists>w. wallet_get K f wid = Inr (Some w)"
  by (cases "read_wallets f") (auto simp: commit_success_def wallet_get_def res_simps Let_def split: if_splits option.splits)

section \<open>Properties\<close>

text \<open>
  C22: A wallet is never overspent, and a retry costs nothing. In every run of creations and spends by any
  callers from no file at all, the balance of a wallet shows exactly the sum of the estimates of its
  distinct operation keys, each counted the first time it was spent, and that sum stays between zero
  and the limit the wallet was created with.
\<close>

theorem wallet_budget:
  assumes "wallet_run K f es" "Created wid m \<in> set es"
  shows "\<exists>b. get_wallet K f (''context_wallet:'' @ uuid_str wid) = Inr b \<and> ba_max b = m \<and>
    ba_consumed b = charged wid es \<and> ba_remaining b = m - charged wid es \<and> 0 \<le> charged wid es \<and> charged wid es \<le> m"
proof -
  obtain ws where ws: "holds_wallets f ws" "accounted ws es" using wallet_run_accounted[OF assms(1)] by blast
  then obtain w where w: "w \<in> set ws" "wa_id w = wid" "wa_max w = m" "wa_consumed w = charged wid es"
    using assms(2) by (auto simp: accounted_def)
  have "find (\<lambda>v. wa_id v = wid) ws = Some w"
    using find_key_distinct[of wallet_key ws w] ws(1) w(1,2) by (auto simp: holds_wallets_def records_at_def wallet_key_def)
  moreover have "0 \<le> wa_consumed w \<and> wa_consumed w \<le> wa_max w"
    using ws(1) w(1) by (simp add: holds_wallets_def mk_wallet_record_Inr)
  ultimately show ?thesis
    unfolding get_wallet_def wallet_record_def parse_wallet_handle wallet_get_table[OF ws(1)] using w
    by (auto simp: wallet_balance_def wallet_remaining_def)
qed

text \<open>
  Spending is idempotent per operation key. In every run, all the spends of a wallet under one
  operation key report the same balance, the one of the first of them, whatever the estimates of the
  retries and whatever was spent in between.
\<close>

theorem wallet_retry:
  assumes "wallet_run K f es" "Spent wid key n b \<in> set es" "Spent wid key n' b' \<in> set es"
  shows "b = b'"
proof -
  obtain ws where ws: "holds_wallets f ws" "accounted ws es" using wallet_run_accounted[OF assms(1)] by blast
  obtain v x where v: "v \<in> set ws" "wa_id v = wid" "map_of (wa_operations v) key = Some x" "b = operation_balance v (wo_consumed x)"
    using ws(2) assms(2) unfolding accounted_def by blast
  obtain w y where w: "w \<in> set ws" "wa_id w = wid" "map_of (wa_operations w) key = Some y" "b' = operation_balance w (wo_consumed y)"
    using ws(2) assms(3) unfolding accounted_def by blast
  have "v = w" using holds_wallets_ids[OF ws(1) v(1) w(1)] v(2) w(2) by simp
  then show ?thesis using v w by simp
qed

text \<open>
  The preview of a spend is exact: on any file, whatever it holds, \<open>preview_success\<close> returns a balance
  if and only if \<open>spend_success\<close> with the same arguments would succeed at that moment, and it is the
  balance that call returns.
\<close>

theorem wallet_preview_exact:
  "preview_success K f handle raw n = Inr b \<longleftrightarrow> (\<exists>f'. spend_success K f now handle raw n = Inr (b, f'))"
proof (cases "parse_handle handle")
  case (Inl e)
  then show ?thesis by (auto simp: preview_success_def spend_success_def wallet_record_def res_simps)
next
  case (Inr wid)
  show ?thesis
  proof (cases "isOk (operation_key raw) \<and> 0 \<le> n \<and> (\<exists>w. wallet_get K f wid = Inr (Some w))")
    case True
    then obtain key w where w: "operation_key raw = Inr key" "0 \<le> n" "wallet_get K f wid = Inr (Some w)"
      by (auto simp: isOk_iff)
    obtain f' where "commit_success K f wid key n now =
        (if map_of (wa_operations w) key \<noteq> None then Inr (w, f)
         else if n > wallet_remaining w then Inl wallet_exhausted else Inr (charge w key n now, f'))"
      using commit_stored[OF w(3,2)] by blast
    then show ?thesis
      using w Inr by (auto simp: preview_success_def spend_success_def wallet_record_def charge_operations
          operation_balance_def wallet_remaining_def diff_diff_eq split: option.splits)
  next
    case False
    then show ?thesis using Inr commit_unstored[of K f wid _ n now]
      by (fastforce simp: preview_success_def spend_success_def wallet_record_def isOk_iff res_simps
          split: option.splits exc.splits sum.splits)
  qed
qed

section \<open>Witnesses\<close>

text \<open>A wallet of 100 tokens, a spend of 60 and a retry of it that asks for 70.\<close>

lemma sample_key: "operation_key (Some ''op'') = Inr (sha256_hexdigest ''op'')"
proof -
  have "\<not> blank ''op''" "char_count ''op'' \<le> 256" by code_simp+
  then show ?thesis by (simp add: operation_key_def)
qed

lemma spend_stored:
  assumes "parse_handle handle = Inr wid" "operation_key raw = Inr key" "0 \<le> n" "wallet_get K f wid = Inr (Some w)"
  shows "map_of (wa_operations w) key = Some x \<Longrightarrow>
      spend_success K f now handle raw n = Inr (operation_balance w (wo_consumed x), f)"
    and "map_of (wa_operations w) key = None \<Longrightarrow> n \<le> wallet_remaining w \<Longrightarrow>
      \<exists>f'. spend_success K f now handle raw n = Inr (operation_balance w (wa_consumed w + n), f')"
proof -
  obtain g where "commit_success K f wid key n now =
      (if map_of (wa_operations w) key \<noteq> None then Inr (w, f)
       else if n > wallet_remaining w then Inl wallet_exhausted else Inr (charge w key n now, g))"
    using commit_stored[OF assms(4,3), of key now] by blast
  note c = this assms(1-3)
  show "map_of (wa_operations w) key = Some x \<Longrightarrow>
      spend_success K f now handle raw n = Inr (operation_balance w (wo_consumed x), f)"
    using c by (simp add: spend_success_def)
  show "map_of (wa_operations w) key = None \<Longrightarrow> n \<le> wallet_remaining w \<Longrightarrow>
      \<exists>f'. spend_success K f now handle raw n = Inr (operation_balance w (wa_consumed w + n), f')"
    using c by (simp add: spend_success_def charge_operations)
qed

lemma stored_wallet:
  assumes "holds_wallets f ws" "accounted ws es" "Created wid m \<in> set es"
  obtains w where "w \<in> set ws" "wallet_get K f wid = Inr (Some w)" "wa_id w = wid" "wa_max w = m"
    "wa_consumed w = charged wid es" "fst ` set (wa_operations w) = set (spent_keys wid es)"
proof -
  obtain w where w: "w \<in> set ws" "wa_id w = wid" "wa_max w = m"
    using accounted_created[OF assms(2,3)] by blast
  have "find (\<lambda>v. wa_id v = wid) ws = Some w"
    using find_key_distinct[of wallet_key ws w] assms(1) w(1,2) by (auto simp: holds_wallets_def records_at_def wallet_key_def)
  then have get: "wallet_get K f wid = Inr (Some w)" by (simp add: wallet_get_table[OF assms(1)])
  show ?thesis using that[OF w(1) get w(2,3)] accounted_wallet[OF assms(2) w(1)] w(2) by simp
qed

lemma sample_wallet_run:
  obtains f b b' where "wallet_run no_coercions f
    [Spent 1 (sha256_hexdigest ''op'') 70 b', Spent 1 (sha256_hexdigest ''op'') 60 b, Created 1 100]"
proof -
  let ?K = no_coercions and ?t = "Aware 0 0" and ?h = "''context_wallet:'' @ uuid_str 1" and ?k = "sha256_hexdigest ''op''"
  have "\<exists>b f. create_wallet Missing 1 ?t 100 = Inr (b, f)"
    by (simp add: create_wallet_def mk_wallet_def mk_wallet_record_def wallet_create_def json_bucket_def check_def)
  then obtain b0 f1 where "create_wallet Missing 1 ?t 100 = Inr (b0, f1)" by blast
  from wallet_run_create[OF wallet_run_init this] have r1: "wallet_run ?K f1 [Created 1 100]" .
  obtain ws1 where ws1: "holds_wallets f1 ws1" "accounted ws1 [Created 1 100]"
    using wallet_run_accounted[OF r1] by blast
  obtain w1 where w1: "wallet_get ?K f1 1 = Inr (Some w1)" "wa_max w1 = 100" "wa_consumed w1 = 0" "wa_operations w1 = []"
    by (rule stored_wallet[OF ws1, of 1 100 ?K]) auto
  obtain b f2 where s2: "spend_success ?K f1 ?t ?h (Some ''op'') 60 = Inr (b, f2)"
    using spend_stored(2)[OF parse_wallet_handle sample_key _ w1(1), of 60 ?t] w1 by (auto simp: wallet_remaining_def)
  from wallet_run_spend[OF r1 parse_wallet_handle sample_key s2]
  have r2: "wallet_run ?K f2 [Spent 1 ?k 60 b, Created 1 100]" .
  obtain ws2 where ws2: "holds_wallets f2 ws2" "accounted ws2 [Spent 1 ?k 60 b, Created 1 100]"
    using wallet_run_accounted[OF r2] by blast
  obtain w2 where w2: "w2 \<in> set ws2" "wallet_get ?K f2 1 = Inr (Some w2)" "wa_id w2 = 1"
    by (rule stored_wallet[OF ws2, of 1 100 ?K]) auto
  have "map_of (wa_operations w2) ?k \<noteq> None"
    using accounted_wallet[OF ws2(2) w2(1)] w2(3) by (simp add: map_of_eq_None_iff)
  then obtain x where x: "map_of (wa_operations w2) ?k = Some x" by blast
  have "spend_success ?K f2 ?t ?h (Some ''op'') 70 = Inr (operation_balance w2 (wo_consumed x), f2)"
    by (rule spend_stored(1)[OF parse_wallet_handle sample_key _ w2(2) x]) simp
  from wallet_run_spend[OF r2 parse_wallet_handle sample_key this] show ?thesis by (rule that)
qed

lemma wallet_budget_witness:
  "\<exists>f b. get_wallet no_coercions f (''context_wallet:'' @ uuid_str 1) = Inr b \<and> ba_consumed b = 60 \<and> ba_remaining b = 40"
proof -
  obtain f b b' where r: "wallet_run no_coercions f
      [Spent 1 (sha256_hexdigest ''op'') 70 b', Spent 1 (sha256_hexdigest ''op'') 60 b, Created 1 100]"
    by (rule sample_wallet_run)
  from wallet_budget[OF r, of 1 100]
  obtain c where "get_wallet no_coercions f (''context_wallet:'' @ uuid_str 1) = Inr c" "ba_consumed c = 60" "ba_remaining c = 40"
    by auto
  then show ?thesis by blast
qed

lemma wallet_retry_witness:
  "\<exists>f b b'. wallet_run no_coercions f
      [Spent 1 (sha256_hexdigest ''op'') 70 b', Spent 1 (sha256_hexdigest ''op'') 60 b, Created 1 100] \<and> b' = b"
proof -
  obtain f b b' where r: "wallet_run no_coercions f
      [Spent 1 (sha256_hexdigest ''op'') 70 b', Spent 1 (sha256_hexdigest ''op'') 60 b, Created 1 100]"
    by (rule sample_wallet_run)
  have "b' = b" by (rule wallet_retry[OF r, of 1 "sha256_hexdigest ''op''" 70 _ 60]) simp_all
  with r show ?thesis by blast
qed

end
