(* ===== verification/Citations.thy ===== *)
theory Citations imports PyCoerce ObservationStore begin

text \<open>
  \<open>domain/citations.py\<close>: bibliographic references, citation mentions and contexts, the resolution of a
  reference to a work, and the relations between works. Identifiers of a reference are a mapping, kept as
  the list of its items.
\<close>

datatype resolution_status = UNRESOLVED | RESOLVED | AMBIGUOUS | REJECTED

datatype work_relation_kind = CITES | IS_VERSION_OF | IS_PREPRINT_OF | IS_CORRECTION_OF | IS_RETRACTION_OF
  | USES_DATASET | USES_SOFTWARE | SUPPLEMENTS | HAS_PART | WORK_RELATED

fun resolution_status_value :: "resolution_status \<Rightarrow> pystr" where
  "resolution_status_value UNRESOLVED = ''unresolved''"
| "resolution_status_value RESOLVED = ''resolved''"
| "resolution_status_value AMBIGUOUS = ''ambiguous''"
| "resolution_status_value REJECTED = ''rejected''"

fun work_relation_kind_value :: "work_relation_kind \<Rightarrow> pystr" where
  "work_relation_kind_value CITES = ''cites''"
| "work_relation_kind_value IS_VERSION_OF = ''is_version_of''"
| "work_relation_kind_value IS_PREPRINT_OF = ''is_preprint_of''"
| "work_relation_kind_value IS_CORRECTION_OF = ''is_correction_of''"
| "work_relation_kind_value IS_RETRACTION_OF = ''is_retraction_of''"
| "work_relation_kind_value USES_DATASET = ''uses_dataset''"
| "work_relation_kind_value USES_SOFTWARE = ''uses_software''"
| "work_relation_kind_value SUPPLEMENTS = ''supplements''"
| "work_relation_kind_value HAS_PART = ''has_part''"
| "work_relation_kind_value WORK_RELATED = ''related''"

definition optional_not_blank :: "pystr \<Rightarrow> pystr option \<Rightarrow> exc + unit" where
  "optional_not_blank what text =
    check (case text of None \<Rightarrow> True | Some s \<Rightarrow> \<not> blank s) (ValueError (what @ '' must not be blank''))"

record reference =
  rf_id :: uuid
  rf_document :: uuid
  rf_ordinal :: int
  rf_raw_text :: pystr
  rf_identifiers :: "(pystr \<times> pystr) list"
  rf_title :: "pystr option"
  rf_authors :: "pystr list"
  rf_year :: "int option"
  rf_anchor :: "pystr option"
  rf_observation :: "uuid option"

definition mk_reference :: "reference \<Rightarrow> exc + reference" where
  "mk_reference r =
    bindE (check (0 \<le> rf_ordinal r) (ValueError ''bibliographic reference ordinal must be non-negative'')) (\<lambda>_.
    bindE (check (\<not> blank (rf_raw_text r)) (ValueError ''bibliographic reference raw_text must not be blank'')) (\<lambda>_.
    bindE (optional_not_blank ''bibliographic reference title'' (rf_title r)) (\<lambda>_.
    bindE (optional_not_blank ''bibliographic reference source_anchor'' (rf_anchor r)) (\<lambda>_.
    bindE (check (case rf_year r of None \<Rightarrow> True | Some y \<Rightarrow> 0 \<le> y)
             (ValueError ''bibliographic reference publication_year must be non-negative'')) (\<lambda>_.
    bindE (mapM (\<lambda>(scheme, value).
             bindE (check (\<not> blank scheme) (ValueError ''bibliographic identifier schemes must be non-blank strings'')) (\<lambda>_.
             check (\<not> blank value) (ValueError ''bibliographic identifier values must be non-blank strings'')))
             (rf_identifiers r)) (\<lambda>_.
    bindE (check (list_all (\<lambda>a. \<not> blank a) (rf_authors r))
             (ValueError ''bibliographic authors must be non-blank strings'')) (\<lambda>_.
    Inr r)))))))"

record mention =
  mn_id :: uuid
  mn_document :: uuid
  mn_raw_text :: pystr
  mn_reference :: "uuid option"
  mn_section :: "uuid option"
  mn_passage :: "uuid option"
  mn_start :: "int option"
  mn_end :: "int option"
  mn_anchor :: "pystr option"
  mn_observation :: "uuid option"

definition mk_mention :: "mention \<Rightarrow> exc + mention" where
  "mk_mention m =
    bindE (check (\<not> blank (mn_raw_text m)) (ValueError ''citation mention raw_text must not be blank'')) (\<lambda>_.
    bindE (check ((mn_start m = None) = (mn_end m = None))
             (ValueError ''citation mention character bounds must be supplied together'')) (\<lambda>_.
    bindE (case (mn_start m, mn_end m) of
             (Some a, Some b) \<Rightarrow>
               bindE (check (0 \<le> a \<and> a < b) (ValueError ''invalid citation mention character range'')) (\<lambda>_.
               check (b - a = int (char_count (mn_raw_text m)))
                 (ValueError ''citation mention character range must match raw_text length''))
           | _ \<Rightarrow> Inr ()) (\<lambda>_.
    bindE (optional_not_blank ''citation mention source_anchor'' (mn_anchor m)) (\<lambda>_.
    Inr m))))"

record citation_context =
  cx_id :: uuid
  cx_mention :: uuid
  cx_document :: uuid
  cx_text :: pystr
  cx_start :: int
  cx_end :: int
  cx_section :: "uuid option"
  cx_passage :: "uuid option"

definition mk_context :: "citation_context \<Rightarrow> exc + citation_context" where
  "mk_context c =
    bindE (check (\<not> blank (cx_text c)) (ValueError ''citation context text must not be blank'')) (\<lambda>_.
    bindE (check (0 \<le> cx_start c \<and> cx_start c \<le> cx_end c)
             (ValueError ''invalid citation context character range'')) (\<lambda>_.
    bindE (check (cx_end c - cx_start c = int (char_count (cx_text c)))
             (ValueError ''citation context character range must match text length'')) (\<lambda>_.
    Inr c)))"

record resolution =
  rs_id :: uuid
  rs_reference :: uuid
  rs_status :: resolution_status
  rs_work :: "uuid option"
  rs_candidates :: "uuid list"
  rs_resolver :: "pystr option"
  rs_observation :: "uuid option"
  rs_resolved_at :: datetime

definition mk_resolution :: "resolution \<Rightarrow> exc + resolution" where
  "mk_resolution r =
    bindE (optional_not_blank ''citation resolver'' (rs_resolver r)) (\<lambda>_.
    bindE (check (distinct (rs_candidates r)) (ValueError ''citation resolution candidates must be unique'')) (\<lambda>_.
    bindE (case rs_status r of
             RESOLVED \<Rightarrow>
               bindE (check (rs_work r \<noteq> None) (ValueError ''resolved citation must identify a canonical work'')) (\<lambda>_.
               check (rs_candidates r = []) (ValueError ''resolved citation must not retain ambiguous candidates''))
           | AMBIGUOUS \<Rightarrow>
               bindE (check (rs_work r = None) (ValueError ''ambiguous citation must not select a canonical work'')) (\<lambda>_.
               check (2 \<le> length (rs_candidates r)) (ValueError ''ambiguous citation must retain at least two candidates''))
           | _ \<Rightarrow>
               bindE (check (rs_work r = None)
                        (ValueError ''unresolved/rejected citation must not select a canonical work'')) (\<lambda>_.
               check (rs_candidates r = []) (ValueError ''unresolved/rejected citation must not retain candidates''))) (\<lambda>_.
    Inr r)))"

record work_relation =
  wr_id :: uuid
  wr_subject :: uuid
  wr_object :: uuid
  wr_kind :: work_relation_kind
  wr_basis :: basis
  wr_observation :: "uuid option"
  wr_document :: "uuid option"
  wr_reference :: "uuid option"
  wr_created_at :: datetime

definition mk_work_relation :: "work_relation \<Rightarrow> exc + work_relation" where
  "mk_work_relation r =
    bindE (check (\<not> (wr_subject r = wr_object r \<and> wr_kind r \<noteq> CITES))
             (ValueError ''non-citation work relation endpoints must be distinct'')) (\<lambda>_.
    bindE (check (\<not> (wr_observation r = None \<and> wr_document r = None \<and> wr_reference r = None))
             (ValueError ''work relation must retain at least one provenance source'')) (\<lambda>_.
    Inr r))"

lemma mk_citation_Inr:
  "mk_reference rf = Inr rf' \<Longrightarrow> rf' = rf" "mk_mention mn = Inr mn' \<Longrightarrow> mn' = mn"
  "mk_context cx = Inr cx' \<Longrightarrow> cx' = cx" "mk_resolution rs = Inr rs' \<Longrightarrow> rs' = rs"
  "mk_work_relation wr = Inr wr' \<Longrightarrow> wr' = wr"
  by (auto simp: mk_reference_def mk_mention_def mk_context_def mk_resolution_def mk_work_relation_def res_simps)

end
