(* ===== verification/CitationStore.thy ===== *)
theory CitationStore imports Citations "HOL-Library.Product_Lexorder" begin

text \<open>
  \<open>infrastructure/storage/json_citation_repository.py\<close>: the catalogue of references, mentions, contexts,
  resolutions and relations, one JSON document with a bucket for each. Records are written once, except
  that a resolution may be refined. Reading validates every record. Where several fields of a record are
  bad, which of the errors is reported is not modelled.
\<close>

section \<open>Documents\<close>

text \<open>Items that must be texts.\<close>

fun text_item :: "json \<Rightarrow> exc + pystr" where
  "text_item (JStr s) = Inr s"
| "text_item _ = Inl (ValueError ''must be non-blank strings'')"

abbreviation opt_uuid :: "uuid option \<Rightarrow> json" where
  "opt_uuid \<equiv> jopt (\<lambda>u. JStr (uuid_str u))"

definition reference_to_dict :: "reference \<Rightarrow> json" where
  "reference_to_dict r = JObj
    [(''reference_id'', JStr (uuid_str (rf_id r))),
     (''document_id'', JStr (uuid_str (rf_document r))),
     (''ordinal'', JInt (rf_ordinal r)),
     (''raw_text'', JStr (rf_raw_text r)),
     (''identifiers'', JObj (map (\<lambda>(k, v). (k, JStr v)) (rf_identifiers r))),
     (''title'', jopt JStr (rf_title r)),
     (''authors'', JList (map JStr (rf_authors r))),
     (''publication_year'', jopt JInt (rf_year r)),
     (''source_anchor'', jopt JStr (rf_anchor r)),
     (''source_observation_id'', opt_uuid (rf_observation r))]"

definition reference_from_dict :: "coercions \<Rightarrow> json \<Rightarrow> exc + reference" where
  "reference_from_dict K raw =
    bindE (bindE (jitem raw ''reference_id'') juuid) (\<lambda>rid.
    bindE (bindE (jitem raw ''document_id'') juuid) (\<lambda>document.
    bindE (bindE (jitem raw ''ordinal'') (as_int K)) (\<lambda>ordinal.
    bindE (bindE (jitem raw ''raw_text'') jtext) (\<lambda>raw_text.
    bindE (as_dict K (case jget raw ''identifiers'' of None \<Rightarrow> JObj [] | Some v \<Rightarrow> v)) (\<lambda>identifiers.
    bindE (mapM (\<lambda>(k, v). mapE (Pair k) (text_item v)) identifiers) (\<lambda>identifiers.
    bindE (jopt_text (jget raw ''title'')) (\<lambda>title.
    bindE (as_list K (case jget raw ''authors'' of None \<Rightarrow> JList [] | Some v \<Rightarrow> v)) (\<lambda>authors.
    bindE (mapM text_item authors) (\<lambda>authors.
    bindE (jopt_int (jget raw ''publication_year'')) (\<lambda>year.
    bindE (jopt_text (jget raw ''source_anchor'')) (\<lambda>anchor.
    bindE (jopt_uuid_given (jget raw ''source_observation_id'')) (\<lambda>observation.
    mk_reference \<lparr>rf_id = rid, rf_document = document, rf_ordinal = ordinal, rf_raw_text = raw_text,
      rf_identifiers = identifiers, rf_title = title, rf_authors = authors, rf_year = year,
      rf_anchor = anchor, rf_observation = observation\<rparr>))))))))))))"

definition mention_to_dict :: "mention \<Rightarrow> json" where
  "mention_to_dict m = JObj
    [(''mention_id'', JStr (uuid_str (mn_id m))),
     (''document_id'', JStr (uuid_str (mn_document m))),
     (''raw_text'', JStr (mn_raw_text m)),
     (''reference_id'', opt_uuid (mn_reference m)),
     (''section_id'', opt_uuid (mn_section m)),
     (''passage_id'', opt_uuid (mn_passage m)),
     (''char_start'', jopt JInt (mn_start m)),
     (''char_end'', jopt JInt (mn_end m)),
     (''source_anchor'', jopt JStr (mn_anchor m)),
     (''source_observation_id'', opt_uuid (mn_observation m))]"

definition mention_from_dict :: "json \<Rightarrow> exc + mention" where
  "mention_from_dict raw =
    bindE (bindE (jitem raw ''mention_id'') juuid) (\<lambda>mid.
    bindE (bindE (jitem raw ''document_id'') juuid) (\<lambda>document.
    bindE (bindE (jitem raw ''raw_text'') jtext) (\<lambda>raw_text.
    bindE (jopt_uuid_given (jget raw ''reference_id'')) (\<lambda>ref.
    bindE (jopt_uuid_given (jget raw ''section_id'')) (\<lambda>sect.
    bindE (jopt_uuid_given (jget raw ''passage_id'')) (\<lambda>passage.
    bindE (jopt_int (jget raw ''char_start'')) (\<lambda>char_start.
    bindE (jopt_int (jget raw ''char_end'')) (\<lambda>char_end.
    bindE (jopt_text (jget raw ''source_anchor'')) (\<lambda>anchor.
    bindE (jopt_uuid_given (jget raw ''source_observation_id'')) (\<lambda>observation.
    mk_mention \<lparr>mn_id = mid, mn_document = document, mn_raw_text = raw_text, mn_reference = ref,
      mn_section = sect, mn_passage = passage, mn_start = char_start, mn_end = char_end,
      mn_anchor = anchor, mn_observation = observation\<rparr>))))))))))"

definition context_to_dict :: "citation_context \<Rightarrow> json" where
  "context_to_dict c = JObj
    [(''context_id'', JStr (uuid_str (cx_id c))),
     (''mention_id'', JStr (uuid_str (cx_mention c))),
     (''document_id'', JStr (uuid_str (cx_document c))),
     (''text'', JStr (cx_text c)),
     (''char_start'', JInt (cx_start c)),
     (''char_end'', JInt (cx_end c)),
     (''section_id'', opt_uuid (cx_section c)),
     (''passage_id'', opt_uuid (cx_passage c))]"

definition context_from_dict :: "coercions \<Rightarrow> json \<Rightarrow> exc + citation_context" where
  "context_from_dict K raw =
    bindE (bindE (jitem raw ''context_id'') juuid) (\<lambda>cid.
    bindE (bindE (jitem raw ''mention_id'') juuid) (\<lambda>mid.
    bindE (bindE (jitem raw ''document_id'') juuid) (\<lambda>document.
    bindE (bindE (jitem raw ''text'') jtext) (\<lambda>txt.
    bindE (bindE (jitem raw ''char_start'') (as_int K)) (\<lambda>char_start.
    bindE (bindE (jitem raw ''char_end'') (as_int K)) (\<lambda>char_end.
    bindE (jopt_uuid_given (jget raw ''section_id'')) (\<lambda>sect.
    bindE (jopt_uuid_given (jget raw ''passage_id'')) (\<lambda>passage.
    mk_context \<lparr>cx_id = cid, cx_mention = mid, cx_document = document, cx_text = txt,
      cx_start = char_start, cx_end = char_end, cx_section = sect, cx_passage = passage\<rparr>))))))))"

definition resolution_to_dict :: "resolution \<Rightarrow> json" where
  "resolution_to_dict r = JObj
    [(''resolution_id'', JStr (uuid_str (rs_id r))),
     (''reference_id'', JStr (uuid_str (rs_reference r))),
     (''status'', JStr (resolution_status_value (rs_status r))),
     (''work_id'', opt_uuid (rs_work r)),
     (''candidate_work_ids'', JList (map (\<lambda>u. JStr (uuid_str u)) (rs_candidates r))),
     (''resolver'', jopt JStr (rs_resolver r)),
     (''source_observation_id'', opt_uuid (rs_observation r)),
     (''resolved_at'', JTime (rs_resolved_at r))]"

definition parse_resolution_status :: "json \<Rightarrow> exc + resolution_status" where
  "parse_resolution_status = parse_member resolution_status_value [UNRESOLVED, RESOLVED, AMBIGUOUS, REJECTED]"

definition resolution_from_dict :: "coercions \<Rightarrow> json \<Rightarrow> exc + resolution" where
  "resolution_from_dict K raw =
    bindE (bindE (jitem raw ''resolution_id'') juuid) (\<lambda>sid.
    bindE (bindE (jitem raw ''reference_id'') juuid) (\<lambda>rid.
    bindE (bindE (jitem raw ''status'') parse_resolution_status) (\<lambda>st.
    bindE (jopt_uuid_given (jget raw ''work_id'')) (\<lambda>work.
    bindE (as_list K (case jget raw ''candidate_work_ids'' of None \<Rightarrow> JList [] | Some v \<Rightarrow> v)) (\<lambda>candidates.
    bindE (mapM juuid candidates) (\<lambda>candidates.
    bindE (jopt_text (jget raw ''resolver'')) (\<lambda>resolver.
    bindE (jopt_uuid_given (jget raw ''source_observation_id'')) (\<lambda>observation.
    bindE (bindE (jitem raw ''resolved_at'') jtime) (\<lambda>resolved_at.
    mk_resolution \<lparr>rs_id = sid, rs_reference = rid, rs_status = st, rs_work = work,
      rs_candidates = candidates, rs_resolver = resolver, rs_observation = observation,
      rs_resolved_at = resolved_at\<rparr>)))))))))"

definition work_relation_to_dict :: "work_relation \<Rightarrow> json" where
  "work_relation_to_dict r = JObj
    [(''relation_id'', JStr (uuid_str (wr_id r))),
     (''subject_work_id'', JStr (uuid_str (wr_subject r))),
     (''object_work_id'', JStr (uuid_str (wr_object r))),
     (''kind'', JStr (work_relation_kind_value (wr_kind r))),
     (''basis'', JStr (basis_value (wr_basis r))),
     (''source_observation_id'', opt_uuid (wr_observation r)),
     (''source_document_id'', opt_uuid (wr_document r)),
     (''source_reference_id'', opt_uuid (wr_reference r)),
     (''created_at'', JTime (wr_created_at r))]"

definition parse_work_relation_kind :: "json \<Rightarrow> exc + work_relation_kind" where
  "parse_work_relation_kind = parse_member work_relation_kind_value
    [CITES, IS_VERSION_OF, IS_PREPRINT_OF, IS_CORRECTION_OF, IS_RETRACTION_OF, USES_DATASET,
     USES_SOFTWARE, SUPPLEMENTS, HAS_PART, WORK_RELATED]"

definition work_relation_from_dict :: "json \<Rightarrow> exc + work_relation" where
  "work_relation_from_dict raw =
    bindE (bindE (jitem raw ''relation_id'') juuid) (\<lambda>rid.
    bindE (bindE (jitem raw ''subject_work_id'') juuid) (\<lambda>subject.
    bindE (bindE (jitem raw ''object_work_id'') juuid) (\<lambda>obj.
    bindE (bindE (jitem raw ''kind'') parse_work_relation_kind) (\<lambda>kind.
    bindE (bindE (jitem raw ''basis'') (parse_member basis_value [NATIVE, RECONSTRUCTED, INFERRED])) (\<lambda>bas.
    bindE (jopt_uuid_given (jget raw ''source_observation_id'')) (\<lambda>observation.
    bindE (jopt_uuid_given (jget raw ''source_document_id'')) (\<lambda>document.
    bindE (jopt_uuid_given (jget raw ''source_reference_id'')) (\<lambda>ref.
    bindE (bindE (jitem raw ''created_at'') jtime) (\<lambda>created.
    mk_work_relation \<lparr>wr_id = rid, wr_subject = subject, wr_object = obj, wr_kind = kind, wr_basis = bas,
      wr_observation = observation, wr_document = document, wr_reference = ref, wr_created_at = created\<rparr>)))))))))"

section \<open>The catalogue\<close>

datatype bucket = References | Mentions | Contexts | Resolutions | Relations

definition all_buckets :: "bucket list" where
  "all_buckets = [References, Mentions, Contexts, Resolutions, Relations]"

fun bucket_name :: "bucket \<Rightarrow> pystr" where
  "bucket_name References = ''references''"
| "bucket_name Mentions = ''mentions''"
| "bucket_name Contexts = ''contexts''"
| "bucket_name Resolutions = ''resolutions''"
| "bucket_name Relations = ''relations''"

fun bucket_label :: "bucket \<Rightarrow> pystr" where
  "bucket_label References = ''reference''"
| "bucket_label Mentions = ''mention''"
| "bucket_label Contexts = ''context''"
| "bucket_label Resolutions = ''resolution''"
| "bucket_label Relations = ''relation''"

fun bucket_identity :: "bucket \<Rightarrow> pystr" where
  "bucket_identity References = ''reference_id''"
| "bucket_identity Mentions = ''mention_id''"
| "bucket_identity Contexts = ''context_id''"
| "bucket_identity Resolutions = ''reference_id''"
| "bucket_identity Relations = ''relation_id''"

fun parse_record :: "coercions \<Rightarrow> bucket \<Rightarrow> json \<Rightarrow> exc + unit" where
  "parse_record K References raw = mapE (\<lambda>_. ()) (reference_from_dict K raw)"
| "parse_record K Mentions raw = mapE (\<lambda>_. ()) (mention_from_dict raw)"
| "parse_record K Contexts raw = mapE (\<lambda>_. ()) (context_from_dict K raw)"
| "parse_record K Resolutions raw = mapE (\<lambda>_. ()) (resolution_from_dict K raw)"
| "parse_record K Relations raw = mapE (\<lambda>_. ()) (work_relation_from_dict raw)"

definition empty_citations :: json_file where
  "empty_citations = Document (JObj ((''schema_version'', JInt 1) # map (\<lambda>b. (bucket_name b, JObj [])) all_buckets))"

definition init_citations :: "json_file \<Rightarrow> json_file" where
  "init_citations f = (if f = Missing then empty_citations else f)"

definition validate_entry :: "coercions \<Rightarrow> bucket \<Rightarrow> pystr \<times> json \<Rightarrow> exc + unit" where
  "validate_entry K b e =
    (case e of (key, payload) \<Rightarrow>
      bindE (check (is_object payload) (RuntimeError (''invalid citation catalog '' @ bucket_name b @ '' entry''))) (\<lambda>_.
      as_runtime (''invalid citation catalog '' @ bucket_name b @ '' entry'')
        (bindE (bindE (jitem payload (bucket_identity b)) (\<lambda>i. parse_uuid (as_str K i))) (\<lambda>identity.
         bindE (check (uuid_str identity = key) (ValueError (bucket_identity b @ '' does not match catalog key''))) (\<lambda>_.
         parse_record K b payload)))))"

definition validate_bucket :: "coercions \<Rightarrow> json \<Rightarrow> bucket \<Rightarrow> exc + unit" where
  "validate_bucket K doc b =
    (case jget doc (bucket_name b) of
       Some (JObj es) \<Rightarrow> mapE (\<lambda>_. ()) (mapM (validate_entry K b) es)
     | _ \<Rightarrow> Inl (RuntimeError (''invalid citation catalog bucket: '' @ bucket_name b)))"

definition read_citations :: "coercions \<Rightarrow> json_file \<Rightarrow> exc + (pystr \<times> json) list" where
  "read_citations K f =
    (case f of
       Missing \<Rightarrow> Inl (OSError ''unable to read citation catalog'')
     | Malformed \<Rightarrow> Inl (RuntimeError ''invalid citation catalog JSON'')
     | Document doc \<Rightarrow>
         bindE (check (is_object doc) (RuntimeError ''invalid citation catalog: root must be an object'')) (\<lambda>_.
         bindE (check (json_is_one (jget doc ''schema_version''))
                  (RuntimeError ''invalid or unsupported citation catalog'')) (\<lambda>_.
         bindE (mapM (validate_bucket K doc) all_buckets) (\<lambda>_.
         Inr (entries doc)))))"

definition citation_conflict :: "pystr \<Rightarrow> exc" where
  "citation_conflict message = OtherError ''CitationConflictError'' message"

definition save_citation :: "coercions \<Rightarrow> json_file \<Rightarrow> bucket \<Rightarrow> uuid \<Rightarrow> json \<Rightarrow> exc + json_file" where
  "save_citation K f b sid payload =
    bindE (read_citations K f) (\<lambda>data.
    let records = json_bucket data (bucket_name b) in
    case map_of records (uuid_str sid) of
      Some existing \<Rightarrow>
        if json_eq existing payload then Inr f
        else Inl (citation_conflict (''conflicting '' @ bucket_label b @ '' for stable ID''))
    | None \<Rightarrow> Inr (write_sorted data (bucket_name b) (jset records (uuid_str sid) payload)))"

definition save_reference :: "coercions \<Rightarrow> json_file \<Rightarrow> reference \<Rightarrow> exc + json_file" where
  "save_reference K f r = save_citation K f References (rf_id r) (reference_to_dict r)"

definition save_mention :: "coercions \<Rightarrow> json_file \<Rightarrow> mention \<Rightarrow> exc + json_file" where
  "save_mention K f m = save_citation K f Mentions (mn_id m) (mention_to_dict m)"

definition save_context :: "coercions \<Rightarrow> json_file \<Rightarrow> citation_context \<Rightarrow> exc + json_file" where
  "save_context K f c = save_citation K f Contexts (cx_id c) (context_to_dict c)"

definition save_relation :: "coercions \<Rightarrow> json_file \<Rightarrow> work_relation \<Rightarrow> exc + json_file" where
  "save_relation K f r = save_citation K f Relations (wr_id r) (work_relation_to_dict r)"

definition validate_resolution_transition :: "resolution \<Rightarrow> resolution \<Rightarrow> exc + unit" where
  "validate_resolution_transition existing incoming =
    (if rs_status existing \<noteq> RESOLVED then Inr ()
     else bindE (check (rs_status incoming = RESOLVED)
            (citation_conflict ''resolved citation cannot regress'')) (\<lambda>_.
          check (rs_work incoming = rs_work existing)
            (citation_conflict ''resolved citation cannot change canonical work'')))"

definition save_resolution :: "coercions \<Rightarrow> json_file \<Rightarrow> resolution \<Rightarrow> exc + json_file" where
  "save_resolution K f r =
    bindE (read_citations K f) (\<lambda>data.
    let records = json_bucket data ''resolutions''; key = uuid_str (rs_reference r); payload = resolution_to_dict r in
    case map_of records key of
      None \<Rightarrow> Inr (write_sorted data ''resolutions'' (jset records key payload))
    | Some existing_payload \<Rightarrow>
        if json_eq existing_payload payload then Inr f
        else bindE (resolution_from_dict K existing_payload) (\<lambda>existing.
             bindE (check (rs_id existing = rs_id r)
                      (citation_conflict ''conflicting resolution identity for reference'')) (\<lambda>_.
             bindE (validate_resolution_transition existing r) (\<lambda>_.
             Inr (write_sorted data ''resolutions'' (jset records key payload))))))"

text \<open>\<open>_relation_identity\<close>: everything but the time of creation.\<close>

definition relation_identity :: "work_relation \<Rightarrow> work_relation" where
  "relation_identity r = r\<lparr>wr_created_at := Naive 0\<rparr>"

definition get_or_create_relation :: "coercions \<Rightarrow> json_file \<Rightarrow> work_relation \<Rightarrow> exc + work_relation \<times> json_file" where
  "get_or_create_relation K f r =
    bindE (read_citations K f) (\<lambda>data.
    let records = json_bucket data ''relations''; key = uuid_str (wr_id r) in
    case map_of records key of
      None \<Rightarrow> Inr (r, write_sorted data ''relations'' (jset records key (work_relation_to_dict r)))
    | Some existing_payload \<Rightarrow>
        bindE (work_relation_from_dict existing_payload) (\<lambda>existing.
        bindE (check (relation_identity existing = relation_identity r)
                 (citation_conflict ''conflicting relation for stable ID'')) (\<lambda>_.
        Inr (existing, f))))"

section \<open>Queries\<close>

text \<open>Filters that may raise, and the tests of the queries; \<open>and_then\<close> is Python's \<open>and\<close>.\<close>

fun filterE :: "('a \<Rightarrow> exc + bool) \<Rightarrow> 'a list \<Rightarrow> exc + 'a list" where
  "filterE p [] = Inr []"
| "filterE p (x # xs) =
    bindE (p x) (\<lambda>b. bindE (filterE p xs) (\<lambda>ys. Inr (if b then x # ys else ys)))"

definition and_then :: "('a \<Rightarrow> exc + bool) \<Rightarrow> ('a \<Rightarrow> exc + bool) \<Rightarrow> 'a \<Rightarrow> exc + bool" where
  "and_then p q x = bindE (p x) (\<lambda>b. if b then q x else Inr False)"

definition item_is :: "pystr \<Rightarrow> uuid \<Rightarrow> json \<Rightarrow> exc + bool" where
  "item_is name u item = mapE (\<lambda>v. v = JStr (uuid_str u)) (jitem item name)"

definition item_in :: "pystr \<Rightarrow> pystr list \<Rightarrow> json \<Rightarrow> exc + bool" where
  "item_in name keys item = mapE (\<lambda>v. v \<in> JStr ` set keys) (jitem item name)"

definition item_get_in :: "pystr \<Rightarrow> pystr list \<Rightarrow> json \<Rightarrow> exc + bool" where
  "item_get_in name keys item = Inr (case jget item name of None \<Rightarrow> False | Some v \<Rightarrow> v \<in> JStr ` set keys)"

abbreviation uuid_keys :: "uuid list \<Rightarrow> pystr list" where
  "uuid_keys \<equiv> map uuid_str"

definition matching :: "coercions \<Rightarrow> json_file \<Rightarrow> bucket \<Rightarrow> (json \<Rightarrow> exc + bool) \<Rightarrow> exc + json list" where
  "matching K f b p =
    bindE (read_citations K f) (\<lambda>data. filterE p (map snd (json_bucket data (bucket_name b))))"

definition validate_page :: "int \<Rightarrow> int option \<Rightarrow> exc + unit" where
  "validate_page offset limit =
    bindE (check (0 \<le> offset) (ValueError ''reference query offset must be non-negative'')) (\<lambda>_.
    check (case limit of None \<Rightarrow> True | Some n \<Rightarrow> 0 \<le> n) (ValueError ''reference query limit must be non-negative''))"

text \<open>\<open>sorted(xs, key)[offset:]\<close>, or \<open>heapq.nsmallest(offset + limit, xs, key)[offset:]\<close>.\<close>

definition sorted_page :: "('a \<Rightarrow> 'k::linorder) \<Rightarrow> int \<Rightarrow> int option \<Rightarrow> 'a list \<Rightarrow> 'a list" where
  "sorted_page key offset limit xs =
    (case limit of
       None \<Rightarrow> drop (nat offset) (sort_key key xs)
     | Some n \<Rightarrow> drop (nat offset) (take (nat (offset + n)) (sort_key key xs)))"

definition reference_sort_key :: "reference \<Rightarrow> int \<times> pystr" where
  "reference_sort_key r = (rf_ordinal r, uuid_str (rf_id r))"

definition mention_sort_key :: "mention \<Rightarrow> int \<times> pystr" where
  "mention_sort_key m = (case mn_start m of None \<Rightarrow> - 1 | Some n \<Rightarrow> n, uuid_str (mn_id m))"

definition context_sort_key :: "citation_context \<Rightarrow> int \<times> pystr" where
  "context_sort_key c = (cx_start c, uuid_str (cx_id c))"

definition work_relation_sort_key :: "work_relation \<Rightarrow> pystr list" where
  "work_relation_sort_key r =
    [work_relation_kind_value (wr_kind r), uuid_str (wr_subject r), uuid_str (wr_object r), uuid_str (wr_id r)]"

definition count_references :: "coercions \<Rightarrow> json_file \<Rightarrow> uuid \<Rightarrow> exc + int" where
  "count_references K f document = mapE (int \<circ> length) (matching K f References (item_is ''document_id'' document))"

definition list_references :: "coercions \<Rightarrow> json_file \<Rightarrow> uuid \<Rightarrow> int \<Rightarrow> int option \<Rightarrow> exc + reference list" where
  "list_references K f document offset limit =
    bindE (validate_page offset limit) (\<lambda>_.
    if limit = Some 0 then Inr [] else
    bindE (matching K f References (item_is ''document_id'' document)) (\<lambda>items.
    bindE (mapM (reference_from_dict K) items) (\<lambda>values.
    Inr (sorted_page reference_sort_key offset limit values))))"

definition list_mentions :: "coercions \<Rightarrow> json_file \<Rightarrow> uuid \<Rightarrow> exc + mention list" where
  "list_mentions K f document =
    bindE (matching K f Mentions (item_is ''document_id'' document)) (\<lambda>items.
    mapE (sort_key mention_sort_key) (mapM mention_from_dict items))"

definition list_mentions_for_ids :: "coercions \<Rightarrow> json_file \<Rightarrow> uuid \<Rightarrow> uuid list \<Rightarrow> exc + mention list" where
  "list_mentions_for_ids K f document ids =
    (if ids = [] then Inr [] else
     bindE (matching K f Mentions (and_then (item_is ''document_id'' document) (item_in ''mention_id'' (uuid_keys ids)))) (\<lambda>items.
     mapE (sort_key mention_sort_key) (mapM mention_from_dict items)))"

definition count_mentions_for_reference :: "coercions \<Rightarrow> json_file \<Rightarrow> uuid \<Rightarrow> uuid \<Rightarrow> exc + int" where
  "count_mentions_for_reference K f document rid =
    mapE (int \<circ> length) (matching K f Mentions (and_then (item_is ''document_id'' document) (item_is ''reference_id'' rid)))"

definition list_mentions_for_reference ::
  "coercions \<Rightarrow> json_file \<Rightarrow> uuid \<Rightarrow> uuid \<Rightarrow> int \<Rightarrow> int option \<Rightarrow> exc + mention list" where
  "list_mentions_for_reference K f document rid offset limit =
    bindE (validate_page offset limit) (\<lambda>_.
    if limit = Some 0 then Inr [] else
    bindE (matching K f Mentions (and_then (item_is ''document_id'' document) (item_is ''reference_id'' rid))) (\<lambda>items.
    bindE (mapM mention_from_dict items) (\<lambda>values.
    Inr (sorted_page mention_sort_key offset limit values))))"

definition list_contexts :: "coercions \<Rightarrow> json_file \<Rightarrow> uuid \<Rightarrow> exc + citation_context list" where
  "list_contexts K f document =
    bindE (matching K f Contexts (item_is ''document_id'' document)) (\<lambda>items.
    mapE (sort_key context_sort_key) (mapM (context_from_dict K) items))"

definition get_context :: "coercions \<Rightarrow> json_file \<Rightarrow> uuid \<Rightarrow> uuid \<Rightarrow> exc + citation_context option" where
  "get_context K f document cid =
    bindE (read_citations K f) (\<lambda>data.
    case map_of (json_bucket data ''contexts'') (uuid_str cid) of
      None \<Rightarrow> Inr None
    | Some payload \<Rightarrow>
        bindE (item_is ''document_id'' document payload) (\<lambda>same.
        if same then mapE Some (context_from_dict K payload) else Inr None))"

definition in_passages :: "uuid \<Rightarrow> uuid list \<Rightarrow> json \<Rightarrow> exc + bool" where
  "in_passages document passages = and_then (item_is ''document_id'' document) (item_get_in ''passage_id'' (uuid_keys passages))"

definition count_contexts_for_passages :: "coercions \<Rightarrow> json_file \<Rightarrow> uuid \<Rightarrow> uuid list \<Rightarrow> exc + int" where
  "count_contexts_for_passages K f document passages =
    (if passages = [] then Inr 0
     else mapE (int \<circ> length) (matching K f Contexts (in_passages document passages)))"

definition list_contexts_for_passages ::
  "coercions \<Rightarrow> json_file \<Rightarrow> uuid \<Rightarrow> uuid list \<Rightarrow> int \<Rightarrow> int option \<Rightarrow> exc + citation_context list" where
  "list_contexts_for_passages K f document passages offset limit =
    bindE (validate_page offset limit) (\<lambda>_.
    if passages = [] \<or> limit = Some 0 then Inr [] else
    bindE (matching K f Contexts (in_passages document passages)) (\<lambda>items.
    bindE (mapM (context_from_dict K) items) (\<lambda>values.
    Inr (sorted_page context_sort_key offset limit values))))"

text \<open>The key of a record as it is stored.\<close>

definition raw_context_key :: "json \<Rightarrow> exc + int \<times> pystr" where
  "raw_context_key item =
    bindE (bindE (jitem item ''char_start'') jint) (\<lambda>n.
    bindE (bindE (jitem item ''context_id'') jstr) (\<lambda>cid. Inr (n, cid)))"

definition page_contexts_for_passages ::
  "coercions \<Rightarrow> json_file \<Rightarrow> uuid \<Rightarrow> uuid list \<Rightarrow> int \<Rightarrow> int option \<Rightarrow> exc + int \<times> citation_context list" where
  "page_contexts_for_passages K f document passages offset limit =
    bindE (validate_page offset limit) (\<lambda>_.
    if passages = [] \<or> limit = Some 0 then Inr (0, []) else
    bindE (matching K f Contexts (in_passages document passages)) (\<lambda>items.
    bindE (mapM (\<lambda>item. mapE (\<lambda>k. (k, item)) (raw_context_key item)) items) (\<lambda>keyed.
    let sorted = map snd (sort_key fst keyed);
        selected = (case limit of None \<Rightarrow> drop (nat offset) sorted
                    | Some n \<Rightarrow> take (nat n) (drop (nat offset) sorted)) in
    mapE (Pair (int (length sorted))) (mapM (context_from_dict K) selected))))"

definition list_contexts_for_mentions :: "coercions \<Rightarrow> json_file \<Rightarrow> uuid \<Rightarrow> uuid list \<Rightarrow> exc + citation_context list" where
  "list_contexts_for_mentions K f document mentions =
    (if mentions = [] then Inr [] else
     bindE (matching K f Contexts (and_then (item_is ''document_id'' document) (item_in ''mention_id'' (uuid_keys mentions)))) (\<lambda>items.
     mapE (sort_key context_sort_key) (mapM (context_from_dict K) items)))"

definition get_resolution :: "coercions \<Rightarrow> json_file \<Rightarrow> uuid \<Rightarrow> exc + resolution option" where
  "get_resolution K f rid =
    bindE (read_citations K f) (\<lambda>data.
    case map_of (json_bucket data ''resolutions'') (uuid_str rid) of
      None \<Rightarrow> Inr None
    | Some payload \<Rightarrow> mapE Some (resolution_from_dict K payload))"

definition get_relation :: "coercions \<Rightarrow> json_file \<Rightarrow> uuid \<Rightarrow> exc + work_relation option" where
  "get_relation K f rid =
    bindE (read_citations K f) (\<lambda>data.
    case map_of (json_bucket data ''relations'') (uuid_str rid) of
      None \<Rightarrow> Inr None
    | Some payload \<Rightarrow> mapE Some (work_relation_from_dict payload))"

text \<open>The relations of a work on one side; \<open>kinds\<close> may be absent, \<open>excluded\<close> are identifiers left out.\<close>

definition relations_matching ::
  "coercions \<Rightarrow> json_file \<Rightarrow> pystr \<Rightarrow> uuid \<Rightarrow> work_relation_kind list option \<Rightarrow> uuid list \<Rightarrow> int option \<Rightarrow>
    exc + work_relation list" where
  "relations_matching K f field work kinds excluded limit =
    bindE (check (case limit of None \<Rightarrow> True | Some n \<Rightarrow> 0 \<le> n)
             (ValueError ''relation query limit must be non-negative'')) (\<lambda>_.
    if limit = Some 0 then Inr [] else
    bindE (matching K f Relations (and_then (item_is field work) (and_then
             (\<lambda>item. mapE Not (item_in ''relation_id'' (uuid_keys excluded) item))
             (case kinds of
                None \<Rightarrow> (\<lambda>_. Inr True)
              | Some ks \<Rightarrow> item_in ''kind'' (map work_relation_kind_value ks))))) (\<lambda>items.
    bindE (mapM work_relation_from_dict items) (\<lambda>candidates.
    Inr (sorted_page work_relation_sort_key 0 limit candidates))))"

definition list_relations_from ::
  "coercions \<Rightarrow> json_file \<Rightarrow> uuid \<Rightarrow> work_relation_kind list option \<Rightarrow> uuid list \<Rightarrow> int option \<Rightarrow> exc + work_relation list" where
  "list_relations_from K f work kinds excluded limit =
    relations_matching K f ''subject_work_id'' work kinds excluded limit"

definition list_relations_to ::
  "coercions \<Rightarrow> json_file \<Rightarrow> uuid \<Rightarrow> work_relation_kind list option \<Rightarrow> uuid list \<Rightarrow> int option \<Rightarrow> exc + work_relation list" where
  "list_relations_to K f work kinds excluded limit =
    relations_matching K f ''object_work_id'' work kinds excluded limit"

section \<open>Records read back\<close>

lemma jopt_int_int [simp]: "jopt_int (Some (jopt JInt x)) = Inr x"
  by (cases x) (simp_all add: jopt_def)

lemma text_items [simp]: "mapM text_item (map JStr xs) = Inr xs"
  by (induction xs) auto

lemma text_values [simp]: "mapM (\<lambda>(k, v). mapE (Pair k) (text_item v)) (map (\<lambda>(k, v). (k, JStr v)) xs) = Inr xs"
  by (induction xs) auto

lemma uuid_items [simp]: "mapM juuid (map (\<lambda>u. JStr (uuid_str u)) us) = Inr us"
  by (induction us) auto

lemma parse_resolution_status_value [simp]: "parse_resolution_status (JStr (resolution_status_value st)) = Inr st"
  by (cases st) (simp_all add: parse_resolution_status_def parse_member_def)

lemma parse_work_relation_kind_value [simp]: "parse_work_relation_kind (JStr (work_relation_kind_value k)) = Inr k"
  by (cases k) (simp_all add: parse_work_relation_kind_def parse_member_def)

lemma parse_basis_member [simp]: "parse_member basis_value [NATIVE, RECONSTRUCTED, INFERRED] (JStr (basis_value b)) = Inr b"
  by (cases b) (simp_all add: parse_member_def)

lemma reference_from_to_dict: "mk_reference r = Inr r \<Longrightarrow> reference_from_dict K (reference_to_dict r) = Inr r"
  by (cases r) (simp add: reference_from_dict_def reference_to_dict_def jitem_def)

lemma mention_from_to_dict: "mk_mention m = Inr m \<Longrightarrow> mention_from_dict (mention_to_dict m) = Inr m"
  by (cases m) (simp add: mention_from_dict_def mention_to_dict_def jitem_def)

lemma context_from_to_dict: "mk_context c = Inr c \<Longrightarrow> context_from_dict K (context_to_dict c) = Inr c"
  by (cases c) (simp add: context_from_dict_def context_to_dict_def jitem_def)

lemma resolution_from_to_dict: "mk_resolution r = Inr r \<Longrightarrow> resolution_from_dict K (resolution_to_dict r) = Inr r"
  by (cases r) (simp add: resolution_from_dict_def resolution_to_dict_def jitem_def)

lemma work_relation_from_to_dict: "mk_work_relation r = Inr r \<Longrightarrow> work_relation_from_dict (work_relation_to_dict r) = Inr r"
  by (cases r) (simp add: work_relation_from_dict_def work_relation_to_dict_def jitem_def)

section \<open>The catalogue as lists of records\<close>

record catalog =
  ct_references :: "reference list"
  ct_mentions :: "mention list"
  ct_contexts :: "citation_context list"
  ct_resolutions :: "resolution list"
  ct_relations :: "work_relation list"

definition rf_key :: "reference \<Rightarrow> pystr" where "rf_key r = uuid_str (rf_id r)"
definition mn_key :: "mention \<Rightarrow> pystr" where "mn_key m = uuid_str (mn_id m)"
definition cx_key :: "citation_context \<Rightarrow> pystr" where "cx_key c = uuid_str (cx_id c)"
definition rs_key :: "resolution \<Rightarrow> pystr" where "rs_key r = uuid_str (rs_reference r)"
definition wr_key :: "work_relation \<Rightarrow> pystr" where "wr_key r = uuid_str (wr_id r)"

text \<open>A bucket of the document that holds the records \<open>xs\<close>, each under its key and valid.\<close>

definition records_in ::
  "(pystr \<times> json) list \<Rightarrow> pystr \<Rightarrow> ('a \<Rightarrow> pystr) \<Rightarrow> ('a \<Rightarrow> json) \<Rightarrow> ('a \<Rightarrow> exc + 'a) \<Rightarrow> 'a list \<Rightarrow> bool" where
  "records_in data name key put mk xs \<longleftrightarrow>
    map_of data name = Some (JObj (bucket_of key put xs)) \<and> distinct (map key xs) \<and> (\<forall>x \<in> set xs. mk x = Inr x)"

definition catalog_in :: "(pystr \<times> json) list \<Rightarrow> catalog \<Rightarrow> bool" where
  "catalog_in data c \<longleftrightarrow> json_is_one (map_of data ''schema_version'') \<and>
    records_in data ''references'' rf_key reference_to_dict mk_reference (ct_references c) \<and>
    records_in data ''mentions'' mn_key mention_to_dict mk_mention (ct_mentions c) \<and>
    records_in data ''contexts'' cx_key context_to_dict mk_context (ct_contexts c) \<and>
    records_in data ''resolutions'' rs_key resolution_to_dict mk_resolution (ct_resolutions c) \<and>
    records_in data ''relations'' wr_key work_relation_to_dict mk_work_relation (ct_relations c)"

definition holds_catalog :: "json_file \<Rightarrow> catalog \<Rightarrow> bool" where
  "holds_catalog f c \<longleftrightarrow> (\<exists>data. f = Document (JObj data) \<and> catalog_in data c)"

text \<open>Reading such a document succeeds: every record passes the validation.\<close>

lemma records_validated:
  assumes "records_in data (bucket_name b) key put mk xs"
    and "\<And>x. x \<in> set xs \<Longrightarrow> validate_entry K b (key x, put x) = Inr ()"
  shows "validate_bucket K (JObj data) b = Inr ()"
proof -
  have "mapM (validate_entry K b) (bucket_of key put ys) = Inr (map (\<lambda>_. ()) ys)" if "set ys \<subseteq> set xs" for ys
    using that assms(2) by (induction ys) (auto simp: bucket_of_def)
  from this[of xs] show ?thesis using assms(1) by (simp add: validate_bucket_def records_in_def)
qed

lemma validated_records:
  "mk_reference r = Inr r \<Longrightarrow> validate_entry K References (rf_key r, reference_to_dict r) = Inr ()"
  "mk_mention m = Inr m \<Longrightarrow> validate_entry K Mentions (mn_key m, mention_to_dict m) = Inr ()"
  "mk_context c = Inr c \<Longrightarrow> validate_entry K Contexts (cx_key c, context_to_dict c) = Inr ()"
  "mk_resolution s = Inr s \<Longrightarrow> validate_entry K Resolutions (rs_key s, resolution_to_dict s) = Inr ()"
  "mk_work_relation w = Inr w \<Longrightarrow> validate_entry K Relations (wr_key w, work_relation_to_dict w) = Inr ()"
  using reference_from_to_dict[of r K] mention_from_to_dict[of m] context_from_to_dict[of c K]
    resolution_from_to_dict[of s K] work_relation_from_to_dict[of w]
  by (simp_all add: validate_entry_def rf_key_def mn_key_def cx_key_def rs_key_def wr_key_def jitem_def
      reference_to_dict_def mention_to_dict_def context_to_dict_def resolution_to_dict_def work_relation_to_dict_def)

lemma read_catalog:
  assumes "holds_catalog f c"
  obtains data where "read_citations K f = Inr data" "catalog_in data c" "f = Document (JObj data)"
proof -
  obtain data where d: "f = Document (JObj data)" "catalog_in data c" using assms by (auto simp: holds_catalog_def)
  note r = d(2)[unfolded catalog_in_def]
  have "validate_bucket K (JObj data) b = Inr ()" for b
  proof (cases b)
    case References
    have "records_in data (bucket_name b) rf_key reference_to_dict mk_reference (ct_references c)" using r References by simp
    then show ?thesis by (rule records_validated) (use r References in \<open>simp add: records_in_def validated_records\<close>)
  next
    case Mentions
    have "records_in data (bucket_name b) mn_key mention_to_dict mk_mention (ct_mentions c)" using r Mentions by simp
    then show ?thesis by (rule records_validated) (use r Mentions in \<open>simp add: records_in_def validated_records\<close>)
  next
    case Contexts
    have "records_in data (bucket_name b) cx_key context_to_dict mk_context (ct_contexts c)" using r Contexts by simp
    then show ?thesis by (rule records_validated) (use r Contexts in \<open>simp add: records_in_def validated_records\<close>)
  next
    case Resolutions
    have "records_in data (bucket_name b) rs_key resolution_to_dict mk_resolution (ct_resolutions c)" using r Resolutions by simp
    then show ?thesis by (rule records_validated) (use r Resolutions in \<open>simp add: records_in_def validated_records\<close>)
  next
    case Relations
    have "records_in data (bucket_name b) wr_key work_relation_to_dict mk_work_relation (ct_relations c)" using r Relations by simp
    then show ?thesis by (rule records_validated) (use r Relations in \<open>simp add: records_in_def validated_records\<close>)
  qed
  then have "read_citations K f = Inr data"
    using d(1) r by (simp add: read_citations_def all_buckets_def)
  then show ?thesis using that d by blast
qed

text \<open>Writing a bucket back with one record more, or with one replaced.\<close>

lemma records_other:
  "n \<noteq> name \<Longrightarrow> records_in (jset data n j) name key put mk xs = records_in data name key put mk xs"
  by (simp add: records_in_def)

lemma records_bucket: "records_in data name key put mk xs \<Longrightarrow> json_bucket data name = bucket_of key put xs"
  by (simp add: records_in_def json_bucket_def)

lemma records_get:
  "records_in data name key put mk xs \<Longrightarrow> map_of (json_bucket data name) k = map_option put (find (\<lambda>x. key x = k) xs)"
proof -
  assume r: "records_in data name key put mk xs"
  have "map_of (bucket_of key put ys) k = map_option put (find (\<lambda>x. key x = k) ys)" for ys
    by (induction ys) (auto simp: bucket_of_def)
  then show ?thesis using records_bucket[OF r] by simp
qed

definition put_record :: "('a \<Rightarrow> pystr) \<Rightarrow> 'a \<Rightarrow> 'a list \<Rightarrow> 'a list" where
  "put_record key v xs = sort_key key (if key v \<in> key ` set xs then replace_by key v xs else xs @ [v])"

lemma records_put:
  assumes "records_in data name key put mk xs" "mk v = Inr v"
  shows "records_in (jset data name (JObj (sort_key fst (jset (json_bucket data name) (key v) (put v))))) name key put mk
    (put_record key v xs)"
proof -
  have d: "distinct (map key xs)" "json_bucket data name = bucket_of key put xs" "\<forall>x \<in> set xs. mk x = Inr x"
    using assms(1) by (auto simp: records_in_def json_bucket_def)
  let ?ys = "if key v \<in> key ` set xs then replace_by key v xs else xs @ [v]"
  have "jset (json_bucket data name) (key v) (put v) = bucket_of key put ?ys"
    using d by (simp add: jset_replace jset_append)
  moreover have "distinct (map key ?ys)" using d(1) by simp
  moreover have "\<forall>x \<in> set ?ys. mk x = Inr x" using d(3) assms(2) by (auto dest: replace_by_memD)
  ultimately show ?thesis by (simp add: records_in_def put_record_def sort_bucket_of distinct_map)
qed

lemma put_record_mem:
  "v \<in> set (put_record key v xs)" "x \<in> set xs \<Longrightarrow> key x \<noteq> key v \<Longrightarrow> x \<in> set (put_record key v xs)"
  by (auto simp: put_record_def set_replace_by)

section \<open>What the catalogue keeps\<close>

text \<open>The writes of the repository on records its constructors accept.\<close>

inductive citation_step :: "coercions \<Rightarrow> json_file \<Rightarrow> json_file \<Rightarrow> bool" for K where
  step_reference: "mk_reference r = Inr r \<Longrightarrow> save_reference K f r = Inr f' \<Longrightarrow> citation_step K f f'"
| step_mention: "mk_mention m = Inr m \<Longrightarrow> save_mention K f m = Inr f' \<Longrightarrow> citation_step K f f'"
| step_context: "mk_context c = Inr c \<Longrightarrow> save_context K f c = Inr f' \<Longrightarrow> citation_step K f f'"
| step_resolution: "mk_resolution s = Inr s \<Longrightarrow> save_resolution K f s = Inr f' \<Longrightarrow> citation_step K f f'"
| step_relation: "mk_work_relation w = Inr w \<Longrightarrow> save_relation K f w = Inr f' \<Longrightarrow> citation_step K f f'"
| step_get_or_create: "mk_work_relation w = Inr w \<Longrightarrow> get_or_create_relation K f w = Inr (w', f') \<Longrightarrow> citation_step K f f'"

text \<open>Records stay as they are; a resolution may change, unless it is resolved to a work.\<close>

definition settled :: "resolution \<Rightarrow> resolution \<Rightarrow> bool" where
  "settled r r' \<longleftrightarrow> rs_reference r' = rs_reference r \<and> rs_id r' = rs_id r \<and>
    (rs_status r = RESOLVED \<longrightarrow> rs_status r' = RESOLVED \<and> rs_work r' = rs_work r)"

definition catalog_grows :: "catalog \<Rightarrow> catalog \<Rightarrow> bool" where
  "catalog_grows c c' \<longleftrightarrow>
    set (ct_references c) \<subseteq> set (ct_references c') \<and> set (ct_mentions c) \<subseteq> set (ct_mentions c') \<and>
    set (ct_contexts c) \<subseteq> set (ct_contexts c') \<and> set (ct_relations c) \<subseteq> set (ct_relations c') \<and>
    (\<forall>r \<in> set (ct_resolutions c). \<exists>r' \<in> set (ct_resolutions c'). settled r r')"

lemma settled_refl: "settled r r"
  by (simp add: settled_def)

lemma settled_trans: "settled p q \<Longrightarrow> settled q r \<Longrightarrow> settled p r"
  by (auto simp: settled_def)

lemma catalog_grows_refl: "catalog_grows c c"
  using settled_refl by (auto simp: catalog_grows_def)

lemma catalog_grows_trans: "catalog_grows c d \<Longrightarrow> catalog_grows d e \<Longrightarrow> catalog_grows c e"
  unfolding catalog_grows_def by (meson order_trans settled_trans)

text \<open>A write of one record, seen from the lists.\<close>

abbreviation put_doc ::
  "(pystr \<times> json) list \<Rightarrow> pystr \<Rightarrow> ('a \<Rightarrow> pystr) \<Rightarrow> ('a \<Rightarrow> json) \<Rightarrow> 'a \<Rightarrow> (pystr \<times> json) list" where
  "put_doc data name key put v \<equiv> jset data name (JObj (sort_key fst (jset (json_bucket data name) (key v) (put v))))"

lemma catalog_put:
  assumes "catalog_in data c"
  shows "mk_reference r = Inr r \<Longrightarrow> catalog_in (put_doc data ''references'' rf_key reference_to_dict r)
      (c\<lparr>ct_references := put_record rf_key r (ct_references c)\<rparr>)"
    and "mk_mention m = Inr m \<Longrightarrow> catalog_in (put_doc data ''mentions'' mn_key mention_to_dict m)
      (c\<lparr>ct_mentions := put_record mn_key m (ct_mentions c)\<rparr>)"
    and "mk_context x = Inr x \<Longrightarrow> catalog_in (put_doc data ''contexts'' cx_key context_to_dict x)
      (c\<lparr>ct_contexts := put_record cx_key x (ct_contexts c)\<rparr>)"
    and "mk_resolution s = Inr s \<Longrightarrow> catalog_in (put_doc data ''resolutions'' rs_key resolution_to_dict s)
      (c\<lparr>ct_resolutions := put_record rs_key s (ct_resolutions c)\<rparr>)"
    and "mk_work_relation w = Inr w \<Longrightarrow> catalog_in (put_doc data ''relations'' wr_key work_relation_to_dict w)
      (c\<lparr>ct_relations := put_record wr_key w (ct_relations c)\<rparr>)"
  using assms by (simp_all add: catalog_in_def records_put records_other del: map_of_jset)
    (simp_all add: map_of_jset)

lemma put_record_grows: "key v \<notin> key ` set xs \<Longrightarrow> set xs \<subseteq> set (put_record key v xs)"
  by (auto simp: put_record_def)

lemma absent_key:
  "records_in data name key put mk xs \<Longrightarrow> map_of (json_bucket data name) (key v) = None \<Longrightarrow> set xs \<subseteq> set (put_record key v xs)"
  using records_get[of data name key put mk xs "key v"] by (intro put_record_grows) (auto simp: find_None_iff)

lemma catalog_grows_put:
  assumes "catalog_in data c"
  shows "map_of (json_bucket data ''references'') (rf_key r) = None \<Longrightarrow>
      catalog_grows c (c\<lparr>ct_references := put_record rf_key r (ct_references c)\<rparr>)"
    and "map_of (json_bucket data ''mentions'') (mn_key m) = None \<Longrightarrow>
      catalog_grows c (c\<lparr>ct_mentions := put_record mn_key m (ct_mentions c)\<rparr>)"
    and "map_of (json_bucket data ''contexts'') (cx_key x) = None \<Longrightarrow>
      catalog_grows c (c\<lparr>ct_contexts := put_record cx_key x (ct_contexts c)\<rparr>)"
    and "map_of (json_bucket data ''relations'') (wr_key w) = None \<Longrightarrow>
      catalog_grows c (c\<lparr>ct_relations := put_record wr_key w (ct_relations c)\<rparr>)"
    and "(\<And>e. e \<in> set (ct_resolutions c) \<Longrightarrow> rs_reference e = rs_reference s \<Longrightarrow> settled e s) \<Longrightarrow>
      catalog_grows c (c\<lparr>ct_resolutions := put_record rs_key s (ct_resolutions c)\<rparr>)"
proof -
  note r = assms[unfolded catalog_in_def] and refl = settled_refl
  show "map_of (json_bucket data ''references'') (rf_key r) = None \<Longrightarrow>
      catalog_grows c (c\<lparr>ct_references := put_record rf_key r (ct_references c)\<rparr>)"
    using absent_key[of data "''references''" rf_key reference_to_dict mk_reference] r refl by (simp add: catalog_grows_def) blast
  show "map_of (json_bucket data ''mentions'') (mn_key m) = None \<Longrightarrow>
      catalog_grows c (c\<lparr>ct_mentions := put_record mn_key m (ct_mentions c)\<rparr>)"
    using absent_key[of data "''mentions''" mn_key mention_to_dict mk_mention] r refl by (simp add: catalog_grows_def) blast
  show "map_of (json_bucket data ''contexts'') (cx_key x) = None \<Longrightarrow>
      catalog_grows c (c\<lparr>ct_contexts := put_record cx_key x (ct_contexts c)\<rparr>)"
    using absent_key[of data "''contexts''" cx_key context_to_dict mk_context] r refl by (simp add: catalog_grows_def) blast
  show "map_of (json_bucket data ''relations'') (wr_key w) = None \<Longrightarrow>
      catalog_grows c (c\<lparr>ct_relations := put_record wr_key w (ct_relations c)\<rparr>)"
    using absent_key[of data "''relations''" wr_key work_relation_to_dict mk_work_relation] r refl by (simp add: catalog_grows_def) blast
  assume s: "\<And>e. e \<in> set (ct_resolutions c) \<Longrightarrow> rs_reference e = rs_reference s \<Longrightarrow> settled e s"
  have "\<exists>e' \<in> set (put_record rs_key s (ct_resolutions c)). settled e e'" if e: "e \<in> set (ct_resolutions c)" for e
  proof (cases "rs_key e = rs_key s")
    case True
    then show ?thesis using s[OF e] put_record_mem(1)[of s rs_key] by (auto simp: rs_key_def)
  next
    case False
    then show ?thesis using put_record_mem(2)[OF e] refl by blast
  qed
  then show "catalog_grows c (c\<lparr>ct_resolutions := put_record rs_key s (ct_resolutions c)\<rparr>)"
    by (simp add: catalog_grows_def)
qed

lemma grows_doc:
  "catalog_in doc c' \<Longrightarrow> catalog_grows c c' \<Longrightarrow> f' = Document (JObj doc) \<Longrightarrow>
    \<exists>c'. holds_catalog f' c' \<and> catalog_grows c c'"
  by (auto simp: holds_catalog_def)

lemma save_resolution_grows:
  assumes "holds_catalog f c" "mk_resolution s = Inr s" "save_resolution K f s = Inr f'"
  shows "\<exists>c'. holds_catalog f' c' \<and> catalog_grows c c'"
proof -
  obtain data where d: "read_citations K f = Inr data" "catalog_in data c" using read_catalog[OF assms(1)] .
  have r: "records_in data ''resolutions'' rs_key resolution_to_dict mk_resolution (ct_resolutions c)"
    using d(2) by (simp add: catalog_in_def)
  have get: "map_of (json_bucket data ''resolutions'') (uuid_str (rs_reference s)) =
      map_option resolution_to_dict (find (\<lambda>e. rs_key e = rs_key s) (ct_resolutions c))"
    using records_get[OF r] by (simp add: rs_key_def)
  have put: "\<exists>c'. holds_catalog f' c' \<and> catalog_grows c c'"
    if f': "f' = write_sorted data ''resolutions''
        (jset (json_bucket data ''resolutions'') (uuid_str (rs_reference s)) (resolution_to_dict s))"
      and old: "\<And>e. e \<in> set (ct_resolutions c) \<Longrightarrow> rs_reference e = rs_reference s \<Longrightarrow> settled e s"
  proof -
    have "catalog_grows c (c\<lparr>ct_resolutions := put_record rs_key s (ct_resolutions c)\<rparr>)"
      by (rule catalog_grows_put(5)[OF d(2)]) (rule old)
    moreover have "f' = Document (JObj (put_doc data ''resolutions'' rs_key resolution_to_dict s))"
      using f' by (simp add: write_sorted_def set_bucket_def rs_key_def)
    ultimately show ?thesis using grows_doc catalog_put(4)[OF d(2) assms(2)] by blast
  qed
  show ?thesis
  proof (cases "find (\<lambda>e. rs_key e = rs_key s) (ct_resolutions c)")
    case None
    then have "e \<in> set (ct_resolutions c) \<Longrightarrow> rs_reference e \<noteq> rs_reference s" for e by (auto simp: find_None_iff rs_key_def)
    moreover have "f' = write_sorted data ''resolutions''
        (jset (json_bucket data ''resolutions'') (uuid_str (rs_reference s)) (resolution_to_dict s))"
      using assms(3) d(1) get None by (simp add: save_resolution_def)
    ultimately show ?thesis using put by blast
  next
    case (Some e)
    have e: "e \<in> set (ct_resolutions c)" "rs_reference e = rs_reference s" "mk_resolution e = Inr e"
      using find_Some_mem[OF Some] r by (auto simp: rs_key_def records_in_def)
    show ?thesis
    proof (cases "json_eq (resolution_to_dict e) (resolution_to_dict s)")
      case True
      then have "f' = f" using assms(3) d(1) get Some by (simp add: save_resolution_def)
      then show ?thesis using assms(1) catalog_grows_refl by blast
    next
      case False
      have w: "rs_id e = rs_id s" "validate_resolution_transition e s = Inr ()"
        "f' = write_sorted data ''resolutions''
          (jset (json_bucket data ''resolutions'') (uuid_str (rs_reference s)) (resolution_to_dict s))"
        using assms(3) d(1) get Some False resolution_from_to_dict[OF e(3), of K]
        by (auto simp: save_resolution_def Let_def res_simps)
      have "settled e s"
        using w(1,2) e(2) by (auto simp: settled_def validate_resolution_transition_def res_simps split: if_splits)
      moreover have "x = e" if "x \<in> set (ct_resolutions c)" "rs_reference x = rs_reference s" for x
        using inj_onD[of rs_key "set (ct_resolutions c)" x e] r e(1,2) that by (auto simp: records_in_def distinct_map rs_key_def)
      ultimately show ?thesis using put[OF w(3)] by blast
    qed
  qed
qed

text \<open>A record that is saved is new, or the file stays as it is.\<close>

lemma save_citation_grows:
  assumes "holds_catalog f c" "save_citation K f b (uuid_of v) payload = Inr f'"
    and "\<And>data. catalog_in data c \<Longrightarrow> catalog_in (put_doc data name key put v) c'"
    and "\<And>data. catalog_in data c \<Longrightarrow> map_of (json_bucket data name) (key v) = None \<Longrightarrow> catalog_grows c c'"
    and "name = bucket_name b" "key v = uuid_str (uuid_of v)" "payload = put v"
  shows "\<exists>c'. holds_catalog f' c' \<and> catalog_grows c c'"
proof -
  obtain data where d: "read_citations K f = Inr data" "catalog_in data c" using read_catalog[OF assms(1)] .
  show ?thesis
  proof (cases "map_of (json_bucket data name) (key v)")
    case None
    then have "f' = Document (JObj (put_doc data name key put v))"
      using assms(2,5-7) d(1) by (simp add: save_citation_def write_sorted_def set_bucket_def)
    then show ?thesis using grows_doc[OF assms(3)[OF d(2)] assms(4)[OF d(2) None]] by blast
  next
    case (Some payload)
    then have "f' = f" using assms(2,5-7) d(1) by (simp add: save_citation_def split: if_splits)
    then show ?thesis using assms(1) catalog_grows_refl by blast
  qed
qed

lemma step_grows:
  assumes "holds_catalog f c" "citation_step K f f'"
  shows "\<exists>c'. holds_catalog f' c' \<and> catalog_grows c c'"
  using assms(2)
proof cases
  case (step_reference r)
  show ?thesis
    by (rule save_citation_grows[where uuid_of = rf_id and key = rf_key and put = reference_to_dict and v = r,
          OF assms(1) step_reference(2)[unfolded save_reference_def]],
        erule catalog_put(1)[OF _ step_reference(1)], erule (1) catalog_grows_put(1), simp_all add: rf_key_def)
next
  case (step_mention m)
  show ?thesis
    by (rule save_citation_grows[where uuid_of = mn_id and key = mn_key and put = mention_to_dict and v = m,
          OF assms(1) step_mention(2)[unfolded save_mention_def]],
        erule catalog_put(2)[OF _ step_mention(1)], erule (1) catalog_grows_put(2), simp_all add: mn_key_def)
next
  case (step_context x)
  show ?thesis
    by (rule save_citation_grows[where uuid_of = cx_id and key = cx_key and put = context_to_dict and v = x,
          OF assms(1) step_context(2)[unfolded save_context_def]],
        erule catalog_put(3)[OF _ step_context(1)], erule (1) catalog_grows_put(3), simp_all add: cx_key_def)
next
  case (step_resolution s)
  then show ?thesis using save_resolution_grows[OF assms(1)] by blast
next
  case (step_relation w)
  show ?thesis
    by (rule save_citation_grows[where uuid_of = wr_id and key = wr_key and put = work_relation_to_dict and v = w,
          OF assms(1) step_relation(2)[unfolded save_relation_def]],
        erule catalog_put(5)[OF _ step_relation(1)], erule (1) catalog_grows_put(4), simp_all add: wr_key_def)
next
  case (step_get_or_create w w')
  obtain data where d: "read_citations K f = Inr data" "catalog_in data c" using read_catalog[OF assms(1)] .
  show ?thesis
  proof (cases "map_of (json_bucket data ''relations'') (wr_key w)")
    case None
    then have "f' = Document (JObj (put_doc data ''relations'' wr_key work_relation_to_dict w))"
      using step_get_or_create(2) d(1)
      by (auto simp: get_or_create_relation_def write_sorted_def set_bucket_def wr_key_def)
    then show ?thesis
      using grows_doc[OF catalog_put(5)[OF d(2) step_get_or_create(1)] catalog_grows_put(4)[OF d(2) None]] by blast
  next
    case (Some payload)
    then have "f' = f"
      using step_get_or_create(2) d(1) by (auto simp: get_or_create_relation_def wr_key_def res_simps)
    then show ?thesis using assms(1) catalog_grows_refl by blast
  qed
qed

lemma steps_grow:
  assumes "(citation_step K)\<^sup>*\<^sup>* f f'" "holds_catalog f c"
  shows "\<exists>c'. holds_catalog f' c' \<and> catalog_grows c c'"
  using assms
proof (induction rule: rtranclp_induct)
  case base
  then show ?case using catalog_grows_refl by blast
next
  case (step g h)
  then show ?case using step_grows catalog_grows_trans by meson
qed

lemma holds_empty:
  "holds_catalog (init_citations Missing) \<lparr>ct_references = [], ct_mentions = [], ct_contexts = [], ct_resolutions = [], ct_relations = []\<rparr>"
  by (simp add: init_citations_def empty_citations_def holds_catalog_def catalog_in_def records_in_def all_buckets_def
      json_is_one_def bucket_of_def)

text \<open>Reading one record.\<close>

lemma get_relation_catalog:
  assumes "holds_catalog f c"
  shows "get_relation K f rid = Inr (find (\<lambda>w. wr_id w = rid) (ct_relations c))"
proof -
  obtain data where d: "read_citations K f = Inr data" "catalog_in data c" using read_catalog[OF assms] .
  then have r: "records_in data ''relations'' wr_key work_relation_to_dict mk_work_relation (ct_relations c)"
    by (simp add: catalog_in_def)
  have "mk_work_relation w = Inr w" if "find (\<lambda>w. wr_id w = rid) (ct_relations c) = Some w" for w
    using r find_Some_mem[OF that] by (auto simp: records_in_def)
  then show ?thesis
    using d(1) records_get[OF r, of "uuid_str rid"] work_relation_from_to_dict
    by (cases "find (\<lambda>w. wr_id w = rid) (ct_relations c)") (auto simp: get_relation_def wr_key_def)
qed

lemma get_resolution_catalog:
  assumes "holds_catalog f c"
  shows "get_resolution K f rid = Inr (find (\<lambda>r. rs_reference r = rid) (ct_resolutions c))"
proof -
  obtain data where d: "read_citations K f = Inr data" "catalog_in data c" using read_catalog[OF assms] .
  then have r: "records_in data ''resolutions'' rs_key resolution_to_dict mk_resolution (ct_resolutions c)"
    by (simp add: catalog_in_def)
  have "mk_resolution w = Inr w" if "find (\<lambda>r. rs_reference r = rid) (ct_resolutions c) = Some w" for w
    using r find_Some_mem[OF that] by (auto simp: records_in_def)
  then show ?thesis
    using d(1) records_get[OF r, of "uuid_str rid"] resolution_from_to_dict
    by (cases "find (\<lambda>r. rs_reference r = rid) (ct_resolutions c)") (auto simp: get_resolution_def rs_key_def)
qed

lemma get_context_catalog:
  assumes "holds_catalog f c"
  shows "get_context K f document cid =
    Inr (case find (\<lambda>x. cx_id x = cid) (ct_contexts c) of
           None \<Rightarrow> None | Some x \<Rightarrow> if cx_document x = document then Some x else None)"
proof -
  obtain data where d: "read_citations K f = Inr data" "catalog_in data c" using read_catalog[OF assms] .
  then have r: "records_in data ''contexts'' cx_key context_to_dict mk_context (ct_contexts c)"
    by (simp add: catalog_in_def)
  have ok: "mk_context x = Inr x" if "find (\<lambda>x. cx_id x = cid) (ct_contexts c) = Some x" for x
    using r find_Some_mem[OF that] by (auto simp: records_in_def)
  have doc: "item_is ''document_id'' document (context_to_dict x) = Inr (cx_document x = document)" for x
    by (simp add: item_is_def context_to_dict_def jitem_def)
  show ?thesis
    using d(1) records_get[OF r, of "uuid_str cid"] ok context_from_to_dict doc
    by (cases "find (\<lambda>x. cx_id x = cid) (ct_contexts c)") (auto simp: get_context_def cx_key_def)
qed

text \<open>Records found under an identifier are found again in a catalogue that has grown.\<close>

lemma find_again:
  assumes "set xs \<subseteq> set ys" "distinct (map g ys)" "find (\<lambda>x. g x = k) xs = Some x"
  shows "find (\<lambda>x. g x = k) ys = Some x"
  using find_key_distinct[OF assms(2), of x] find_Some_mem[OF assms(3)] assms(1) by auto

lemma catalog_ids:
  assumes "holds_catalog f c"
  shows "distinct (map wr_id (ct_relations c))" "distinct (map cx_id (ct_contexts c))"
    "distinct (map rs_reference (ct_resolutions c))"
proof -
  have "distinct (map wr_key (ct_relations c))" "distinct (map cx_key (ct_contexts c))" "distinct (map rs_key (ct_resolutions c))"
    using assms by (auto simp: holds_catalog_def catalog_in_def records_in_def)
  then show "distinct (map wr_id (ct_relations c))" "distinct (map cx_id (ct_contexts c))"
      "distinct (map rs_reference (ct_resolutions c))"
    by (simp_all add: distinct_map inj_on_def wr_key_def cx_key_def rs_key_def)
qed

section \<open>Queries on the lists\<close>

lemma filterE_Inr:
  "(\<And>x. x \<in> set xs \<Longrightarrow> p (put x) = Inr (P x)) \<Longrightarrow> filterE p (map put xs) = Inr (map put (filter P xs))"
  by (induction xs) auto

lemma mapM_put: "(\<And>x. x \<in> set xs \<Longrightarrow> g (put x) = Inr (h x)) \<Longrightarrow> mapM g (map put xs) = Inr (map h xs)"
  by (induction xs) auto

lemma matching_records:
  assumes "read_citations K f = Inr data" "records_in data (bucket_name b) key put mk xs"
    and "\<And>x. x \<in> set xs \<Longrightarrow> p (put x) = Inr (P x)"
  shows "matching K f b p = Inr (map put (filter P xs))"
  using assms records_bucket[OF assms(2)] filterE_Inr[of xs p put P]
  by (simp add: matching_def bucket_of_def comp_def)

lemma and_then_Inr: "p x = Inr a \<Longrightarrow> q x = Inr b \<Longrightarrow> and_then p q x = Inr (a \<and> b)"
  by (simp add: and_then_def)

lemma work_relation_kind_value_inj: "work_relation_kind_value a = work_relation_kind_value b \<longleftrightarrow> a = b"
  by (cases a; cases b) simp_all

definition relation_wanted :: "work_relation_kind list option \<Rightarrow> uuid list \<Rightarrow> work_relation \<Rightarrow> bool" where
  "relation_wanted kinds excluded w \<longleftrightarrow> wr_id w \<notin> set excluded \<and> (case kinds of None \<Rightarrow> True | Some ks \<Rightarrow> wr_kind w \<in> set ks)"

lemma relation_tests:
  "item_is ''subject_work_id'' u (work_relation_to_dict w) = Inr (wr_subject w = u)"
  "item_is ''object_work_id'' u (work_relation_to_dict w) = Inr (wr_object w = u)"
  "mapE Not (item_in ''relation_id'' (uuid_keys us) (work_relation_to_dict w)) = Inr (wr_id w \<notin> set us)"
  "item_in ''kind'' (map work_relation_kind_value ks) (work_relation_to_dict w) = Inr (wr_kind w \<in> set ks)"
  by (auto simp: item_is_def item_in_def work_relation_to_dict_def jitem_def work_relation_kind_value_inj image_iff)

lemma relations_matching_catalog:
  assumes "holds_catalog f c" "case limit of None \<Rightarrow> True | Some n \<Rightarrow> 0 \<le> n"
    and "\<And>w. item_is field work (work_relation_to_dict w) = Inr (side w = work)"
  shows "relations_matching K f field work kinds excluded limit =
    Inr (sorted_page work_relation_sort_key 0 limit
      (filter (\<lambda>w. side w = work \<and> relation_wanted kinds excluded w) (ct_relations c)))"
proof (cases "limit = Some 0")
  case True
  then show ?thesis by (simp add: relations_matching_def sorted_page_def)
next
  case False
  obtain data where d: "read_citations K f = Inr data" "catalog_in data c" using read_catalog[OF assms(1)] .
  then have r: "records_in data (bucket_name Relations) wr_key work_relation_to_dict mk_work_relation (ct_relations c)"
    by (simp add: catalog_in_def)
  have ok: "w \<in> set (ct_relations c) \<Longrightarrow> work_relation_from_dict (work_relation_to_dict w) = Inr w" for w
    using r work_relation_from_to_dict by (auto simp: records_in_def)
  let ?P = "\<lambda>w. side w = work \<and> relation_wanted kinds excluded w"
  have "matching K f Relations (and_then (item_is field work) (and_then
             (\<lambda>item. mapE Not (item_in ''relation_id'' (uuid_keys excluded) item))
             (case kinds of None \<Rightarrow> (\<lambda>_. Inr True) | Some ks \<Rightarrow> item_in ''kind'' (map work_relation_kind_value ks)))) =
      Inr (map work_relation_to_dict (filter ?P (ct_relations c)))"
    unfolding relation_wanted_def
    by (rule matching_records[OF d(1) r], intro and_then_Inr assms(3) relation_tests)
      (cases kinds; simp add: relation_tests)
  moreover have "mapM work_relation_from_dict (map work_relation_to_dict (filter ?P (ct_relations c))) =
      Inr (filter ?P (ct_relations c))"
    using mapM_put[of "filter ?P (ct_relations c)" work_relation_from_dict work_relation_to_dict "\<lambda>w. w"] ok by simp
  ultimately show ?thesis using False assms(2) by (simp add: relations_matching_def)
qed

text \<open>The contexts of passages, as a page and as a list.\<close>

lemma context_tests:
  "in_passages document ps (context_to_dict x) =
    Inr (cx_document x = document \<and> (case cx_passage x of None \<Rightarrow> False | Some p \<Rightarrow> p \<in> set ps))"
  by (auto simp: in_passages_def and_then_def item_is_def item_get_in_def context_to_dict_def jitem_def jopt_def image_iff
      split: option.splits)

lemma raw_context_key_dict: "raw_context_key (context_to_dict x) = Inr (context_sort_key x)"
  by (simp add: raw_context_key_def context_to_dict_def context_sort_key_def jitem_def)

lemma sorted_keyed: "map snd (sort_key fst (map (\<lambda>x. (key x, put x)) xs)) = map put (sort_key key xs)"
  using map_sort_key[of "\<lambda>x. (key x, put x)" fst xs, symmetric] by (simp add: comp_def)

lemma page_contexts_catalog:
  assumes "holds_catalog f c" "0 \<le> offset" "case limit of None \<Rightarrow> True | Some n \<Rightarrow> 0 < n" "ps \<noteq> []"
    and "xs = filter (\<lambda>x. cx_document x = document \<and> (case cx_passage x of None \<Rightarrow> False | Some p \<Rightarrow> p \<in> set ps)) (ct_contexts c)"
  shows "count_contexts_for_passages K f document ps = Inr (int (length xs))"
    and "list_contexts_for_passages K f document ps offset limit = Inr (sorted_page context_sort_key offset limit xs)"
    and "page_contexts_for_passages K f document ps offset limit =
      Inr (int (length xs), sorted_page context_sort_key offset limit xs)"
proof -
  obtain data where d: "read_citations K f = Inr data" "catalog_in data c" using read_catalog[OF assms(1)] .
  then have r: "records_in data (bucket_name Contexts) cx_key context_to_dict mk_context (ct_contexts c)"
    by (simp add: catalog_in_def)
  have m: "matching K f Contexts (in_passages document ps) = Inr (map context_to_dict xs)"
    unfolding assms(5) by (rule matching_records[OF d(1) r]) (rule context_tests)
  have ok: "x \<in> set xs \<Longrightarrow> context_from_dict K (context_to_dict x) = Inr x" for x
    using r context_from_to_dict assms(5) by (auto simp: records_in_def)
  have valid: "validate_page offset limit = Inr ()" "limit \<noteq> Some 0"
    using assms(2,3) by (auto simp: validate_page_def split: option.splits)
  have all: "mapM (context_from_dict K) (map context_to_dict ys) = Inr ys" if "set ys \<subseteq> set xs" for ys
    using mapM_put[of ys "context_from_dict K" context_to_dict "\<lambda>x. x"] ok that by auto
  have keyed: "mapM (\<lambda>item. mapE (\<lambda>k. (k, item)) (raw_context_key item)) (map context_to_dict xs) =
      Inr (map (\<lambda>x. (context_sort_key x, context_to_dict x)) xs)"
    by (rule mapM_put) (simp add: raw_context_key_dict)
  show "count_contexts_for_passages K f document ps = Inr (int (length xs))"
    using m assms(4) by (simp add: count_contexts_for_passages_def)
  show "list_contexts_for_passages K f document ps offset limit = Inr (sorted_page context_sort_key offset limit xs)"
    using m assms(4) valid all[of xs] by (simp add: list_contexts_for_passages_def)
  have slice: "(case limit of None \<Rightarrow> drop (nat offset) (map context_to_dict (sort_key context_sort_key xs))
       | Some n \<Rightarrow> take (nat n) (drop (nat offset) (map context_to_dict (sort_key context_sort_key xs)))) =
      map context_to_dict (sorted_page context_sort_key offset limit xs)"
    using assms(2,3)
    by (auto simp: sorted_page_def drop_map take_map take_drop nat_add_distrib add.commute split: option.splits)
  have sub: "set (sorted_page context_sort_key offset limit xs) \<subseteq> set xs"
    by (auto simp: sorted_page_def split: option.splits dest!: in_set_dropD in_set_takeD)
  show "page_contexts_for_passages K f document ps offset limit =
      Inr (int (length xs), sorted_page context_sort_key offset limit xs)"
    using m assms(4) valid keyed all[OF sub] slice
    by (simp add: page_contexts_for_passages_def sorted_keyed Let_def cong: option.case_cong)
qed

section \<open>Properties\<close>

text \<open>
  C37: Citation records are written once. From an empty catalogue on, whatever references, mentions,
  contexts, resolutions and relations are saved by whomever, a relation that can be read under its
  identifier, or a context of a document, is read back unchanged at every later moment, and reading never
  raises.
\<close>

theorem citation_records_stay:
  assumes "(citation_step K)\<^sup>*\<^sup>* (init_citations Missing) f" "(citation_step K)\<^sup>*\<^sup>* f f'"
  shows "(\<exists>found. get_relation K f rid = Inr found \<and> (found \<noteq> None \<longrightarrow> get_relation K f' rid = Inr found)) \<and>
    (\<exists>found. get_context K f document cid = Inr found \<and> (found \<noteq> None \<longrightarrow> get_context K f' document cid = Inr found))"
proof -
  obtain c where c: "holds_catalog f c" using steps_grow[OF assms(1) holds_empty] by blast
  obtain c' where c': "holds_catalog f' c'" "catalog_grows c c'" using steps_grow[OF assms(2) c] by blast
  have sub: "set (ct_relations c) \<subseteq> set (ct_relations c')" "set (ct_contexts c) \<subseteq> set (ct_contexts c')"
    using c'(2) by (auto simp: catalog_grows_def)
  show ?thesis
    using find_again[OF sub(1) catalog_ids(1)[OF c'(1)]] find_again[OF sub(2) catalog_ids(2)[OF c'(1)]]
    by (auto simp: get_relation_catalog[OF c] get_relation_catalog[OF c'(1)]
        get_context_catalog[OF c] get_context_catalog[OF c'(1)] split: option.splits)
qed

text \<open>
  C36: A resolved citation is settled. From an empty catalogue on, once the resolution of a reference is
  RESOLVED to a work, every later reading of it is RESOLVED to the same work under the same resolution
  identifier, whatever else is saved in between.
\<close>

theorem resolution_settled:
  assumes "(citation_step K)\<^sup>*\<^sup>* (init_citations Missing) f" "(citation_step K)\<^sup>*\<^sup>* f f'"
    and "get_resolution K f rid = Inr (Some r)" "rs_status r = RESOLVED"
  shows "\<exists>r'. get_resolution K f' rid = Inr (Some r') \<and> rs_status r' = RESOLVED \<and> rs_work r' = rs_work r \<and> rs_id r' = rs_id r"
proof -
  obtain c where c: "holds_catalog f c" using steps_grow[OF assms(1) holds_empty] by blast
  obtain c' where c': "holds_catalog f' c'" "catalog_grows c c'" using steps_grow[OF assms(2) c] by blast
  have "find (\<lambda>r. rs_reference r = rid) (ct_resolutions c) = Some r"
    using assms(3) get_resolution_catalog[OF c] by simp
  then have r: "r \<in> set (ct_resolutions c)" "rs_reference r = rid" using find_Some_mem by fastforce+
  then obtain r' where r': "r' \<in> set (ct_resolutions c')" "settled r r'" using c'(2) by (auto simp: catalog_grows_def)
  then have "find (\<lambda>r. rs_reference r = rid) (ct_resolutions c') = Some r'"
    using find_key_distinct[OF catalog_ids(3)[OF c'(1)] r'(1)] r(2) by (simp add: settled_def)
  then show ?thesis using get_resolution_catalog[OF c'(1)] r'(2) assms(4) by (simp add: settled_def)
qed

text \<open>
  The page of contexts is consistent with the listing and the count. On a catalogue reached from an
  empty one, for a page that is not empty by request, \<open>page_contexts_for_passages\<close>, which sorts the raw
  records, returns the number \<open>count_contexts_for_passages\<close> counts and the very contexts
  \<open>list_contexts_for_passages\<close> selects with a bounded heap over the parsed ones.
\<close>

theorem page_contexts_consistent:
  assumes "(citation_step K)\<^sup>*\<^sup>* (init_citations Missing) f" "0 \<le> offset" "limit \<noteq> Some 0"
    and "case limit of None \<Rightarrow> True | Some n \<Rightarrow> 0 \<le> n" "passages \<noteq> []"
  shows "\<exists>n xs. page_contexts_for_passages K f document passages offset limit = Inr (n, xs) \<and>
    count_contexts_for_passages K f document passages = Inr n \<and>
    list_contexts_for_passages K f document passages offset limit = Inr xs"
proof -
  obtain c where c: "holds_catalog f c" using steps_grow[OF assms(1) holds_empty] by blast
  have "case limit of None \<Rightarrow> True | Some n \<Rightarrow> 0 < n" using assms(3,4) by (auto split: option.splits)
  from page_contexts_catalog[OF c assms(2) this assms(5) refl] show ?thesis by blast
qed

section \<open>Witnesses\<close>

abbreviation no_records :: catalog where
  "no_records \<equiv> \<lparr>ct_references = [], ct_mentions = [], ct_contexts = [], ct_resolutions = [], ct_relations = []\<rparr>"

definition sample_context :: citation_context where
  "sample_context = \<lparr>cx_id = 1, cx_mention = 2, cx_document = 3, cx_text = ''see'', cx_start = 4, cx_end = 7,
    cx_section = None, cx_passage = Some 5\<rparr>"

definition sample_resolution :: resolution where
  "sample_resolution = \<lparr>rs_id = 1, rs_reference = 2, rs_status = RESOLVED, rs_work = Some 3, rs_candidates = [],
    rs_resolver = None, rs_observation = None, rs_resolved_at = Aware 0 0\<rparr>"

definition sample_relation :: work_relation where
  "sample_relation = \<lparr>wr_id = 1, wr_subject = 2, wr_object = 3, wr_kind = CITES, wr_basis = NATIVE,
    wr_observation = None, wr_document = Some 4, wr_reference = None, wr_created_at = Aware 0 0\<rparr>"

lemma samples_ok:
  "mk_context sample_context = Inr sample_context" "mk_resolution sample_resolution = Inr sample_resolution"
  "mk_work_relation sample_relation = Inr sample_relation"
proof -
  have "\<not> blank ''see''" "char_count ''see'' = 3" by code_simp+
  then show "mk_context sample_context = Inr sample_context" by (simp add: mk_context_def sample_context_def)
  show "mk_resolution sample_resolution = Inr sample_resolution"
    by (simp add: mk_resolution_def sample_resolution_def optional_not_blank_def)
  show "mk_work_relation sample_relation = Inr sample_relation"
    by (simp add: mk_work_relation_def sample_relation_def)
qed

text \<open>Saving a context, a resolution or a relation into a catalogue without any.\<close>

lemma first_context:
  assumes "holds_catalog f c" "ct_contexts c = []"
  obtains f' where "citation_step K f f'" "holds_catalog f' (c\<lparr>ct_contexts := [sample_context]\<rparr>)"
proof -
  obtain data where d: "read_citations K f = Inr data" "catalog_in data c" using read_catalog[OF assms(1)] .
  have "map_of (json_bucket data ''contexts'') (cx_key sample_context) = None"
    using records_get[of data "''contexts''" cx_key context_to_dict mk_context "[]"] d(2) assms(2) by (simp add: catalog_in_def)
  then have s: "save_context K f sample_context = Inr (Document (JObj (put_doc data ''contexts'' cx_key context_to_dict sample_context)))"
    using d(1) by (simp add: save_context_def save_citation_def write_sorted_def set_bucket_def cx_key_def)
  show ?thesis
    using that[OF step_context[OF samples_ok(1) s]] catalog_put(3)[OF d(2) samples_ok(1)] assms(2)
    by (auto simp: holds_catalog_def put_record_def)
qed

lemma first_relation:
  assumes "holds_catalog f c" "ct_relations c = []"
  obtains f' where "citation_step K f f'" "holds_catalog f' (c\<lparr>ct_relations := [sample_relation]\<rparr>)"
proof -
  obtain data where d: "read_citations K f = Inr data" "catalog_in data c" using read_catalog[OF assms(1)] .
  have "map_of (json_bucket data ''relations'') (wr_key sample_relation) = None"
    using records_get[of data "''relations''" wr_key work_relation_to_dict mk_work_relation "[]"] d(2) assms(2)
    by (simp add: catalog_in_def)
  then have s: "save_relation K f sample_relation = Inr (Document (JObj (put_doc data ''relations'' wr_key work_relation_to_dict sample_relation)))"
    using d(1) by (simp add: save_relation_def save_citation_def write_sorted_def set_bucket_def wr_key_def)
  show ?thesis
    using that[OF step_relation[OF samples_ok(3) s]] catalog_put(5)[OF d(2) samples_ok(3)] assms(2)
    by (auto simp: holds_catalog_def put_record_def)
qed

lemma first_resolution:
  assumes "holds_catalog f c" "ct_resolutions c = []"
  obtains f' where "citation_step K f f'" "holds_catalog f' (c\<lparr>ct_resolutions := [sample_resolution]\<rparr>)"
proof -
  obtain data where d: "read_citations K f = Inr data" "catalog_in data c" using read_catalog[OF assms(1)] .
  have "map_of (json_bucket data ''resolutions'') (rs_key sample_resolution) = None"
    using records_get[of data "''resolutions''" rs_key resolution_to_dict mk_resolution "[]"] d(2) assms(2)
    by (simp add: catalog_in_def)
  then have s: "save_resolution K f sample_resolution = Inr (Document (JObj (put_doc data ''resolutions'' rs_key resolution_to_dict sample_resolution)))"
    using d(1) by (simp add: save_resolution_def Let_def write_sorted_def set_bucket_def rs_key_def)
  show ?thesis
    using that[OF step_resolution[OF samples_ok(2) s]] catalog_put(4)[OF d(2) samples_ok(2)] assms(2)
    by (auto simp: holds_catalog_def put_record_def)
qed

lemma citation_records_stay_witness:
  "\<exists>f f'. citation_step no_coercions f f' \<and> get_relation no_coercions f 1 = Inr (Some sample_relation) \<and>
    get_relation no_coercions f' 1 = Inr (Some sample_relation)"
proof -
  obtain f where f: "citation_step no_coercions (init_citations Missing) f" "holds_catalog f (no_records\<lparr>ct_relations := [sample_relation]\<rparr>)"
    by (rule first_relation[OF holds_empty]) simp
  obtain f' where f': "citation_step no_coercions f f'" by (rule first_context[OF f(2)]) simp
  have "get_relation no_coercions f 1 = Inr (Some sample_relation)"
    by (simp add: get_relation_catalog[OF f(2)] sample_relation_def)
  with citation_records_stay[OF r_into_rtranclp[where r = "citation_step no_coercions", OF f(1)] r_into_rtranclp[where r = "citation_step no_coercions", OF f'], of 1] f' show ?thesis by auto
qed

lemma resolution_settled_witness:
  "\<exists>f f' r. citation_step no_coercions f f' \<and> get_resolution no_coercions f 2 = Inr (Some sample_resolution) \<and>
    get_resolution no_coercions f' 2 = Inr (Some r) \<and> rs_work r = Some 3"
proof -
  obtain f where f: "citation_step no_coercions (init_citations Missing) f" "holds_catalog f (no_records\<lparr>ct_resolutions := [sample_resolution]\<rparr>)"
    by (rule first_resolution[OF holds_empty]) simp
  obtain f' where f': "citation_step no_coercions f f'" by (rule first_context[OF f(2)]) simp
  have "get_resolution no_coercions f 2 = Inr (Some sample_resolution)" "rs_status sample_resolution = RESOLVED"
      "rs_work sample_resolution = Some 3"
    by (simp_all add: get_resolution_catalog[OF f(2)]) (simp_all add: sample_resolution_def)
  with resolution_settled[OF r_into_rtranclp[where r = "citation_step no_coercions", OF f(1)] r_into_rtranclp[where r = "citation_step no_coercions", OF f'] this(1,2)] f' show ?thesis by auto
qed

lemma page_contexts_consistent_witness:
  "\<exists>f n xs. citation_step no_coercions (init_citations Missing) f \<and>
    page_contexts_for_passages no_coercions f 3 [5] 0 (Some 1) = Inr (n, xs) \<and>
    count_contexts_for_passages no_coercions f 3 [5] = Inr n"
proof -
  obtain f where f: "citation_step no_coercions (init_citations Missing) f" "holds_catalog f (no_records\<lparr>ct_contexts := [sample_context]\<rparr>)"
    by (rule first_context[OF holds_empty]) simp
  from page_contexts_consistent[OF r_into_rtranclp[where r = "citation_step no_coercions", OF f(1)], of 0 "Some 1" "[5]" 3]
  obtain n xs where "page_contexts_for_passages no_coercions f 3 [5] 0 (Some 1) = Inr (n, xs)"
      "count_contexts_for_passages no_coercions f 3 [5] = Inr n" by auto
  then show ?thesis using f(1) by blast
qed

end
