(* ===== verification/CitationTraversal.thy ===== *)
theory CitationTraversal imports CitationStore begin

text \<open>
  \<open>application/citation_traversal.py\<close>: a breadth-first walk over the stored relations between works, under
  hard bounds on its depth, its works and its relations. The repository is the pair of its two listings.
  The lists of works and of relations also stand for the sets \<open>visited\<close> and \<open>seen_relations\<close>, which the code
  keeps in step with them. The catalogue is read at one moment: writes during a walk are not modelled.
\<close>

section \<open>The walk\<close>

datatype direction = OUTBOUND | INBOUND | BOTH

datatype walk_limit = LIMIT_DEPTH | LIMIT_WORKS | LIMIT_RELATIONS

record walk_policy =
  wp_depth :: int
  wp_works :: int
  wp_relations :: int
  wp_direction :: direction
  wp_kinds :: "work_relation_kind list"

definition mk_walk_policy :: "walk_policy \<Rightarrow> exc + walk_policy" where
  "mk_walk_policy p =
    bindE (check (0 \<le> wp_depth p) (ValueError ''citation traversal max_depth must be non-negative'')) (\<lambda>_.
    bindE (check (1 \<le> wp_works p) (ValueError ''citation traversal max_works must be at least one'')) (\<lambda>_.
    bindE (check (0 \<le> wp_relations p) (ValueError ''citation traversal max_relations must be non-negative'')) (\<lambda>_.
    bindE (check (wp_kinds p \<noteq> []) (ValueError ''citation traversal must allow at least one relation kind'')) (\<lambda>_.
    Inr p))))"

record walk_result =
  wt_root :: uuid
  wt_works :: "uuid list"
  wt_relations :: "work_relation list"
  wt_depth :: int
  wt_stopped :: "walk_limit option"

type_synonym listing =
  "uuid \<Rightarrow> work_relation_kind list option \<Rightarrow> uuid list \<Rightarrow> int option \<Rightarrow> exc + work_relation list"

definition neighbor :: "uuid \<Rightarrow> work_relation \<Rightarrow> uuid option" where
  "neighbor w r =
    (if wr_subject r = w then Some (wr_object r)
     else if wr_object r = w then Some (wr_subject r)
     else None)"

text \<open>A dictionary by identifier, filled from a list.\<close>

fun by_id :: "work_relation list \<Rightarrow> work_relation list \<Rightarrow> work_relation list" where
  "by_id d [] = d"
| "by_id d (r # rs) = by_id (if wr_id r \<in> wr_id ` set d then replace_by wr_id r d else d @ [r]) rs"

definition relations_for :: "listing \<Rightarrow> listing \<Rightarrow> walk_policy \<Rightarrow> uuid \<Rightarrow> int \<Rightarrow> uuid list \<Rightarrow> exc + work_relation list" where
  "relations_for outof into p w n excluded =
    bindE (if wp_direction p \<in> {OUTBOUND, BOTH} then outof w (Some (wp_kinds p)) excluded (Some n) else Inr []) (\<lambda>outs.
    bindE (if wp_direction p \<in> {INBOUND, BOTH} then into w (Some (wp_kinds p)) excluded (Some n) else Inr []) (\<lambda>ins.
    Inr (take (nat n) (sort_key work_relation_sort_key (by_id [] (outs @ ins))))))"

fun has_unseen :: "listing \<Rightarrow> listing \<Rightarrow> walk_policy \<Rightarrow> uuid list \<Rightarrow> uuid list \<Rightarrow> exc + bool" where
  "has_unseen outof into p seen [] = Inr False"
| "has_unseen outof into p seen (w # ws) =
    bindE (relations_for outof into p w 1 seen) (\<lambda>rs.
    if rs \<noteq> [] then Inr True else has_unseen outof into p seen ws)"

record walk =
  wk_works :: "uuid list"
  wk_relations :: "work_relation list"
  wk_next :: "uuid list"

definition seen_ids :: "walk \<Rightarrow> uuid list" where
  "seen_ids s = map wr_id (wk_relations s)"

text \<open>The relations of one work; \<open>True\<close> when the bound on works stops the walk.\<close>

fun walk_relations :: "walk_policy \<Rightarrow> uuid \<Rightarrow> work_relation list \<Rightarrow> walk \<Rightarrow> walk \<times> bool" where
  "walk_relations p w [] s = (s, False)"
| "walk_relations p w (r # rs) s =
    (case neighbor w r of
       None \<Rightarrow> walk_relations p w rs s
     | Some n \<Rightarrow>
         let new = n \<notin> set (wk_works s) in
         if new \<and> wp_works p \<le> int (length (wk_works s)) then (s, True)
         else walk_relations p w rs
                (s\<lparr>wk_relations := wk_relations s @ [r],
                   wk_works := if new then wk_works s @ [n] else wk_works s,
                   wk_next := if new then wk_next s @ [n] else wk_next s\<rparr>))"

text \<open>The works of one depth, in the order of their identifiers.\<close>

datatype went = Went walk | Stopped walk walk_limit

fun walk_frontier :: "listing \<Rightarrow> listing \<Rightarrow> walk_policy \<Rightarrow> uuid list \<Rightarrow> uuid list \<Rightarrow> walk \<Rightarrow> exc + went" where
  "walk_frontier outof into p frontier [] s = Inr (Went s)"
| "walk_frontier outof into p frontier (w # ws) s =
    bindE (relations_for outof into p w (wp_relations p - int (length (wk_relations s))) (seen_ids s)) (\<lambda>rs.
    case walk_relations p w rs s of
      (s', True) \<Rightarrow> Inr (Stopped s' LIMIT_WORKS)
    | (s', False) \<Rightarrow>
        if int (length (wk_relations s')) = wp_relations p
        then bindE (has_unseen outof into p (seen_ids s') frontier) (\<lambda>unseen.
             Inr (if unseen then Stopped s' LIMIT_RELATIONS else Went s'))
        else walk_frontier outof into p frontier ws s')"

definition walk_end :: "uuid \<Rightarrow> walk \<Rightarrow> int \<Rightarrow> walk_limit option \<Rightarrow> walk_result" where
  "walk_end origin s reached stopped =
    \<lparr>wt_root = origin, wt_works = wk_works s, wt_relations = wk_relations s, wt_depth = reached, wt_stopped = stopped\<rparr>"

text \<open>
  The loop over the depths that are left, and its \<open>else\<close> branch. Both ways to leave the loop after the
  works of a depth, the exhausted frontier and the empty one, end at an empty next frontier.
\<close>

fun walk_depths :: "listing \<Rightarrow> listing \<Rightarrow> walk_policy \<Rightarrow> uuid \<Rightarrow> nat \<Rightarrow> int \<Rightarrow> uuid list \<Rightarrow> walk \<Rightarrow> exc + walk_result" where
  "walk_depths outof into p origin 0 reached frontier s =
    bindE (if frontier = [] then Inr False else has_unseen outof into p (seen_ids s) frontier) (\<lambda>unseen.
    Inr (walk_end origin s reached (if unseen then Some LIMIT_DEPTH else None)))"
| "walk_depths outof into p origin (Suc n) reached frontier s =
    (if int (length (wk_relations s)) = wp_relations p
     then bindE (has_unseen outof into p (seen_ids s) frontier) (\<lambda>unseen.
          Inr (walk_end origin s reached (if unseen then Some LIMIT_RELATIONS else None)))
     else bindE (walk_frontier outof into p frontier (sort_key uuid_str frontier) (s\<lparr>wk_next := []\<rparr>)) (\<lambda>w.
          case w of
            Stopped s' l \<Rightarrow> Inr (walk_end origin s' reached (Some l))
          | Went s' \<Rightarrow>
              if wk_next s' = [] then Inr (walk_end origin s' (reached + 1) None)
              else walk_depths outof into p origin n (reached + 1) (sort_key uuid_str (wk_next s')) s'))"

definition traverse :: "listing \<Rightarrow> listing \<Rightarrow> uuid \<Rightarrow> walk_policy \<Rightarrow> exc + walk_result" where
  "traverse outof into origin p =
    (let s = \<lparr>wk_works = [origin], wk_relations = [], wk_next = []\<rparr> in
     if wp_depth p = 0
     then bindE (has_unseen outof into p (seen_ids s) [origin]) (\<lambda>unseen.
          Inr (walk_end origin s 0 (if unseen then Some LIMIT_DEPTH else None)))
     else walk_depths outof into p origin (nat (wp_depth p)) 0 [origin] s)"

section \<open>Reachable works\<close>

text \<open>The relations a work is followed along, the works next to it, and the works within a distance.\<close>

definition followed :: "walk_policy \<Rightarrow> uuid \<Rightarrow> work_relation \<Rightarrow> bool" where
  "followed p w r \<longleftrightarrow> wr_kind r \<in> set (wp_kinds p) \<and>
    (wp_direction p \<noteq> INBOUND \<and> wr_subject r = w \<or> wp_direction p \<noteq> OUTBOUND \<and> wr_object r = w)"

definition adjacent :: "walk_policy \<Rightarrow> work_relation list \<Rightarrow> uuid \<Rightarrow> uuid set" where
  "adjacent p rels w = {n. \<exists>r \<in> set rels. followed p w r \<and> neighbor w r = Some n}"

fun reach_in :: "walk_policy \<Rightarrow> work_relation list \<Rightarrow> uuid \<Rightarrow> nat \<Rightarrow> uuid set" where
  "reach_in p rels origin 0 = {origin}"
| "reach_in p rels origin (Suc d) = reach_in p rels origin d \<union> (\<Union>w \<in> reach_in p rels origin d. adjacent p rels w)"

definition pending :: "walk_policy \<Rightarrow> work_relation list \<Rightarrow> uuid list \<Rightarrow> uuid \<Rightarrow> work_relation set" where
  "pending p rels seen w = {r \<in> set rels. followed p w r \<and> wr_id r \<notin> set seen}"

lemma reach_in_mono: "d \<le> e \<Longrightarrow> reach_in p rels origin d \<subseteq> reach_in p rels origin e"
  by (induction e) (auto simp: le_Suc_eq)

lemma reach_in_stable:
  assumes "\<And>w. w \<in> reach_in p rels origin d \<Longrightarrow> adjacent p rels w \<subseteq> reach_in p rels origin d"
  shows "reach_in p rels origin (d + k) = reach_in p rels origin d"
  using assms by (induction k) auto

lemma followed_neighbor: "followed p w r \<Longrightarrow> \<exists>n. neighbor w r = Some n"
  by (auto simp: followed_def neighbor_def)

lemma by_id_set:
  "inj_on wr_id (set d \<union> set rs) \<Longrightarrow> distinct (map wr_id d) \<Longrightarrow>
    set (by_id d rs) = set d \<union> set rs \<and> distinct (map wr_id (by_id d rs))"
proof (induction rs arbitrary: d)
  case (Cons r rs)
  show ?case
  proof (cases "wr_id r \<in> wr_id ` set d")
    case True
    have eq: "x = r" if "x \<in> set d" "wr_id x = wr_id r" for x
      using inj_onD[OF Cons.prems(1) that(2)] that(1) by simp
    then have "r \<in> set d" using True by auto
    moreover have "replace_by wr_id r d = d"
      unfolding replace_by_def by (intro map_idI) (use eq in auto)
    ultimately show ?thesis using True Cons by (auto simp: insert_absorb)
  next
    case False
    then show ?thesis using Cons.IH[of "d @ [r]"] Cons.prems by auto
  qed
qed simp

section \<open>The relations of one work\<close>

text \<open>A walk under its bounds: nothing twice, nothing that is not wanted, both ends of a relation visited.\<close>

definition walk_ok :: "walk_policy \<Rightarrow> work_relation list \<Rightarrow> walk \<Rightarrow> bool" where
  "walk_ok p rels s \<longleftrightarrow> distinct (wk_works s) \<and> int (length (wk_works s)) \<le> wp_works p \<and>
    distinct (seen_ids s) \<and> int (length (wk_relations s)) \<le> wp_relations p \<and>
    (\<forall>r \<in> set (wk_relations s). r \<in> set rels \<and> wr_kind r \<in> set (wp_kinds p) \<and>
      wr_subject r \<in> set (wk_works s) \<and> wr_object r \<in> set (wk_works s))"

lemma walk_ok_next [simp]: "walk_ok p rels (s\<lparr>wk_next := ws\<rparr>) = walk_ok p rels s"
  by (simp add: walk_ok_def seen_ids_def)

lemma neighbor_ends: "neighbor w r = Some n \<Longrightarrow> {wr_subject r, wr_object r} = {w, n}"
  by (auto simp: neighbor_def split: if_splits)

lemma pending_next:
  assumes "set (r # rs) \<subseteq> pending p rels seen w" "distinct (map wr_id (r # rs))"
  shows "set rs \<subseteq> pending p rels (seen @ [wr_id r]) w"
  using assms by (auto simp: pending_def image_iff)

lemma walk_relations_spec:
  assumes "walk_relations p w rs s = (s', stopped)" "walk_ok p rels s" "w \<in> set (wk_works s)"
    and "set rs \<subseteq> pending p rels (seen_ids s) w" "distinct (map wr_id rs)"
    and "int (length (wk_relations s) + length rs) \<le> wp_relations p"
  shows "walk_ok p rels s' \<and> (\<exists>new. wk_works s' = wk_works s @ new \<and> wk_next s' = wk_next s @ new) \<and>
    set (wk_works s') \<subseteq> set (wk_works s) \<union> adjacent p rels w \<and> set (wk_relations s) \<subseteq> set (wk_relations s') \<and>
    (\<not> stopped \<longrightarrow> set rs \<subseteq> set (wk_relations s') \<and> length (wk_relations s') = length (wk_relations s) + length rs)"
  using assms
proof (induction rs arbitrary: s)
  case (Cons r rs)
  have r: "r \<in> set rels" "followed p w r" "wr_id r \<notin> set (seen_ids s)" using Cons.prems(4) by (auto simp: pending_def)
  then obtain n where n: "neighbor w r = Some n" using followed_neighbor by blast
  then have adj: "n \<in> adjacent p rels w" using r by (auto simp: adjacent_def)
  define new where "new \<longleftrightarrow> n \<notin> set (wk_works s)"
  show ?case
  proof (cases "new \<and> wp_works p \<le> int (length (wk_works s))")
    case True
    then show ?thesis using Cons.prems(1,2) n new_def by (auto simp: Let_def)
  next
    case False
    define s1 where "s1 = s\<lparr>wk_relations := wk_relations s @ [r],
      wk_works := if new then wk_works s @ [n] else wk_works s, wk_next := if new then wk_next s @ [n] else wk_next s\<rparr>"
    have step: "walk_relations p w rs s1 = (s', stopped)"
      using Cons.prems(1) n False unfolding new_def s1_def
      by (cases "n \<in> set (wk_works s)") (simp_all add: Let_def)
    have works: "set (wk_works s1) = insert n (set (wk_works s))" by (auto simp: s1_def new_def)
    have ends: "wr_subject r \<in> set (wk_works s1)" "wr_object r \<in> set (wk_works s1)"
      using neighbor_ends[OF n] works Cons.prems(3) by auto
    have seen: "seen_ids s1 = seen_ids s @ [wr_id r]" by (simp add: seen_ids_def s1_def)
    have ok: "walk_ok p rels s1"
      using Cons.prems(2,6) r False ends works seen unfolding walk_ok_def
      by (auto simp: s1_def new_def followed_def)
    have IH: "walk_ok p rels s' \<and> (\<exists>new. wk_works s' = wk_works s1 @ new \<and> wk_next s' = wk_next s1 @ new) \<and>
        set (wk_works s') \<subseteq> set (wk_works s1) \<union> adjacent p rels w \<and> set (wk_relations s1) \<subseteq> set (wk_relations s') \<and>
        (\<not> stopped \<longrightarrow> set rs \<subseteq> set (wk_relations s') \<and> length (wk_relations s') = length (wk_relations s1) + length rs)"
      by (rule Cons.IH[OF step ok])
        (use Cons.prems(3,5,6) works pending_next[OF Cons.prems(4,5)] seen in \<open>auto simp: s1_def\<close>)
    have "\<exists>new. wk_works s1 = wk_works s @ new \<and> wk_next s1 = wk_next s @ new" by (auto simp: s1_def)
    moreover have "r \<in> set (wk_relations s1)" "set (wk_relations s) \<subseteq> set (wk_relations s1)"
        "length (wk_relations s1) = Suc (length (wk_relations s))" by (auto simp: s1_def)
    ultimately show ?thesis using IH works adj by auto
  qed
qed auto

text \<open>A work without pending relations: its neighbours are visited, now and later.\<close>

lemma pending_closed:
  assumes "walk_ok p rels s" "distinct (map wr_id rels)" "pending p rels (seen_ids s) w = {}"
  shows "adjacent p rels w \<subseteq> set (wk_works s)"
proof
  fix n assume "n \<in> adjacent p rels w"
  then obtain r where r: "r \<in> set rels" "followed p w r" "neighbor w r = Some n" by (auto simp: adjacent_def)
  then obtain r' where r': "r' \<in> set (wk_relations s)" "wr_id r' = wr_id r"
    using assms(3) by (auto simp: pending_def seen_ids_def)
  then have "r' \<in> set rels" using assms(1) by (simp add: walk_ok_def)
  then have "r' = r" using assms(2) r(1) r'(2) by (auto simp: distinct_map dest: inj_onD)
  then have "{wr_subject r, wr_object r} \<subseteq> set (wk_works s)" using r' assms(1) by (auto simp: walk_ok_def)
  then show "n \<in> set (wk_works s)" using neighbor_ends[OF r(3)] by blast
qed

lemma pending_mono:
  "set (wk_relations s) \<subseteq> set (wk_relations s') \<Longrightarrow> pending p rels (seen_ids s') w \<subseteq> pending p rels (seen_ids s) w"
  by (auto simp: pending_def seen_ids_def)

text \<open>What the works of one depth add to a walk.\<close>

definition extends :: "walk_policy \<Rightarrow> work_relation list \<Rightarrow> uuid set \<Rightarrow> walk \<Rightarrow> walk \<Rightarrow> bool" where
  "extends p rels F s s' \<longleftrightarrow> walk_ok p rels s' \<and>
    (\<exists>new. wk_works s' = wk_works s @ new \<and> wk_next s' = wk_next s @ new) \<and>
    set (wk_works s') \<subseteq> set (wk_works s) \<union> (\<Union>w \<in> F. adjacent p rels w) \<and> set (wk_relations s) \<subseteq> set (wk_relations s')"

lemma extends_refl: "walk_ok p rels s \<Longrightarrow> extends p rels F s s"
  by (simp add: extends_def)

lemma extends_trans: "extends p rels F s t \<Longrightarrow> extends p rels F t u \<Longrightarrow> extends p rels F s u"
  unfolding extends_def by (auto 0 4)

text \<open>
  A result within its bounds, and one that is complete: unless the bound on works or on relations stopped
  the walk, the works are those within the distance asked for, and when nothing stopped it, no wanted
  relation of any of them is left out.
\<close>

definition sound_result :: "walk_policy \<Rightarrow> work_relation list \<Rightarrow> uuid \<Rightarrow> walk_result \<Rightarrow> bool" where
  "sound_result p rels origin r \<longleftrightarrow> wt_root r = origin \<and> origin \<in> set (wt_works r) \<and>
    distinct (wt_works r) \<and> int (length (wt_works r)) \<le> wp_works p \<and>
    distinct (map wr_id (wt_relations r)) \<and> int (length (wt_relations r)) \<le> wp_relations p \<and>
    (\<forall>x \<in> set (wt_relations r). x \<in> set rels \<and> wr_kind x \<in> set (wp_kinds p) \<and>
      wr_subject x \<in> set (wt_works r) \<and> wr_object x \<in> set (wt_works r)) \<and>
    set (wt_works r) \<subseteq> reach_in p rels origin (nat (wp_depth p)) \<and> 0 \<le> wt_depth r \<and> wt_depth r \<le> wp_depth p"

definition complete_result :: "walk_policy \<Rightarrow> work_relation list \<Rightarrow> uuid \<Rightarrow> walk_result \<Rightarrow> bool" where
  "complete_result p rels origin r \<longleftrightarrow>
    (wt_stopped r = None \<or> wt_stopped r = Some LIMIT_DEPTH \<longrightarrow>
      set (wt_works r) = reach_in p rels origin (nat (wp_depth p))) \<and>
    (wt_stopped r = None \<longrightarrow>
      (\<forall>w \<in> set (wt_works r). \<forall>x \<in> set rels. followed p w x \<longrightarrow> x \<in> set (wt_relations r)))"

lemma sound_end:
  assumes "walk_ok p rels k" "origin \<in> set (wk_works k)" "set (wk_works k) \<subseteq> reach_in p rels origin e"
    and "e \<le> nat (wp_depth p)" "0 \<le> reached" "reached \<le> wp_depth p"
  shows "sound_result p rels origin (walk_end origin k reached stopped)"
  using assms reach_in_mono[OF assms(4), of p rels origin]
  by (auto simp: sound_result_def walk_end_def walk_ok_def seen_ids_def)

lemma complete_depth:
  "set (wk_works k) = reach_in p rels origin (nat (wp_depth p)) \<Longrightarrow>
    complete_result p rels origin (walk_end origin k reached (Some LIMIT_DEPTH))"
  by (simp add: complete_result_def walk_end_def)

lemma complete_stopped:
  "l \<noteq> LIMIT_DEPTH \<Longrightarrow> complete_result p rels origin (walk_end origin k reached (Some l))"
  by (simp add: complete_result_def walk_end_def)

lemma complete_closed:
  assumes "walk_ok p rels k" "distinct (map wr_id rels)" "\<And>w. w \<in> set (wk_works k) \<Longrightarrow> pending p rels (seen_ids k) w = {}"
    and "set (wk_works k) = reach_in p rels origin d" "d \<le> nat (wp_depth p)"
  shows "complete_result p rels origin (walk_end origin k reached None)"
proof -
  have "adjacent p rels w \<subseteq> reach_in p rels origin d" if "w \<in> reach_in p rels origin d" for w
    using pending_closed[OF assms(1,2), of w] assms(3,4) that by simp
  then have "reach_in p rels origin (d + (nat (wp_depth p) - d)) = reach_in p rels origin d" by (rule reach_in_stable)
  then have all: "set (wk_works k) = reach_in p rels origin (nat (wp_depth p))" using assms(4,5) by simp
  have "x \<in> set (wk_relations k)" if x: "w \<in> set (wk_works k)" "x \<in> set rels" "followed p w x" for w x
  proof -
    obtain y where y: "y \<in> set (wk_relations k)" "wr_id y = wr_id x"
      using assms(3)[OF x(1)] x(2,3) by (auto simp: pending_def seen_ids_def)
    then have "y \<in> set rels" using assms(1) by (simp add: walk_ok_def)
    then have "y = x" using assms(2) x(2) y(2) by (auto simp: distinct_map dest: inj_onD)
    then show ?thesis using y(1) by simp
  qed
  then show ?thesis using all by (simp add: complete_result_def walk_end_def)
qed

section \<open>The listings of a repository\<close>

text \<open>What the walk relies on: the listings return the first wanted relations of a work in the order of their keys.\<close>

locale relation_index =
  fixes outof into :: "'s \<Rightarrow> listing"
    and holds :: "'s \<Rightarrow> work_relation list \<Rightarrow> bool"
  assumes outof_law: "holds s rels \<Longrightarrow> 0 \<le> n \<Longrightarrow> outof s w (Some ks) seen (Some n) =
      Inr (take (nat n) (sort_key work_relation_sort_key
        (filter (\<lambda>r. wr_subject r = w \<and> relation_wanted (Some ks) seen r) rels)))"
    and into_law: "holds s rels \<Longrightarrow> 0 \<le> n \<Longrightarrow> into s w (Some ks) seen (Some n) =
      Inr (take (nat n) (sort_key work_relation_sort_key
        (filter (\<lambda>r. wr_object r = w \<and> relation_wanted (Some ks) seen r) rels)))"
    and ids_law: "holds s rels \<Longrightarrow> distinct (map wr_id rels)"
begin

lemma relations_for_spec:
  assumes "holds s rels" "1 \<le> n"
  shows "\<exists>rs. relations_for (outof s) (into s) p w n seen = Inr rs \<and> set rs \<subseteq> pending p rels seen w \<and>
    distinct (map wr_id rs) \<and> int (length rs) \<le> n \<and> (int (length rs) < n \<longrightarrow> set rs = pending p rels seen w)"
proof -
  define A where "A = filter (\<lambda>r. wp_direction p \<noteq> INBOUND \<and> wr_subject r = w \<and> relation_wanted (Some (wp_kinds p)) seen r) rels"
  define B where "B = filter (\<lambda>r. wp_direction p \<noteq> OUTBOUND \<and> wr_object r = w \<and> relation_wanted (Some (wp_kinds p)) seen r) rels"
  let ?first = "\<lambda>xs. take (nat n) (sort_key work_relation_sort_key xs)"
  let ?d = "by_id [] (?first A @ ?first B)"
  have out: "(if wp_direction p \<in> {OUTBOUND, BOTH} then outof s w (Some (wp_kinds p)) seen (Some n) else Inr []) = Inr (?first A)"
    using outof_law[OF assms(1)] assms(2) by (cases "wp_direction p") (auto simp: A_def)
  have inn: "(if wp_direction p \<in> {INBOUND, BOTH} then into s w (Some (wp_kinds p)) seen (Some n) else Inr []) = Inr (?first B)"
    using into_law[OF assms(1)] assms(2) by (cases "wp_direction p") (auto simp: B_def)
  have AB: "set A \<union> set B = pending p rels seen w"
    by (auto simp: A_def B_def pending_def followed_def relation_wanted_def)
  have sub: "set (?first A) \<subseteq> set A" "set (?first B) \<subseteq> set B"
    by (auto dest: in_set_takeD)
  have "inj_on wr_id (set rels)" using ids_law[OF assms(1)] by (simp add: distinct_map)
  then have inj: "inj_on wr_id (set [] \<union> set (?first A @ ?first B))"
    by (rule inj_on_subset) (use sub AB in \<open>auto simp: pending_def\<close>)
  have d: "set ?d = set (?first A) \<union> set (?first B)" "distinct (map wr_id ?d)"
    using by_id_set[OF inj] by auto
  let ?rs = "?first ?d"
  have ds: "distinct (map wr_id (sort_key work_relation_sort_key ?d))" using d(2) by (simp add: distinct_map)
  have all: "set ?rs = pending p rels seen w" if l: "int (length ?rs) < n"
  proof -
    have rs: "set ?rs = set ?d" "length ?d = card (set ?d)" and len: "int (length ?d) < n"
      using l d(2) by (auto simp: distinct_map distinct_card)
    have "length (?first A) \<le> length ?d \<or> \<not> distinct (?first A)"
      using d(1) rs(2) by (metis card_mono distinct_card finite_set sup_ge1)
    moreover have "distinct xs" if "xs \<in> {A, B}" for xs
      using that ids_law[OF assms(1)] by (auto simp: A_def B_def distinct_map)
    ultimately have "length (?first A) \<le> length ?d" by simp
    moreover have "length (?first B) \<le> length ?d"
      using d(1) rs(2) \<open>\<And>xs. xs \<in> {A, B} \<Longrightarrow> distinct xs\<close>
      by (metis card_mono distinct_card distinct_sort distinct_take finite_set insertCI sup_ge2)
    ultimately have "length (?first A) < nat n" "length (?first B) < nat n" using len assms(2) by linarith+
    then have "set (?first A) = set A" "set (?first B) = set B" by auto
    then show ?thesis using rs(1) d(1) AB by simp
  qed
  have "set ?d \<subseteq> pending p rels seen w" using sub d(1) AB by blast
  moreover have "set ?rs \<subseteq> set ?d" by (auto dest: in_set_takeD)
  ultimately have "set ?rs \<subseteq> pending p rels seen w" by blast
  moreover have "distinct (map wr_id ?rs)" using ds by (simp add: take_map[symmetric])
  moreover have "int (length ?rs) \<le> n" using assms(2) by simp
  moreover have "relations_for (outof s) (into s) p w n seen = Inr ?rs"
    unfolding relations_for_def out inn by simp
  ultimately show ?thesis using all by blast
qed

lemma has_unseen_spec:
  assumes "holds s rels"
  shows "has_unseen (outof s) (into s) p seen ws = Inr (\<exists>w \<in> set ws. pending p rels seen w \<noteq> {})"
proof (induction ws)
  case (Cons w ws)
  obtain rs where rs: "relations_for (outof s) (into s) p w 1 seen = Inr rs" "set rs \<subseteq> pending p rels seen w"
    "int (length rs) < 1 \<longrightarrow> set rs = pending p rels seen w"
    using relations_for_spec[OF assms, of 1 p w seen] by auto
  then show ?case using Cons by (cases rs) auto
qed simp

lemma walk_frontier_spec:
  assumes "holds s rels" "walk_ok p rels k" "set ws \<subseteq> set F" "set F \<subseteq> set (wk_works k)"
    and "int (length (wk_relations k)) < wp_relations p" "\<And>w. w \<in> set F - set ws \<Longrightarrow> pending p rels (seen_ids k) w = {}"
  shows "\<exists>res. walk_frontier (outof s) (into s) p F ws k = Inr res \<and>
    (case res of Stopped k' l \<Rightarrow> extends p rels (set F) k k' \<and> l \<noteq> LIMIT_DEPTH
     | Went k' \<Rightarrow> extends p rels (set F) k k' \<and> (\<forall>w \<in> set F. pending p rels (seen_ids k') w = {}))"
  using assms(2-6)
proof (induction ws arbitrary: k)
  case Nil
  then show ?case by (auto intro: extends_refl)
next
  case (Cons w ws)
  let ?n = "wp_relations p - int (length (wk_relations k))"
  obtain rs where rs: "relations_for (outof s) (into s) p w ?n (seen_ids k) = Inr rs"
    "set rs \<subseteq> pending p rels (seen_ids k) w" "distinct (map wr_id rs)" "int (length rs) \<le> ?n"
    "int (length rs) < ?n \<longrightarrow> set rs = pending p rels (seen_ids k) w"
    using relations_for_spec[OF assms(1), of ?n p w "seen_ids k"] Cons.prems(4) by auto
  obtain k' st where k': "walk_relations p w rs k = (k', st)" by (cases "walk_relations p w rs k")
  have spec: "walk_ok p rels k' \<and> (\<exists>new. wk_works k' = wk_works k @ new \<and> wk_next k' = wk_next k @ new) \<and>
    set (wk_works k') \<subseteq> set (wk_works k) \<union> adjacent p rels w \<and> set (wk_relations k) \<subseteq> set (wk_relations k') \<and>
    (\<not> st \<longrightarrow> set rs \<subseteq> set (wk_relations k') \<and> length (wk_relations k') = length (wk_relations k) + length rs)"
    by (rule walk_relations_spec[OF k' Cons.prems(1) _ rs(2,3)]) (use Cons.prems(2,3) rs(4) in auto)
  then have ext: "extends p rels (set F) k k'" using Cons.prems(2) by (auto simp: extends_def)
  show ?case
  proof (cases st)
    case True
    then show ?thesis using rs(1) k' ext by simp
  next
    case False
    show ?thesis
    proof (cases "int (length (wk_relations k')) = wp_relations p")
      case True
      then show ?thesis using rs(1) k' ext False has_unseen_spec[OF assms(1), of p "seen_ids k'" F] by auto
    next
      case less: False
      have len: "int (length (wk_relations k')) < wp_relations p" using less spec by (simp add: walk_ok_def)
      then have "set rs = pending p rels (seen_ids k) w" using rs(5) spec False by auto
      then have "pending p rels (seen_ids k') w \<subseteq> set rs" using pending_mono[of k k' p rels w] spec by blast
      moreover have "x \<notin> pending p rels (seen_ids k') w" if "x \<in> set rs" for x
        using that spec False by (auto simp: pending_def seen_ids_def)
      ultimately have "pending p rels (seen_ids k') w = {}" by blast
      moreover have "pending p rels (seen_ids k') v = {}" if "v \<in> set F - set (w # ws)" for v
        using Cons.prems(5)[OF that] pending_mono[of k k' p rels v] spec by blast
      ultimately have fin: "\<And>v. v \<in> set F - set ws \<Longrightarrow> pending p rels (seen_ids k') v = {}" by auto
      have sub: "set F \<subseteq> set (wk_works k')" "set ws \<subseteq> set F" using Cons.prems(2,3) spec by auto
      obtain res where res: "walk_frontier (outof s) (into s) p F ws k' = Inr res"
        "case res of Stopped k'' l \<Rightarrow> extends p rels (set F) k' k'' \<and> l \<noteq> LIMIT_DEPTH
         | Went k'' \<Rightarrow> extends p rels (set F) k' k'' \<and> (\<forall>w \<in> set F. pending p rels (seen_ids k'') w = {})"
        using Cons.IH[OF _ sub(2,1) len fin] spec by blast
      then show ?thesis using rs(1) k' False less extends_trans[OF ext] by (auto split: went.splits)
    qed
  qed
qed

lemma walk_depths_spec:
  assumes "holds s rels" "walk_ok p rels k" "origin \<in> set (wk_works k)"
    and "set (wk_works k) = reach_in p rels origin d" "set F \<subseteq> set (wk_works k)" "F \<noteq> []"
    and "\<And>w. w \<in> set (wk_works k) - set F \<Longrightarrow> pending p rels (seen_ids k) w = {}"
    and "int (d + n) = wp_depth p" "reached = int d"
  shows "\<exists>r. walk_depths (outof s) (into s) p origin n reached F k = Inr r \<and>
    sound_result p rels origin r \<and> complete_result p rels origin r"
  using assms(2-9)
proof (induction n arbitrary: k d F reached)
  case 0
  then have D: "nat (wp_depth p) = d" by simp
  let ?u = "\<exists>w \<in> set F. pending p rels (seen_ids k) w \<noteq> {}"
  have "complete_result p rels origin (walk_end origin k reached (if ?u then Some LIMIT_DEPTH else None))"
  proof (cases ?u)
    case True
    then show ?thesis using complete_depth[of k p rels origin reached] 0(3) D by simp
  next
    case False
    then have "\<And>w. w \<in> set (wk_works k) \<Longrightarrow> pending p rels (seen_ids k) w = {}" using 0(6) by blast
    from complete_closed[OF 0(1) ids_law[OF assms(1)] this 0(3)] D False show ?thesis by simp
  qed
  moreover have "sound_result p rels origin (walk_end origin k reached (if ?u then Some LIMIT_DEPTH else None))"
    using 0 D by (intro sound_end[of p rels k origin d]) auto
  ultimately show ?case using 0(5) has_unseen_spec[OF assms(1), of p "seen_ids k" F] by simp
next
  case (Suc n)
  have dn: "d \<le> nat (wp_depth p)" "Suc d \<le> nat (wp_depth p)" using Suc.prems(7) by linarith+
  note ids = ids_law[OF assms(1)]
  show ?case
  proof (cases "int (length (wk_relations k)) = wp_relations p")
    case True
    let ?u = "\<exists>w \<in> set F. pending p rels (seen_ids k) w \<noteq> {}"
    have "complete_result p rels origin (walk_end origin k reached (if ?u then Some LIMIT_RELATIONS else None))"
    proof (cases ?u)
      case u: True
      then show ?thesis using complete_stopped[of LIMIT_RELATIONS p rels origin k reached] by simp
    next
      case u: False
      then have "\<And>w. w \<in> set (wk_works k) \<Longrightarrow> pending p rels (seen_ids k) w = {}" using Suc.prems(6) by blast
      from complete_closed[OF Suc.prems(1) ids this Suc.prems(3) dn(1)] u show ?thesis by simp
    qed
    moreover have "sound_result p rels origin (walk_end origin k reached (if ?u then Some LIMIT_RELATIONS else None))"
      using Suc.prems dn by (intro sound_end[of p rels k origin d]) auto
    ultimately show ?thesis using True has_unseen_spec[OF assms(1), of p "seen_ids k" F] by simp
  next
    case False
    let ?k = "k\<lparr>wk_next := []\<rparr>"
    have seen: "seen_ids ?k = seen_ids k" by (simp add: seen_ids_def)
    have "int (length (wk_relations k)) < wp_relations p" using False Suc.prems(1) by (simp add: walk_ok_def)
    then obtain res where res: "walk_frontier (outof s) (into s) p F (sort_key uuid_str F) ?k = Inr res"
      "case res of Stopped k' l \<Rightarrow> extends p rels (set F) ?k k' \<and> l \<noteq> LIMIT_DEPTH
       | Went k' \<Rightarrow> extends p rels (set F) ?k k' \<and> (\<forall>w \<in> set F. pending p rels (seen_ids k') w = {})"
      using walk_frontier_spec[OF assms(1), of p ?k "sort_key uuid_str F" F] Suc.prems(1,4) by auto
    have step: "(\<Union>w \<in> set F. adjacent p rels w) \<subseteq> (\<Union>w \<in> reach_in p rels origin d. adjacent p rels w)"
      using Suc.prems(3,4) by blast
    have far: "set (wk_works k') \<subseteq> reach_in p rels origin (Suc d)" if "extends p rels (set F) ?k k'" for k'
    proof -
      have "set (wk_works k') \<subseteq> set (wk_works k) \<union> (\<Union>w \<in> set F. adjacent p rels w)"
        using that unfolding extends_def by (elim conjE) simp
      then show ?thesis using step Suc.prems(3) by auto
    qed
    have near: "set (wk_works k') \<subseteq> reach_in p rels origin (Suc d)" "origin \<in> set (wk_works k')" "walk_ok p rels k'"
        "set (wk_relations k) \<subseteq> set (wk_relations k')" "wk_works k' = wk_works k @ wk_next k'"
      if "extends p rels (set F) ?k k'" for k'
      using far[OF that] that Suc.prems(2) by (auto simp: extends_def)
    show ?thesis
    proof (cases res)
      case (Stopped k' l)
      then have e: "extends p rels (set F) ?k k'" "l \<noteq> LIMIT_DEPTH" using res(2) by auto
      have "sound_result p rels origin (walk_end origin k' reached (Some l))"
        using near[OF e(1)] Suc.prems(7,8) dn by (intro sound_end[of p rels k' origin "Suc d"]) auto
      then show ?thesis using False res(1) Stopped complete_stopped[OF e(2)] by simp
    next
      case (Went k')
      then have e: "extends p rels (set F) ?k k'" and fin: "\<forall>w \<in> set F. pending p rels (seen_ids k') w = {}"
        using res(2) by auto
      note n = near[OF e]
      have closed: "pending p rels (seen_ids k') w = {}" if "w \<in> set (wk_works k)" for w
      proof (cases "w \<in> set F")
        case False
        then show ?thesis using Suc.prems(6)[of w] that pending_mono[of k k' p rels w] n(4) by blast
      qed (use fin in blast)
      have works: "set (wk_works k') = reach_in p rels origin (Suc d)"
      proof
        show "reach_in p rels origin (Suc d) \<subseteq> set (wk_works k')"
          using pending_closed[OF n(3) ids closed] n(5) Suc.prems(3) by auto
      qed (rule n(1))
      show ?thesis
      proof (cases "wk_next k' = []")
        case True
        then have "wk_works k' = wk_works k" using n(5) by simp
        then have "complete_result p rels origin (walk_end origin k' (reached + 1) None)"
          using complete_closed[OF n(3) ids _ works dn(2)] closed by simp
        moreover have "sound_result p rels origin (walk_end origin k' (reached + 1) None)"
          using n Suc.prems(7,8) dn by (intro sound_end[of p rels k' origin "Suc d"]) auto
        ultimately show ?thesis using False res(1) Went True by simp
      next
        case more: False
        have ne: "sort_key uuid_str (wk_next k') \<noteq> []" using more by (metis length_0_conv length_sort)
        have "\<exists>r. walk_depths (outof s) (into s) p origin n (reached + 1) (sort_key uuid_str (wk_next k')) k' = Inr r \<and>
            sound_result p rels origin r \<and> complete_result p rels origin r"
          by (rule Suc.IH[OF n(3,2) works]) (use n(5) ne closed Suc.prems(7,8) in auto)
        then show ?thesis using False res(1) Went more by simp
      qed
    qed
  qed
qed

lemma traverse_spec:
  assumes "holds s rels" "mk_walk_policy p = Inr p"
  shows "\<exists>r. traverse (outof s) (into s) origin p = Inr r \<and> sound_result p rels origin r \<and> complete_result p rels origin r"
proof -
  let ?k = "\<lparr>wk_works = [origin], wk_relations = [], wk_next = []\<rparr>"
  have p: "0 \<le> wp_depth p" "1 \<le> wp_works p" "0 \<le> wp_relations p"
    using assms(2) by (auto simp: mk_walk_policy_def res_simps)
  then have ok: "walk_ok p rels ?k" by (simp add: walk_ok_def seen_ids_def)
  have "\<exists>r. walk_depths (outof s) (into s) p origin (nat (wp_depth p)) 0 [origin] ?k = Inr r \<and>
      sound_result p rels origin r \<and> complete_result p rels origin r"
    by (rule walk_depths_spec[OF assms(1) ok, where d = 0]) (use p in auto)
  moreover have "traverse (outof s) (into s) origin p = walk_depths (outof s) (into s) p origin (nat (wp_depth p)) 0 [origin] ?k"
    using p by (cases "wp_depth p = 0") (simp_all add: traverse_def Let_def)
  ultimately show ?thesis by simp
qed

end

section \<open>The JSON catalogue\<close>

abbreviation holds_relations :: "json_file \<Rightarrow> work_relation list \<Rightarrow> bool" where
  "holds_relations f rels \<equiv> (\<exists>c. holds_catalog f c \<and> ct_relations c = rels)"

interpretation citations: relation_index "list_relations_from K" "list_relations_to K" holds_relations for K
proof
  fix f rels n w ks seen
  assume "holds_relations f rels" and n: "0 \<le> (n::int)"
  then obtain c where c: "holds_catalog f c" "ct_relations c = rels" by blast
  show "list_relations_from K f w (Some ks) seen (Some n) =
      Inr (take (nat n) (sort_key work_relation_sort_key
        (filter (\<lambda>r. wr_subject r = w \<and> relation_wanted (Some ks) seen r) rels)))"
    using relations_matching_catalog[OF c(1), of "Some n" "''subject_work_id''" w wr_subject K "Some ks" seen] n c(2)
    by (simp add: list_relations_from_def relation_tests sorted_page_def)
  show "list_relations_to K f w (Some ks) seen (Some n) =
      Inr (take (nat n) (sort_key work_relation_sort_key
        (filter (\<lambda>r. wr_object r = w \<and> relation_wanted (Some ks) seen r) rels)))"
    using relations_matching_catalog[OF c(1), of "Some n" "''object_work_id''" w wr_object K "Some ks" seen] n c(2)
    by (simp add: list_relations_to_def relation_tests sorted_page_def)
next
  fix f rels assume "holds_relations f rels"
  then show "distinct (map wr_id rels)" using catalog_ids(1) by blast
qed

section \<open>Properties\<close>

text \<open>
  C29: A citation walk ends within its bounds. On every catalogue reached from an empty one, for every
  policy its constructor accepts, \<open>traverse\<close> returns, with at most the allowed number of works and of
  relations, none of them twice, only stored relations of the allowed kinds between works of the result,
  only works within the allowed distance of the origin, and a reached depth between zero and the bound.
\<close>

theorem citation_walk_bounded:
  assumes "holds_catalog f c" "mk_walk_policy p = Inr p"
  shows "\<exists>r. traverse (list_relations_from K f) (list_relations_to K f) origin p = Inr r \<and>
    sound_result p (ct_relations c) origin r"
  using citations.traverse_spec[OF _ assms(2), of f "ct_relations c" K origin] assms(1) by blast

text \<open>
  C28: A citation walk says truthfully what it left out. When it stops at its depth or not at all, its works
  are exactly those within \<open>max_depth\<close> steps of the origin, by the declarative definition of distance; and
  when it reports no limit, every stored relation of an allowed kind that a work of the result can be
  followed along is in the result.
\<close>

theorem citation_walk_complete:
  assumes "holds_catalog f c" "mk_walk_policy p = Inr p"
    and "traverse (list_relations_from K f) (list_relations_to K f) origin p = Inr r"
  shows "(wt_stopped r = None \<or> wt_stopped r = Some LIMIT_DEPTH \<longrightarrow>
      set (wt_works r) = reach_in p (ct_relations c) origin (nat (wp_depth p))) \<and>
    (wt_stopped r = None \<longrightarrow>
      (\<forall>w \<in> set (wt_works r). \<forall>x \<in> set (ct_relations c). followed p w x \<longrightarrow> x \<in> set (wt_relations r)))"
  using citations.traverse_spec[OF _ assms(2), of f "ct_relations c" K origin] assms(1,3)
  by (auto simp: complete_result_def)

section \<open>Witnesses\<close>

definition sample_policy :: walk_policy where
  "sample_policy = \<lparr>wp_depth = 1, wp_works = 10, wp_relations = 10, wp_direction = OUTBOUND, wp_kinds = [CITES]\<rparr>"

lemma sample_policy_ok: "mk_walk_policy sample_policy = Inr sample_policy"
  by (simp add: mk_walk_policy_def sample_policy_def)

lemma citation_walk_bounded_witness:
  "\<exists>f r. traverse (list_relations_from no_coercions f) (list_relations_to no_coercions f) 2 sample_policy = Inr r \<and>
    wt_root r = 2 \<and> length (wt_works r) \<le> 10"
proof -
  obtain f where f: "holds_catalog f (no_records\<lparr>ct_relations := [sample_relation]\<rparr>)"
    by (rule first_relation[OF holds_empty, where K = no_coercions]) simp
  from citation_walk_bounded[OF f sample_policy_ok, of no_coercions 2]
  obtain r where "traverse (list_relations_from no_coercions f) (list_relations_to no_coercions f) 2 sample_policy = Inr r"
      "wt_root r = 2" "length (wt_works r) \<le> 10"
    by (auto simp: sound_result_def sample_policy_def)
  then show ?thesis by blast
qed

lemma citation_walk_complete_witness:
  "\<exists>f r. traverse (list_relations_from no_coercions f) (list_relations_to no_coercions f) 2 sample_policy = Inr r \<and>
    wt_stopped r = None \<and> set (wt_works r) = {2, 3}"
proof -
  obtain f where f: "holds_catalog f (no_records\<lparr>ct_relations := [sample_relation]\<rparr>)"
    by (rule first_relation[OF holds_empty, where K = no_coercions]) simp
  then have h: "holds_relations f [sample_relation]" by force
  note law = citations.outof_law[OF h, where K = no_coercions]
  obtain r where r: "traverse (list_relations_from no_coercions f) (list_relations_to no_coercions f) 2 sample_policy = Inr r"
      "wt_stopped r = None"
    by (simp add: traverse_def sample_policy_def relations_for_def law relation_wanted_def sample_relation_def
        neighbor_def Let_def seen_ids_def walk_end_def)
  have "reach_in sample_policy [sample_relation] 2 1 = {2, 3}"
    by (auto simp: adjacent_def followed_def neighbor_def sample_policy_def sample_relation_def)
  moreover have "nat (wp_depth sample_policy) = 1" by (simp add: sample_policy_def)
  ultimately have "set (wt_works r) = {2, 3}"
    using citation_walk_complete[OF f sample_policy_ok r(1)] r(2) by simp
  then show ?thesis using r by blast
qed

end
