(* ===== verification/JsonBuckets.thy ===== *)
theory JsonBuckets imports PyCoerce begin

text \<open>
  JSON documents with several buckets of records, \<open>{name: {key: record}}\<close>, as the catalogues of works and
  of documents keep them: writing a record, what a file reads back, and the map a bucket stands for.
\<close>

text \<open>\<open>json.dumps(data, sort_keys=True)\<close>: the records of a bucket are read back in the order of their keys.\<close>

fun sort_bucket :: "json \<Rightarrow> json" where
  "sort_bucket (JObj b) = JObj (sort_key fst b)"
| "sort_bucket j = j"

definition write_buckets :: "(pystr \<times> json) list \<Rightarrow> json_file" where
  "write_buckets data = Document (JObj (map (\<lambda>(k, v). (k, sort_bucket v)) data))"

text \<open>\<open>data[name][key] = payload\<close>.\<close>

definition put_entry :: "(pystr \<times> json) list \<Rightarrow> pystr \<Rightarrow> pystr \<Rightarrow> json \<Rightarrow> (pystr \<times> json) list" where
  "put_entry data name key payload = jset data name (JObj (jset (json_bucket data name) key payload))"

text \<open>A bucket whose entries stand, by a relation, for the values of a map.\<close>

definition holds_entries :: "(json \<Rightarrow> 'a \<Rightarrow> bool) \<Rightarrow> (pystr \<times> json) list \<Rightarrow> (pystr \<Rightarrow> 'a option) \<Rightarrow> bool" where
  "holds_entries E b W \<longleftrightarrow> distinct (map fst b) \<and> (\<forall>k. rel_option E (map_of b k) (W k))"

lemma truthy_object: "is_object j \<Longrightarrow> jget j k \<noteq> None \<Longrightarrow> truthy j"
  by (cases j) auto

lemma jitem_Inr: "jitem j k = Inr v \<longleftrightarrow> jget j k = Some v"
  by (simp add: jitem_def split: option.splits)

lemma jtime_Inr: "jtime j = Inr d \<longleftrightarrow> j = JTime d"
  by (cases j) auto

lemma mapM_ok: "(\<And>x. x \<in> set xs \<Longrightarrow> f x = Inr (g x)) \<Longrightarrow> mapM f xs = Inr (map g xs)"
  by (induction xs) auto

lemma entries_get:
  assumes "holds_entries E b W"
  shows "W k = None \<Longrightarrow> map_of b k = None" "W k = Some x \<Longrightarrow> \<exists>j. map_of b k = Some j \<and> E j x"
proof -
  have r: "rel_option E (map_of b k) (W k)" using assms by (simp add: holds_entries_def)
  show "W k = None \<Longrightarrow> map_of b k = None" using r by simp
  show "W k = Some x \<Longrightarrow> \<exists>j. map_of b k = Some j \<and> E j x" using r by (cases "map_of b k") auto
qed

lemma entries_mem:
  assumes "holds_entries E b W" "(k, j) \<in> set b"
  shows "\<exists>x. W k = Some x \<and> E j x"
proof -
  have "map_of b k = Some j" using assms by (simp add: holds_entries_def)
  moreover have "rel_option E (map_of b k) (W k)" using assms(1) by (simp add: holds_entries_def)
  ultimately show ?thesis by (cases "W k") auto
qed

lemma distinct_jset: "distinct (map fst b) \<Longrightarrow> distinct (map fst (jset b k v))"
proof (induction b)
  case (Cons p b)
  obtain k' v' where "p = (k', v')" by fastforce
  moreover have "fst ` set (jset b k v) = insert k (fst ` set b)" for b
    by (induction b k v rule: jset.induct) auto
  ultimately show ?case using Cons by auto
qed simp

lemma entries_put: "holds_entries E b W \<Longrightarrow> E j x \<Longrightarrow> holds_entries E (jset b k j) (W(k \<mapsto> x))"
  by (auto simp: holds_entries_def distinct_jset)

lemma map_of_sort: "distinct (map fst b) \<Longrightarrow> map_of (sort_key fst b) = map_of b"
  by (rule map_of_eqI) (auto simp: distinct_map map_of_eq_Some_iff)

lemma entries_sort: "holds_entries E b W \<Longrightarrow> holds_entries E (sort_key fst b) W"
  by (simp add: holds_entries_def map_of_sort distinct_map)

lemma entries_empty [simp]: "holds_entries E [] Map.empty"
  by (simp add: holds_entries_def)

text \<open>The values of a map, collected from the entries of a bucket.\<close>

lemma entries_collect:
  assumes "holds_entries E b W" and "\<And>k j x. (k, j) \<in> set b \<Longrightarrow> W k = Some x \<Longrightarrow> E j x \<Longrightarrow> f (k, j) = Inr (g x)"
  shows "\<exists>xs. mapM f b = Inr (map g xs) \<and> set xs = ran W"
proof -
  let ?x = "\<lambda>(k, j :: json). the (W k)"
  have "mapM f b = Inr (map (\<lambda>e. g (?x e)) b)"
    by (rule mapM_ok) (use entries_mem[OF assms(1)] assms(2) in fastforce)
  moreover have "set (map ?x b) = ran W"
  proof (intro set_eqI iffI)
    fix x assume "x \<in> set (map ?x b)"
    then obtain k j where "(k, j) \<in> set b" "x = the (W k)" by auto
    then show "x \<in> ran W" using entries_mem[OF assms(1)] by (fastforce simp: ran_def)
  next
    fix x assume "x \<in> ran W"
    then obtain k where k: "W k = Some x" by (auto simp: ran_def)
    then obtain j where "(k, j) \<in> set b" using entries_get(2)[OF assms(1) k] map_of_SomeD by fastforce
    then show "x \<in> set (map ?x b)" using k by (auto intro!: image_eqI[of _ _ "(k, j)"])
  qed
  ultimately show ?thesis by (intro exI[of _ "map ?x b"]) (simp add: comp_def)
qed

lemma map_of_written: "map_of (map (\<lambda>(k, v). (k, sort_bucket v)) data) k = map_option sort_bucket (map_of data k)"
  by (induction data) auto

lemma bucket_written:
  "map_of data name = Some (JObj b) \<Longrightarrow>
    json_bucket (map (\<lambda>(k, v). (k, sort_bucket v)) data) name = sort_key fst (json_bucket data name)"
  by (simp add: json_bucket_def map_of_written)

lemma one_written:
  "json_is_one (map_of data key) \<Longrightarrow> json_is_one (map_of (map (\<lambda>(k, v). (k, sort_bucket v)) data) key)"
  by (auto simp: map_of_written json_is_one_def)

end
