(* ===== verification/Works.thy ===== *)
theory Works imports JsonBuckets "HOL-Library.Product_Lexorder" begin

text \<open>
  The catalogue of works: the records of \<open>domain/discovery.py\<close>, \<open>domain/models.py\<close> (\<open>Work\<close>) and
  \<open>domain/work_identity.py\<close>, and \<open>infrastructure/storage/json_work_repository.py\<close>, which keeps works,
  identifiers and source records in one JSON document and has transactions over it. A transaction works
  on the decoded document in memory and writes it once, when its body has returned. Mappings are lists
  of pairs with distinct keys; the order of their keys is not meaningful.
\<close>

section \<open>Records\<close>

record discovery_record =
  dr_provider :: pystr
  dr_provider_id :: pystr
  dr_title :: pystr
  dr_year :: "int option"
  dr_doi :: "pystr option"
  dr_abstract :: "pystr option"
  dr_landing_page :: "pystr option"
  dr_open_access :: "pystr option"
  dr_cited_by :: "int option"
  dr_external_ids :: "(pystr \<times> pystr) list"
  dr_metadata :: "(pystr \<times> json) list"

definition mk_discovery_record :: "discovery_record \<Rightarrow> exc + discovery_record" where
  "mk_discovery_record r =
    bindE (check (\<not> blank (dr_provider r) \<and> \<not> blank (dr_provider_id r))
             (ValueError ''provider and provider_id must not be blank'')) (\<lambda>_.
    bindE (check (\<not> blank (dr_title r)) (ValueError ''discovery title must not be blank'')) (\<lambda>_.
    Inr r))"

record work =
  wo_id :: uuid
  wo_title :: pystr
  wo_type :: pystr
  wo_language :: "pystr option"
  wo_external_ids :: "(pystr \<times> pystr) list"
  wo_year :: "int option"
  wo_abstract :: "pystr option"
  wo_venue :: "pystr option"
  wo_created_at :: datetime

definition mk_work :: "work \<Rightarrow> exc + work" where
  "mk_work w =
    bindE (check (\<not> blank (wo_title w)) (ValueError ''work title must not be blank'')) (\<lambda>_.
    bindE (check (case wo_year w of None \<Rightarrow> True | Some y \<Rightarrow> 0 \<le> y)
             (ValueError ''publication_year must be non-negative'')) (\<lambda>_.
    Inr w))"

record work_identifier =
  wi_id :: uuid
  wi_work :: uuid
  wi_scheme :: pystr
  wi_value :: pystr
  wi_created_at :: datetime

definition mk_work_identifier :: "work_identifier \<Rightarrow> exc + work_identifier" where
  "mk_work_identifier i =
    bindE (check (\<not> blank (wi_scheme i)) (ValueError ''identifier scheme must not be blank'')) (\<lambda>_.
    bindE (check (\<not> blank (wi_value i)) (ValueError ''identifier value must not be blank'')) (\<lambda>_.
    Inr i))"

record work_source_record =
  sr_id :: uuid
  sr_work :: uuid
  sr_record :: discovery_record
  sr_observed_at :: datetime

definition sr_provider :: "work_source_record \<Rightarrow> pystr" where
  "sr_provider s = dr_provider (sr_record s)"

definition sr_provider_id :: "work_source_record \<Rightarrow> pystr" where
  "sr_provider_id s = dr_provider_id (sr_record s)"

section \<open>Documents\<close>

abbreviation texts :: "(pystr \<times> pystr) list \<Rightarrow> json" where
  "texts kvs \<equiv> JObj (map (\<lambda>(k, v). (k, JStr v)) kvs)"

text \<open>\<open>dict(raw.get(key, {}))\<close>.\<close>

definition dict_item :: "coercions \<Rightarrow> json \<Rightarrow> pystr \<Rightarrow> exc + (pystr \<times> json) list" where
  "dict_item K raw key = as_dict K (case jget raw key of None \<Rightarrow> JObj [] | Some v \<Rightarrow> v)"

definition text_dict :: "coercions \<Rightarrow> json \<Rightarrow> pystr \<Rightarrow> exc + (pystr \<times> pystr) list" where
  "text_dict K raw key = bindE (dict_item K raw key) (mapM (\<lambda>(k, v). mapE (Pair k) (jstr v)))"

definition work_to_dict :: "work \<Rightarrow> (pystr \<times> json) list" where
  "work_to_dict w =
    [(''work_id'', JStr (uuid_str (wo_id w))),
     (''title'', JStr (wo_title w)),
     (''publication_type'', JStr (wo_type w)),
     (''language'', jopt JStr (wo_language w)),
     (''external_ids'', texts (wo_external_ids w)),
     (''publication_year'', jopt JInt (wo_year w)),
     (''abstract'', jopt JStr (wo_abstract w)),
     (''venue'', jopt JStr (wo_venue w)),
     (''created_at'', JTime (wo_created_at w))]"

definition work_from_dict :: "coercions \<Rightarrow> json \<Rightarrow> exc + work" where
  "work_from_dict K raw =
    bindE (bindE (jitem raw ''work_id'') juuid) (\<lambda>wid.
    bindE (bindE (jitem raw ''title'') jtext) (\<lambda>title.
    bindE (case jget raw ''publication_type'' of None \<Rightarrow> Inr ''unknown'' | Some v \<Rightarrow> jstr v) (\<lambda>kind.
    bindE (jopt_str (jget raw ''language'')) (\<lambda>language.
    bindE (text_dict K raw ''external_ids'') (\<lambda>ids.
    bindE (jopt_int (jget raw ''publication_year'')) (\<lambda>year.
    bindE (jopt_str (jget raw ''abstract'')) (\<lambda>abstract.
    bindE (jopt_str (jget raw ''venue'')) (\<lambda>venue.
    bindE (bindE (jitem raw ''created_at'') jtime) (\<lambda>created.
    mk_work \<lparr>wo_id = wid, wo_title = title, wo_type = kind, wo_language = language, wo_external_ids = ids,
      wo_year = year, wo_abstract = abstract, wo_venue = venue, wo_created_at = created\<rparr>)))))))))"

definition identifier_to_dict :: "work_identifier \<Rightarrow> json" where
  "identifier_to_dict i = JObj
    [(''identifier_id'', JStr (uuid_str (wi_id i))),
     (''work_id'', JStr (uuid_str (wi_work i))),
     (''scheme'', JStr (wi_scheme i)),
     (''value'', JStr (wi_value i)),
     (''created_at'', JTime (wi_created_at i))]"

definition identifier_from_dict :: "json \<Rightarrow> exc + work_identifier" where
  "identifier_from_dict raw =
    bindE (bindE (jitem raw ''identifier_id'') juuid) (\<lambda>iid.
    bindE (bindE (jitem raw ''work_id'') juuid) (\<lambda>wid.
    bindE (bindE (jitem raw ''scheme'') jtext) (\<lambda>scheme.
    bindE (bindE (jitem raw ''value'') jtext) (\<lambda>value.
    bindE (bindE (jitem raw ''created_at'') jtime) (\<lambda>created.
    mk_work_identifier \<lparr>wi_id = iid, wi_work = wid, wi_scheme = scheme, wi_value = value, wi_created_at = created\<rparr>)))))"

definition source_record_to_dict :: "work_source_record \<Rightarrow> json" where
  "source_record_to_dict s =
    (let r = sr_record s in JObj
     [(''source_record_id'', JStr (uuid_str (sr_id s))),
      (''work_id'', JStr (uuid_str (sr_work s))),
      (''observed_at'', JTime (sr_observed_at s)),
      (''record'', JObj
        [(''provider'', JStr (dr_provider r)),
         (''provider_id'', JStr (dr_provider_id r)),
         (''title'', JStr (dr_title r)),
         (''year'', jopt JInt (dr_year r)),
         (''doi'', jopt JStr (dr_doi r)),
         (''abstract'', jopt JStr (dr_abstract r)),
         (''landing_page_url'', jopt JStr (dr_landing_page r)),
         (''open_access_url'', jopt JStr (dr_open_access r)),
         (''cited_by_count'', jopt JInt (dr_cited_by r)),
         (''external_ids'', texts (dr_external_ids r)),
         (''metadata'', JObj (dr_metadata r))])])"

definition source_record_from_dict :: "coercions \<Rightarrow> json \<Rightarrow> exc + work_source_record" where
  "source_record_from_dict K raw =
    bindE (jitem raw ''record'') (\<lambda>r.
    bindE (bindE (jitem raw ''source_record_id'') juuid) (\<lambda>sid.
    bindE (bindE (jitem raw ''work_id'') juuid) (\<lambda>wid.
    bindE (bindE (jitem raw ''observed_at'') jtime) (\<lambda>observed.
    bindE (bindE (jitem r ''provider'') jtext) (\<lambda>provider.
    bindE (bindE (jitem r ''provider_id'') jtext) (\<lambda>pid.
    bindE (bindE (jitem r ''title'') jtext) (\<lambda>title.
    bindE (jopt_int (jget r ''year'')) (\<lambda>year.
    bindE (jopt_str (jget r ''doi'')) (\<lambda>doi.
    bindE (jopt_str (jget r ''abstract'')) (\<lambda>abstract.
    bindE (jopt_str (jget r ''landing_page_url'')) (\<lambda>landing.
    bindE (jopt_str (jget r ''open_access_url'')) (\<lambda>access.
    bindE (jopt_int (jget r ''cited_by_count'')) (\<lambda>cited.
    bindE (text_dict K r ''external_ids'') (\<lambda>ids.
    bindE (dict_item K r ''metadata'') (\<lambda>metadata.
    bindE (mk_discovery_record \<lparr>dr_provider = provider, dr_provider_id = pid, dr_title = title, dr_year = year,
      dr_doi = doi, dr_abstract = abstract, dr_landing_page = landing, dr_open_access = access,
      dr_cited_by = cited, dr_external_ids = ids, dr_metadata = metadata\<rparr>) (\<lambda>rec.
    Inr \<lparr>sr_id = sid, sr_work = wid, sr_record = rec, sr_observed_at = observed\<rparr>))))))))))))))))"

section \<open>The catalogue on disk\<close>

definition work_buckets :: "pystr list" where
  "work_buckets = [''works'', ''identifiers'', ''source_records'']"

definition read_works :: "json_file \<Rightarrow> exc + (pystr \<times> json) list" where
  "read_works f =
    (case f of
       Missing \<Rightarrow> Inl (RuntimeError ''unable to read Tarkka Work catalog'')
     | Malformed \<Rightarrow> Inl (RuntimeError ''unable to read Tarkka Work catalog'')
     | Document doc \<Rightarrow>
         bindE (check (is_object doc) (RuntimeError ''invalid Tarkka Work catalog: root must be an object'')) (\<lambda>_.
         bindE (check (json_is_one (jget doc ''schema_version''))
                  (RuntimeError ''unsupported Tarkka Work catalog schema version'')) (\<lambda>_.
         bindE (mapM (\<lambda>key. check (case jget doc key of None \<Rightarrow> False | Some b \<Rightarrow> is_object b)
                  (RuntimeError (''invalid Tarkka Work catalog: '' @ key @ '' must be an object''))) work_buckets) (\<lambda>_.
         Inr (entries doc)))))"

definition write_works :: "(pystr \<times> json) list \<Rightarrow> json_file" where
  "write_works data = write_buckets data"

definition empty_works :: json_file where
  "empty_works = write_works
    [(''schema_version'', JInt 1), (''works'', JObj []), (''identifiers'', JObj []), (''source_records'', JObj [])]"

definition identifier_key :: "pystr \<Rightarrow> pystr \<Rightarrow> pystr" where
  "identifier_key scheme value = lower (strip scheme) @ '':'' @ strip value"

definition source_key :: "work_source_record \<Rightarrow> pystr" where
  "source_key s = sr_provider s @ '':'' @ sr_provider_id s"

definition is_text :: "json option \<Rightarrow> bool" where
  "is_text j = (case j of Some (JStr _) \<Rightarrow> True | Some (JTime _) \<Rightarrow> True | _ \<Rightarrow> False)"

definition save_work_into :: "(pystr \<times> json) list \<Rightarrow> work \<Rightarrow> (pystr \<times> json) list" where
  "save_work_into data w =
    (let key = uuid_str (wo_id w);
         payload = (case map_of (json_bucket data ''works'') key of
           Some existing \<Rightarrow>
             (case jget existing ''created_at'' of
                Some t \<Rightarrow> if is_text (Some t) then jset (work_to_dict w) ''created_at'' t else work_to_dict w
              | None \<Rightarrow> work_to_dict w)
         | None \<Rightarrow> work_to_dict w) in
     put_entry data ''works'' key (JObj payload))"

text \<open>\<open>existing["work_id"] != str(work_id)\<close>.\<close>

definition owned_by_other :: "json \<Rightarrow> uuid \<Rightarrow> exc + bool" where
  "owned_by_other existing wid = mapE (\<lambda>v. v \<noteq> JStr (uuid_str wid)) (jitem existing ''work_id'')"

definition save_identifier_into :: "(pystr \<times> json) list \<Rightarrow> pystr \<Rightarrow> work_identifier \<Rightarrow> exc + (pystr \<times> json) list" where
  "save_identifier_into data key i =
    (case map_of (json_bucket data ''identifiers'') key of
       Some existing \<Rightarrow>
         if truthy existing then
           bindE (owned_by_other existing (wi_work i)) (\<lambda>other.
           bindE (check (\<not> other)
             (ValueError (''identifier '' @ wi_scheme i @ '':'' @ wi_value i @ '' belongs to another work''))) (\<lambda>_.
           Inr data))
         else Inr (put_entry data ''identifiers'' key (identifier_to_dict i))
     | None \<Rightarrow> Inr (put_entry data ''identifiers'' key (identifier_to_dict i)))"

definition save_source_record_into ::
  "(pystr \<times> json) list \<Rightarrow> pystr \<Rightarrow> work_source_record \<Rightarrow> exc + (pystr \<times> json) list" where
  "save_source_record_into data key s =
    bindE (case map_of (json_bucket data ''source_records'') key of
             Some existing \<Rightarrow> if truthy existing then owned_by_other existing (sr_work s) else Inr False
           | None \<Rightarrow> Inr False) (\<lambda>other.
    bindE (check (\<not> other) (ValueError (''source record '' @ key @ '' belongs to another work''))) (\<lambda>_.
    Inr (put_entry data ''source_records'' key (source_record_to_dict s))))"

section \<open>The repository\<close>

record works_repo =
  rp_file :: json_file
  rp_transaction :: "(pystr \<times> json) list option"

definition open_works :: "json_file \<Rightarrow> works_repo" where
  "open_works f = \<lparr>rp_file = (if f = Missing then empty_works else f), rp_transaction = None\<rparr>"

definition works_data :: "works_repo \<Rightarrow> exc + (pystr \<times> json) list" where
  "works_data r = (case rp_transaction r of Some data \<Rightarrow> Inr data | None \<Rightarrow> read_works (rp_file r))"

text \<open>A mutation of the data: inside a transaction in memory, else as a read and a write under the lock.\<close>

definition mutate_works ::
  "works_repo \<Rightarrow> ((pystr \<times> json) list \<Rightarrow> exc + (pystr \<times> json) list) \<Rightarrow> exc + works_repo" where
  "mutate_works r change =
    (case rp_transaction r of
       Some data \<Rightarrow> mapE (\<lambda>data'. r\<lparr>rp_transaction := Some data'\<rparr>) (change data)
     | None \<Rightarrow> bindE (read_works (rp_file r)) (\<lambda>data. mapE (\<lambda>data'. r\<lparr>rp_file := write_works data'\<rparr>) (change data)))"

definition save_work :: "works_repo \<Rightarrow> work \<Rightarrow> exc + works_repo" where
  "save_work r w = mutate_works r (\<lambda>data. Inr (save_work_into data w))"

definition get_work :: "coercions \<Rightarrow> works_repo \<Rightarrow> uuid \<Rightarrow> exc + work option" where
  "get_work K r wid =
    bindE (works_data r) (\<lambda>data.
    case map_of (json_bucket data ''works'') (uuid_str wid) of
      Some payload \<Rightarrow> if truthy payload then mapE Some (work_from_dict K payload) else Inr None
    | None \<Rightarrow> Inr None)"

definition find_work_by_identifier :: "coercions \<Rightarrow> works_repo \<Rightarrow> pystr \<Rightarrow> pystr \<Rightarrow> exc + work option" where
  "find_work_by_identifier K r scheme value =
    bindE (works_data r) (\<lambda>data.
    case map_of (json_bucket data ''identifiers'') (identifier_key scheme value) of
      Some payload \<Rightarrow>
        if truthy payload then bindE (bindE (jitem payload ''work_id'') juuid) (get_work K r) else Inr None
    | None \<Rightarrow> Inr None)"

definition save_identifier :: "works_repo \<Rightarrow> work_identifier \<Rightarrow> exc + works_repo" where
  "save_identifier r i =
    mutate_works r (\<lambda>data. save_identifier_into data (identifier_key (wi_scheme i) (wi_value i)) i)"

definition save_source_record :: "works_repo \<Rightarrow> work_source_record \<Rightarrow> exc + works_repo" where
  "save_source_record r s = mutate_works r (\<lambda>data. save_source_record_into data (source_key s) s)"

text \<open>The records of a bucket that belong to a work; an entry that is no object has no \<open>get\<close>.\<close>

definition entries_of_work :: "works_repo \<Rightarrow> pystr \<Rightarrow> uuid \<Rightarrow> (json \<Rightarrow> exc + 'a) \<Rightarrow> exc + 'a list" where
  "entries_of_work r name wid parse =
    bindE (works_data r) (\<lambda>data.
    mapE concat (mapM (\<lambda>(k, raw).
      if \<not> is_object raw then Inl (OtherError ''AttributeError'' ''object has no attribute get'')
      else if jget raw ''work_id'' = Some (JStr (uuid_str wid)) then mapE (\<lambda>x. [x]) (parse raw)
      else Inr []) (json_bucket data name)))"

definition list_identifiers :: "works_repo \<Rightarrow> uuid \<Rightarrow> exc + work_identifier list" where
  "list_identifiers r wid =
    mapE (sort_key (\<lambda>i. (wi_scheme i, wi_value i)))
      (entries_of_work r ''identifiers'' wid identifier_from_dict)"

definition list_source_records :: "coercions \<Rightarrow> works_repo \<Rightarrow> uuid \<Rightarrow> exc + work_source_record list" where
  "list_source_records K r wid =
    mapE (sort_key (\<lambda>s. (sr_provider s, sr_provider_id s)))
      (entries_of_work r ''source_records'' wid (source_record_from_dict K))"

text \<open>Entering a transaction, and leaving it: after an exception the data are dropped.\<close>

definition begin_transaction :: "works_repo \<Rightarrow> exc + works_repo" where
  "begin_transaction r =
    (case rp_transaction r of
       Some _ \<Rightarrow> Inl (RuntimeError ''nested Work repository transactions are not supported'')
     | None \<Rightarrow> mapE (\<lambda>data. r\<lparr>rp_transaction := Some data\<rparr>) (read_works (rp_file r)))"

definition commit_works :: "works_repo \<Rightarrow> works_repo" where
  "commit_works r =
    (case rp_transaction r of
       Some data \<Rightarrow> \<lparr>rp_file = write_works data, rp_transaction = None\<rparr>
     | None \<Rightarrow> r)"

section \<open>The catalogue the document stands for\<close>

record work_catalog =
  wc_works :: "pystr \<Rightarrow> work option"
  wc_ids :: "pystr \<Rightarrow> work_identifier option"
  wc_records :: "pystr \<Rightarrow> work_source_record option"

definition no_works :: work_catalog where
  "no_works = \<lparr>wc_works = Map.empty, wc_ids = Map.empty, wc_records = Map.empty\<rparr>"

text \<open>What the operations promise: a work keeps the time of its creation, an identifier and a source record
  keep their work.\<close>

definition spec_save_work :: "work_catalog \<Rightarrow> work \<Rightarrow> work_catalog" where
  "spec_save_work C w =
    (let key = uuid_str (wo_id w) in
     C\<lparr>wc_works := (wc_works C)(key \<mapsto>
       (case wc_works C key of None \<Rightarrow> w | Some old \<Rightarrow> w\<lparr>wo_created_at := wo_created_at old\<rparr>))\<rparr>)"

definition spec_find :: "work_catalog \<Rightarrow> pystr \<Rightarrow> pystr \<Rightarrow> work option" where
  "spec_find C scheme value =
    (case wc_ids C (identifier_key scheme value) of None \<Rightarrow> None | Some i \<Rightarrow> wc_works C (uuid_str (wi_work i)))"

definition spec_save_identifier :: "work_catalog \<Rightarrow> work_identifier \<Rightarrow> work_catalog option" where
  "spec_save_identifier C i =
    (let key = identifier_key (wi_scheme i) (wi_value i) in
     case wc_ids C key of
       Some old \<Rightarrow> if wi_work old = wi_work i then Some C else None
     | None \<Rightarrow> Some (C\<lparr>wc_ids := (wc_ids C)(key \<mapsto> i)\<rparr>))"

definition spec_save_record :: "work_catalog \<Rightarrow> work_source_record \<Rightarrow> work_catalog option" where
  "spec_save_record C s =
    (let key = source_key s; C' = C\<lparr>wc_records := (wc_records C)(key \<mapsto> s)\<rparr> in
     case wc_records C key of
       Some old \<Rightarrow> if sr_work old = sr_work s then Some C' else None
     | None \<Rightarrow> Some C')"

definition entry_holds :: "(json \<Rightarrow> exc + 'a) \<Rightarrow> ('a \<Rightarrow> uuid) \<Rightarrow> json \<Rightarrow> 'a \<Rightarrow> bool" where
  "entry_holds parse owner j x \<longleftrightarrow>
    is_object j \<and> parse j = Inr x \<and> jget j ''work_id'' = Some (JStr (uuid_str (owner x)))"

abbreviation bucket_holds :: "(json \<Rightarrow> exc + 'a) \<Rightarrow> ('a \<Rightarrow> uuid) \<Rightarrow> (pystr \<times> json) list \<Rightarrow> (pystr \<Rightarrow> 'a option) \<Rightarrow> bool" where
  "bucket_holds parse owner \<equiv> holds_entries (entry_holds parse owner)"

definition data_holds :: "coercions \<Rightarrow> (pystr \<times> json) list \<Rightarrow> work_catalog \<Rightarrow> bool" where
  "data_holds K data C \<longleftrightarrow> json_is_one (map_of data ''schema_version'') \<and>
    (\<forall>name \<in> set work_buckets. \<exists>b. map_of data name = Some (JObj b)) \<and>
    bucket_holds (work_from_dict K) wo_id (json_bucket data ''works'') (wc_works C) \<and>
    bucket_holds identifier_from_dict wi_work (json_bucket data ''identifiers'') (wc_ids C) \<and>
    bucket_holds (source_record_from_dict K) sr_work (json_bucket data ''source_records'') (wc_records C)"

definition works_hold :: "coercions \<Rightarrow> works_repo \<Rightarrow> work_catalog \<Rightarrow> bool" where
  "works_hold K r C \<longleftrightarrow> (\<exists>data. works_data r = Inr data \<and> data_holds K data C)"

section \<open>Records read back\<close>

lemma text_dict_texts [simp]:
  "jget raw key = Some (texts kvs) \<Longrightarrow> text_dict K raw key = Inr kvs"
proof -
  assume "jget raw key = Some (texts kvs)"
  moreover have "mapM (\<lambda>(k, v). mapE (Pair k) (jstr v)) (map (\<lambda>(k, v). (k, JStr v)) kvs) = Inr kvs"
    by (induction kvs) auto
  ultimately show ?thesis by (simp add: text_dict_def dict_item_def)
qed

lemma work_from_to_dict:
  "mk_work w = Inr w \<Longrightarrow>
    work_from_dict K (JObj (jset (work_to_dict w) ''created_at'' (JTime t))) = Inr (w\<lparr>wo_created_at := t\<rparr>)"
  by (simp add: work_from_dict_def work_to_dict_def jitem_def mk_work_def res_simps)

lemma work_from_dict_id: "mk_work w = Inr w \<Longrightarrow> work_from_dict K (JObj (work_to_dict w)) = Inr w"
  using work_from_to_dict[of w K "wo_created_at w"] by (simp add: work_to_dict_def)

lemma identifier_from_to_dict: "mk_work_identifier i = Inr i \<Longrightarrow> identifier_from_dict (identifier_to_dict i) = Inr i"
  by (cases i) (simp add: identifier_from_dict_def identifier_to_dict_def jitem_def)

lemma source_record_from_to_dict:
  "mk_discovery_record (sr_record s) = Inr (sr_record s) \<Longrightarrow> source_record_from_dict K (source_record_to_dict s) = Inr s"
  by (cases s; cases "sr_record s")
    (simp add: source_record_from_dict_def source_record_to_dict_def Let_def jitem_def dict_item_def)

lemma created_at_stored: "work_from_dict K j = Inr w \<Longrightarrow> jget j ''created_at'' = Some (JTime (wo_created_at w))"
  unfolding work_from_dict_def bindE_Inr_iff mk_work_def check_Inr_iff by (clarsimp simp: jitem_Inr jtime_Inr)

section \<open>Buckets\<close>

lemma bucket_holds_get:
  assumes "bucket_holds parse owner b W"
  shows "W k = None \<Longrightarrow> map_of b k = None"
    "W k = Some x \<Longrightarrow> \<exists>j. map_of b k = Some j \<and> truthy j \<and> entry_holds parse owner j x"
proof -
  show "W k = None \<Longrightarrow> map_of b k = None" by (rule entries_get(1)[OF assms])
  assume "W k = Some x"
  then obtain j where "map_of b k = Some j" "entry_holds parse owner j x" using entries_get(2)[OF assms] by blast
  then show "\<exists>j. map_of b k = Some j \<and> truthy j \<and> entry_holds parse owner j x"
    using truthy_object[of j "''work_id''"] by (auto simp: entry_holds_def)
qed

section \<open>Documents and their catalogue\<close>

lemma data_holds_put:
  assumes "data_holds K data C" "C' = C\<lparr>wc_works := W\<rparr>" "bucket_holds (work_from_dict K) wo_id (jset (json_bucket data ''works'') k j) W"
  shows "data_holds K (put_entry data ''works'' k j) C'"
  using assms by (auto simp: data_holds_def put_entry_def work_buckets_def json_bucket_def)

lemma data_holds_put_id:
  assumes "data_holds K data C" "C' = C\<lparr>wc_ids := W\<rparr>" "bucket_holds identifier_from_dict wi_work (jset (json_bucket data ''identifiers'') k j) W"
  shows "data_holds K (put_entry data ''identifiers'' k j) C'"
  using assms by (auto simp: data_holds_def put_entry_def work_buckets_def json_bucket_def)

lemma data_holds_put_record:
  assumes "data_holds K data C" "C' = C\<lparr>wc_records := W\<rparr>"
    and "bucket_holds (source_record_from_dict K) sr_work (jset (json_bucket data ''source_records'') k j) W"
  shows "data_holds K (put_entry data ''source_records'' k j) C'"
  using assms by (auto simp: data_holds_def put_entry_def work_buckets_def json_bucket_def)

lemma read_write_works:
  assumes "data_holds K data C"
  shows "\<exists>data'. read_works (write_works data) = Inr data' \<and> data_holds K data' C"
proof -
  let ?d = "map (\<lambda>(k, v). (k, sort_bucket v)) data"
  have one: "json_is_one (map_of ?d ''schema_version'')" using assms one_written by (auto simp: data_holds_def)
  have b: "json_bucket ?d name = sort_key fst (json_bucket data name)" if "name \<in> set work_buckets" for name
    using that assms bucket_written by (fastforce simp: data_holds_def)
  have h: "data_holds K ?d C"
    using assms one b by (auto simp: data_holds_def map_of_written work_buckets_def intro!: entries_sort)
  moreover have "read_works (write_works data) = Inr ?d"
    using h by (auto simp: read_works_def write_works_def write_buckets_def data_holds_def work_buckets_def)
  ultimately show ?thesis by blast
qed

lemma save_work_into_holds:
  assumes "data_holds K data C" "mk_work w = Inr w"
  shows "data_holds K (save_work_into data w) (spec_save_work C w)"
proof -
  let ?key = "uuid_str (wo_id w)" and ?b = "json_bucket data ''works''"
  have b: "bucket_holds (work_from_dict K) wo_id ?b (wc_works C)" using assms(1) by (simp add: data_holds_def)
  have wid: "jget (JObj (work_to_dict w)) ''work_id'' = Some (JStr ?key)"
    "jget (JObj (jset (work_to_dict w) ''created_at'' t)) ''work_id'' = Some (JStr ?key)" for t
    by (simp_all add: work_to_dict_def)
  show ?thesis
  proof (cases "wc_works C ?key")
    case None
    then have "save_work_into data w = put_entry data ''works'' ?key (JObj (work_to_dict w))"
      using bucket_holds_get(1)[OF b] by (simp add: save_work_into_def)
    moreover have "bucket_holds (work_from_dict K) wo_id (jset ?b ?key (JObj (work_to_dict w))) ((wc_works C)(?key \<mapsto> w))"
      by (rule entries_put[OF b]) (simp add: entry_holds_def work_from_dict_id[OF assms(2)] wid del: jget.simps)
    ultimately show ?thesis
      using data_holds_put[OF assms(1)] None by (simp add: spec_save_work_def)
  next
    case (Some old)
    then obtain j where j: "map_of ?b ?key = Some j" "work_from_dict K j = Inr old"
      using bucket_holds_get(2)[OF b Some] by (auto simp: entry_holds_def)
    let ?new = "JObj (jset (work_to_dict w) ''created_at'' (JTime (wo_created_at old)))"
    have "save_work_into data w = put_entry data ''works'' ?key ?new"
      using j created_at_stored[OF j(2)] by (simp add: save_work_into_def is_text_def)
    moreover have "bucket_holds (work_from_dict K) wo_id (jset ?b ?key ?new)
        ((wc_works C)(?key \<mapsto> w\<lparr>wo_created_at := wo_created_at old\<rparr>))"
      by (rule entries_put[OF b]) (simp add: entry_holds_def work_from_to_dict[OF assms(2)] wid del: jget.simps)
    ultimately show ?thesis
      using data_holds_put[OF assms(1)] Some by (simp add: spec_save_work_def)
  qed
qed

lemma save_identifier_into_holds:
  assumes "data_holds K data C" "mk_work_identifier i = Inr i" "key = identifier_key (wi_scheme i) (wi_value i)"
  shows "case spec_save_identifier C i of
      None \<Rightarrow> \<exists>m. save_identifier_into data key i = Inl (ValueError m)
    | Some C' \<Rightarrow> \<exists>data'. save_identifier_into data key i = Inr data' \<and> data_holds K data' C'"
proof -
  have b: "bucket_holds identifier_from_dict wi_work (json_bucket data ''identifiers'') (wc_ids C)"
    using assms(1) by (simp add: data_holds_def)
  show ?thesis
  proof (cases "wc_ids C key")
    case None
    have "bucket_holds identifier_from_dict wi_work
        (jset (json_bucket data ''identifiers'') key (identifier_to_dict i)) ((wc_ids C)(key \<mapsto> i))"
      by (rule entries_put[OF b]) (simp add: entry_holds_def identifier_from_to_dict assms(2), simp add: identifier_to_dict_def)
    then show ?thesis
      using data_holds_put_id[OF assms(1)] None bucket_holds_get(1)[OF b None] assms(3)
      by (simp add: save_identifier_into_def spec_save_identifier_def Let_def)
  next
    case (Some old)
    obtain j where j: "map_of (json_bucket data ''identifiers'') key = Some j" "truthy j"
        "jget j ''work_id'' = Some (JStr (uuid_str (wi_work old)))"
      using bucket_holds_get(2)[OF b Some] by (auto simp: entry_holds_def)
    then have "save_identifier_into data key i =
        bindE (check (wi_work old = wi_work i)
          (ValueError (''identifier '' @ wi_scheme i @ '':'' @ wi_value i @ '' belongs to another work''))) (\<lambda>_. Inr data)"
      by (simp add: save_identifier_into_def owned_by_other_def jitem_def uuid_str_inject)
    then show ?thesis using Some assms(1,3) by (simp add: spec_save_identifier_def Let_def)
  qed
qed

lemma save_source_record_into_holds:
  assumes "data_holds K data C" "mk_discovery_record (sr_record s) = Inr (sr_record s)" "key = source_key s"
  shows "case spec_save_record C s of
      None \<Rightarrow> \<exists>m. save_source_record_into data key s = Inl (ValueError m)
    | Some C' \<Rightarrow> \<exists>data'. save_source_record_into data key s = Inr data' \<and> data_holds K data' C'"
proof -
  have b: "bucket_holds (source_record_from_dict K) sr_work (json_bucket data ''source_records'') (wc_records C)"
    using assms(1) by (simp add: data_holds_def)
  have "bucket_holds (source_record_from_dict K) sr_work
      (jset (json_bucket data ''source_records'') key (source_record_to_dict s)) ((wc_records C)(key \<mapsto> s))"
    by (rule entries_put[OF b]) (simp add: entry_holds_def source_record_from_to_dict assms(2), simp add: source_record_to_dict_def Let_def)
  note put = data_holds_put_record[OF assms(1) refl this]
  show ?thesis
  proof (cases "wc_records C key")
    case None
    then show ?thesis using put bucket_holds_get(1)[OF b None] assms(3)
      by (simp add: save_source_record_into_def spec_save_record_def Let_def)
  next
    case (Some old)
    obtain j where j: "map_of (json_bucket data ''source_records'') key = Some j" "truthy j"
        "jget j ''work_id'' = Some (JStr (uuid_str (sr_work old)))"
      using bucket_holds_get(2)[OF b Some] by (auto simp: entry_holds_def)
    then show ?thesis using put Some assms(3)
      by (simp add: save_source_record_into_def owned_by_other_def jitem_def uuid_str_inject spec_save_record_def Let_def)
  qed
qed

text \<open>The records of a work, whatever the bucket.\<close>

lemma entries_of_work_set:
  assumes "works_data r = Inr data" "bucket_holds parse owner (json_bucket data name) W"
  shows "\<exists>xs. entries_of_work r name wid parse = Inr xs \<and> set xs = {x. \<exists>k. W k = Some x \<and> owner x = wid}"
proof -
  let ?f = "\<lambda>(k :: pystr, raw). if \<not> is_object raw then Inl (OtherError ''AttributeError'' ''object has no attribute get'')
      else if jget raw ''work_id'' = Some (JStr (uuid_str wid)) then mapE (\<lambda>x. [x]) (parse raw)
      else Inr []"
  have "?f (k, j) = Inr (if owner x = wid then [x] else [])" if "entry_holds parse owner j x" for k j x
    using that by (auto simp: entry_holds_def uuid_str_inject)
  then obtain xs where "mapM ?f (json_bucket data name) = Inr (map (\<lambda>x. if owner x = wid then [x] else []) xs)" "set xs = ran W"
    using entries_collect[OF assms(2), of ?f "\<lambda>x. if owner x = wid then [x] else []"] by blast
  then show ?thesis using assms(1) by (auto simp: entries_of_work_def ran_def)
qed

section \<open>The interface of a catalogue of works\<close>

text \<open>\<open>ports/works.py\<close>: what a service calls. A state is the repository, inside or outside a transaction.\<close>

record 's work_ops =
  op_begin :: "'s \<Rightarrow> exc + 's"
  op_commit :: "'s \<Rightarrow> 's"
  op_save_work :: "'s \<Rightarrow> work \<Rightarrow> exc + 's"
  op_get_work :: "'s \<Rightarrow> uuid \<Rightarrow> exc + work option"
  op_find_work :: "'s \<Rightarrow> pystr \<Rightarrow> pystr \<Rightarrow> exc + work option"
  op_save_identifier :: "'s \<Rightarrow> work_identifier \<Rightarrow> exc + 's"
  op_list_identifiers :: "'s \<Rightarrow> uuid \<Rightarrow> exc + work_identifier list"
  op_save_record :: "'s \<Rightarrow> work_source_record \<Rightarrow> exc + 's"

definition json_works :: "coercions \<Rightarrow> works_repo work_ops" where
  "json_works K = \<lparr>op_begin = begin_transaction, op_commit = commit_works, op_save_work = save_work,
    op_get_work = get_work K, op_find_work = find_work_by_identifier K, op_save_identifier = save_identifier,
    op_list_identifiers = list_identifiers, op_save_record = save_source_record\<rparr>"

text \<open>Every identifier belongs to a work of the catalogue, and records are kept under their own keys.\<close>

definition catalog_ok :: "work_catalog \<Rightarrow> bool" where
  "catalog_ok C \<longleftrightarrow>
    (\<forall>k w. wc_works C k = Some w \<longrightarrow> k = uuid_str (wo_id w)) \<and>
    (\<forall>k i. wc_ids C k = Some i \<longrightarrow> k = identifier_key (wi_scheme i) (wi_value i) \<and> wc_works C (uuid_str (wi_work i)) \<noteq> None)"

locale work_store =
  fixes ops :: "'s work_ops" and holds :: "'s \<Rightarrow> work_catalog \<Rightarrow> bool" and idle :: "'s \<Rightarrow> bool"
  assumes begins: "holds s C \<Longrightarrow> idle s \<Longrightarrow> \<exists>t. op_begin ops s = Inr t \<and> holds t C"
    and commits: "holds s C \<Longrightarrow> holds (op_commit ops s) C \<and> idle (op_commit ops s)"
    and finds: "holds s C \<Longrightarrow> op_find_work ops s scheme value = Inr (spec_find C scheme value)"
    and gets: "holds s C \<Longrightarrow> op_get_work ops s u = Inr (wc_works C (uuid_str u))"
    and lists: "holds s C \<Longrightarrow> \<exists>xs. op_list_identifiers ops s u = Inr xs \<and> set xs = {i. \<exists>k. wc_ids C k = Some i \<and> wi_work i = u}"
    and saves_work: "holds s C \<Longrightarrow> mk_work w = Inr w \<Longrightarrow>
      \<exists>t. op_save_work ops s w = Inr t \<and> holds t (spec_save_work C w)"
    and saves_identifier: "holds s C \<Longrightarrow> mk_work_identifier i = Inr i \<Longrightarrow>
      (case spec_save_identifier C i of
         None \<Rightarrow> \<exists>m. op_save_identifier ops s i = Inl (ValueError m)
       | Some C' \<Rightarrow> \<exists>t. op_save_identifier ops s i = Inr t \<and> holds t C')"
    and saves_record: "holds s C \<Longrightarrow> mk_discovery_record (sr_record x) = Inr (sr_record x) \<Longrightarrow>
      (case spec_save_record C x of
         None \<Rightarrow> \<exists>m. op_save_record ops s x = Inl (ValueError m)
       | Some C' \<Rightarrow> \<exists>t. op_save_record ops s x = Inr t \<and> holds t C')"

lemma mutate_holds:
  assumes "works_hold K r C" "\<And>data. data_holds K data C \<Longrightarrow> \<exists>data'. change data = Inr data' \<and> data_holds K data' C'"
  shows "\<exists>t. mutate_works r change = Inr t \<and> works_hold K t C'"
proof -
  obtain data where d: "works_data r = Inr data" "data_holds K data C" using assms(1) by (auto simp: works_hold_def)
  obtain data' where d': "change data = Inr data'" "data_holds K data' C'" using assms(2)[OF d(2)] by blast
  show ?thesis
  proof (cases "rp_transaction r")
    case None
    then show ?thesis using d(1) d'(1) read_write_works[OF d'(2)]
      by (auto simp: mutate_works_def works_data_def works_hold_def)
  next
    case (Some t)
    then show ?thesis using d(1) d' by (simp add: mutate_works_def works_data_def works_hold_def)
  qed
qed

lemma mutate_fails:
  assumes "works_hold K r C" "\<And>data. data_holds K data C \<Longrightarrow> \<exists>m. change data = Inl (ValueError m)"
  shows "\<exists>m. mutate_works r change = Inl (ValueError m)"
proof -
  obtain data where d: "works_data r = Inr data" "data_holds K data C" using assms(1) by (auto simp: works_hold_def)
  then show ?thesis using assms(2)[OF d(2)]
    by (auto simp: mutate_works_def works_data_def split: option.splits)
qed

lemma get_work_holds:
  assumes "works_hold K r C"
  shows "get_work K r u = Inr (wc_works C (uuid_str u))"
proof -
  obtain data where d: "works_data r = Inr data" "data_holds K data C" using assms by (auto simp: works_hold_def)
  have b: "bucket_holds (work_from_dict K) wo_id (json_bucket data ''works'') (wc_works C)" using d(2) by (simp add: data_holds_def)
  show ?thesis using d(1) bucket_holds_get[OF b, of "uuid_str u"]
    by (cases "wc_works C (uuid_str u)") (auto simp: get_work_def entry_holds_def)
qed

lemma find_work_holds:
  assumes "works_hold K r C"
  shows "find_work_by_identifier K r scheme value = Inr (spec_find C scheme value)"
proof -
  obtain data where d: "works_data r = Inr data" "data_holds K data C" using assms by (auto simp: works_hold_def)
  have b: "bucket_holds identifier_from_dict wi_work (json_bucket data ''identifiers'') (wc_ids C)" using d(2) by (simp add: data_holds_def)
  show ?thesis using d(1) bucket_holds_get[OF b, of "identifier_key scheme value"] get_work_holds[OF assms]
    by (cases "wc_ids C (identifier_key scheme value)")
      (auto simp: find_work_by_identifier_def spec_find_def entry_holds_def jitem_def)
qed

interpretation json_store: work_store "json_works K" "works_hold K" "\<lambda>r. rp_transaction r = None" for K
proof (unfold_locales, goal_cases)
  case (1 s C)
  then show ?case by (auto simp: json_works_def begin_transaction_def works_hold_def works_data_def)
next
  case (2 s C)
  then obtain data where "works_data s = Inr data" "data_holds K data C" by (auto simp: works_hold_def)
  then show ?case using read_write_works[of K data C] 2
    by (auto simp: json_works_def commit_works_def works_hold_def works_data_def split: option.splits)
next
  case (3 s C scheme val)
  then show ?case by (simp add: json_works_def find_work_holds)
next
  case (4 s C u)
  then show ?case by (simp add: json_works_def get_work_holds)
next
  case (5 s C u)
  then obtain data where d: "works_data s = Inr data" "data_holds K data C" by (auto simp: works_hold_def)
  have b: "bucket_holds identifier_from_dict wi_work (json_bucket data ''identifiers'') (wc_ids C)"
    using d(2) by (simp add: data_holds_def)
  show ?case using entries_of_work_set[OF d(1) b, of u] by (auto simp: json_works_def list_identifiers_def)
next
  case (6 s C w)
  then show ?case
    using mutate_holds[OF 6(1), of "\<lambda>data. Inr (save_work_into data w)"] save_work_into_holds
    by (auto simp: json_works_def save_work_def)
next
  case (7 s C i)
  let ?change = "\<lambda>data. save_identifier_into data (identifier_key (wi_scheme i) (wi_value i)) i"
  have "case spec_save_identifier C i of None \<Rightarrow> \<exists>m. ?change data = Inl (ValueError m)
      | Some C' \<Rightarrow> \<exists>data'. ?change data = Inr data' \<and> data_holds K data' C'" if "data_holds K data C" for data
    by (rule save_identifier_into_holds[OF that 7(2) refl])
  then show ?case using mutate_holds[OF 7(1), of ?change] mutate_fails[OF 7(1), of ?change]
    by (auto simp: json_works_def save_identifier_def split: option.splits)
next
  case (8 s C x)
  let ?change = "\<lambda>data. save_source_record_into data (source_key x) x"
  have "case spec_save_record C x of None \<Rightarrow> \<exists>m. ?change data = Inl (ValueError m)
      | Some C' \<Rightarrow> \<exists>data'. ?change data = Inr data' \<and> data_holds K data' C'" if "data_holds K data C" for data
    by (rule save_source_record_into_holds[OF that 8(2) refl])
  then show ?case using mutate_holds[OF 8(1), of ?change] mutate_fails[OF 8(1), of ?change]
    by (auto simp: json_works_def save_source_record_def split: option.splits)
qed

lemma open_works_holds: "f = Missing \<Longrightarrow> works_hold K (open_works f) no_works \<and> catalog_ok no_works"
proof -
  have "data_holds K [(''schema_version'', JInt 1), (''works'', JObj []), (''identifiers'', JObj []), (''source_records'', JObj [])]
      no_works"
    by (simp add: data_holds_def work_buckets_def json_is_one_def json_bucket_def holds_entries_def no_works_def)
  from read_write_works[OF this] show "f = Missing \<Longrightarrow> ?thesis"
    by (auto simp: open_works_def empty_works_def works_hold_def works_data_def catalog_ok_def no_works_def)
qed

end
