(* ===== verification/Identifiers.thy ===== *)
theory Identifiers imports HttpUri PyData begin

text \<open>
  \<open>domain/identifiers.py\<close>: the canonical forms of DOIs and arXiv identifiers. The regular expressions
  work on characters, so a text is cut into the UTF-8 sequences of its characters; \<open>\d\<close> matches the
  decimal digits of every script (Unicode 14, Python 3.11) and \<open>IGNORECASE\<close> lets four letters outside
  ASCII match a range of ASCII letters. The messages of the errors leave out the quoted value.
\<close>

section \<open>Characters\<close>

definition cont_byte :: "char \<Rightarrow> bool" where
  "cont_byte c \<longleftrightarrow> 128 \<le> code c \<and> code c < 192"

lemma length_dropWhile_Suc [termination_simp]: "length (dropWhile P s) < Suc (length s)"
  by (simp add: length_dropWhile_le le_imp_less_Suc)

fun chars_of :: "pystr \<Rightarrow> pystr list" where
  "chars_of [] = []"
| "chars_of (c # s) = (c # takeWhile cont_byte s) # chars_of (dropWhile cont_byte s)"

definition code_point :: "pystr \<Rightarrow> nat option" where
  "code_point w =
    (case map code w of
       [a] \<Rightarrow> if a < 128 then Some a else None
     | [a, b] \<Rightarrow> if 192 \<le> a \<and> a < 224 then Some ((a - 192) * 64 + (b - 128)) else None
     | [a, b, c] \<Rightarrow> if 224 \<le> a \<and> a < 240 then Some (((a - 224) * 64 + (b - 128)) * 64 + (c - 128)) else None
     | [a, b, c, d] \<Rightarrow>
         if 240 \<le> a then Some ((((a - 240) * 64 + (b - 128)) * 64 + (c - 128)) * 64 + (d - 128)) else None
     | _ \<Rightarrow> None)"

text \<open>The zeros of the 66 sets of decimal digits; each set is ten consecutive code points.\<close>

definition digit_zeros :: "nat list" where
  "digit_zeros =
    [48, 1632, 1776, 1984, 2406, 2534, 2662, 2790, 2918, 3046, 3174, 3302, 3430, 3558, 3664, 3792, 3872,
     4160, 4240, 6112, 6160, 6470, 6608, 6784, 6800, 6992, 7088, 7232, 7248, 42528, 43216, 43264, 43472,
     43504, 43600, 44016, 65296, 66720, 68912, 69734, 69872, 69942, 70096, 70384, 70736, 70864, 71248,
     71360, 71472, 71904, 72016, 72784, 73040, 73120, 92768, 92864, 93008, 120782, 120792, 120802, 120812,
     120822, 123200, 123632, 125264, 130032]"

definition is_decimal :: "pystr \<Rightarrow> bool" where
  "is_decimal w =
    (case code_point w of None \<Rightarrow> False | Some n \<Rightarrow> list_ex (\<lambda>z. z \<le> n \<and> n < z + 10) digit_zeros)"

text \<open>\<open>[a-z]\<close> under \<open>IGNORECASE\<close>: also dotted and dotless i, the long s and the Kelvin sign.\<close>

definition is_letter :: "pystr \<Rightarrow> bool" where
  "is_letter w \<longleftrightarrow>
    (case w of [c] \<Rightarrow> is_alpha c | _ \<Rightarrow> False) \<or>
    w \<in> {[CHR 0xC4, CHR 0xB0], [CHR 0xC4, CHR 0xB1], [CHR 0xC5, CHR 0xBF], [CHR 0xE2, CHR 0x84, CHR 0xAA]}"

section \<open>DOIs\<close>

definition doi_prefixes :: "pystr list" where
  "doi_prefixes = [''https://doi.org/'', ''http://doi.org/'', ''doi:'']"

definition doi_char :: "pystr \<Rightarrow> bool" where
  "doi_char w \<longleftrightarrow>
    is_letter w \<or> (case w of [c] \<Rightarrow> is_digit c \<or> c \<in> set ''-._;()/:'' | _ \<Rightarrow> False)"

definition matches_doi :: "pystr \<Rightarrow> bool" where
  "matches_doi s =
    (prefix ''10.'' s \<and>
     (let cs = chars_of (drop 3 s); registrant = takeWhile is_decimal cs in
      4 \<le> length registrant \<and> length registrant \<le> 9 \<and>
      (case dropWhile is_decimal cs of
         [] \<Rightarrow> False
       | slash # item \<Rightarrow> slash = ''/'' \<and> item \<noteq> [] \<and> list_all doi_char item)))"

lemma doi_prefix_len: "p \<in> set doi_prefixes \<Longrightarrow> 0 < length p"
  by (auto simp: doi_prefixes_def)

text \<open>The loop that removes resolver prefixes until none is left.\<close>

function strip_resolvers :: "pystr \<Rightarrow> pystr" where
  "strip_resolvers doi =
    (case find (\<lambda>p. prefix p doi) doi_prefixes of
       None \<Rightarrow> doi
     | Some p \<Rightarrow> strip_resolvers (strip (drop (length p) doi)))"
  by pat_completeness auto
termination
proof (relation "measure length", simp)
  fix doi p assume "find (\<lambda>p. prefix p doi) doi_prefixes = Some p"
  then have p: "p \<in> set doi_prefixes" "prefix p doi" using find_Some_mem by fastforce+
  then have "0 < length p" "length p \<le> length doi" using doi_prefix_len[of p] prefix_length_le[of p doi] by auto
  then show "(strip (drop (length p) doi), doi) \<in> measure length"
    using strip_len[of "drop (length p) doi"] by (simp del: length_0_conv length_greater_0_conv)
qed

declare strip_resolvers.simps [simp del]

definition normalize_doi :: "pystr \<Rightarrow> exc + pystr" where
  "normalize_doi value =
    (let doi = strip_resolvers (lower (strip value)) in
     bindE (check (doi \<noteq> []) (ValueError ''DOI must not be blank'')) (\<lambda>_.
     bindE (check (matches_doi doi) (ValueError ''invalid DOI'')) (\<lambda>_.
     Inr doi)))"

text \<open>The untrusted value is a decoded one; what is no text has no canonical form.\<close>

definition try_normalize_doi :: "json \<Rightarrow> pystr option" where
  "try_normalize_doi value =
    (case value of
       JStr s \<Rightarrow> if blank s then None else (case normalize_doi s of Inl _ \<Rightarrow> None | Inr d \<Rightarrow> Some d)
     | _ \<Rightarrow> None)"

section \<open>arXiv identifiers\<close>

definition arxiv_prefixes :: "pystr list" where
  "arxiv_prefixes =
    [''https://arxiv.org/abs/'', ''http://arxiv.org/abs/'', ''https://arxiv.org/pdf/'',
     ''http://arxiv.org/pdf/'', ''arxiv:'']"

text \<open>\<open>_ARXIV_VERSION_RE.sub("", s)\<close>: \<open>$\<close> also matches before a final line feed.\<close>

definition drop_version :: "pystr \<Rightarrow> pystr" where
  "drop_version s =
    (let cs = chars_of s; newline = [CHR 0x0A];
         (body, final) = (if cs \<noteq> [] \<and> last cs = newline then (butlast cs, newline) else (cs, []));
         front = dropWhile is_decimal (rev body) in
     (case front of
        [] \<Rightarrow> s
      | v # rest \<Rightarrow> if length front < length body \<and> v \<in> {''v'', ''V''} then concat (rev rest) @ final else s))"

definition matches_arxiv :: "pystr \<Rightarrow> bool" where
  "matches_arxiv s =
    (let cs = chars_of s in
     (let (yymm, rest) = (take 4 cs, drop 4 cs) in
       length yymm = 4 \<and> list_all is_decimal yymm \<and>
       (case rest of
          [] \<Rightarrow> False
        | dot # seq \<Rightarrow> dot = ''.'' \<and> length seq \<in> {4, 5} \<and> list_all is_decimal seq)) \<or>
     (let archive = takeWhile (\<lambda>w. w \<noteq> ''/'') cs in
       archive \<noteq> [] \<and> list_all (\<lambda>w. is_letter w \<or> w = ''.'' \<or> w = ''-'') archive \<and>
       (case dropWhile (\<lambda>w. w \<noteq> ''/'') cs of
          [] \<Rightarrow> False
        | _ # seq \<Rightarrow> length seq = 7 \<and> list_all is_decimal seq)))"

definition strip_arxiv_prefix :: "pystr \<Rightarrow> pystr" where
  "strip_arxiv_prefix s =
    (case find (\<lambda>p. prefix p (lower s)) arxiv_prefixes of
       None \<Rightarrow> s
     | Some p \<Rightarrow> strip (drop (length p) s))"

definition strip_pdf :: "pystr \<Rightarrow> pystr" where
  "strip_pdf s = (if suffix ''.pdf'' s then take (length s - 4) s else s)"

definition normalize_arxiv_id :: "pystr \<Rightarrow> exc + pystr" where
  "normalize_arxiv_id value =
    (let arxiv_id = drop_version (strip_pdf (strip_arxiv_prefix (strip value))) in
     bindE (check (arxiv_id \<noteq> [] \<and> matches_arxiv arxiv_id) (ValueError ''invalid arXiv identifier'')) (\<lambda>_.
     Inr arxiv_id))"

definition try_normalize_arxiv_id :: "json \<Rightarrow> pystr option" where
  "try_normalize_arxiv_id value =
    (case value of
       JStr s \<Rightarrow> if blank s then None else (case normalize_arxiv_id s of Inl _ \<Rightarrow> None | Inr d \<Rightarrow> Some d)
     | _ \<Rightarrow> None)"

section \<open>Texts as lists of characters\<close>

definition utf8 :: "pystr \<Rightarrow> bool" where
  "utf8 w \<longleftrightarrow> code_point w \<noteq> None \<and> list_all cont_byte (tl w)"

fun width :: "char \<Rightarrow> nat" where
  "width c = (if code c < 128 then 1 else if code c < 224 then 2 else if code c < 240 then 3 else 4)"

lemma utf8_shape:
  assumes "utf8 w"
  obtains h cs where "w = h # cs" "\<not> cont_byte h" "list_all cont_byte cs" "length w = width h"
  using assms by (auto simp: utf8_def code_point_def cont_byte_def split: list.splits if_splits)

lemma utf8_ascii [simp]: "utf8 [c] \<longleftrightarrow> code c < 128"
  by (simp add: utf8_def code_point_def)

lemma utf8_prefix:
  assumes "utf8 w" "utf8 k"
  shows "prefix w (k @ r) \<longleftrightarrow> w = k"
proof
  assume p: "prefix w (k @ r)"
  obtain h cs where w: "w = h # cs" "length w = width h" using utf8_shape[OF assms(1)] by blast
  obtain h' cs' where k: "k = h' # cs'" "length k = width h'" using utf8_shape[OF assms(2)] by blast
  have "length w = length k" using p w k by auto
  then show "w = k" using p by (auto simp: prefix_def append_eq_append_conv)
qed auto

lemma utf8_suffix:
  assumes "utf8 w" "utf8 k" "suffix w (r @ k)"
  shows "w = k"
proof -
  obtain h cs where w: "w = h # cs" "\<not> cont_byte h" "list_all cont_byte cs" using utf8_shape[OF assms(1)] by blast
  obtain h' cs' where k: "k = h' # cs'" "\<not> cont_byte h'" "list_all cont_byte cs'" using utf8_shape[OF assms(2)] by blast
  obtain q where "r @ h' # cs' = q @ h # cs" using assms(3) w k by (auto simp: suffix_def)
  then show ?thesis using w k
    by (auto simp: append_eq_append_conv2 Cons_eq_append_conv append_eq_Cons_conv)
qed

lemma chars_of_append:
  "utf8 w \<Longrightarrow> r = [] \<or> \<not> cont_byte (hd r) \<Longrightarrow> chars_of (w @ r) = w # chars_of r"
proof -
  assume a: "utf8 w" "r = [] \<or> \<not> cont_byte (hd r)"
  obtain h cs where w: "w = h # cs" "list_all cont_byte cs" using utf8_shape[OF a(1)] by blast
  have "takeWhile cont_byte (cs @ r) = cs" "dropWhile cont_byte (cs @ r) = r"
    using w(2) a(2) by (cases r; simp add: list_all_iff)+
  then show ?thesis by (simp add: w)
qed

lemma chars_of_concat: "list_all utf8 ws \<Longrightarrow> chars_of (concat ws) = ws"
proof (induction ws)
  case (Cons w ws)
  have "concat ws = [] \<or> \<not> cont_byte (hd (concat ws))"
    using Cons.prems by (cases ws) (auto elim!: utf8_shape)
  with Cons show ?case by (simp add: chars_of_append)
qed simp

lemma concat_chars_of [simp]: "concat (chars_of s) = s"
  by (induction s rule: chars_of.induct) auto

lemma chars_of_tail: "w \<in> set (chars_of s) \<Longrightarrow> list_all cont_byte (tl w)"
  by (induction s rule: chars_of.induct) (auto simp: list_all_iff dest: set_takeWhileD)

lemma ascii_chars: "is_ascii p \<Longrightarrow> list_all utf8 (map (\<lambda>c. [c]) p) \<and> concat (map (\<lambda>c. [c]) p) = p"
  by (induction p) (auto simp: is_ascii_def)

section \<open>White space and case, character by character\<close>

lemma ws_utf8: "list_all utf8 ws_codes"
  by (simp add: ws_codes_def utf8_def code_point_def cont_byte_def)

lemma strip_left_id: "\<forall>w \<in> set ws. \<not> prefix w s \<Longrightarrow> strip_left ws s = s"
proof -
  assume "\<forall>w \<in> set ws. \<not> prefix w s"
  then have "find (\<lambda>w. w \<noteq> [] \<and> prefix w s) ws = None" by (auto simp: find_None_iff)
  then show ?thesis by (subst strip_left.simps) simp
qed

lemma strip_chars:
  assumes "list_all utf8 ws" "ws \<noteq> []" "hd ws \<notin> set ws_codes" "last ws \<notin> set ws_codes"
  shows "strip (concat ws) = concat ws"
proof -
  have hd_ok: "concat ws = hd ws @ concat (tl ws)" "utf8 (hd ws)"
    using assms by (cases ws; simp)+
  have last_ok: "concat ws = concat (butlast ws) @ last ws" "utf8 (last ws)"
    using assms by (cases ws rule: rev_cases; simp)+
  have front_ok: "\<not> prefix w (concat ws)" if "w \<in> set ws_codes" for w
    using that hd_ok utf8_prefix[of w "hd ws" "concat (tl ws)"] ws_utf8 assms(3) by (auto simp: list_all_iff)
  have rear: "\<not> suffix w (concat ws)" if "w \<in> set ws_codes" for w
    using that last_ok utf8_suffix[of w "last ws" "concat (butlast ws)"] ws_utf8 assms(4)
    by (auto simp: list_all_iff)
  have "lstrip (concat ws) = concat ws" unfolding lstrip_def by (rule strip_left_id) (use front_ok in blast)
  moreover have "rstrip (concat ws) = concat ws"
    using strip_left_id[of "map rev ws_codes" "rev (concat ws)"] rear
    by (auto simp: rstrip_def suffix_to_prefix)
  ultimately show ?thesis by (simp add: strip_def)
qed

definition lower_char :: "pystr \<Rightarrow> pystr" where
  "lower_char w =
    (case w of
       [c] \<Rightarrow> [ascii_lower c]
     | _ \<Rightarrow> (case find (\<lambda>(u, l). u = w) lower_special of None \<Rightarrow> w | Some (u, l) \<Rightarrow> l))"

lemma special_utf8: "list_all (\<lambda>(u, l). utf8 u \<and> 1 < length u) lower_special"
  by (simp add: lower_special_def utf8_def code_point_def cont_byte_def upt_rec_numeral)

lemma lower_conts: "list_all cont_byte cs \<Longrightarrow> lower (cs @ t) = cs @ lower t"
proof (induction cs)
  case (Cons c cs)
  have "\<not> prefix u (c # cs @ t)" if "(u, l) \<in> set lower_special" for u l
    using that special_utf8 Cons.prems by (auto simp: list_all_iff elim!: utf8_shape)
  then have "find (\<lambda>(u, l). u \<noteq> [] \<and> prefix u (c # cs @ t)) lower_special = None"
    by (auto simp: find_None_iff)
  moreover have "\<not> code c < 128" using Cons.prems by (simp add: cont_byte_def)
  ultimately show ?case using Cons by simp
qed simp

lemma find_cong_in: "(\<And>x. x \<in> set xs \<Longrightarrow> P x = Q x) \<Longrightarrow> find P xs = find Q xs"
  by (induction xs) auto

lemma lower_utf8:
  assumes "utf8 w"
  shows "lower (w @ t) = lower_char w @ lower t"
proof -
  obtain h cs where w: "w = h # cs" "list_all cont_byte cs" "length w = width h"
    using utf8_shape[OF assms] by blast
  show ?thesis
  proof (cases "code h < 128")
    case True
    then show ?thesis using w by (simp add: lower_char_def)
  next
    case False
    have "find (\<lambda>(u, l). u \<noteq> [] \<and> prefix u (w @ t)) lower_special = find (\<lambda>(u, l). u = w) lower_special"
      by (rule find_cong_in) (use special_utf8 utf8_prefix[OF _ assms] in \<open>auto simp: list_all_iff w(1)\<close>)
    moreover have "lower_char w = (case find (\<lambda>(u, l). u = w) lower_special of None \<Rightarrow> w | Some (u, l) \<Rightarrow> l)"
      using w False by (cases cs) (auto simp: lower_char_def split: if_splits)
    ultimately show ?thesis using False w lower_conts[OF w(2)]
      by (auto split: option.splits dest!: find_Some_mem)
  qed
qed

lemma lower_concat: "list_all utf8 ws \<Longrightarrow> lower (concat ws) = concat (map lower_char ws)"
  by (induction ws) (simp_all add: lower_utf8)

text \<open>What lowering leaves no trace of.\<close>

abbreviation "dotted_i \<equiv> [CHR 0xC4, CHR 0xB0]"
abbreviation "kelvin \<equiv> [CHR 0xE2, CHR 0x84, CHR 0xAA]"

lemma special_images:
  "(u, l) \<in> set lower_special \<Longrightarrow>
    l = ''k'' \<or> l = ''i'' @ [CHR 0xCC, CHR 0x87] \<or> (\<exists>x. l = [CHR 0xC3, x] \<and> 160 \<le> code x \<and> code x < 196 \<and> \<not> is_upper x)"
  by (auto simp: lower_special_def is_upper_def simp del: upt_rec_numeral)

lemma lower_no_upper: "c \<in> set (lower s) \<Longrightarrow> \<not> is_upper c"
proof (induction s rule: lower.induct)
  case (2 d s)
  have "\<not> is_upper (ascii_lower d)" "\<not> code d < 128 \<Longrightarrow> \<not> is_upper d"
    by (auto simp: ascii_lower_def is_upper_def)
  then show ?case using 2
    by (auto split: if_splits option.splits prod.splits dest!: find_Some_mem special_images simp: is_upper_def)
qed simp

lemma lower_byte:
  assumes "lower s = b # r" "128 \<le> code b" "code b \<noteq> 0xC3"
  shows "\<exists>t. s = b # t \<and> r = lower t \<and> (\<forall>(u, l) \<in> set lower_special. \<not> prefix u s)"
proof (cases s)
  case (Cons d t)
  have neq: "b \<noteq> CHR ''k''" "b \<noteq> CHR ''i''" "b \<noteq> CHR 0xC3" using assms(2,3) by auto
  have big: "\<not> code d < 128" using assms(1,2) Cons
    by (auto simp: ascii_lower_def is_upper_def split: if_splits)
  have none: "find (\<lambda>(u, l). u \<noteq> [] \<and> prefix u s) lower_special = None"
  proof (rule ccontr)
    assume "find (\<lambda>(u, l). u \<noteq> [] \<and> prefix u s) lower_special \<noteq> None"
    then obtain u l where f: "find (\<lambda>(u, l). u \<noteq> [] \<and> prefix u s) lower_special = Some (u, l)" by fast
    then have "lower s = l @ lower (drop (length u) s)" using Cons big by simp
    moreover have "(u, l) \<in> set lower_special" using find_Some_mem[OF f] by simp
    ultimately show False using special_images assms(1) neq by fastforce
  qed
  then have "\<forall>(u, l) \<in> set lower_special. \<not> prefix u s"
    using special_utf8 by (fastforce simp: find_None_iff list_all_iff)
  moreover have "d = b \<and> r = lower t" using none assms(1) big Cons by simp
  ultimately show ?thesis using Cons by simp
qed (use assms in simp)

lemma kelvin_special: "(kelvin, ''k'') \<in> set lower_special" "(dotted_i, ''i'' @ [CHR 0xCC, CHR 0x87]) \<in> set lower_special"
  by (simp_all add: lower_special_def)

lemma lower_not_kelvin: "lower s \<noteq> kelvin @ r"
proof
  assume a: "lower s = kelvin @ r"
  obtain t where t: "s = CHR 0xE2 # t" "lower t = [CHR 0x84, CHR 0xAA] @ r"
      "\<forall>(u, l) \<in> set lower_special. \<not> prefix u s"
    using lower_byte[of s "CHR 0xE2" "[CHR 0x84, CHR 0xAA] @ r"] a by auto
  obtain t' where t': "t = CHR 0x84 # t'" "lower t' = [CHR 0xAA] @ r"
    using lower_byte[of t "CHR 0x84" "[CHR 0xAA] @ r"] t by auto
  obtain t'' where "t' = CHR 0xAA # t''"
    using lower_byte[of t' "CHR 0xAA" r] t' by auto
  then have "prefix kelvin s" using t t' by simp
  then show False using t(3) kelvin_special by blast
qed

lemma lower_not_dotted_i: "lower s \<noteq> dotted_i @ r"
proof
  assume a: "lower s = dotted_i @ r"
  obtain t where t: "s = CHR 0xC4 # t" "lower t = [CHR 0xB0] @ r" "\<forall>(u, l) \<in> set lower_special. \<not> prefix u s"
    using lower_byte[of s "CHR 0xC4" "[CHR 0xB0] @ r"] a by auto
  obtain t' where "t = CHR 0xB0 # t'"
    using lower_byte[of t "CHR 0xB0" r] t by auto
  then have "prefix dotted_i s" using t by simp
  then show False using t(3) kelvin_special by blast
qed

lemma suffix_lower:
  "suffix r (lower s) \<Longrightarrow>
    (\<exists>t. r = lower t) \<or> (\<exists>x t. r = x # lower t \<and> code x < 196) \<or> (\<exists>x t. r = CHR 0xCC # x # lower t)"
proof (induction s rule: lower.induct)
  case 1
  then show ?case by (auto intro: exI[of _ "[]"])
next
  case (2 c s)
  note step = "2.IH" "2.prems"
  show ?case
  proof (cases "r = lower (c # s)")
    case True
    then show ?thesis by blast
  next
    case neq: False
    show ?thesis
    proof (cases "code c < 128 \<or> find (\<lambda>(u, l). u \<noteq> [] \<and> prefix u (c # s)) lower_special = None")
      case True
      then have "suffix r (lower s)" using "2.prems" neq by (auto simp: suffix_Cons split: if_splits)
      then show ?thesis using True "2.IH"(1,2) by blast
    next
      case False
      then obtain u l where f: "find (\<lambda>(u, l). u \<noteq> [] \<and> prefix u (c # s)) lower_special = Some (u, l)"
        and c: "\<not> code c < 128" by auto
      let ?t = "lower (drop (length u) (c # s))"
      have l: "l = ''k'' \<or> l = ''i'' @ [CHR 0xCC, CHR 0x87] \<or> (\<exists>x. l = [CHR 0xC3, x] \<and> code x < 196)"
        using special_images find_Some_mem[OF f] by fast
      have "suffix r (l @ ?t)" "r \<noteq> l @ ?t" using "2.prems" neq f c by auto
      then have "suffix r ?t \<or> r = [CHR 0xCC, CHR 0x87] @ ?t \<or> (\<exists>x. r = x # ?t \<and> code x < 196)"
        using l by (auto simp: suffix_Cons)
      then consider "suffix r ?t" | "r = CHR 0xCC # CHR 0x87 # ?t" | x where "r = x # ?t" "code x < 196" by auto
      then show ?thesis
      proof cases
        case 1
        then show ?thesis using "2.IH"(3)[OF c f refl] by simp
      qed blast+
    qed
  qed
qed

lemma lower_no_special: "\<not> sublist kelvin (lower s)" "\<not> sublist dotted_i (lower s)"
proof -
  have k: "\<not> suffix (kelvin @ r) (lower s)" for r
  proof
    assume "suffix (kelvin @ r) (lower s)"
    then have "\<exists>t. kelvin @ r = lower t" using suffix_lower[of "kelvin @ r" s] by auto
    then show False using lower_not_kelvin by metis
  qed
  have i: "\<not> suffix (dotted_i @ r) (lower s)" for r
  proof
    assume "suffix (dotted_i @ r) (lower s)"
    then have "\<exists>t. dotted_i @ r = lower t" using suffix_lower[of "dotted_i @ r" s] by auto
    then show False using lower_not_dotted_i by metis
  qed
  show "\<not> sublist kelvin (lower s)" "\<not> sublist dotted_i (lower s)"
    using k i unfolding sublist_def suffix_def by blast+
qed

section \<open>Canonical DOIs\<close>

lemma is_decimal_utf8: "is_decimal w \<Longrightarrow> w \<in> set (chars_of s) \<Longrightarrow> utf8 w"
  using chars_of_tail by (auto simp: is_decimal_def utf8_def split: option.splits)

lemma is_letter_utf8: "is_letter w \<Longrightarrow> utf8 w"
  by (auto simp: is_letter_def is_alpha_def is_upper_def is_lower_def utf8_def code_point_def cont_byte_def
      split: list.splits)

lemma doi_char_utf8: "doi_char w \<Longrightarrow> utf8 w"
  by (cases "is_letter w") (auto simp: is_letter_utf8 doi_char_def is_digit_def split: list.splits)

lemma decimal_ascii: "is_decimal [c] \<longleftrightarrow> is_digit c"
  by (auto simp: is_decimal_def code_point_def digit_zeros_def is_digit_def)

lemma decimal_not_special: "is_decimal w \<Longrightarrow> find (\<lambda>(u, l). u = w) lower_special = None"
proof -
  have "list_all (\<lambda>(u, l). \<not> is_decimal u) lower_special"
    by (simp add: lower_special_def is_decimal_def code_point_def digit_zeros_def upt_rec_numeral)
  then show "is_decimal w \<Longrightarrow> ?thesis" by (auto simp: find_None_iff list_all_iff)
qed

lemma lower_decimal: "is_decimal w \<Longrightarrow> lower_char w = w"
  using decimal_not_special[of w]
  by (auto simp: lower_char_def decimal_ascii is_digit_def ascii_lower_def is_upper_def split: list.splits)

lemma white_no_decimal: "w \<in> set ws_codes \<Longrightarrow> \<not> is_decimal w"
proof -
  have "list_all (\<lambda>w. \<not> is_decimal w) ws_codes"
    by (simp add: ws_codes_def is_decimal_def code_point_def digit_zeros_def)
  then show "w \<in> set ws_codes \<Longrightarrow> ?thesis" by (auto simp: list_all_iff)
qed

lemma white_no_doi_char: "w \<in> set ws_codes \<Longrightarrow> \<not> doi_char w"
proof -
  have "list_all (\<lambda>w. \<not> doi_char w) ws_codes"
    by (simp add: ws_codes_def doi_char_def is_letter_def is_alpha_def is_upper_def is_lower_def is_digit_def)
  then show "w \<in> set ws_codes \<Longrightarrow> ?thesis" by (auto simp: list_all_iff)
qed

lemma matches_doi_chars:
  assumes "matches_doi s"
  obtains ds items where "s = concat ([''1'', ''0'', ''.''] @ ds @ [''/''] @ items)"
    "list_all is_decimal ds" "list_all utf8 ds" "items \<noteq> []" "list_all doi_char items"
proof -
  obtain t where s: "s = ''10.'' @ t" using assms by (auto simp: matches_doi_def prefix_def)
  let ?ds = "takeWhile is_decimal (chars_of t)"
  obtain items where r: "dropWhile is_decimal (chars_of t) = ''/'' # items" "items \<noteq> []" "list_all doi_char items"
    using assms by (auto simp: matches_doi_def s Let_def split: list.splits)
  have "chars_of t = ?ds @ ''/'' # items" using r(1) by (metis takeWhile_dropWhile_id)
  then have "t = concat (?ds @ [''/''] @ items)" by (metis append_Cons append_Nil concat_chars_of)
  moreover have "list_all is_decimal ?ds" "list_all utf8 ?ds"
    by (auto simp: list_all_iff dest: set_takeWhileD is_decimal_utf8)
  ultimately show ?thesis using that[of ?ds items] r s by simp
qed

lemma sublist_strip_left: "suffix (strip_left ws s) s"
proof (induction ws s rule: strip_left.induct)
  case (1 ws s)
  show ?case
  proof (cases "find (\<lambda>w. w \<noteq> [] \<and> prefix w s) ws")
    case None
    then show ?thesis by (subst strip_left.simps) simp
  next
    case (Some w)
    with 1 have "suffix (strip_left ws (drop (length w) s)) (drop (length w) s)" by simp
    with Some show ?thesis by (subst strip_left.simps) (simp add: suffix_drop suffix_order.trans)
  qed
qed

lemma sublist_strip: "sublist (strip s) s"
proof -
  have "sublist (rev (strip_left (map rev ws_codes) (rev t))) t" for t
    using sublist_strip_left[of "map rev ws_codes" "rev t"] by (auto simp: suffix_to_prefix)
  then show ?thesis unfolding strip_def rstrip_def lstrip_def
    using sublist_strip_left suffix_imp_sublist sublist_order.order_trans by blast
qed

lemma sublist_resolvers: "sublist (strip_resolvers doi) doi"
proof (induction doi rule: strip_resolvers.induct)
  case (1 doi)
  show ?case
  proof (cases "find (\<lambda>p. prefix p doi) doi_prefixes")
    case None
    then show ?thesis by (subst strip_resolvers.simps) simp
  next
    case (Some p)
    with 1 have "sublist (strip_resolvers (strip (drop (length p) doi))) (strip (drop (length p) doi))" by simp
    also have "sublist \<dots> (drop (length p) doi)" by (rule sublist_strip)
    also have "sublist \<dots> doi" by (simp add: suffix_drop)
    finally show ?thesis using Some by (subst strip_resolvers.simps) simp
  qed
qed

text \<open>The characters of a canonical DOI: none of them is changed by lowering.\<close>

lemma canonical_doi:
  assumes "normalize_doi v = Inr d"
  obtains ws where "d = concat ws" "list_all utf8 ws" "ws \<noteq> []" "hd ws = ''1''" "doi_char (last ws)"
    "\<forall>w \<in> set ws. lower_char w = w"
proof -
  have m: "matches_doi d" and sub: "sublist d (lower (strip v))"
    using assms sublist_resolvers by (auto simp: normalize_doi_def Let_def res_simps)
  obtain ds items where d: "d = concat ([''1'', ''0'', ''.''] @ ds @ [''/''] @ items)"
    "list_all is_decimal ds" "list_all utf8 ds" "items \<noteq> []" "list_all doi_char items"
    using matches_doi_chars[OF m] by blast
  have upper: "\<not> is_upper c" if "c \<in> set d" for c
    using that sub lower_no_upper set_mono_sublist by blast
  have whole: "sublist w d" if mem: "w \<in> set items" for w
  proof -
    obtain xs ys where "items = xs @ w # ys" using split_list[OF mem] by blast
    then have "d = (concat ([''1'', ''0'', ''.''] @ ds @ [''/''] @ xs)) @ w @ concat ys" using d(1) by simp
    then show ?thesis by (metis sublist_appendI)
  qed
  have "lower_char w = w" if "w \<in> set items" for w
  proof -
    have "w \<noteq> kelvin" "w \<noteq> dotted_i"
      using whole[OF that] sub lower_no_special sublist_order.order_trans by blast+
    moreover have "doi_char w" using that d(5) by (simp add: list_all_iff)
    moreover have "\<not> is_upper c" if "w = [c]" for c
      using upper[of c] whole[OF \<open>w \<in> set items\<close>] that set_mono_sublist by fastforce
    moreover have "lower_char [CHR 0xC4, CHR 0xB1] = [CHR 0xC4, CHR 0xB1]"
      "lower_char [CHR 0xC5, CHR 0xBF] = [CHR 0xC5, CHR 0xBF]"
      by (simp_all add: lower_char_def lower_special_def upt_rec_numeral)
    ultimately show ?thesis
      by (cases w) (auto simp: doi_char_def is_letter_def lower_char_def ascii_lower_def split: list.splits)
  qed
  then have "\<forall>w \<in> set ([''1'', ''0'', ''.''] @ ds @ [''/''] @ items). lower_char w = w"
    using d(2) lower_decimal by (auto simp: list_all_iff lower_char_def ascii_lower_def is_upper_def)
  moreover have "list_all utf8 ([''1'', ''0'', ''.''] @ ds @ [''/''] @ items)"
    using d(3,5) doi_char_utf8 by (auto simp: list_all_iff)
  ultimately show ?thesis
    using that[of "[''1'', ''0'', ''.''] @ ds @ [''/''] @ items"] d by (simp add: list_all_iff)
qed

lemma resolver_ascii: "p \<in> set doi_prefixes \<Longrightarrow> is_ascii p \<and> lower p = p \<and> p \<noteq> [] \<and> hd p \<in> set ''hd''"
  by (auto simp: doi_prefixes_def is_ascii_def ascii_lower_def is_upper_def)

text \<open>A canonical DOI behind any number of resolver prefixes.\<close>

lemma resolved_doi:
  assumes "normalize_doi v = Inr d" "set ps \<subseteq> set doi_prefixes"
  shows "strip (concat ps @ d) = concat ps @ d" "lower (concat ps @ d) = concat ps @ d"
    "strip_resolvers (concat ps @ d) = d"
proof -
  obtain ws where ws: "d = concat ws" "list_all utf8 ws" "ws \<noteq> []" "hd ws = ''1''" "doi_char (last ws)"
    "\<forall>w \<in> set ws. lower_char w = w" using canonical_doi[OF assms(1)] by blast
  have strip: "strip (concat qs @ d) = concat qs @ d" if "set qs \<subseteq> set doi_prefixes" for qs
  proof -
    let ?cs = "map (\<lambda>c. [c]) (concat qs)"
    have a: "is_ascii (concat qs)" using that resolver_ascii by (fastforce simp: is_ascii_def list_all_iff)
    have "concat qs = [] \<or> hd (concat qs) \<in> set ''hd''"
      using that resolver_ascii by (cases qs) auto
    moreover have "hd (map (\<lambda>c. [c]) x @ ws) \<notin> set ws_codes" if "x = [] \<or> hd x \<in> set ''hd''" for x
      using that ws(3,4) by (cases x) (auto simp: ws_codes_def)
    ultimately have "hd (?cs @ ws) \<notin> set ws_codes" by blast
    moreover have "last (?cs @ ws) \<notin> set ws_codes" using ws(3,5) white_no_doi_char by auto
    ultimately have "strip (concat (?cs @ ws)) = concat (?cs @ ws)"
      using ws(2,3) ascii_chars[OF a] by (intro strip_chars) auto
    then show ?thesis using ascii_chars[OF a] ws(1) by simp
  qed
  then show "strip (concat ps @ d) = concat ps @ d" using assms(2) by blast
  have d: "lower d = d" using ws(1,2,6) by (simp add: lower_concat) (metis map_idI)
  have pre: "lower (p @ s) = lower p @ lower s" if "is_ascii p" for p s
    using that by (induction p) (auto simp: is_ascii_def)
  show "lower (concat ps @ d) = concat ps @ d"
    using assms(2)
  proof (induction ps)
    case (Cons p ps)
    then show ?case using resolver_ascii[of p] pre[of p "concat ps @ d"] by simp
  qed (simp add: d)
  have none: "find (\<lambda>p. prefix p d) doi_prefixes = None"
    using ws(1,3,4) by (cases ws) (auto simp: doi_prefixes_def)
  have one: "find (\<lambda>q. prefix q (p @ s)) doi_prefixes = Some p" if "p \<in> set doi_prefixes" for p s
    using that by (auto simp: doi_prefixes_def)
  show "strip_resolvers (concat ps @ d) = d"
    using assms(2)
  proof (induction ps)
    case Nil
    then show ?case using none by (subst strip_resolvers.simps) simp
  next
    case (Cons p ps)
    then have "strip (concat ps @ d) = concat ps @ d" using strip by simp
    then show ?case using Cons one[of p "concat ps @ d"] by (subst strip_resolvers.simps) simp
  qed
qed

text \<open>C26: A DOI that \<open>normalize_doi\<close> returns is a fixed point: behind any number of resolver prefixes it is
  returned again.\<close>

theorem doi_canonical:
  assumes "normalize_doi v = Inr d" "set ps \<subseteq> set doi_prefixes"
  shows "normalize_doi (concat ps @ d) = Inr d"
proof -
  have "d \<noteq> [] \<and> matches_doi d" using assms(1) by (auto simp: normalize_doi_def Let_def res_simps)
  then show ?thesis using resolved_doi[OF assms] by (simp add: normalize_doi_def)
qed

section \<open>Canonical arXiv identifiers\<close>

text \<open>The characters of a canonical identifier, with the digits at its end.\<close>

lemma canonical_arxiv:
  assumes "matches_arxiv s"
  obtains ws ds sep where "s = concat (ws @ sep # ds)" "list_all utf8 ws" "list_all utf8 ds"
    "sep = ''.'' \<or> sep = ''/''" "ds \<noteq> []" "list_all is_decimal ds" "ws \<noteq> []"
    "\<forall>w \<in> set ws. is_decimal w \<or> is_letter w \<or> w = ''.'' \<or> w = ''-''"
proof -
  let ?cs = "chars_of s"
  have dec: "utf8 w" if "is_decimal w" "w \<in> set ?cs" for w using that by (rule is_decimal_utf8)
  have s: "s = concat ?cs" by simp
  consider (new) yymm seq where "?cs = yymm @ ''.'' # seq" "length yymm = 4" "list_all is_decimal yymm"
      "length seq \<in> {4, 5}" "list_all is_decimal seq"
    | (old) archive seq where "?cs = archive @ ''/'' # seq" "archive \<noteq> []"
      "list_all (\<lambda>w. is_letter w \<or> w = ''.'' \<or> w = ''-'') archive" "length seq = 7" "list_all is_decimal seq"
  proof -
    let ?a = "takeWhile (\<lambda>w. w \<noteq> ''/'') ?cs"
    have old: "?cs = ?a @ ''/'' # seq" if "dropWhile (\<lambda>w. w \<noteq> ''/'') ?cs = x # seq" for x seq
    proof -
      have x: "x = ''/''" and cs: "?cs = ?a @ x # seq" using that unfolding dropWhile_eq_Cons_conv by blast+
      show ?thesis by (rule cs[unfolded x])
    qed
    have new: "?cs = take 4 ?cs @ x # seq" if "drop 4 ?cs = x # seq" for x seq
      using that by (metis append_take_drop_id)
    from assms consider x seq where "drop 4 ?cs = x # seq" "x = ''.''" "length (take 4 ?cs) = 4"
        "list_all is_decimal (take 4 ?cs)" "length seq \<in> {4, 5}" "list_all is_decimal seq"
      | x seq where "dropWhile (\<lambda>w. w \<noteq> ''/'') ?cs = x # seq" "?a \<noteq> []"
        "list_all (\<lambda>w. is_letter w \<or> w = ''.'' \<or> w = ''-'') ?a" "length seq = 7" "list_all is_decimal seq"
      unfolding matches_arxiv_def Let_def prod.case by (auto split: list.splits)
    then show ?thesis
    proof cases
      case 1
      then show ?thesis using new[OF 1(1)] that(1)[of "take 4 ?cs"] by simp
    next
      case 2
      then show ?thesis using old[OF 2(1)] that(2)[of ?a] by simp
    qed
  qed
  then show ?thesis
  proof cases
    case new
    show ?thesis
      by (rule that[of yymm "''.''" seq]) (use new s dec in \<open>auto simp: list_all_iff\<close>)
  next
    case old
    show ?thesis
      by (rule that[of archive "''/''" seq])
        (use old s dec is_letter_utf8 in \<open>auto simp: list_all_iff\<close>)
  qed
qed

lemma colon_lower: "CHR '':'' \<in> set (lower s) \<Longrightarrow> CHR '':'' \<in> set s"
proof (induction s rule: lower.induct)
  case (2 c s)
  have "c = CHR '':''" if "ascii_lower c = CHR '':''"
  proof (cases "is_upper c")
    case True
    then have "code (ascii_lower c) = code c + 32" "64 < code c" by (auto simp: ascii_lower_def is_upper_def)
    then show ?thesis using that by simp
  qed (use that in \<open>simp add: ascii_lower_def\<close>)
  moreover have "CHR '':'' \<notin> set l" if "(u, l) \<in> set lower_special" for u l
    using special_images[OF that] by auto
  ultimately show ?case using 2
    by (fastforce split: if_splits option.splits prod.splits dest: find_Some_mem in_set_dropD)
qed simp

lemma arxiv_prefix_colon: "p \<in> set arxiv_prefixes \<Longrightarrow> CHR '':'' \<in> set p \<and> is_ascii p \<and> lower p = p \<and> hd p \<in> set ''ha'' \<and> p \<noteq> []"
  by (auto simp: arxiv_prefixes_def is_ascii_def ascii_lower_def is_upper_def)

lemma char_no_colon: "is_decimal w \<or> is_letter w \<or> w = ''.'' \<or> w = ''-'' \<Longrightarrow> utf8 w \<Longrightarrow> CHR '':'' \<notin> set w"
  by (elim utf8_shape)
    (auto simp: decimal_ascii is_digit_def is_letter_def is_alpha_def is_upper_def is_lower_def cont_byte_def list_all_iff)

lemma char_f_no_digit: "is_decimal w \<Longrightarrow> utf8 w \<Longrightarrow> last w \<noteq> CHR ''f''"
  by (elim utf8_shape) (auto simp: decimal_ascii is_digit_def cont_byte_def list_all_iff split: if_splits dest!: last_in_set)

lemma ascii_digits: "list_all is_digit s \<Longrightarrow> list_all is_decimal (map (\<lambda>c. [c]) s) \<and> list_all utf8 (map (\<lambda>c. [c]) s)"
  by (induction s) (auto simp: decimal_ascii is_digit_def)

text \<open>A version is dropped; the end of an identifier is not mistaken for one.\<close>

lemma drop_version_digits:
  assumes "list_all utf8 ws" "list_all utf8 ds" "list_all is_decimal ds" "ds \<noteq> []" "utf8 sep" "\<not> is_decimal sep"
  shows "drop_version (concat (ws @ sep # ds)) = (if sep \<in> {''v'', ''V''} then concat ws else concat (ws @ sep # ds))"
proof -
  let ?s = "concat (ws @ sep # ds)"
  have cs: "chars_of ?s = ws @ sep # ds" using assms by (intro chars_of_concat) auto
  have "is_decimal (last ds)" using assms(3,4) by (simp add: list_all_iff)
  then have nl: "last ds \<noteq> [CHR 0x0A]" using decimal_ascii by (auto simp: is_digit_def)
  have front: "dropWhile is_decimal (rev (ws @ sep # ds)) = sep # rev ws"
  proof -
    have "\<And>x. x \<in> set (rev ds) \<Longrightarrow> is_decimal x" using assms(3) by (simp add: list_all_iff)
    from dropWhile_append2[of "rev ds" is_decimal "sep # rev ws", OF this] show ?thesis using assms(6) by simp
  qed
  show ?thesis unfolding drop_version_def Let_def cs using assms(4) nl front by simp
qed

abbreviation version_text :: "pystr \<Rightarrow> bool" where
  "version_text s \<equiv> s = [] \<or> (\<exists>ds. ds \<noteq> [] \<and> list_all is_digit ds \<and> s = CHR ''v'' # ds)"

text \<open>The characters of an identifier behind a prefix, before a version and the suffix of a file.\<close>

lemma arxiv_spelling:
  assumes "matches_arxiv r" "p = [] \<or> p \<in> set arxiv_prefixes" "version_text version" "pdf = [] \<or> pdf = ''.pdf''"
  shows "strip (p @ r @ version @ pdf) = p @ r @ version @ pdf"
    "p = [] \<Longrightarrow> CHR '':'' \<notin> set (r @ version @ pdf)"
    "pdf = [] \<Longrightarrow> \<not> suffix ''.pdf'' (r @ version)"
    "drop_version (r @ version) = r"
proof -
  obtain ws ds sep where r: "r = concat (ws @ sep # ds)" "list_all utf8 ws" "list_all utf8 ds"
    "sep = ''.'' \<or> sep = ''/''" "ds \<noteq> []" "list_all is_decimal ds" "ws \<noteq> []"
    "\<forall>w \<in> set ws. is_decimal w \<or> is_letter w \<or> w = ''.'' \<or> w = ''-''"
    using canonical_arxiv[OF assms(1)] by blast
  let ?one = "map (\<lambda>c. [c]) :: string \<Rightarrow> string list"
  let ?core = "ws @ sep # ds"
  have p: "is_ascii p" "p = [] \<or> hd p \<in> set ''ha''"
    using assms(2) arxiv_prefix_colon by (auto simp: is_ascii_def)
  have ver: "is_ascii version" using assms(3) by (fastforce simp: is_ascii_def list_all_iff is_digit_def)
  have pdf: "is_ascii pdf" using assms(4) by (auto simp: is_ascii_def)
  note one = ascii_chars[OF p(1)] ascii_chars[OF ver] ascii_chars[OF pdf]
  have core: "list_all utf8 ?core" using r by auto
  have tail: "last (?one p @ ?core @ ?one version @ ?one pdf) \<notin> set ws_codes"
  proof -
    have "is_decimal (last ds)" using r(5,6) by (simp add: list_all_iff)
    moreover have "is_decimal [last version]" if "version \<noteq> []"
      using that assms(3) decimal_ascii by (auto simp: list_all_iff)
    moreover have "''f'' \<notin> set ws_codes" by (simp add: ws_codes_def)
    ultimately show ?thesis using white_no_decimal r(5) assms(4)
      by (cases "version = []") (auto simp: last_map)
  qed
  have front: "hd (?one p @ ?core @ ?one version @ ?one pdf) \<notin> set ws_codes"
  proof (cases p)
    case Nil
    have "w \<notin> set ws_codes" if "is_letter w \<or> w = ''.'' \<or> w = ''-''" for w
      using that white_no_doi_char[of w] by (auto simp: doi_char_def)
    then show ?thesis using Nil r(7,8) white_no_decimal by (cases ws) auto
  next
    case (Cons c p')
    then show ?thesis using p(2) by (auto simp: ws_codes_def)
  qed
  have "strip (concat (?one p @ ?core @ ?one version @ ?one pdf)) = concat (?one p @ ?core @ ?one version @ ?one pdf)"
    using one core front tail by (intro strip_chars) auto
  then show "strip (p @ r @ version @ pdf) = p @ r @ version @ pdf" using one r(1) by simp
  show "CHR '':'' \<notin> set (r @ version @ pdf)"
  proof -
    have "CHR '':'' \<notin> set w" if "w \<in> set ?core" for w
      using that r char_no_colon core by (fastforce simp: list_all_iff)
    moreover have "CHR '':'' \<notin> set (version @ pdf)"
      using assms(3,4) by (fastforce simp: list_all_iff is_digit_def)
    ultimately show ?thesis using r(1) by auto
  qed
  show "\<not> suffix ''.pdf'' (r @ version)"
  proof
    assume "suffix ''.pdf'' (r @ version)"
    then have f: "last (r @ version) = CHR ''f''" by (auto simp: suffix_def)
    show False
    proof (cases "version = []")
      case True
      obtain ds' d where d: "ds = ds' @ [d]" using r(5) by (cases ds rule: rev_cases) auto
      have dec: "is_decimal d" "utf8 d" using r(3,6) d by (simp_all add: list_all_iff)
      then have "d \<noteq> []" by (auto elim!: utf8_shape)
      then have "last r = last d" using r(1) d by simp
      then show False using f True char_f_no_digit[OF dec] by simp
    next
      case False
      then show False using f assms(3) by (fastforce simp: list_all_iff is_digit_def dest!: last_in_set split: if_splits)
    qed
  qed
  show "drop_version (r @ version) = r"
  proof (cases "version = []")
    case True
    then show ?thesis using drop_version_digits[of ws ds sep] r by (auto simp: decimal_ascii is_digit_def)
  next
    case False
    then obtain vs where vs: "vs \<noteq> []" "list_all is_digit vs" "version = CHR ''v'' # vs" using assms(3) by auto
    have "drop_version (concat (?core @ ''v'' # ?one vs)) = concat ?core"
      using drop_version_digits[of ?core "?one vs" "''v''"] core ascii_digits[OF vs(2)] vs(1)
      by (simp add: decimal_ascii is_digit_def)
    then show ?thesis using vs r(1) by simp
  qed
qed

lemma find_incomparable:
  assumes "list_all (\<lambda>p. list_all (\<lambda>q. p = q \<or> \<not> prefix p q) ps) ps" "p \<in> set ps"
  shows "find (\<lambda>q. prefix q (p @ s)) ps = Some p"
proof -
  have "find (\<lambda>q. prefix q (p @ s)) ps = find (\<lambda>q. q = p) ps"
  proof (rule find_cong_in)
    fix q assume q: "q \<in> set ps"
    have same: "a = b" if "a \<in> set ps" "b \<in> set ps" "prefix a b" for a b
      using assms(1) that by (auto simp: list_all_iff)
    have "prefix q p \<or> prefix p q" if "prefix q (p @ s)"
      using that prefix_same_cases[of q "p @ s" p] by simp
    then have "q = p" if "prefix q (p @ s)" using same[OF q assms(2)] same[OF assms(2) q] that by blast
    then show "prefix q (p @ s) = (q = p)" by auto
  qed
  also have "\<dots> = Some p" using assms(2) by (induction ps) auto
  finally show ?thesis .
qed

lemma arxiv_incomparable: "list_all (\<lambda>p. list_all (\<lambda>q. p = q \<or> \<not> prefix p q) arxiv_prefixes) arxiv_prefixes"
  by (simp add: arxiv_prefixes_def)

lemma arxiv_prefix_removed:
  assumes "p = [] \<or> p \<in> set arxiv_prefixes" "strip r = r" "p = [] \<Longrightarrow> CHR '':'' \<notin> set r"
  shows "strip_arxiv_prefix (p @ r) = r"
proof (cases "p = []")
  case True
  have "\<not> prefix q (lower r)" if "q \<in> set arxiv_prefixes" for q
    using arxiv_prefix_colon[OF that] assms(3)[OF True] colon_lower set_mono_prefix by blast
  then have "find (\<lambda>q. prefix q (lower r)) arxiv_prefixes = None" by (auto simp: find_None_iff)
  then show ?thesis using True by (simp add: strip_arxiv_prefix_def)
next
  case False
  then have p: "p \<in> set arxiv_prefixes" using assms(1) by simp
  have pre: "is_ascii q \<Longrightarrow> lower (q @ s) = lower q @ lower s" for q s
    by (induction q) (auto simp: is_ascii_def)
  have "lower (p @ r) = p @ lower r" using pre[of p r] arxiv_prefix_colon[OF p] by simp
  moreover have "find (\<lambda>q. prefix q (p @ s)) arxiv_prefixes = Some p" for s
    using find_incomparable[OF arxiv_incomparable p] by simp
  ultimately show ?thesis using assms(2) by (simp add: strip_arxiv_prefix_def)
qed

text \<open>C27: An arXiv identifier that \<open>normalize_arxiv_id\<close> returns has no version: it is returned again for
  each of its spellings, behind any prefix, with any version and with or without the suffix of the file.\<close>

theorem arxiv_canonical:
  assumes "normalize_arxiv_id v = Inr r" "p = [] \<or> p \<in> set arxiv_prefixes"
    and "version = [] \<or> (\<exists>ds. ds \<noteq> [] \<and> list_all is_digit ds \<and> version = CHR ''v'' # ds)"
    and "pdf = [] \<or> pdf = ''.pdf''"
  shows "normalize_arxiv_id (p @ r @ version @ pdf) = Inr r"
proof -
  have r: "matches_arxiv r" "r \<noteq> []" using assms(1) by (auto simp: normalize_arxiv_id_def Let_def res_simps)
  note full = arxiv_spelling[OF r(1) assms(2-4)]
  have "strip (r @ version @ pdf) = r @ version @ pdf"
    using arxiv_spelling(1)[OF r(1) _ assms(3,4), of "[]"] by simp
  then have "strip_arxiv_prefix (p @ r @ version @ pdf) = r @ version @ pdf"
    using arxiv_prefix_removed[OF assms(2)] full(2) by blast
  moreover have "strip_pdf (r @ version @ pdf) = r @ version"
    using assms(4) full(3) by (auto simp: strip_pdf_def suffix_def)
  ultimately show ?thesis using r full(1,4) by (simp add: normalize_arxiv_id_def)
qed

section \<open>Concrete identifiers\<close>

lemmas char_tests = cont_byte_def code_point_def is_decimal_def digit_zeros_def is_letter_def is_alpha_def
  is_upper_def is_lower_def is_digit_def doi_char_def

lemma sample_strip: "strip '' DOI:10.1234/Ab.c '' = ''DOI:10.1234/Ab.c''" "strip ''10.1234/ab.c'' = ''10.1234/ab.c''"
  "strip ''arXiv:2101.00001v2'' = ''arXiv:2101.00001v2''" "strip ''2101.00001v2'' = ''2101.00001v2''"
  by code_simp+

lemma sample_lower: "lower ''DOI:10.1234/Ab.c'' = ''doi:10.1234/ab.c''" "lower ''arXiv:2101.00001v2'' = ''arxiv:2101.00001v2''"
  "lower ''10.1234/ab.c'' = ''10.1234/ab.c''"
  by code_simp+

lemma sample_doi: "normalize_doi '' DOI:10.1234/Ab.c '' = Inr ''10.1234/ab.c''"
proof -
  have "strip_resolvers ''10.1234/ab.c'' = ''10.1234/ab.c''"
    by (subst strip_resolvers.simps) (simp add: doi_prefixes_def)
  then have "strip_resolvers ''doi:10.1234/ab.c'' = ''10.1234/ab.c''"
    by (subst strip_resolvers.simps) (simp add: doi_prefixes_def sample_strip)
  moreover have "matches_doi ''10.1234/ab.c''"
    by (simp add: matches_doi_def Let_def char_tests)
  ultimately show ?thesis
    by (simp add: normalize_doi_def sample_strip sample_lower del: lower.simps)
qed

lemma sample_canonical_doi: "normalize_doi ''10.1234/ab.c'' = Inr ''10.1234/ab.c''"
proof -
  have "strip_resolvers ''10.1234/ab.c'' = ''10.1234/ab.c''"
    by (subst strip_resolvers.simps) (simp add: doi_prefixes_def)
  moreover have "matches_doi ''10.1234/ab.c''"
    by (simp add: matches_doi_def Let_def char_tests)
  ultimately show ?thesis
    by (simp add: normalize_doi_def sample_strip sample_lower del: lower.simps)
qed

theorem doi_canonical_witness:
  "normalize_doi ''https://doi.org/doi:10.1234/ab.c'' = Inr ''10.1234/ab.c''"
  using doi_canonical[OF sample_doi, of "[''https://doi.org/'', ''doi:'']"] by (simp add: doi_prefixes_def)

lemma sample_arxiv: "normalize_arxiv_id ''arXiv:2101.00001v2'' = Inr ''2101.00001''"
proof -
  have "strip_arxiv_prefix ''arXiv:2101.00001v2'' = ''2101.00001v2''"
    by (simp add: strip_arxiv_prefix_def arxiv_prefixes_def sample_lower sample_strip del: lower.simps)
  moreover have "strip_pdf ''2101.00001v2'' = ''2101.00001v2''" by (simp add: strip_pdf_def suffix_def)
  moreover have "drop_version ''2101.00001v2'' = ''2101.00001''" "matches_arxiv ''2101.00001''"
    by (simp_all add: drop_version_def matches_arxiv_def Let_def char_tests)
  ultimately show ?thesis by (simp add: normalize_arxiv_id_def sample_strip)
qed

theorem arxiv_canonical_witness:
  "normalize_arxiv_id ''https://arxiv.org/pdf/2101.00001v12.pdf'' = Inr ''2101.00001''"
  using arxiv_canonical[OF sample_arxiv, of "''https://arxiv.org/pdf/''" "''v12''" "''.pdf''"]
  by (simp add: arxiv_prefixes_def is_digit_def)

end
