(* ===== verification/WorkCatalog.thy ===== *)
theory WorkCatalog imports Works Identifiers "HOL-Library.AList" begin

text \<open>
  \<open>application/identity.py\<close> and \<open>application/works.py\<close>: discovery records are grouped by their canonical
  DOI, and a group becomes a work of the catalogue, found again by any of its identifiers. The
  services run over any repository with the interface \<open>work_ops\<close>. Random identifiers and the clock are
  two streams; a state carries the repository and the position in them. What \<open>uuid4\<close> and the clock gave to
  a batch that failed is not used again.
\<close>

section \<open>Grouping\<close>

record work_candidate =
  ca_key :: pystr
  ca_title :: pystr
  ca_year :: "int option"
  ca_doi :: "pystr option"
  ca_records :: "discovery_record list"
  ca_external_ids :: "(pystr \<times> pystr) list"

definition doi_of :: "pystr option \<Rightarrow> pystr option" where
  "doi_of doi = try_normalize_doi (jopt JStr doi)"

definition canonical_key :: "discovery_record \<Rightarrow> pystr" where
  "canonical_key r =
    (case doi_of (dr_doi r) of
       Some doi \<Rightarrow> ''doi:'' @ doi
     | None \<Rightarrow> ''provider:'' @ dr_provider r @ '':'' @ dr_provider_id r)"

fun add_to_group :: "(pystr \<times> 'a list) list \<Rightarrow> pystr \<Rightarrow> 'a \<Rightarrow> (pystr \<times> 'a list) list" where
  "add_to_group [] k r = [(k, [r])]"
| "add_to_group ((k', rs) # gs) k r = (if k' = k then (k', rs @ [r]) # gs else (k', rs) # add_to_group gs k r)"

definition group_records :: "discovery_record list \<Rightarrow> (pystr \<times> discovery_record list) list" where
  "group_records rs = foldl (\<lambda>gs r. add_to_group gs (canonical_key r) r) [] rs"

text \<open>\<open>max\<close> with a key keeps the first of the greatest.\<close>

definition preference :: "discovery_record \<Rightarrow> nat \<times> nat \<times> nat \<times> nat" where
  "preference r =
    (of_bool (dr_abstract r \<noteq> None), of_bool (dr_open_access r \<noteq> None), of_bool (dr_cited_by r \<noteq> None),
     of_bool (dr_year r \<noteq> None))"

fun preferred :: "discovery_record list \<Rightarrow> exc + discovery_record" where
  "preferred [] = Inl (ValueError ''max() arg is an empty sequence'')"
| "preferred (r # rs) = Inr (foldl (\<lambda>best x. if preference best < preference x then x else best) r rs)"

definition candidate_of :: "pystr \<Rightarrow> discovery_record list \<Rightarrow> exc + work_candidate" where
  "candidate_of key rs =
    bindE (preferred rs) (\<lambda>best.
    Inr \<lparr>ca_key = key, ca_title = dr_title best, ca_year = dr_year best, ca_doi = doi_of (dr_doi best),
      ca_records = rs,
      ca_external_ids = foldl (\<lambda>ids r.
        AList.update (dr_provider r) (dr_provider_id r) (foldl (\<lambda>d (k, v). AList.update k v d) ids (dr_external_ids r))) [] rs\<rparr>)"

definition resolve_identities :: "discovery_record list \<Rightarrow> exc + work_candidate list" where
  "resolve_identities rs = mapM (\<lambda>(key, group). candidate_of key group) (group_records rs)"

section \<open>Aliases\<close>

definition normalized_alias_value :: "pystr \<Rightarrow> pystr \<Rightarrow> pystr option" where
  "normalized_alias_value scheme value =
    (let stripped = strip value in
     if stripped = [] then None
     else if scheme = ''doi'' then try_normalize_doi (JStr stripped)
     else if scheme = ''arxiv'' then try_normalize_arxiv_id (JStr stripped)
     else Some stripped)"

definition alias_of :: "pystr \<Rightarrow> pystr \<Rightarrow> (pystr \<times> pystr) list" where
  "alias_of scheme raw_value =
    (case normalized_alias_value scheme raw_value of
       None \<Rightarrow> []
     | Some value \<Rightarrow> if value = [] then [] else [(scheme, value)])"

definition record_aliases :: "discovery_record \<Rightarrow> (pystr \<times> pystr) list" where
  "record_aliases r =
    uniq (alias_of (lower (strip (dr_provider r))) (dr_provider_id r) @
      concat (map (\<lambda>(raw_scheme, raw_value).
        let scheme = lower (strip raw_scheme) in if scheme = [] then [] else alias_of scheme raw_value) (dr_external_ids r)))"

definition candidate_aliases :: "work_candidate \<Rightarrow> (pystr \<times> pystr) list" where
  "candidate_aliases c =
    uniq ((case ca_doi c of
             None \<Rightarrow> []
           | Some d \<Rightarrow> if d = [] then [] else (case doi_of (Some d) of None \<Rightarrow> [] | Some doi \<Rightarrow> [(''doi'', doi)])) @
      concat (map record_aliases (ca_records c)))"

section \<open>Metadata\<close>

definition or_text :: "pystr option \<Rightarrow> pystr option \<Rightarrow> pystr option" where
  "or_text a b = (if a = None \<or> a = Some [] then b else a)"

definition or_year :: "int option \<Rightarrow> int option \<Rightarrow> int option" where
  "or_year a b = (if a = None \<or> a = Some 0 then b else a)"

fun first_abstract :: "discovery_record list \<Rightarrow> pystr option" where
  "first_abstract [] = None"
| "first_abstract (r # rs) = or_text (dr_abstract r) (first_abstract rs)"

fun first_metadata_str :: "discovery_record list \<Rightarrow> pystr \<Rightarrow> pystr option" where
  "first_metadata_str [] key = None"
| "first_metadata_str (r # rs) key =
    (case map_of (dr_metadata r) key of
       Some (JStr s) \<Rightarrow> if blank s then first_metadata_str rs key else Some s
     | _ \<Rightarrow> first_metadata_str rs key)"

definition or_unknown :: "pystr option \<Rightarrow> pystr" where
  "or_unknown a = (case a of None \<Rightarrow> ''unknown'' | Some s \<Rightarrow> if s = [] then ''unknown'' else s)"

definition fill_missing_work_metadata :: "work \<Rightarrow> discovery_record list \<Rightarrow> int option \<Rightarrow> exc + work" where
  "fill_missing_work_metadata w rs year =
    mk_work (w\<lparr>wo_type := or_unknown (if wo_type w = ''unknown'' then first_metadata_str rs ''publication_type'' else Some (wo_type w)),
      wo_year := or_year (wo_year w) year,
      wo_abstract := or_text (wo_abstract w) (first_abstract rs),
      wo_venue := or_text (wo_venue w) (first_metadata_str rs ''venue'')\<rparr>)"

definition metadata_text :: "discovery_record \<Rightarrow> pystr \<Rightarrow> pystr option" where
  "metadata_text r key = (case map_of (dr_metadata r) key of Some (JStr s) \<Rightarrow> Some s | _ \<Rightarrow> None)"

definition fill_missing_from_record :: "work \<Rightarrow> discovery_record \<Rightarrow> exc + work" where
  "fill_missing_from_record w r =
    mk_work (w\<lparr>
      wo_type := (case metadata_text r ''publication_type'' of
                    Some t \<Rightarrow> if wo_type w = ''unknown'' then t else wo_type w
                  | None \<Rightarrow> wo_type w),
      wo_year := or_year (wo_year w) (dr_year r),
      wo_abstract := or_text (wo_abstract w) (dr_abstract r),
      wo_venue := or_text (wo_venue w) (metadata_text r ''venue'')\<rparr>)"

section \<open>The service\<close>

record supplies =
  su_ids :: "nat \<Rightarrow> uuid"
  su_now :: "nat \<Rightarrow> datetime"

type_synonym 's works_state = "'s \<times> nat"

definition identity_conflict :: "pystr \<Rightarrow> exc" where
  "identity_conflict message = OtherError ''WorkIdentityConflictError'' message"

definition new_identifier :: "supplies \<Rightarrow> nat \<Rightarrow> uuid \<Rightarrow> pystr \<times> pystr \<Rightarrow> work_identifier" where
  "new_identifier S n wid = (\<lambda>(scheme, value).
    \<lparr>wi_id = uuid5 NAMESPACE_URL (''tarkka:work-id:'' @ uuid_str wid @ '':'' @ scheme @ '':'' @ value),
     wi_work = wid, wi_scheme = scheme, wi_value = value, wi_created_at = su_now S n\<rparr>)"

fun save_aliases :: "'s work_ops \<Rightarrow> supplies \<Rightarrow> 's works_state \<Rightarrow> uuid \<Rightarrow> (pystr \<times> pystr) list \<Rightarrow> exc + 's works_state" where
  "save_aliases ops S st wid [] = Inr st"
| "save_aliases ops S (s, n) wid (a # aliases) =
    bindE (op_find_work ops s (fst a) (snd a)) (\<lambda>existing.
    bindE (check (case existing of None \<Rightarrow> True | Some w \<Rightarrow> wo_id w = wid)
             (identity_conflict (''identifier '' @ fst a @ '':'' @ snd a @ '' already belongs to another work''))) (\<lambda>_.
    bindE (mk_work_identifier (new_identifier S n wid a)) (\<lambda>i.
    bindE (op_save_identifier ops s i) (\<lambda>s'.
    save_aliases ops S (s', Suc n) wid aliases))))"

definition new_source_record :: "supplies \<Rightarrow> nat \<Rightarrow> uuid \<Rightarrow> discovery_record \<Rightarrow> work_source_record" where
  "new_source_record S n wid r =
    \<lparr>sr_id = uuid5 NAMESPACE_URL
       (''tarkka:source-record:'' @ uuid_str wid @ '':'' @ dr_provider r @ '':'' @ dr_provider_id r),
     sr_work = wid, sr_record = r, sr_observed_at = su_now S n\<rparr>"

fun save_records :: "'s work_ops \<Rightarrow> supplies \<Rightarrow> 's works_state \<Rightarrow> uuid \<Rightarrow> discovery_record list \<Rightarrow> exc + 's works_state" where
  "save_records ops S st wid [] = Inr st"
| "save_records ops S (s, n) wid (r # rs) =
    bindE (op_save_record ops s (new_source_record S n wid r)) (\<lambda>s'.
    save_records ops S (s', Suc n) wid rs)"

text \<open>The dictionary of the works the aliases resolve to.\<close>

fun match_aliases :: "'s work_ops \<Rightarrow> 's \<Rightarrow> (pystr \<times> pystr) list \<Rightarrow> (uuid \<times> work) list \<Rightarrow> exc + (uuid \<times> work) list" where
  "match_aliases ops s [] matched = Inr matched"
| "match_aliases ops s (a # aliases) matched =
    bindE (op_find_work ops s (fst a) (snd a)) (\<lambda>existing.
    match_aliases ops s aliases
      (case existing of None \<Rightarrow> matched | Some w \<Rightarrow> AList.update (wo_id w) w matched))"

definition new_work :: "supplies \<Rightarrow> nat \<Rightarrow> work_candidate \<Rightarrow> exc + work" where
  "new_work S n c =
    mk_work \<lparr>wo_id = su_ids S n, wo_title = ca_title c,
      wo_type = or_unknown (first_metadata_str (ca_records c) ''publication_type''), wo_language = None,
      wo_external_ids = [], wo_year = ca_year c, wo_abstract = first_abstract (ca_records c),
      wo_venue = first_metadata_str (ca_records c) ''venue'', wo_created_at = su_now S n\<rparr>"

definition persist_candidate :: "'s work_ops \<Rightarrow> supplies \<Rightarrow> 's works_state \<Rightarrow> work_candidate \<Rightarrow> exc + work \<times> 's works_state" where
  "persist_candidate ops S = (\<lambda>(s, n) c.
    let aliases = candidate_aliases c in
    bindE (match_aliases ops s aliases []) (\<lambda>matched.
    bindE (check (length matched \<le> 1)
             (identity_conflict ''candidate identifiers resolve to multiple canonical Works'')) (\<lambda>_.
    bindE (case matched of
             [] \<Rightarrow> new_work S n c
           | (_, existing) # _ \<Rightarrow> fill_missing_work_metadata existing (ca_records c) (ca_year c)) (\<lambda>w.
    bindE (op_save_work ops s w) (\<lambda>s'.
    bindE (save_aliases ops S (s', Suc n) (wo_id w) aliases) (\<lambda>st.
    bindE (save_records ops S st (wo_id w) (ca_records c)) (\<lambda>st'.
    Inr (w, st'))))))))"

fun persist_all :: "'s work_ops \<Rightarrow> supplies \<Rightarrow> 's works_state \<Rightarrow> work_candidate list \<Rightarrow> exc + work list \<times> 's works_state" where
  "persist_all ops S st [] = Inr ([], st)"
| "persist_all ops S st (c # cs) =
    bindE (persist_candidate ops S st c) (\<lambda>(w, st').
    bindE (persist_all ops S st' cs) (\<lambda>(ws, st''). Inr (w # ws, st'')))"

text \<open>\<open>with repository.transaction()\<close>: an exception of the body leaves the repository as it was.\<close>

definition transaction ::
  "'s work_ops \<Rightarrow> 's works_state \<Rightarrow> ('s works_state \<Rightarrow> exc + 'a \<times> 's works_state) \<Rightarrow> (exc + 'a) \<times> 's works_state" where
  "transaction ops st body =
    (case bindE (op_begin ops (fst st)) (\<lambda>s. body (s, snd st)) of
       Inl e \<Rightarrow> (Inl e, st)
     | Inr (x, (s', n')) \<Rightarrow> (Inr x, (op_commit ops s', n')))"

definition persist_candidates ::
  "'s work_ops \<Rightarrow> supplies \<Rightarrow> 's works_state \<Rightarrow> work_candidate list \<Rightarrow> (exc + work list) \<times> 's works_state" where
  "persist_candidates ops S st cs =
    (if cs = [] then (Inr [], st) else transaction ops st (\<lambda>st. persist_all ops S st cs))"

text \<open>
  \<open>enrich_by_doi\<close>: the provider is asked between two transactions; \<open>meanwhile\<close> is what other processes do
  to the repository during the request.
\<close>

definition enrichment_error :: "pystr \<Rightarrow> exc" where
  "enrichment_error message = OtherError ''WorkEnrichmentError'' message"

definition doi_to_enrich :: "'s work_ops \<Rightarrow> uuid \<Rightarrow> 's works_state \<Rightarrow> exc + pystr \<times> 's works_state" where
  "doi_to_enrich ops wid = (\<lambda>(s, n).
    bindE (op_get_work ops s wid) (\<lambda>w.
    bindE (check (w \<noteq> None) (OtherError ''WorkNotFoundError'' ''work not found'')) (\<lambda>_.
    bindE (op_list_identifiers ops s wid) (\<lambda>identifiers.
    case find (\<lambda>i. wi_scheme i = ''doi'') identifiers of
      None \<Rightarrow> Inl (enrichment_error ''work has no DOI alias'')
    | Some i \<Rightarrow> Inr (wi_value i, (s, n))))))"

definition store_enrichment ::
  "'s work_ops \<Rightarrow> supplies \<Rightarrow> uuid \<Rightarrow> discovery_record \<Rightarrow> 's works_state \<Rightarrow> exc + work \<times> 's works_state" where
  "store_enrichment ops S wid r = (\<lambda>(s, n).
    bindE (op_get_work ops s wid) (\<lambda>current.
    case current of
      None \<Rightarrow> Inl (OtherError ''WorkNotFoundError'' ''work not found during enrichment'')
    | Some w \<Rightarrow>
        bindE (save_records ops S (s, n) wid [r]) (\<lambda>st.
        bindE (save_aliases ops S st wid (record_aliases r)) (\<lambda>(s', n').
        bindE (fill_missing_from_record w r) (\<lambda>updated.
        bindE (op_save_work ops s' updated) (\<lambda>s''.
        Inr (updated, (s'', n'))))))))"

definition enrich_by_doi ::
  "'s work_ops \<Rightarrow> supplies \<Rightarrow> (pystr \<Rightarrow> exc + discovery_record) \<Rightarrow> ('s \<Rightarrow> 's) \<Rightarrow> 's works_state \<Rightarrow> uuid \<Rightarrow>
    (exc + work) \<times> 's works_state" where
  "enrich_by_doi ops S lookup_by_doi meanwhile st wid =
    (case transaction ops st (doi_to_enrich ops wid) of
       (Inl e, st') \<Rightarrow> (Inl e, st')
     | (Inr doi, (s, n)) \<Rightarrow>
         let st' = (meanwhile s, n) in
         (case lookup_by_doi doi of
            Inl e \<Rightarrow> (Inl e, st')
          | Inr r \<Rightarrow>
              if doi_of (dr_doi r) \<noteq> Some doi
              then (Inl (enrichment_error ''the enricher returned another DOI''), st')
              else transaction ops st' (store_enrichment ops S wid r)))"

section \<open>Groups\<close>

lemma uniq_snoc: "uniq (xs @ [x]) = uniq xs @ (if x \<in> set xs then [] else [x])"
  by (induction xs) auto

lemma add_to_group_old:
  "distinct ks \<Longrightarrow> k \<in> set ks \<Longrightarrow>
    add_to_group (map (\<lambda>j. (j, f j)) ks) k r = map (\<lambda>j. (j, if j = k then f j @ [r] else f j)) ks"
  by (induction ks) auto

lemma add_to_group_new:
  "k \<notin> set ks \<Longrightarrow> add_to_group (map (\<lambda>j. (j, f j)) ks) k r = map (\<lambda>j. (j, f j)) ks @ [(k, [r])]"
  by (induction ks) auto

lemma group_records_filter:
  "group_records rs = map (\<lambda>k. (k, filter (\<lambda>r. canonical_key r = k) rs)) (uniq (map canonical_key rs))"
proof (induction rs rule: rev_induct)
  case Nil
  then show ?case by (simp add: group_records_def)
next
  case (snoc r rs)
  let ?ks = "uniq (map canonical_key rs)" and ?k = "canonical_key r"
  have g: "group_records (rs @ [r]) = add_to_group (group_records rs) ?k r" by (simp add: group_records_def)
  show ?case
  proof (cases "?k \<in> set ?ks")
    case True
    then show ?thesis
      unfolding g snoc.IH by (subst add_to_group_old) (auto simp: uniq_snoc)
  next
    case False
    then have "filter (\<lambda>x. canonical_key x = ?k) rs = []" by (auto simp: filter_empty_conv intro: rev_image_eqI)
    then show ?thesis using False
      unfolding g snoc.IH by (subst add_to_group_new) (auto simp: uniq_snoc)
  qed
qed

lemma candidate_of_records:
  "rs \<noteq> [] \<Longrightarrow> \<exists>c. candidate_of k rs = Inr c \<and> ca_key c = k \<and> ca_records c = rs"
  by (cases rs) (simp_all add: candidate_of_def)

text \<open>Discovery records are partitioned by their canonical key: there is one candidate for each key, in the
  order of first occurrence, with exactly the records of that key in their order. Records with the same
  canonical DOI, however it is spelled, are one candidate.\<close>

theorem identities_partition:
  "\<exists>cs. resolve_identities rs = Inr cs \<and> map ca_key cs = uniq (map canonical_key rs) \<and>
     map ca_records cs = map (\<lambda>k. filter (\<lambda>r. canonical_key r = k) rs) (uniq (map canonical_key rs))"
proof -
  have "\<exists>cs. mapM (\<lambda>(k, rs). candidate_of k rs) (map (\<lambda>k. (k, f k)) ks) = Inr cs \<and>
      map ca_key cs = ks \<and> map ca_records cs = map f ks" if "\<forall>k \<in> set ks. f k \<noteq> []" for ks f
    using that
  proof (induction ks)
    case (Cons k ks)
    then show ?case using candidate_of_records[of "f k" k] by auto
  qed simp
  moreover have "\<forall>k \<in> set (uniq (map canonical_key rs)). filter (\<lambda>r. canonical_key r = k) rs \<noteq> []"
    by (auto simp: filter_empty_conv)
  ultimately show ?thesis by (simp add: resolve_identities_def group_records_filter)
qed

section \<open>What an operation keeps of the catalogue\<close>

text \<open>Metadata a work has are never overwritten.\<close>

definition work_kept :: "work \<Rightarrow> work \<Rightarrow> bool" where
  "work_kept w w' \<longleftrightarrow>
    wo_id w' = wo_id w \<and> wo_title w' = wo_title w \<and> wo_created_at w' = wo_created_at w \<and>
    or_year (wo_year w) (wo_year w') = wo_year w' \<and> or_text (wo_abstract w) (wo_abstract w') = wo_abstract w' \<and>
    or_text (wo_venue w) (wo_venue w') = wo_venue w' \<and>
    (wo_type w = ''unknown'' \<or> wo_type w = [] \<or> wo_type w' = wo_type w)"

definition catalog_extends :: "work_catalog \<Rightarrow> work_catalog \<Rightarrow> bool" where
  "catalog_extends C C' \<longleftrightarrow>
    map_le (wc_ids C) (wc_ids C') \<and>
    (\<forall>k w. wc_works C k = Some w \<longrightarrow> (\<exists>w'. wc_works C' k = Some w' \<and> work_kept w w')) \<and>
    (\<forall>k x. wc_records C k = Some x \<longrightarrow> (\<exists>x'. wc_records C' k = Some x' \<and> sr_work x' = sr_work x))"

definition works_valid :: "work_catalog \<Rightarrow> bool" where
  "works_valid C \<longleftrightarrow> catalog_ok C \<and> (\<forall>k w. wc_works C k = Some w \<longrightarrow> mk_work w = Inr w)"

text \<open>What \<open>uuid4\<close> promises: up to a position in the stream, different identifiers that no work has.\<close>

definition fresh_ids :: "supplies \<Rightarrow> nat \<Rightarrow> nat \<Rightarrow> work_catalog \<Rightarrow> bool" where
  "fresh_ids S n limit C \<longleftrightarrow>
    inj_on (su_ids S) {n..<limit} \<and> (\<forall>m \<in> {n..<limit}. wc_works C (uuid_str (su_ids S m)) = None)"

lemmas catalog_defs = catalog_extends_def works_valid_def catalog_ok_def fresh_ids_def

lemma or_idem [simp]: "or_year a a = a" "or_text t t = t" "or_year a (or_year a b) = or_year a b"
  "or_text t (or_text t u) = or_text t u"
  by (auto simp: or_year_def or_text_def)

lemma work_kept_refl [simp]: "work_kept w w"
  by (simp add: work_kept_def)

lemma or_trans:
  "or_year a b = b \<Longrightarrow> or_year b c = c \<Longrightarrow> or_year a c = c"
  "or_text t u = u \<Longrightarrow> or_text u v = v \<Longrightarrow> or_text t v = v"
  by (auto simp: or_year_def or_text_def split: if_splits)

lemma work_kept_trans:
  assumes "work_kept u v" "work_kept v w"
  shows "work_kept u w"
proof -
  note k = assms[unfolded work_kept_def]
  have "or_year (wo_year u) (wo_year w) = wo_year w" "or_text (wo_abstract u) (wo_abstract w) = wo_abstract w"
    "or_text (wo_venue u) (wo_venue w) = wo_venue w"
    using k or_trans by metis+
  moreover have "wo_type u = ''unknown'' \<or> wo_type u = [] \<or> wo_type w = wo_type u" using k by metis
  ultimately show ?thesis using k by (simp add: work_kept_def)
qed

lemma catalog_extends_refl [simp]: "catalog_extends C C"
  by (auto simp: catalog_extends_def)

lemma catalog_extends_trans: "catalog_extends C D \<Longrightarrow> catalog_extends D E \<Longrightarrow> catalog_extends C E"
  unfolding catalog_extends_def
  by (elim conjE, intro conjI) (metis map_le_trans, metis work_kept_trans, metis)

lemma mk_work_id: "mk_work w = Inr w' \<Longrightarrow> w' = w"
  by (auto simp: mk_work_def res_simps)

lemma mk_work_created: "mk_work (w\<lparr>wo_created_at := t\<rparr>) = Inr (w\<lparr>wo_created_at := t\<rparr>) \<longleftrightarrow> mk_work w = Inr w"
  by (auto simp: mk_work_def res_simps)

lemma filled_kept:
  assumes "fill_missing_work_metadata w rs year = Inr w'"
  shows "work_kept w w'" "mk_work w' = Inr w'" "wo_year w' = or_year (wo_year w) year"
proof -
  have m: "mk_work w' = Inr w'" using assms mk_work_id unfolding fill_missing_work_metadata_def by metis
  show "mk_work w' = Inr w'" by (rule m)
  show "work_kept w w'" "wo_year w' = or_year (wo_year w) year"
    using mk_work_id[OF assms[unfolded fill_missing_work_metadata_def]]
    by (auto simp: work_kept_def or_unknown_def split: option.splits)
qed

lemma enriched_kept:
  assumes "fill_missing_from_record w r = Inr w'"
  shows "work_kept w w'" "mk_work w' = Inr w'"
proof -
  show "mk_work w' = Inr w'" using assms mk_work_id unfolding fill_missing_from_record_def by metis
  show "work_kept w w'"
    using mk_work_id[OF assms[unfolded fill_missing_from_record_def]]
    by (auto simp: work_kept_def split: option.splits)
qed

definition year_ok :: "int option \<Rightarrow> bool" where
  "year_ok y \<longleftrightarrow> (case y of None \<Rightarrow> True | Some n \<Rightarrow> 0 \<le> n)"

lemma mk_work_year: "mk_work w = Inr w \<longleftrightarrow> \<not> blank (wo_title w) \<and> year_ok (wo_year w)"
  by (auto simp: mk_work_def year_ok_def res_simps)

lemma fills:
  assumes "\<not> blank (wo_title w)" "year_ok (or_year (wo_year w) year)"
  shows "\<exists>v. fill_missing_work_metadata w rs year = Inr v"
  unfolding fill_missing_work_metadata_def by (rule exI, rule iffD2[OF mk_work_year]) (use assms in simp)

text \<open>Saving a work that keeps what is stored of it, or that is new.\<close>

lemma spec_save_work_keeps:
  assumes "works_valid C" "mk_work w = Inr w"
    and "\<And>old. wc_works C (uuid_str (wo_id w)) = Some old \<Longrightarrow> work_kept old w"
  shows "works_valid (spec_save_work C w)" "catalog_extends C (spec_save_work C w)"
    "\<exists>w'. wc_works (spec_save_work C w) (uuid_str (wo_id w)) = Some w' \<and> wo_year w' = wo_year w"
    "wc_ids (spec_save_work C w) = wc_ids C" "wc_records (spec_save_work C w) = wc_records C"
    "dom (wc_works (spec_save_work C w)) = insert (uuid_str (wo_id w)) (dom (wc_works C))"
proof -
  let ?key = "uuid_str (wo_id w)"
  obtain v where v: "spec_save_work C w = C\<lparr>wc_works := (wc_works C)(?key \<mapsto> v)\<rparr>" "wo_id v = wo_id w"
    "mk_work v = Inr v" "wo_year v = wo_year w" "\<And>old. wc_works C ?key = Some old \<Longrightarrow> work_kept old v"
  proof (cases "wc_works C ?key")
    case None
    then show ?thesis using that[of w] assms(2) by (simp add: spec_save_work_def)
  next
    case (Some old)
    then show ?thesis using that[of "w\<lparr>wo_created_at := wo_created_at old\<rparr>"] assms(2,3)
      by (simp add: spec_save_work_def mk_work_created work_kept_def)
  qed
  have ok: "catalog_ok C" "\<And>k u. wc_works C k = Some u \<Longrightarrow> mk_work u = Inr u"
    using assms(1) by (simp_all add: works_valid_def)
  show "works_valid (spec_save_work C w)"
    using ok v(2,3) unfolding works_valid_def catalog_ok_def v(1) by simp
  show "catalog_extends C (spec_save_work C w)"
    using v(5) unfolding catalog_extends_def v(1) by simp
qed (auto simp: spec_save_work_def Let_def split: option.splits)

lemma spec_save_identifier_keeps:
  assumes "works_valid C" "wc_works C (uuid_str (wi_work i)) \<noteq> None" "spec_save_identifier C i = Some C'"
  shows "works_valid C'" "catalog_extends C C'" "wc_works C' = wc_works C" "wc_records C' = wc_records C"
    "\<exists>j. wc_ids C' (identifier_key (wi_scheme i) (wi_value i)) = Some j \<and> wi_work j = wi_work i"
  using assms
  by (auto simp: works_valid_def catalog_ok_def catalog_extends_def spec_save_identifier_def Let_def map_le_def
      split: option.splits if_splits)

lemma spec_save_record_keeps:
  assumes "works_valid C" "spec_save_record C x = Some C'"
  shows "works_valid C'" "catalog_extends C C'" "wc_works C' = wc_works C" "wc_ids C' = wc_ids C"
    "\<exists>y. wc_records C' (source_key x) = Some y \<and> sr_work y = sr_work x"
  using assms
  by (auto simp: works_valid_def catalog_ok_def catalog_extends_def spec_save_record_def Let_def
      split: option.splits if_splits)

text \<open>A candidate that a work of the catalogue stands for.\<close>

definition record_key :: "discovery_record \<Rightarrow> pystr" where
  "record_key r = dr_provider r @ '':'' @ dr_provider_id r"

definition alias_valid :: "pystr \<times> pystr \<Rightarrow> bool" where
  "alias_valid a \<longleftrightarrow> \<not> blank (fst a) \<and> \<not> blank (snd a)"

lemma year_ok_later: "year_ok (or_year a y) \<Longrightarrow> or_year a b = b \<Longrightarrow> year_ok b \<Longrightarrow> year_ok (or_year b y)"
  by (auto simp: or_year_def split: if_splits)

definition settled_as :: "work_catalog \<Rightarrow> work_candidate \<Rightarrow> uuid \<Rightarrow> bool" where
  "settled_as C c wid \<longleftrightarrow>
    list_all (\<lambda>a. alias_valid a \<and> (\<exists>i. wc_ids C (identifier_key (fst a) (snd a)) = Some i \<and> wi_work i = wid))
      (candidate_aliases c) \<and>
    list_all (\<lambda>r. \<exists>x. wc_records C (record_key r) = Some x \<and> sr_work x = wid) (ca_records c) \<and>
    (\<exists>w. wc_works C (uuid_str wid) = Some w \<and> year_ok (or_year (wo_year w) (ca_year c)))"

definition records_valid :: "work_candidate \<Rightarrow> bool" where
  "records_valid c \<longleftrightarrow> list_all (\<lambda>r. mk_discovery_record r = Inr r) (ca_records c)"

lemma settled_as_extends:
  assumes "settled_as C c wid" "catalog_extends C C'" "works_valid C'"
  shows "settled_as C' c wid"
proof -
  have ids: "wc_ids C' k = Some i" if "wc_ids C k = Some i" for k i
    using that assms(2) by (auto simp: catalog_extends_def map_le_def dest: bspec[of _ _ k])
  have recs: "\<exists>x'. wc_records C' k = Some x' \<and> sr_work x' = sr_work x" if "wc_records C k = Some x" for k x
    using that assms(2) by (simp add: catalog_extends_def)
  have year: "\<exists>w'. wc_works C' k = Some w' \<and> year_ok (or_year (wo_year w') y)"
    if w: "wc_works C k = Some w" "year_ok (or_year (wo_year w) y)" for k w y
  proof -
    obtain w' where w': "wc_works C' k = Some w'" "work_kept w w'" using w(1) assms(2) unfolding catalog_extends_def by metis
    then have "year_ok (wo_year w')" using assms(3) by (auto simp: works_valid_def mk_work_year)
    then show ?thesis using w(2) w' year_ok_later by (auto simp: work_kept_def)
  qed
  note set = assms(1)[unfolded settled_as_def]
  have "list_all (\<lambda>a. alias_valid a \<and> (\<exists>i. wc_ids C' (identifier_key (fst a) (snd a)) = Some i \<and> wi_work i = wid))
      (candidate_aliases c)"
    using set ids by (auto elim!: list.pred_mono_strong)
  moreover have "list_all (\<lambda>r. \<exists>x. wc_records C' (record_key r) = Some x \<and> sr_work x = wid) (ca_records c)"
  proof -
    have "\<exists>x. wc_records C' k = Some x \<and> sr_work x = wid" if "\<exists>x. wc_records C k = Some x \<and> sr_work x = wid" for k
      using that recs by metis
    then show ?thesis using set unfolding list_all_iff by blast
  qed
  moreover have "\<exists>w. wc_works C' (uuid_str wid) = Some w \<and> year_ok (or_year (wo_year w) (ca_year c))"
    using set year by blast
  ultimately show ?thesis by (simp add: settled_as_def)
qed

lemma mk_new_identifier:
  "mk_work_identifier (new_identifier S n wid a) = Inr (new_identifier S n wid a) \<longleftrightarrow> alias_valid a"
  by (auto simp: mk_work_identifier_def new_identifier_def alias_valid_def res_simps split: prod.splits)

lemma stored_work: "works_valid C \<Longrightarrow> wc_works C (uuid_str u) = Some w \<Longrightarrow> wo_id w = u \<and> mk_work w = Inr w"
  unfolding works_valid_def catalog_ok_def by (metis uuid_str_inject)

lemma save_aliases_count: "save_aliases ops S (s, n) wid aliases = Inr (s', n') \<Longrightarrow> n' = n + length aliases"
  by (induction aliases arbitrary: s n) (fastforce simp: res_simps)+

lemma save_records_count: "save_records ops S (s, n) wid rs = Inr (s', n') \<Longrightarrow> n' = n + length rs"
  by (induction rs arbitrary: s n) (fastforce simp: res_simps)+

lemma persist_candidate_count: "persist_candidate ops S (s, n) c = Inr (w, (s', n')) \<Longrightarrow> n < n'"
  by (force simp: persist_candidate_def Let_def res_simps dest: save_aliases_count save_records_count)

lemma persist_all_count: "persist_all ops S (s, n) cs = Inr (ws, (s', n')) \<Longrightarrow> n \<le> n'"
proof (induction cs arbitrary: s n ws)
  case (Cons c cs)
  then obtain w s1 n1 ws' where "persist_candidate ops S (s, n) c = Inr (w, (s1, n1))"
      "persist_all ops S (s1, n1) cs = Inr (ws', (s', n'))"
    by (auto simp: res_simps split: prod.splits)
  then show ?case using Cons.IH persist_candidate_count by fastforce
qed simp

context work_store
begin

lemma save_aliases_ok:
  "holds s C \<Longrightarrow> works_valid C \<Longrightarrow> wc_works C (uuid_str wid) \<noteq> None \<Longrightarrow>
   save_aliases ops S (s, n) wid aliases = Inr (s', n') \<Longrightarrow>
   \<exists>C'. holds s' C' \<and> works_valid C' \<and> catalog_extends C C' \<and> n \<le> n' \<and>
     wc_works C' = wc_works C \<and> wc_records C' = wc_records C \<and>
     list_all (\<lambda>a. alias_valid a \<and>
       (\<exists>i. wc_ids C' (identifier_key (fst a) (snd a)) = Some i \<and> wi_work i = wid)) aliases"
proof (induction aliases arbitrary: s n C)
  case Nil
  then show ?case by auto
next
  case (Cons a aliases)
  let ?i = "new_identifier S n wid a"
  have i: "wi_work ?i = wid" "wi_scheme ?i = fst a" "wi_value ?i = snd a"
    by (simp_all add: new_identifier_def split: prod.splits)
  obtain t where t: "mk_work_identifier ?i = Inr ?i" "op_save_identifier ops s ?i = Inr t"
      "save_aliases ops S (t, Suc n) wid aliases = Inr (s', n')"
    using Cons.prems(4) by (auto simp: res_simps mk_work_identifier_def)
  obtain D where D: "spec_save_identifier C ?i = Some D" "holds t D"
    using saves_identifier[OF Cons.prems(1) t(1)] t(2) by (auto split: option.splits)
  note keeps = spec_save_identifier_keeps[OF Cons.prems(2) _ D(1), unfolded i, OF Cons.prems(3)]
  obtain E where E: "holds s' E" "works_valid E" "catalog_extends D E" "Suc n \<le> n'"
      "wc_works E = wc_works D" "wc_records E = wc_records D"
      "list_all (\<lambda>a. alias_valid a \<and>
        (\<exists>i. wc_ids E (identifier_key (fst a) (snd a)) = Some i \<and> wi_work i = wid)) aliases"
    using Cons.IH[OF D(2) keeps(1) _ t(3)] keeps(3) Cons.prems(3) by auto
  obtain j where j: "wc_ids D (identifier_key (fst a) (snd a)) = Some j" "wi_work j = wid" using keeps(5) by blast
  then have "wc_ids E (identifier_key (fst a) (snd a)) = Some j"
    using E(3) by (auto simp: catalog_extends_def map_le_def dest: bspec)
  moreover have "alias_valid a" using t(1) by (simp add: mk_new_identifier)
  ultimately show ?case
    using E keeps j t(1) catalog_extends_trans by (intro exI[of _ E]) (auto simp: list_all_iff)
qed

lemma save_records_ok:
  "holds s C \<Longrightarrow> works_valid C \<Longrightarrow> list_all (\<lambda>r. mk_discovery_record r = Inr r) rs \<Longrightarrow>
   save_records ops S (s, n) wid rs = Inr (s', n') \<Longrightarrow>
   \<exists>C'. holds s' C' \<and> works_valid C' \<and> catalog_extends C C' \<and> n \<le> n' \<and>
     wc_works C' = wc_works C \<and> wc_ids C' = wc_ids C \<and>
     list_all (\<lambda>r. \<exists>x. wc_records C' (record_key r) = Some x \<and> sr_work x = wid) rs"
proof (induction rs arbitrary: s n C)
  case Nil
  then show ?case by auto
next
  case (Cons r rs)
  let ?x = "new_source_record S n wid r"
  have x: "sr_work ?x = wid" "source_key ?x = record_key r" "sr_record ?x = r"
    by (simp_all add: new_source_record_def source_key_def sr_provider_def sr_provider_id_def record_key_def)
  have r: "mk_discovery_record (sr_record ?x) = Inr (sr_record ?x)" using Cons.prems(3) x by simp
  obtain t where t: "op_save_record ops s ?x = Inr t" "save_records ops S (t, Suc n) wid rs = Inr (s', n')"
    using Cons.prems(4) by (auto simp: res_simps)
  obtain D where D: "spec_save_record C ?x = Some D" "holds t D"
    using saves_record[OF Cons.prems(1) r] t(1) by (auto split: option.splits)
  note keeps = spec_save_record_keeps[OF Cons.prems(2) D(1), unfolded x]
  obtain E where E: "holds s' E" "works_valid E" "catalog_extends D E" "Suc n \<le> n'"
      "wc_works E = wc_works D" "wc_ids E = wc_ids D"
      "list_all (\<lambda>r. \<exists>x. wc_records E (record_key r) = Some x \<and> sr_work x = wid) rs"
    using Cons.IH[OF D(2) keeps(1) _ t(2)] Cons.prems(3) by auto
  have "\<exists>x. wc_records E (record_key r) = Some x \<and> sr_work x = wid"
    using keeps(5) E(3) unfolding catalog_extends_def by metis
  then show ?case using E keeps catalog_extends_trans by (intro exI[of _ E]) auto
qed

text \<open>The works that aliases resolve to.\<close>

lemma match_aliases_ok:
  "holds s C \<Longrightarrow> catalog_ok C \<Longrightarrow> distinct (map fst m) \<Longrightarrow>
   \<forall>(u, w) \<in> set m. wc_works C (uuid_str u) = Some w \<and> wo_id w = u \<Longrightarrow>
   \<exists>m'. match_aliases ops s aliases m = Inr m' \<and> distinct (map fst m') \<and>
     (\<forall>(u, w) \<in> set m'. wc_works C (uuid_str u) = Some w \<and> wo_id w = u) \<and>
     fst ` set m' = fst ` set m \<union> (\<Union>a \<in> set aliases. wo_id ` set_option (spec_find C (fst a) (snd a)))"
proof (induction aliases arbitrary: m)
  case Nil
  then show ?case by auto
next
  case (Cons a aliases)
  note f = finds[OF Cons.prems(1), of "fst a" "snd a"]
  show ?case
  proof (cases "spec_find C (fst a) (snd a)")
    case None
    then show ?thesis using Cons.IH[OF Cons.prems(1-2), of m] Cons.prems(3,4) f by auto
  next
    case (Some w)
    then obtain k where k: "wc_works C k = Some w" by (auto simp: spec_find_def split: option.splits)
    then have w: "wc_works C (uuid_str (wo_id w)) = Some w" using Cons.prems(2) by (auto simp: catalog_ok_def)
    let ?m = "AList.update (wo_id w) w m"
    have "distinct (map fst ?m)" using Cons.prems(3) by (rule distinct_update)
    moreover have "\<forall>(u, w) \<in> set ?m. wc_works C (uuid_str u) = Some w \<and> wo_id w = u"
    proof (clarify)
      fix u v assume "(u, v) \<in> set ?m"
      then have "map_of ?m u = Some v" using \<open>distinct (map fst ?m)\<close> by simp
      then have "(u = wo_id w \<and> v = w) \<or> map_of m u = Some v" by (auto simp: update_conv split: if_splits)
      then show "wc_works C (uuid_str u) = Some v \<and> wo_id v = u"
        using w Cons.prems(4) map_of_SomeD by fastforce
    qed
    moreover have "fst ` set ?m = insert (wo_id w) (fst ` set m)"
      using arg_cong[OF update_conv'[of "wo_id w" w m], of dom] by (simp add: dom_map_of_conv_image_fst)
    ultimately show ?thesis using Cons.IH[OF Cons.prems(1-2), of ?m] f Some by auto
  qed
qed

text \<open>Persisting one candidate.\<close>

lemma persist_candidate_ok:
  assumes "holds s C" "works_valid C" "fresh_ids S n limit C" "records_valid c"
    and "persist_candidate ops S (s, n) c = Inr (w, (s', n'))" "n < limit"
  shows "\<exists>C'. holds s' C' \<and> works_valid C' \<and> catalog_extends C C' \<and> fresh_ids S n' limit C' \<and> settled_as C' c (wo_id w)"
proof -
  let ?as = "candidate_aliases c"
  have ok: "catalog_ok C" using assms(2) by (simp add: works_valid_def)
  obtain m where m: "match_aliases ops s ?as [] = Inr m"
      "\<forall>(u, w) \<in> set m. wc_works C (uuid_str u) = Some w \<and> wo_id w = u"
    using match_aliases_ok[OF assms(1) ok, of "[]" ?as] by auto
  obtain t st where t: "(case m of [] \<Rightarrow> new_work S n c
        | (_, existing) # _ \<Rightarrow> fill_missing_work_metadata existing (ca_records c) (ca_year c)) = Inr w"
      "op_save_work ops s w = Inr t" "save_aliases ops S (t, Suc n) (wo_id w) ?as = Inr st"
      "save_records ops S st (wo_id w) (ca_records c) = Inr (s', n')"
    using assms(5) m(1) by (auto simp: persist_candidate_def Let_def res_simps)
  have w: "mk_work w = Inr w" "\<And>old. wc_works C (uuid_str (wo_id w)) = Some old \<Longrightarrow> work_kept old w"
    "or_year (wo_year w) (ca_year c) = wo_year w"
    "wo_id w = su_ids S n \<or> wc_works C (uuid_str (wo_id w)) \<noteq> None"
  proof -
    have "mk_work w = Inr w \<and> (\<forall>old. wc_works C (uuid_str (wo_id w)) = Some old \<longrightarrow> work_kept old w) \<and>
      or_year (wo_year w) (ca_year c) = wo_year w \<and>
      (wo_id w = su_ids S n \<or> wc_works C (uuid_str (wo_id w)) \<noteq> None)"
    proof (cases m)
      case Nil
      then have "new_work S n c = Inr w" using t(1) by simp
      then have "mk_work w = Inr w" "wo_id w = su_ids S n" "wo_year w = ca_year c"
        by (auto simp: new_work_def dest: mk_work_id)
      then show ?thesis using assms(3,6) by (simp add: fresh_ids_def)
    next
      case (Cons p m')
      obtain u old where p: "p = (u, old)" by fastforce
      then have old: "wc_works C (uuid_str u) = Some old" "wo_id old = u" using m(2) Cons by auto
      have f: "fill_missing_work_metadata old (ca_records c) (ca_year c) = Inr w" using t(1) Cons p by simp
      then have "wo_id w = u" using filled_kept(1)[OF f] old(2) by (simp add: work_kept_def)
      then show ?thesis using filled_kept[OF f] old by (auto simp: or_year_def)
    qed
    then show "mk_work w = Inr w" "\<And>old. wc_works C (uuid_str (wo_id w)) = Some old \<Longrightarrow> work_kept old w"
      "or_year (wo_year w) (ca_year c) = wo_year w" "wo_id w = su_ids S n \<or> wc_works C (uuid_str (wo_id w)) \<noteq> None" by auto
  qed
  let ?C = "spec_save_work C w"
  have C: "holds t ?C" using saves_work[OF assms(1) w(1)] t(2) by auto
  note save = spec_save_work_keeps[OF assms(2) w(1,2)]
  obtain s1 n1 where st: "st = (s1, n1)" by fastforce
  obtain D where D: "holds s1 D" "works_valid D" "catalog_extends ?C D" "Suc n \<le> n1" "wc_works D = wc_works ?C"
      "list_all (\<lambda>a. alias_valid a \<and> (\<exists>i. wc_ids D (identifier_key (fst a) (snd a)) = Some i \<and> wi_work i = wo_id w)) ?as"
    using save_aliases_ok[OF C save(1) _ t(3)[unfolded st]] save(3) by (auto simp: list_all_iff)
  have valid: "list_all (\<lambda>r. mk_discovery_record r = Inr r) (ca_records c)" using assms(4) by (simp add: records_valid_def)
  obtain E where E: "holds s' E" "works_valid E" "catalog_extends D E" "n1 \<le> n'" "wc_works E = wc_works D"
      "wc_ids E = wc_ids D" "list_all (\<lambda>r. \<exists>x. wc_records E (record_key r) = Some x \<and> sr_work x = wo_id w) (ca_records c)"
    using save_records_ok[OF D(1,2) valid t(4)[unfolded st]] by auto
  have "catalog_extends C E" using save(2) D(3) E(3) catalog_extends_trans by blast
  moreover have "settled_as E c (wo_id w)"
    using D(5,6) E(5-7) save(3) w(1,3) by (auto simp: settled_as_def mk_work_year)
  moreover have "fresh_ids S n' limit E"
  proof -
    have "wc_works ?C (uuid_str (su_ids S k)) = None" if "Suc n \<le> k" "k < limit" for k
    proof -
      have none: "wc_works C (uuid_str (su_ids S k)) = None" using that assms(3) by (simp add: fresh_ids_def)
      have "su_ids S k \<noteq> su_ids S n" using that assms(3) by (auto simp: fresh_ids_def dest: inj_onD)
      then have "su_ids S k \<noteq> wo_id w" using w(4) none by metis
      then have "uuid_str (su_ids S k) \<notin> insert (uuid_str (wo_id w)) (dom (wc_works C))"
        using none by (simp add: uuid_str_inject domIff)
      then show ?thesis using save(6) by (metis domIff)
    qed
    moreover have "inj_on (su_ids S) {n'..<limit}"
      using assms(3) D(4) E(4) by (auto simp: fresh_ids_def elim: inj_on_subset)
    ultimately show ?thesis using D(4,5) E(4,5) by (simp add: fresh_ids_def)
  qed
  ultimately show ?thesis using E by blast
qed

lemma persist_all_ok:
  "holds s C \<Longrightarrow> works_valid C \<Longrightarrow> fresh_ids S n limit C \<Longrightarrow> list_all records_valid cs \<Longrightarrow>
   persist_all ops S (s, n) cs = Inr (ws, (s', n')) \<Longrightarrow> n' \<le> limit \<Longrightarrow>
   \<exists>C'. holds s' C' \<and> works_valid C' \<and> catalog_extends C C' \<and> fresh_ids S n' limit C' \<and>
     list_all2 (\<lambda>c w. settled_as C' c (wo_id w)) cs ws"
proof (induction cs arbitrary: s n C ws)
  case Nil
  then show ?case by auto
next
  case (Cons c cs)
  obtain w s1 n1 ws' where p: "persist_candidate ops S (s, n) c = Inr (w, (s1, n1))"
      "persist_all ops S (s1, n1) cs = Inr (ws', (s', n'))" "ws = w # ws'"
    using Cons.prems(5) by (auto simp: res_simps split: prod.splits)
  have "n < limit" using persist_candidate_count[OF p(1)] persist_all_count[OF p(2)] Cons.prems(6) by simp
  then obtain D where D: "holds s1 D" "works_valid D" "catalog_extends C D" "fresh_ids S n1 limit D" "settled_as D c (wo_id w)"
    using persist_candidate_ok[OF Cons.prems(1-3) _ p(1)] Cons.prems(4) by auto
  obtain E where E: "holds s' E" "works_valid E" "catalog_extends D E" "fresh_ids S n' limit E"
      "list_all2 (\<lambda>c w. settled_as E c (wo_id w)) cs ws'"
    using Cons.IH[OF D(1,2,4) _ p(2)] Cons.prems(4,6) by auto
  show ?case
    using E D(3) settled_as_extends[OF D(5) E(3,2)] catalog_extends_trans[OF D(3) E(3)] p(3) by auto
qed

text \<open>Aliases and records that are free, or already those of the work, are stored.\<close>

lemma save_aliases_free:
  "holds s C \<Longrightarrow> works_valid C \<Longrightarrow> wc_works C (uuid_str wid) \<noteq> None \<Longrightarrow>
   list_all (\<lambda>a. alias_valid a \<and> pred_option (\<lambda>i. wi_work i = wid) (wc_ids C (identifier_key (fst a) (snd a)))) aliases \<Longrightarrow>
   \<exists>t m C'. save_aliases ops S (s, n) wid aliases = Inr (t, m) \<and> holds t C' \<and> works_valid C' \<and>
     wc_works C' = wc_works C \<and> wc_records C' = wc_records C"
proof (induction aliases arbitrary: s n C)
  case Nil
  then show ?case by auto
next
  case (Cons a aliases)
  let ?i = "new_identifier S n wid a" and ?k = "identifier_key (fst a) (snd a)"
  have i: "wi_work ?i = wid" "wi_scheme ?i = fst a" "wi_value ?i = snd a"
    by (simp_all add: new_identifier_def split: prod.splits)
  have valid: "mk_work_identifier ?i = Inr ?i" using Cons.prems(4) by (simp add: mk_new_identifier)
  obtain w where w: "wc_works C (uuid_str wid) = Some w" "wo_id w = wid"
    using Cons.prems(2,3) stored_work by blast
  have find: "op_find_work ops s (fst a) (snd a) = Inr (case wc_ids C ?k of None \<Rightarrow> None | Some _ \<Rightarrow> Some w)"
    using finds[OF Cons.prems(1)] Cons.prems(4) w(1) by (auto simp: spec_find_def split: option.splits)
  obtain D where D: "spec_save_identifier C ?i = Some D" "pred_option (\<lambda>i. wi_work i = wid) (wc_ids D k)"
    if "pred_option (\<lambda>i. wi_work i = wid) (wc_ids C k)" for k
    using Cons.prems(4) by (cases "wc_ids C ?k") (auto simp: spec_save_identifier_def Let_def i)
  then have D1: "spec_save_identifier C ?i = Some D" using Cons.prems(4) by auto
  obtain t where t: "op_save_identifier ops s ?i = Inr t" "holds t D"
    using saves_identifier[OF Cons.prems(1) valid] D1 by auto
  note keeps = spec_save_identifier_keeps[OF Cons.prems(2) _ D1, unfolded i, OF Cons.prems(3)]
  have "list_all (\<lambda>a. alias_valid a \<and> pred_option (\<lambda>i. wi_work i = wid) (wc_ids D (identifier_key (fst a) (snd a)))) aliases"
    using Cons.prems(4) D(2) by (auto simp: list_all_iff)
  then obtain u m E where "save_aliases ops S (t, Suc n) wid aliases = Inr (u, m)" "holds u E" "works_valid E"
      "wc_works E = wc_works D" "wc_records E = wc_records D"
    using Cons.IH[OF t(2) keeps(1), of "Suc n"] keeps(3) Cons.prems(3) by auto
  then show ?case using find valid t(1) w(2) keeps(3,4) by (auto split: option.splits)
qed

lemma save_records_free:
  "holds s C \<Longrightarrow> works_valid C \<Longrightarrow> list_all (\<lambda>r. mk_discovery_record r = Inr r) rs \<Longrightarrow>
   list_all (\<lambda>r. pred_option (\<lambda>x. sr_work x = wid) (wc_records C (record_key r))) rs \<Longrightarrow>
   \<exists>t m. save_records ops S (s, n) wid rs = Inr (t, m)"
proof (induction rs arbitrary: s n C)
  case (Cons r rs)
  let ?x = "new_source_record S n wid r"
  have x: "sr_work ?x = wid" "source_key ?x = record_key r" "sr_record ?x = r"
    by (simp_all add: new_source_record_def source_key_def sr_provider_def sr_provider_id_def record_key_def)
  have r: "mk_discovery_record (sr_record ?x) = Inr (sr_record ?x)" using Cons.prems(3) x by simp
  let ?D = "C\<lparr>wc_records := (wc_records C)(record_key r \<mapsto> ?x)\<rparr>"
  have D: "spec_save_record C ?x = Some ?D"
    using Cons.prems(4) x by (auto simp: spec_save_record_def Let_def split: option.splits)
  then obtain t where t: "op_save_record ops s ?x = Inr t" "holds t ?D"
    using saves_record[OF Cons.prems(1) r] by auto
  have "list_all (\<lambda>r. pred_option (\<lambda>x. sr_work x = wid) (wc_records ?D (record_key r))) rs"
    using Cons.prems(4) x by (auto simp: list_all_iff)
  then show ?case
    using Cons.IH[OF t(2) spec_save_record_keeps(1)[OF Cons.prems(2) D]] Cons.prems(3) t(1) by simp
qed simp

lemma settled_free:
  assumes "settled_as C c wid"
  shows "list_all (\<lambda>a. alias_valid a \<and> pred_option (\<lambda>i. wi_work i = wid) (wc_ids C (identifier_key (fst a) (snd a)))) (candidate_aliases c)"
    "list_all (\<lambda>r. pred_option (\<lambda>x. sr_work x = wid) (wc_records C (record_key r))) (ca_records c)"
  using assms unfolding settled_as_def by (auto elim!: list.pred_mono_strong)

text \<open>A candidate none of whose identifiers is known becomes a new work.\<close>

lemma persist_candidate_new:
  assumes "holds s C" "works_valid C" "wc_works C (uuid_str (su_ids S n)) = None" "records_valid c"
    and "list_all (\<lambda>a. alias_valid a \<and> wc_ids C (identifier_key (fst a) (snd a)) = None) (candidate_aliases c)"
    and "list_all (\<lambda>r. wc_records C (record_key r) = None) (ca_records c)" "new_work S n c = Inr w"
  shows "\<exists>t m. persist_candidate ops S (s, n) c = Inr (w, (t, m))"
proof -
  let ?as = "candidate_aliases c"
  have "match_aliases ops s xs [] = Inr []"
    if "list_all (\<lambda>a. alias_valid a \<and> wc_ids C (identifier_key (fst a) (snd a)) = None) xs" for xs
    using that finds[OF assms(1)] by (induction xs) (auto simp: spec_find_def)
  then have m: "match_aliases ops s ?as [] = Inr []" using assms(5) by blast
  have w: "mk_work w = Inr w" "wo_id w = su_ids S n" using assms(7) by (auto simp: new_work_def dest: mk_work_id)
  have none: "wc_works C (uuid_str (wo_id w)) = None" using assms(3) w(2) by simp
  note save = spec_save_work_keeps[OF assms(2) w(1)]
  obtain t where t: "op_save_work ops s w = Inr t" "holds t (spec_save_work C w)"
    using saves_work[OF assms(1) w(1)] by auto
  obtain u k D where u: "save_aliases ops S (t, Suc n) (wo_id w) ?as = Inr (u, k)" "holds u D" "works_valid D"
      "wc_records D = wc_records C"
    using save_aliases_free[OF t(2), of "wo_id w" ?as S "Suc n"] save none assms(5) by (auto simp: list_all_iff)
  obtain v l where "save_records ops S (u, k) (wo_id w) (ca_records c) = Inr (v, l)"
    using save_records_free[OF u(2,3), of "ca_records c" "wo_id w" S k] assms(4,6) u(4)
    by (auto simp: records_valid_def list_all_iff)
  then show ?thesis using m assms(7) t(1) u(1) by (simp add: persist_candidate_def Let_def)
qed

text \<open>Persisting what the catalogue already has.\<close>

lemma persist_candidate_again:
  assumes "holds s C" "works_valid C" "records_valid c" "candidate_aliases c \<noteq> []" "settled_as C c wid"
  shows "\<exists>w t m D. persist_candidate ops S (s, n) c = Inr (w, (t, m)) \<and> wo_id w = wid \<and>
    holds t D \<and> works_valid D \<and> catalog_extends C D"
proof -
  let ?as = "candidate_aliases c"
  have ok: "catalog_ok C" using assms(2) by (simp add: works_valid_def)
  obtain w where w: "wc_works C (uuid_str wid) = Some w" "year_ok (or_year (wo_year w) (ca_year c))"
    using assms(5) by (auto simp: settled_as_def)
  have wid: "wo_id w = wid" "mk_work w = Inr w"
    using w(1) assms(2) stored_work by blast+
  have "spec_find C (fst a) (snd a) = Some w" if "a \<in> set ?as" for a
    using that assms(5) w(1) by (auto simp: settled_as_def list_all_iff spec_find_def dest: bspec)
  then have "(\<Union>a \<in> set ?as. wo_id ` set_option (spec_find C (fst a) (snd a))) = {wid}"
    using assms(4) wid(1) by (cases ?as) auto
  then obtain m where m: "match_aliases ops s ?as [] = Inr m" "distinct (map fst m)" "fst ` set m = {wid}"
      "\<forall>(u, w) \<in> set m. wc_works C (uuid_str u) = Some w \<and> wo_id w = u"
    using match_aliases_ok[OF assms(1) ok, of "[]" ?as] by auto
  have "length m = 1" using m(2,3) distinct_card[OF m(2)] by simp
  then obtain p where "m = [p]" by (cases m) auto
  then have m1: "m = [(wid, w)]" using m(3,4) w(1) by (cases p) auto
  obtain v where v: "fill_missing_work_metadata w (ca_records c) (ca_year c) = Inr v"
    using fills[OF _ w(2)] wid(2) mk_work_year by blast
  note kept = filled_kept[OF v]
  have vid: "wo_id v = wid" using kept(1) wid(1) by (simp add: work_kept_def)
  have save: "works_valid (spec_save_work C v)" "catalog_extends C (spec_save_work C v)"
    "wc_works (spec_save_work C v) (uuid_str wid) \<noteq> None"
    using spec_save_work_keeps[OF assms(2) kept(2)] kept(1) w(1) vid by auto
  obtain t where t: "op_save_work ops s v = Inr t" "holds t (spec_save_work C v)"
    using saves_work[OF assms(1) kept(2)] by auto
  have set: "settled_as (spec_save_work C v) c wid" by (rule settled_as_extends[OF assms(5) save(2,1)])
  obtain t1 n1 where t1: "save_aliases ops S (t, Suc n) wid ?as = Inr (t1, n1)"
    using save_aliases_free[OF t(2) save(1,3) settled_free(1)[OF set], of S "Suc n"] by blast
  obtain D where D: "holds t1 D" "works_valid D" "catalog_extends (spec_save_work C v) D"
      "wc_records D = wc_records (spec_save_work C v)"
    using save_aliases_ok[OF t(2) save(1,3) t1] by blast
  have valid: "list_all (\<lambda>r. mk_discovery_record r = Inr r) (ca_records c)" using assms(3) by (simp add: records_valid_def)
  obtain t2 n2 where t2: "save_records ops S (t1, n1) wid (ca_records c) = Inr (t2, n2)"
    using save_records_free[OF D(1,2) valid, of wid S n1] settled_free(2)[OF set] D(4) by auto
  obtain E where E: "holds t2 E" "works_valid E" "catalog_extends D E"
    using save_records_ok[OF D(1,2) valid t2] by blast
  have "catalog_extends C E" using save(2) D(3) E(3) catalog_extends_trans by blast
  moreover have "persist_candidate ops S (s, n) c = Inr (v, (t2, n2))"
    using m(1) m1 v t(1) t1 t2 vid by (simp add: persist_candidate_def Let_def)
  ultimately show ?thesis using vid E(1,2) by blast
qed

lemma persist_all_again:
  "holds s C \<Longrightarrow> works_valid C \<Longrightarrow> list_all records_valid cs \<Longrightarrow>
   list_all (\<lambda>c. candidate_aliases c \<noteq> []) cs \<Longrightarrow> list_all2 (\<lambda>c u. settled_as C c u) cs us \<Longrightarrow>
   \<exists>ws st. persist_all ops S (s, n) cs = Inr (ws, st) \<and> map wo_id ws = us"
proof (induction cs arbitrary: s n C us)
  case (Cons c cs)
  obtain u us' where u: "us = u # us'" "settled_as C c u" "list_all2 (\<lambda>c u. settled_as C c u) cs us'"
    using Cons.prems(5) by (auto simp: list_all2_Cons1)
  obtain w t m D where p: "persist_candidate ops S (s, n) c = Inr (w, (t, m))" "wo_id w = u"
      and D: "holds t D" "works_valid D" "catalog_extends C D"
    using persist_candidate_again[OF Cons.prems(1,2) _ _ u(2), of S n] Cons.prems(3,4) by auto
  have "list_all2 (\<lambda>c u. settled_as D c u) cs us'"
    using u(3) settled_as_extends[OF _ D(3,2)] by (auto elim: list_all2_mono)
  then show ?case using Cons.IH[OF D(1,2), of us' m] Cons.prems(3,4) p u(1) by auto
qed simp

text \<open>A batch inside its transaction.\<close>

lemma transaction_cases:
  assumes "holds s C" "idle s" "transaction ops (s, n) body = (res, (s', n'))"
  obtains e where "res = Inl e" "s' = s" "n' = n"
  | t x t' where "res = Inr x" "holds t C" "body (t, n) = Inr (x, (t', n'))" "s' = op_commit ops t'"
proof -
  obtain t where t: "op_begin ops s = Inr t" "holds t C" using begins[OF assms(1,2)] by blast
  then show ?thesis using assms(3) that
    by (cases "body (t, n)") (auto simp: transaction_def)
qed

lemma persist_candidates_ok:
  assumes "holds s C" "idle s" "works_valid C" "fresh_ids S n limit C" "list_all records_valid cs"
    and "persist_candidates ops S (s, n) cs = (res, (s', n'))" "n' \<le> limit"
  shows "case res of
      Inl e \<Rightarrow> s' = s
    | Inr ws \<Rightarrow> idle s' \<and> (\<exists>C'. holds s' C' \<and> works_valid C' \<and> catalog_extends C C' \<and> fresh_ids S n' limit C' \<and>
        list_all2 (\<lambda>c w. settled_as C' c (wo_id w)) cs ws)"
proof (cases "cs = []")
  case True
  then show ?thesis using assms by (auto simp: persist_candidates_def intro!: exI[of _ C])
next
  case False
  then have "transaction ops (s, n) (\<lambda>st. persist_all ops S st cs) = (res, (s', n'))"
    using assms(6) by (simp add: persist_candidates_def)
  then show ?thesis
  proof (rule transaction_cases[OF assms(1,2)])
    fix e assume "res = Inl e" "s' = s" "n' = n"
    then show ?thesis by simp
  next
    fix t ws t' assume t: "res = Inr ws" "holds t C" "persist_all ops S (t, n) cs = Inr (ws, (t', n'))" "s' = op_commit ops t'"
    show ?thesis using persist_all_ok[OF t(2) assms(3-5) t(3) assms(7)] commits t(1,4) by auto
  qed
qed

lemma persist_candidates_again:
  assumes "holds s C" "idle s" "works_valid C" "list_all records_valid cs"
    and "list_all (\<lambda>c. candidate_aliases c \<noteq> []) cs" "list_all2 (\<lambda>c w. settled_as C c (wo_id w)) cs ws"
  shows "\<exists>ws' st. persist_candidates ops S (s, n) cs = (Inr ws', st) \<and> map wo_id ws' = map wo_id ws"
proof (cases "cs = []")
  case True
  then show ?thesis using assms(6) by (simp add: persist_candidates_def)
next
  case False
  obtain t where t: "op_begin ops s = Inr t" "holds t C" using begins[OF assms(1,2)] by blast
  have "list_all2 (\<lambda>c u. settled_as C c u) cs (map wo_id ws)" using assms(6) by (simp add: list_all2_map2)
  then obtain ws' t' m where "persist_all ops S (t, n) cs = Inr (ws', (t', m))" "map wo_id ws' = map wo_id ws"
    using persist_all_again[OF t(2) assms(3-5)] by fastforce
  then show ?thesis using t(1) False by (simp add: persist_candidates_def transaction_def)
qed

text \<open>What enrichment stores.\<close>

lemma store_enrichment_ok:
  assumes "holds s C" "works_valid C" "mk_discovery_record r = Inr r" "store_enrichment ops S wid r (s, n) = Inr (w, (s', n'))"
  shows "\<exists>C' old. holds s' C' \<and> works_valid C' \<and> catalog_extends C C' \<and>
    wc_works C (uuid_str wid) = Some old \<and> work_kept old w \<and> wo_id w = wid \<and>
    list_all (\<lambda>a. \<exists>i. wc_ids C' (identifier_key (fst a) (snd a)) = Some i \<and> wi_work i = wid) (record_aliases r)"
proof -
  obtain old st t1 n1 where o: "wc_works C (uuid_str wid) = Some old"
      "save_records ops S (s, n) wid [r] = Inr st" "save_aliases ops S st wid (record_aliases r) = Inr (t1, n1)"
      "fill_missing_from_record old r = Inr w" "op_save_work ops t1 w = Inr s'"
    using assms(4) gets[OF assms(1), of wid]
    by (auto simp: store_enrichment_def res_simps simp del: save_records.simps split: option.splits)
  obtain t0 n0 where st: "st = (t0, n0)" by fastforce
  obtain D where D: "holds t0 D" "works_valid D" "catalog_extends C D" "wc_works D = wc_works C"
    using save_records_ok[OF assms(1,2) _ o(2)[unfolded st]] assms(3) by auto
  obtain E where E: "holds t1 E" "works_valid E" "catalog_extends D E" "wc_works E = wc_works D"
      "list_all (\<lambda>a. alias_valid a \<and> (\<exists>i. wc_ids E (identifier_key (fst a) (snd a)) = Some i \<and> wi_work i = wid)) (record_aliases r)"
    using save_aliases_ok[OF D(1,2) _ o(3)[unfolded st]] D(4) o(1) by auto
  note kept = enriched_kept[OF o(4)]
  have wid: "wo_id w = wid" using kept(1) stored_work[OF assms(2) o(1)] by (simp add: work_kept_def)
  have stored: "work_kept v w" if "wc_works E (uuid_str (wo_id w)) = Some v" for v
    using that kept(1) o(1) D(4) E(4) wid by simp
  note save = spec_save_work_keeps[OF E(2) kept(2) stored]
  have "holds s' (spec_save_work E w)" using saves_work[OF E(1) kept(2)] o(5) by auto
  moreover have "catalog_extends C (spec_save_work E w)"
    using D(3) E(3) save(2) catalog_extends_trans by blast
  moreover have "list_all (\<lambda>a. \<exists>i. wc_ids (spec_save_work E w) (identifier_key (fst a) (snd a)) = Some i \<and> wi_work i = wid) (record_aliases r)"
    using E(5) save(4) by (simp add: list_all_iff)
  ultimately show ?thesis using save(1) o(1) kept(1) wid by blast
qed

lemma doi_to_enrich_ok:
  assumes "holds s C" "doi_to_enrich ops wid (s, n) = Inr (doi, (s', n'))"
  shows "s' = s \<and> n' = n \<and> (\<exists>k i. wc_ids C k = Some i \<and> wi_work i = wid \<and> wi_scheme i = ''doi'' \<and> wi_value i = doi)"
proof -
  obtain xs where xs: "op_list_identifiers ops s wid = Inr xs" "set xs = {i. \<exists>k. wc_ids C k = Some i \<and> wi_work i = wid}"
    using lists[OF assms(1), of wid] by blast
  then obtain i where "find (\<lambda>i. wi_scheme i = ''doi'') xs = Some i" "wi_value i = doi" "s' = s" "n' = n"
    using assms(2) gets[OF assms(1), of wid] by (auto simp: doi_to_enrich_def res_simps split: option.splits)
  then show ?thesis using xs(2) find_Some_mem[of _ xs i] by blast
qed

lemma enrich_ok:
  assumes "holds s C" "idle s" "\<And>t. holds t C \<Longrightarrow> idle t \<Longrightarrow> holds (meanwhile t) C1 \<and> idle (meanwhile t)" "works_valid C1"
    and "\<And>doi r. lookup doi = Inr r \<Longrightarrow> mk_discovery_record r = Inr r"
    and "enrich_by_doi ops S lookup meanwhile (s, n) wid = (Inr w, (s', n'))"
  shows "\<exists>doi r k i. lookup doi = Inr r \<and> doi_of (dr_doi r) = Some doi \<and>
    wc_ids C k = Some i \<and> wi_work i = wid \<and> wi_scheme i = ''doi'' \<and> wi_value i = doi \<and>
    (\<exists>C' old. holds s' C' \<and> idle s' \<and> works_valid C' \<and> catalog_extends C1 C' \<and>
      wc_works C1 (uuid_str wid) = Some old \<and> work_kept old w \<and>
      list_all (\<lambda>a. \<exists>i. wc_ids C' (identifier_key (fst a) (snd a)) = Some i \<and> wi_work i = wid) (record_aliases r))"
proof -
  obtain doi s1 n1 r where e: "transaction ops (s, n) (doi_to_enrich ops wid) = (Inr doi, (s1, n1))"
      "lookup doi = Inr r" "doi_of (dr_doi r) = Some doi"
      "transaction ops (meanwhile s1, n1) (store_enrichment ops S wid r) = (Inr w, (s', n'))"
    using assms(6) by (auto simp: enrich_by_doi_def Let_def split: prod.splits sum.splits if_splits)
  obtain t t' where t: "holds t C" "doi_to_enrich ops wid (t, n) = Inr (doi, (t', n1))" "s1 = op_commit ops t'"
    by (rule transaction_cases[OF assms(1,2) e(1)]) auto
  note doi = doi_to_enrich_ok[OF t(1,2)]
  have m: "holds (meanwhile s1) C1" "idle (meanwhile s1)" using commits t(1,3) doi assms(3) by auto
  obtain u u' where u: "holds u C1" "store_enrichment ops S wid r (u, n1) = Inr (w, (u', n'))" "s' = op_commit ops u'"
    by (rule transaction_cases[OF m e(4)]) auto
  show ?thesis
    using store_enrichment_ok[OF u(1) assms(4) assms(5)[OF e(2)] u(2)] e(2,3) doi commits u(3) by blast
qed

text \<open>Identifiers of different works.\<close>

lemma persist_conflict_ok:
  assumes "holds s C" "idle s" "works_valid C" "a \<in> set (candidate_aliases c)" "b \<in> set (candidate_aliases c)"
    and "spec_find C (fst a) (snd a) = Some u" "spec_find C (fst b) (snd b) = Some v" "wo_id u \<noteq> wo_id v"
  shows "persist_candidates ops S (s, n) [c] =
    (Inl (identity_conflict ''candidate identifiers resolve to multiple canonical Works''), (s, n))"
proof -
  obtain t where t: "op_begin ops s = Inr t" "holds t C" using begins[OF assms(1,2)] by blast
  have ok: "catalog_ok C" using assms(3) by (simp add: works_valid_def)
  obtain m where m: "match_aliases ops t (candidate_aliases c) [] = Inr m" "distinct (map fst m)"
      "fst ` set m = (\<Union>a \<in> set (candidate_aliases c). wo_id ` set_option (spec_find C (fst a) (snd a)))"
    using match_aliases_ok[OF t(2) ok, of "[]" "candidate_aliases c"] by auto
  have "wo_id u \<in> fst ` set m" "wo_id v \<in> fst ` set m" using m(3) assms(4-7) by force+
  then have "{wo_id u, wo_id v} \<subseteq> set (map fst m)" by auto
  then have "card {wo_id u, wo_id v} \<le> length m" by (metis card_length card_mono finite_set le_trans length_map)
  then have "\<not> length m \<le> 1" using assms(8) by simp
  then show ?thesis using t(1) m(1)
    by (simp add: persist_candidates_def transaction_def persist_candidate_def Let_def)
qed

end

section \<open>The service over the JSON catalogue\<close>



text \<open>A candidate whose identifiers belong to different works is refused, and nothing is written.\<close>

theorem works_conflict:
  assumes "works_hold K r C" "rp_transaction r = None" "works_valid C"
    and "a \<in> set (candidate_aliases c)" "spec_find C (fst a) (snd a) = Some u"
    and "b \<in> set (candidate_aliases c)" "spec_find C (fst b) (snd b) = Some v" "wo_id u \<noteq> wo_id v"
  shows "persist_candidates (json_works K) S (r, n) [c] =
    (Inl (identity_conflict ''candidate identifiers resolve to multiple canonical Works''), (r, n))"
  by (rule json_store.persist_conflict_ok[OF assms(1-4,6,5,7,8)])


section \<open>Concrete catalogues\<close>

definition sample_supplies :: supplies where
  "sample_supplies = \<lparr>su_ids = (\<lambda>n. of_nat n), su_now = (\<lambda>n. Aware (int n) 0)\<rparr>"

definition sample_discovery :: discovery_record where
  "sample_discovery = \<lparr>dr_provider = ''crossref'', dr_provider_id = ''1'', dr_title = ''T'', dr_year = None,
    dr_doi = Some ''10.1234/ab.c'', dr_abstract = None, dr_landing_page = None, dr_open_access = None,
    dr_cited_by = None, dr_external_ids = [], dr_metadata = []\<rparr>"

definition sample_candidate :: work_candidate where
  "sample_candidate = \<lparr>ca_key = ''doi:10.1234/ab.c'', ca_title = ''T'', ca_year = None,
    ca_doi = Some ''10.1234/ab.c'', ca_records = [sample_discovery], ca_external_ids = []\<rparr>"

definition sample_work :: "uuid \<Rightarrow> work" where
  "sample_work u = \<lparr>wo_id = u, wo_title = ''T'', wo_type = ''unknown'', wo_language = None, wo_external_ids = [],
    wo_year = None, wo_abstract = None, wo_venue = None, wo_created_at = Aware 0 0\<rparr>"

definition sample_identifier :: "uuid \<Rightarrow> pystr \<Rightarrow> pystr \<Rightarrow> work_identifier" where
  "sample_identifier u scheme value =
    \<lparr>wi_id = 0, wi_work = u, wi_scheme = scheme, wi_value = value, wi_created_at = Aware 0 0\<rparr>"

lemma sample_texts: "strip ''crossref'' = ''crossref''" "strip ''1'' = ''1''" "strip ''doi'' = ''doi''" "strip ''T'' = ''T''"
  "lower ''crossref'' = ''crossref''" "lower ''doi'' = ''doi''"
  by code_simp+

lemma sample_texts_filled: "\<not> blank ''crossref''" "\<not> blank ''1''" "\<not> blank ''doi''" "\<not> blank ''T''" "\<not> blank ''10.1234/ab.c''"
  by (simp_all add: blank_def sample_texts sample_strip)

lemma sample_doi_of: "doi_of (Some ''10.1234/ab.c'') = Some ''10.1234/ab.c''"
  by (simp add: doi_of_def jopt_def try_normalize_doi_def sample_texts_filled sample_canonical_doi)

lemma sample_alias: "record_aliases sample_discovery = [(''crossref'', ''1'')]"
  "candidate_aliases sample_candidate = [(''doi'', ''10.1234/ab.c''), (''crossref'', ''1'')]"
  by (simp_all add: candidate_aliases_def record_aliases_def sample_candidate_def sample_discovery_def alias_of_def
      normalized_alias_value_def sample_texts sample_doi_of del: lower.simps)

lemma sample_valid: "mk_discovery_record sample_discovery = Inr sample_discovery" "records_valid sample_candidate"
  "mk_work (sample_work u) = Inr (sample_work u)" "alias_valid (''doi'', ''10.1234/ab.c'')" "alias_valid (''crossref'', ''1'')"
  "mk_work_identifier (sample_identifier u ''doi'' ''10.1234/ab.c'') = Inr (sample_identifier u ''doi'' ''10.1234/ab.c'')"
  "mk_work_identifier (sample_identifier u ''crossref'' ''1'') = Inr (sample_identifier u ''crossref'' ''1'')"
  by (simp_all add: mk_discovery_record_def sample_discovery_def records_valid_def sample_candidate_def mk_work_def
      sample_work_def alias_valid_def mk_work_identifier_def sample_identifier_def sample_texts_filled)

lemma sample_keys: "identifier_key ''doi'' ''10.1234/ab.c'' = ''doi:10.1234/ab.c''" "identifier_key ''crossref'' ''1'' = ''crossref:1''"
  by (simp_all add: identifier_key_def sample_texts sample_strip del: lower.simps)

lemma sample_start: "works_hold K (open_works Missing) no_works" "works_valid no_works"
    "fresh_ids sample_supplies 0 4 no_works" "rp_transaction (open_works Missing) = None"
proof -
  have "inj_on (su_ids sample_supplies) {0..<4}"
  proof -
    have "{0..<4} = {0, 1, 2, 3 :: nat}" by auto
    then show ?thesis by (simp add: sample_supplies_def)
  qed
  then show "fresh_ids sample_supplies 0 4 no_works" by (simp add: fresh_ids_def no_works_def)
qed (use open_works_holds in \<open>auto simp: works_valid_def no_works_def open_works_def\<close>)

lemma sample_records: "ca_records sample_candidate = [sample_discovery]"
  by (simp add: sample_candidate_def)

lemma sample_persisted:
  "\<exists>ws r'. persist_candidates (json_works no_coercions) sample_supplies (open_works Missing, 0) [sample_candidate] = (Inr ws, (r', 4))"
proof -
  obtain t where t: "op_begin (json_works no_coercions) (open_works Missing) = Inr t" "works_hold no_coercions t no_works"
    using json_store.begins[OF sample_start(1,4)] by blast
  obtain w where w: "new_work sample_supplies 0 sample_candidate = Inr w"
    by (auto simp: new_work_def mk_work_def sample_candidate_def sample_texts_filled)
  obtain u m where p: "persist_candidate (json_works no_coercions) sample_supplies (t, 0) sample_candidate = Inr (w, (u, m))"
    using json_store.persist_candidate_new[OF t(2) sample_start(2) _ sample_valid(2) _ _ w] sample_valid(4,5)
    by (auto simp: no_works_def sample_alias list_all_iff)
  then have "m = 4"
    by (auto simp: persist_candidate_def Let_def res_simps sample_alias sample_records
        simp del: save_aliases.simps save_records.simps dest!: save_aliases_count save_records_count)
  then show ?thesis using t(1) p by (simp add: persist_candidates_def transaction_def)
qed



text \<open>A catalogue with two works, and one with the DOI of a work.\<close>

lemma sample_two_works:
  "\<exists>r C. works_hold no_coercions r C \<and> rp_transaction r = None \<and> works_valid C \<and>
    spec_find C ''doi'' ''10.1234/ab.c'' = Some (sample_work 1) \<and> spec_find C ''crossref'' ''1'' = Some (sample_work 2)"
proof -
  let ?C = "\<lparr>wc_works = [uuid_str 1 \<mapsto> sample_work 1, uuid_str 2 \<mapsto> sample_work 2],
    wc_ids = [''doi:10.1234/ab.c'' \<mapsto> sample_identifier 1 ''doi'' ''10.1234/ab.c'',
      ''crossref:1'' \<mapsto> sample_identifier 2 ''crossref'' ''1''], wc_records = Map.empty\<rparr>"
  let ?i = "sample_identifier 1 ''doi'' ''10.1234/ab.c''" and ?j = "sample_identifier 2 ''crossref'' ''1''"
  let ?h = "works_hold no_coercions" and ?ops = "json_works no_coercions"
  have ne: "uuid_str 1 \<noteq> uuid_str 2" by (simp add: uuid_str_inject)
  obtain t where t: "op_begin ?ops (open_works Missing) = Inr t" "?h t no_works"
    using json_store.begins[OF sample_start(1,4)] by blast
  obtain a where a: "?h a (spec_save_work no_works (sample_work 1))"
    using json_store.saves_work[OF t(2) sample_valid(3)] by blast
  obtain b where b: "?h b (spec_save_work (spec_save_work no_works (sample_work 1)) (sample_work 2))"
    using json_store.saves_work[OF a sample_valid(3)] by blast
  let ?D = "spec_save_work (spec_save_work no_works (sample_work 1)) (sample_work 2)"
  have D: "wc_works ?D = wc_works ?C" "wc_ids ?D = Map.empty" "wc_records ?D = Map.empty"
    using ne by (auto simp: spec_save_work_def no_works_def sample_work_def Let_def)
  have i: "spec_save_identifier ?D ?i = Some (?D\<lparr>wc_ids := [''doi:10.1234/ab.c'' \<mapsto> ?i]\<rparr>)"
    using D(2) by (simp add: spec_save_identifier_def sample_identifier_def sample_keys)
  then obtain c where c: "?h c (?D\<lparr>wc_ids := [''doi:10.1234/ab.c'' \<mapsto> ?i]\<rparr>)"
    using json_store.saves_identifier[OF b sample_valid(6)[of 1]] by auto
  have "spec_save_identifier (?D\<lparr>wc_ids := [''doi:10.1234/ab.c'' \<mapsto> ?i]\<rparr>) ?j = Some ?C"
    using D by (simp add: spec_save_identifier_def sample_identifier_def sample_keys)
  then obtain d where d: "?h d ?C"
    using json_store.saves_identifier[OF c sample_valid(7)[of 2]] by auto
  have v: "works_valid ?C"
    using sample_valid(3) ne by (auto simp: works_valid_def catalog_ok_def sample_work_def sample_identifier_def sample_keys)
  have f: "spec_find ?C ''doi'' ''10.1234/ab.c'' = Some (sample_work 1)" "spec_find ?C ''crossref'' ''1'' = Some (sample_work 2)"
    using ne by (simp_all add: spec_find_def sample_keys sample_identifier_def)
  show ?thesis using json_store.commits[OF d] v f by blast
qed

theorem works_conflict_witness:
  "\<exists>r. persist_candidates (json_works no_coercions) sample_supplies (r, 0) [sample_candidate] =
    (Inl (identity_conflict ''candidate identifiers resolve to multiple canonical Works''), (r, 0))"
proof -
  obtain r C where r: "works_hold no_coercions r C" "rp_transaction r = None" "works_valid C"
    "spec_find C ''doi'' ''10.1234/ab.c'' = Some (sample_work 1)" "spec_find C ''crossref'' ''1'' = Some (sample_work 2)"
    using sample_two_works by blast
  show ?thesis
    using works_conflict[OF r(1-3), of "(''doi'', ''10.1234/ab.c'')" sample_candidate "sample_work 1" "(''crossref'', ''1'')" "sample_work 2"]
      r(4,5) by (auto simp: sample_alias sample_work_def)
qed

lemma find_singleton: "set xs = {x} \<Longrightarrow> P x \<Longrightarrow> find P xs = Some x"
  by (induction xs) (auto split: if_splits)

lemma sample_one_work:
  "\<exists>r C. works_hold no_coercions r C \<and> rp_transaction r = None \<and> works_valid C \<and>
    C = \<lparr>wc_works = [uuid_str 1 \<mapsto> sample_work 1],
      wc_ids = [''doi:10.1234/ab.c'' \<mapsto> sample_identifier 1 ''doi'' ''10.1234/ab.c''], wc_records = Map.empty\<rparr>"
proof -
  let ?i = "sample_identifier 1 ''doi'' ''10.1234/ab.c''"
  let ?C = "\<lparr>wc_works = [uuid_str 1 \<mapsto> sample_work 1], wc_ids = [''doi:10.1234/ab.c'' \<mapsto> ?i], wc_records = Map.empty\<rparr>"
  obtain t where t: "op_begin (json_works no_coercions) (open_works Missing) = Inr t" "works_hold no_coercions t no_works"
    using json_store.begins[OF sample_start(1,4)] by blast
  obtain a where a: "works_hold no_coercions a (spec_save_work no_works (sample_work 1))"
    using json_store.saves_work[OF t(2) sample_valid(3)] by blast
  have "spec_save_identifier (spec_save_work no_works (sample_work 1)) ?i = Some ?C"
    by (simp add: spec_save_identifier_def spec_save_work_def no_works_def sample_identifier_def sample_keys)
      (simp add: sample_work_def)
  then obtain d where d: "works_hold no_coercions d ?C"
    using json_store.saves_identifier[OF a sample_valid(6)[of 1]] by auto
  have "works_valid ?C"
    using sample_valid(3) by (auto simp: works_valid_def catalog_ok_def sample_work_def sample_identifier_def sample_keys)
  then show ?thesis using json_store.commits[OF d] by blast
qed

lemma sample_enriched:
  assumes r: "works_hold no_coercions r C" "rp_transaction r = None" "works_valid C"
    and C: "C = \<lparr>wc_works = [uuid_str 1 \<mapsto> sample_work 1],
      wc_ids = [''doi:10.1234/ab.c'' \<mapsto> sample_identifier 1 ''doi'' ''10.1234/ab.c''], wc_records = Map.empty\<rparr>"
  shows "\<exists>w st. enrich_by_doi (json_works no_coercions) sample_supplies (\<lambda>_. Inr sample_discovery) id (r, 0) 1 = (Inr w, st)"
proof -
  let ?ops = "json_works no_coercions" and ?h = "works_hold no_coercions" and ?S = sample_supplies
  obtain t where t: "op_begin ?ops r = Inr t" "?h t C" using json_store.begins[OF r(1,2)] by blast
  obtain xs where xs: "op_list_identifiers ?ops t 1 = Inr xs" "set xs = {i. \<exists>k. wc_ids C k = Some i \<and> wi_work i = 1}"
    using json_store.lists[OF t(2)] by blast
  then have "set xs = {sample_identifier 1 ''doi'' ''10.1234/ab.c''}" by (auto simp: C sample_identifier_def)
  then have f: "find (\<lambda>i. wi_scheme i = ''doi'') xs = Some (sample_identifier 1 ''doi'' ''10.1234/ab.c'')"
    by (rule find_singleton) (simp add: sample_identifier_def)
  have one: "transaction ?ops (r, 0) (doi_to_enrich ?ops 1) = (Inr ''10.1234/ab.c'', (op_commit ?ops t, 0))"
    using t(1) xs(1) f json_store.gets[OF t(2), of 1]
    by (simp add: transaction_def doi_to_enrich_def C) (simp add: sample_identifier_def)
  obtain u where u: "op_begin ?ops (op_commit ?ops t) = Inr u" "?h u C"
    using json_store.begins json_store.commits[OF t(2)] by blast
  have valid: "list_all (\<lambda>r. mk_discovery_record r = Inr r) [sample_discovery]" by (simp add: sample_valid)
  obtain v n where v: "save_records ?ops ?S (u, 0) 1 [sample_discovery] = Inr (v, n)"
    using json_store.save_records_free[OF u(2) r(3) valid, of 1 ?S 0] by (auto simp: C)
  obtain D where D: "?h v D" "works_valid D" "wc_works D = wc_works C" "wc_ids D = wc_ids C"
    using json_store.save_records_ok[OF u(2) r(3) valid v] by blast
  have free: "list_all (\<lambda>a. alias_valid a \<and> pred_option (\<lambda>i. wi_work i = 1) (wc_ids D (identifier_key (fst a) (snd a))))
      (record_aliases sample_discovery)"
    using D(4) by (simp add: sample_alias sample_valid sample_keys C)
  obtain x m E where x: "save_aliases ?ops ?S (v, n) 1 (record_aliases sample_discovery) = Inr (x, m)" "?h x E"
    using json_store.save_aliases_free[OF D(1,2) _ free, of ?S n] D(3) by (auto simp: C)
  have "\<exists>w. fill_missing_from_record (sample_work 1) sample_discovery = Inr w"
    unfolding fill_missing_from_record_def
    by (rule exI, rule iffD2[OF mk_work_year])
      (simp add: sample_work_def sample_discovery_def sample_texts_filled or_year_def year_ok_def)
  then obtain w where w: "fill_missing_from_record (sample_work 1) sample_discovery = Inr w" by blast
  obtain y where "op_save_work ?ops x w = Inr y"
    using json_store.saves_work[OF x(2) enriched_kept(2)[OF w]] by blast
  then have "store_enrichment ?ops ?S 1 sample_discovery (u, 0) = Inr (w, (y, m))"
    using json_store.gets[OF u(2), of 1] v x(1) w by (simp add: store_enrichment_def C del: save_records.simps save_aliases.simps)
  then show ?thesis using one u(1) sample_doi_of
    by (simp add: enrich_by_doi_def transaction_def Let_def) (simp add: sample_discovery_def)
qed


end
