(* ===== verification/Documents.thy ===== *)
theory Documents imports PyCoerce "HOL-Library.Product_Lexorder" "HOL-Library.Multiset" begin

text \<open>
  Normalised documents: the records of \<open>domain/source_artifacts.py\<close> and \<open>domain/models.py\<close>, and
  \<open>domain/document_structure.py\<close>, which checks that the sections of a document form a forest and lists
  them parents first. A constructor checks what it is given; the checks across sections are made before
  a document is stored and after it is read.
\<close>

section \<open>Records\<close>

record figure =
  fg_id :: uuid
  fg_document :: uuid
  fg_ordinal :: int
  fg_page :: "int option"
  fg_label :: "pystr option"
  fg_caption :: "pystr option"
  fg_type :: pystr

record doc_table =
  tb_id :: uuid
  tb_document :: uuid
  tb_ordinal :: int
  tb_page :: "int option"
  tb_label :: "pystr option"
  tb_caption :: "pystr option"
  tb_rows :: "int option"
  tb_columns :: "int option"

record equation =
  eq_id :: uuid
  eq_document :: uuid
  eq_ordinal :: int
  eq_page :: "int option"
  eq_label :: "pystr option"
  eq_source :: "pystr option"

definition at_least :: "int \<Rightarrow> int option \<Rightarrow> bool" where
  "at_least n x = (case x of None \<Rightarrow> True | Some v \<Rightarrow> n \<le> v)"

definition filled :: "pystr option \<Rightarrow> bool" where
  "filled x = (case x of None \<Rightarrow> True | Some v \<Rightarrow> \<not> blank v)"

definition mk_figure :: "figure \<Rightarrow> exc + figure" where
  "mk_figure f =
    bindE (check (0 \<le> fg_ordinal f) (ValueError ''figure ordinal must be non-negative'')) (\<lambda>_.
    bindE (check (at_least 1 (fg_page f)) (ValueError ''figure page_number must be positive when provided'')) (\<lambda>_.
    bindE (check (filled (fg_label f)) (ValueError ''figure label must not be blank when provided'')) (\<lambda>_.
    bindE (check (filled (fg_caption f)) (ValueError ''figure caption must not be blank when provided'')) (\<lambda>_.
    bindE (check (\<not> blank (fg_type f)) (ValueError ''figure type must not be blank'')) (\<lambda>_.
    Inr f)))))"

definition mk_table :: "doc_table \<Rightarrow> exc + doc_table" where
  "mk_table t =
    bindE (check (0 \<le> tb_ordinal t) (ValueError ''table ordinal must be non-negative'')) (\<lambda>_.
    bindE (check (at_least 1 (tb_page t)) (ValueError ''table page_number must be positive when provided'')) (\<lambda>_.
    bindE (check (filled (tb_label t)) (ValueError ''table label must not be blank when provided'')) (\<lambda>_.
    bindE (check (filled (tb_caption t)) (ValueError ''table caption must not be blank when provided'')) (\<lambda>_.
    bindE (check (at_least 0 (tb_rows t)) (ValueError ''table row_count must be non-negative when provided'')) (\<lambda>_.
    bindE (check (at_least 0 (tb_columns t)) (ValueError ''table column_count must be non-negative when provided'')) (\<lambda>_.
    Inr t))))))"

definition mk_equation :: "equation \<Rightarrow> exc + equation" where
  "mk_equation e =
    bindE (check (0 \<le> eq_ordinal e) (ValueError ''equation ordinal must be non-negative'')) (\<lambda>_.
    bindE (check (at_least 1 (eq_page e)) (ValueError ''equation page_number must be positive when provided'')) (\<lambda>_.
    bindE (check (filled (eq_label e)) (ValueError ''equation label must not be blank when provided'')) (\<lambda>_.
    bindE (check (filled (eq_source e)) (ValueError ''equation source_text must not be blank when provided'')) (\<lambda>_.
    Inr e))))"

record passage =
  pg_id :: uuid
  pg_document :: uuid
  pg_section :: uuid
  pg_ordinal :: int
  pg_text :: pystr
  pg_start :: int
  pg_end :: int

definition mk_passage :: "passage \<Rightarrow> exc + passage" where
  "mk_passage p =
    bindE (check (0 \<le> pg_ordinal p) (ValueError ''passage ordinal must be non-negative'')) (\<lambda>_.
    bindE (check (0 \<le> pg_start p \<and> pg_start p \<le> pg_end p) (ValueError ''invalid passage character range'')) (\<lambda>_.
    bindE (check (pg_end p - pg_start p = int (char_count (pg_text p)))
             (ValueError ''passage character range must match text length'')) (\<lambda>_.
    Inr p)))"

record doc_section =
  se_id :: uuid
  se_document :: uuid
  se_ordinal :: int
  se_title :: pystr
  se_level :: int
  se_parent :: "uuid option"
  se_passages :: "passage list"

definition mk_section :: "doc_section \<Rightarrow> exc + doc_section" where
  "mk_section s =
    bindE (check (0 \<le> se_ordinal s) (ValueError ''section ordinal must be non-negative'')) (\<lambda>_.
    bindE (check (1 \<le> se_level s) (ValueError ''section level must be >= 1'')) (\<lambda>_.
    bindE (check (list_all (\<lambda>p. pg_document p = se_document s \<and> pg_section p = se_id s) (se_passages s))
             (ValueError ''passage does not belong to section/document'')) (\<lambda>_.
    Inr s)))"

record doc =
  dc_id :: uuid
  dc_artifact :: uuid
  dc_title :: pystr
  dc_parser_name :: pystr
  dc_parser_version :: pystr
  dc_sections :: "doc_section list"
  dc_figures :: "figure list"
  dc_tables :: "doc_table list"
  dc_equations :: "equation list"
  dc_normalized_at :: datetime

definition artifact_contract :: "pystr \<Rightarrow> ('a \<Rightarrow> uuid) \<Rightarrow> ('a \<Rightarrow> int) \<Rightarrow> 'a list \<Rightarrow> exc + unit" where
  "artifact_contract name ident ordinal xs =
    bindE (check (distinct (map ident xs)) (ValueError (''document '' @ name @ '' IDs must be unique''))) (\<lambda>_.
    check (distinct (map ordinal xs)) (ValueError (''document '' @ name @ '' ordinals must be unique'')))"

definition mk_document :: "doc \<Rightarrow> exc + doc" where
  "mk_document d =
    bindE (check (\<not> blank (dc_parser_name d) \<and> \<not> blank (dc_parser_version d))
             (ValueError ''parser name/version must not be blank'')) (\<lambda>_.
    bindE (check (list_all (\<lambda>s. se_document s = dc_id d) (dc_sections d))
             (ValueError ''section does not belong to document'')) (\<lambda>_.
    bindE (check (list_all (\<lambda>f. fg_document f = dc_id d) (dc_figures d))
             (ValueError ''figure does not belong to document'')) (\<lambda>_.
    bindE (check (list_all (\<lambda>t. tb_document t = dc_id d) (dc_tables d))
             (ValueError ''table does not belong to document'')) (\<lambda>_.
    bindE (check (list_all (\<lambda>e. eq_document e = dc_id d) (dc_equations d))
             (ValueError ''equation does not belong to document'')) (\<lambda>_.
    bindE (artifact_contract ''figure'' fg_id fg_ordinal (dc_figures d)) (\<lambda>_.
    bindE (artifact_contract ''table'' tb_id tb_ordinal (dc_tables d)) (\<lambda>_.
    bindE (artifact_contract ''equation'' eq_id eq_ordinal (dc_equations d)) (\<lambda>_.
    Inr d))))))))"

section \<open>The forest of sections\<close>

text \<open>\<open>DocumentStructureError\<close>, a \<open>ValueError\<close> with a code.\<close>

definition structure_error :: "pystr \<Rightarrow> exc" where
  "structure_error err = OtherError ''DocumentStructureError'' err"

text \<open>The loop over the passages: identifiers are unique in the document, ordinals in their section.\<close>

fun check_passages :: "uuid list \<Rightarrow> int list \<Rightarrow> passage list \<Rightarrow> exc + uuid list" where
  "check_passages ids ordinals [] = Inr ids"
| "check_passages ids ordinals (p # ps) =
    bindE (check (pg_id p \<notin> set ids) (structure_error ''duplicate_passage_ids'')) (\<lambda>_.
    bindE (check (pg_ordinal p \<notin> set ordinals) (structure_error ''duplicate_passage_ordinals'')) (\<lambda>_.
    check_passages (pg_id p # ids) (pg_ordinal p # ordinals) ps))"

fun check_sections :: "uuid list \<Rightarrow> doc_section list \<Rightarrow> exc + unit" where
  "check_sections ids [] = Inr ()"
| "check_sections ids (s # ss) = bindE (check_passages ids [] (se_passages s)) (\<lambda>ids'. check_sections ids' ss)"

definition section_order_key :: "doc_section \<Rightarrow> int \<times> pystr" where
  "section_order_key s = (se_ordinal s, uuid_str (se_id s))"

text \<open>
  \<open>sorted(xs, key=_section_order_key, reverse=True)\<close>, pushed on a stack whose top is its last element:
  the order in which the elements are popped. A reverse sort keeps the order of equal elements.
\<close>

definition pop_order :: "doc_section list \<Rightarrow> doc_section list" where
  "pop_order xs = sort_key section_order_key (rev xs)"

definition roots_of :: "doc_section list \<Rightarrow> doc_section list" where
  "roots_of ss = filter (\<lambda>s. se_parent s = None) ss"

definition children_of :: "doc_section list \<Rightarrow> doc_section \<Rightarrow> doc_section list" where
  "children_of ss s = filter (\<lambda>c. se_parent c = Some (se_id s)) ss"

text \<open>The loop over the stack, which is written top first.\<close>

partial_function (option) order_sections :: "doc_section list \<Rightarrow> doc_section list \<Rightarrow> doc_section list \<Rightarrow> doc_section list option" where
  "order_sections ss stack ordered =
    (case stack of
       [] \<Rightarrow> Some ordered
     | s # rest \<Rightarrow> order_sections ss (pop_order (children_of ss s) @ rest) (ordered @ [s]))"

text \<open>\<open>_validated_parent_first_sections\<close>; \<open>None\<close> if it did not return.\<close>

definition validated_parent_first :: "doc \<Rightarrow> (exc + doc_section list) option" where
  "validated_parent_first d =
    (let ss = dc_sections d in
     case bindE (check (distinct (map se_id ss) \<and> distinct (map se_ordinal ss)) (structure_error ''duplicate_sections'')) (\<lambda>_.
          bindE (check_sections [] ss) (\<lambda>_.
          check (list_all (\<lambda>s. case se_parent s of None \<Rightarrow> True | Some p \<Rightarrow> p \<in> set (map se_id ss)) ss)
            (structure_error ''missing_parent''))) of
       Inl e \<Rightarrow> Some (Inl e)
     | Inr _ \<Rightarrow>
         map_option (\<lambda>ordered.
             bindE (check (length ordered = length ss) (structure_error ''cyclic_parent'')) (\<lambda>_. Inr ordered))
           (order_sections ss (pop_order (roots_of ss)) []))"

definition document_sections_parent_first :: "doc \<Rightarrow> (exc + doc_section list) option" where
  "document_sections_parent_first d = validated_parent_first d"

text \<open>
  \<open>validate_document_structure\<close>, for callers that need its result: that it always returns is shown
  below, so the last line is never taken.
\<close>

definition validate_document_structure :: "doc \<Rightarrow> exc + unit" where
  "validate_document_structure d =
    (case validated_parent_first d of
       Some r \<Rightarrow> mapE (\<lambda>_. ()) r
     | None \<Rightarrow> Inl (OtherError ''no result'' []))"

section \<open>The order of the stack\<close>

lemma set_pop_order [simp]: "set (pop_order xs) = set xs"
  by (simp add: pop_order_def)

lemma distinct_pop_order [simp]: "distinct (pop_order xs) = distinct xs"
  by (simp add: pop_order_def)

lemma sorted_pop_order: "sorted (map section_order_key (pop_order xs))"
  by (simp add: pop_order_def)

lemma order_sections_simps [simp]:
  "order_sections ss [] ordered = Some ordered"
  "order_sections ss (s # rest) ordered = order_sections ss (pop_order (children_of ss s) @ rest) (ordered @ [s])"
  by (subst order_sections.simps, simp)+

lemma order_sections_induct [consumes 1, case_names Nil Cons]:
  assumes "order_sections ss stack ordered = Some out"
    and nil: "\<And>ordered. P [] ordered ordered"
    and cons: "\<And>s rest ordered out.
      order_sections ss (pop_order (children_of ss s) @ rest) (ordered @ [s]) = Some out \<Longrightarrow>
      P (pop_order (children_of ss s) @ rest) (ordered @ [s]) out \<Longrightarrow> P (s # rest) ordered out"
  shows "P stack ordered out"
proof -
  have "ss' = ss \<longrightarrow> order_sections ss stack ordered = Some out \<and> P stack ordered out"
    if "order_sections ss' stack ordered = Some out" for ss' stack ordered out
  proof (rule order_sections.raw_induct[OF _ that,
        where P = "\<lambda>ss' stack ordered out. ss' = ss \<longrightarrow> order_sections ss stack ordered = Some out \<and> P stack ordered out"])
    fix f :: "doc_section list \<Rightarrow> doc_section list \<Rightarrow> doc_section list \<Rightarrow> doc_section list option" and ss' stack ordered out
    assume IH: "\<And>ss' stack ordered out. f ss' stack ordered = Some out \<Longrightarrow>
        ss' = ss \<longrightarrow> order_sections ss stack ordered = Some out \<and> P stack ordered out"
      and f: "(case stack of [] \<Rightarrow> Some ordered
        | s # rest \<Rightarrow> f ss' (pop_order (children_of ss' s) @ rest) (ordered @ [s])) = Some out"
    show "ss' = ss \<longrightarrow> order_sections ss stack ordered = Some out \<and> P stack ordered out"
    proof (cases stack)
      case (Cons s rest)
      with f have "f ss' (pop_order (children_of ss' s) @ rest) (ordered @ [s]) = Some out" by simp
      from IH[OF this] Cons cons show ?thesis by auto
    qed (use f nil in auto)
  qed
  with assms(1) show ?thesis by blast
qed

text \<open>What was ordered before does not matter, and a stack is worked off element by element.\<close>

lemma order_sections_prefix:
  "order_sections ss stack ordered = Some out \<Longrightarrow>
    \<exists>z. out = ordered @ z \<and> (\<forall>o'. order_sections ss stack o' = Some (o' @ z))"
proof (induction rule: order_sections_induct)
  case (Cons s rest ordered out)
  then show ?case by fastforce
qed simp

lemma order_sections_append:
  "order_sections ss stack ordered = Some out \<Longrightarrow> stack = a @ b \<Longrightarrow>
    \<exists>x y. order_sections ss a [] = Some x \<and> order_sections ss b [] = Some y \<and> out = ordered @ x @ y"
proof (induction arbitrary: a rule: order_sections_induct)
  case (Cons s rest ordered out)
  show ?case
  proof (cases a)
    case Nil
    with Cons.prems Cons.hyps show ?thesis
      using order_sections_prefix[of ss "s # rest" ordered out] by fastforce
  next
    case (Cons s' a')
    then have "s' = s" "pop_order (children_of ss s) @ rest = (pop_order (children_of ss s) @ a') @ b"
      using Cons.prems by auto
    then obtain x y where x: "order_sections ss (pop_order (children_of ss s) @ a') [] = Some x"
      "order_sections ss b [] = Some y" "out = (ordered @ [s]) @ x @ y"
      using Cons.IH by metis
    from order_sections_prefix[OF x(1)] x show ?thesis using \<open>a = s' # a'\<close> \<open>s' = s\<close> by auto
  qed
qed simp

text \<open>The sections that one section of a stack contributes: itself, then those of its children.\<close>

definition subtree :: "doc_section list \<Rightarrow> doc_section \<Rightarrow> doc_section list" where
  "subtree ss s = the (order_sections ss [s] [])"

lemma order_sections_subtrees:
  "order_sections ss stack ordered = Some out \<Longrightarrow> out = ordered @ concat (map (subtree ss) stack)"
proof (induction stack arbitrary: ordered out)
  case (Cons s rest)
  obtain x y where x: "order_sections ss [s] [] = Some x" "order_sections ss rest [] = Some y" "out = ordered @ x @ y"
    using order_sections_append[OF Cons.prems, of "[s]" rest] by auto
  show ?case using Cons.IH[OF x(2)] x by (simp add: subtree_def)
qed simp

lemma subtree_step:
  "order_sections ss stack ordered = Some out \<Longrightarrow> s \<in> set stack \<Longrightarrow>
    subtree ss s = s # concat (map (subtree ss) (pop_order (children_of ss s)))"
proof -
  assume o: "order_sections ss stack ordered = Some out" and "s \<in> set stack"
  then obtain a b where ab: "stack = a @ [s] @ b" by (metis append_Cons append_Nil split_list)
  obtain y where y: "order_sections ss ([s] @ b) [] = Some y"
    using order_sections_append[OF o ab] by blast
  obtain x where x: "order_sections ss [s] [] = Some x"
    using order_sections_append[OF y refl] by blast
  then have "order_sections ss (pop_order (children_of ss s)) [s] = Some x" by simp
  from order_sections_subtrees[OF this] x show ?thesis by (simp add: subtree_def)
qed

lemma subtree_steps:
  "order_sections ss stack ordered = Some out \<Longrightarrow> s \<in> set out - set ordered \<Longrightarrow>
    subtree ss s = s # concat (map (subtree ss) (pop_order (children_of ss s)))"
proof (induction rule: order_sections_induct)
  case (Cons s' rest ordered out)
  show ?case
  proof (cases "s = s'")
    case True
    have "order_sections ss (s' # rest) ordered = Some out" using Cons.hyps by simp
    from subtree_step[OF this] True show ?thesis by simp
  qed (use Cons in auto)
qed simp

section \<open>The search reaches the forest\<close>

text \<open>\<open>(t, s)\<close>: the section \<open>s\<close> is the parent of \<open>t\<close>.\<close>

definition parent_of :: "doc_section list \<Rightarrow> (doc_section \<times> doc_section) set" where
  "parent_of ss = {(t, s). t \<in> set ss \<and> s \<in> set ss \<and> se_parent t = Some (se_id s)}"

fun parents_first :: "uuid set \<Rightarrow> doc_section list \<Rightarrow> bool" where
  "parents_first seen [] = True"
| "parents_first seen (s # ss) =
    ((case se_parent s of None \<Rightarrow> True | Some p \<Rightarrow> p \<in> seen) \<and> parents_first (insert (se_id s) seen) ss)"

lemma parents_first_append:
  "parents_first seen (xs @ ys) \<longleftrightarrow> parents_first seen xs \<and> parents_first (seen \<union> se_id ` set xs) ys"
  by (induction xs arbitrary: seen) (auto simp: insert_commute)

definition search_state :: "doc_section list \<Rightarrow> doc_section list \<Rightarrow> doc_section list \<Rightarrow> bool" where
  "search_state ss stack ordered \<longleftrightarrow>
    distinct (ordered @ stack) \<and> set (ordered @ stack) \<subseteq> set ss \<and> parents_first {} ordered \<and>
    (\<forall>t \<in> set ss. t \<in> set (ordered @ stack) \<longleftrightarrow>
      se_parent t = None \<or> (\<exists>s \<in> set ordered. se_parent t = Some (se_id s)))"

lemma search_start:
  "distinct (map se_id ss) \<Longrightarrow> search_state ss (pop_order (roots_of ss)) []"
  by (auto simp: search_state_def roots_of_def distinct_map)

lemma same_section:
  "distinct (map se_id ss) \<Longrightarrow> s \<in> set ss \<Longrightarrow> s' \<in> set ss \<Longrightarrow> se_id s = se_id s' \<Longrightarrow> s = s'"
  by (auto simp: distinct_map dest: inj_onD)

lemma search_step:
  assumes d: "distinct (map se_id ss)" and s: "search_state ss (s # rest) ordered"
  shows "search_state ss (pop_order (children_of ss s) @ rest) (ordered @ [s])"
proof -
  note st = s[unfolded search_state_def]
  have reached: "t \<in> set (ordered @ s # rest) \<longleftrightarrow> se_parent t = None \<or> (\<exists>x \<in> set ordered. se_parent t = Some (se_id x))"
    if "t \<in> set ss" for t using st that by blast
  have only: "x = s" if "x \<in> set ordered \<union> {s}" "se_id x = se_id s" for x
    using same_section[OF d] st that by auto
  have fresh: "t \<notin> set (ordered @ s # rest)" if "t \<in> set (children_of ss s)" for t
  proof
    have t: "t \<in> set ss" "se_parent t = Some (se_id s)" using that by (auto simp: children_of_def)
    assume "t \<in> set (ordered @ s # rest)"
    with reached[OF t(1)] t(2) obtain x where "x \<in> set ordered" "se_id x = se_id s" by auto
    then show False using only st by auto
  qed
  have "distinct (children_of ss s)" using d by (simp add: children_of_def distinct_map)
  then have "distinct ((ordered @ [s]) @ pop_order (children_of ss s) @ rest)" using st fresh by auto
  moreover have "parents_first {} (ordered @ [s])"
    using st reached[of s] by (auto simp: parents_first_append split: option.splits)
  moreover have "set ((ordered @ [s]) @ pop_order (children_of ss s) @ rest) \<subseteq> set ss"
    using st by (auto simp: children_of_def)
  moreover have "t \<in> set ((ordered @ [s]) @ pop_order (children_of ss s) @ rest) \<longleftrightarrow>
      se_parent t = None \<or> (\<exists>x \<in> set (ordered @ [s]). se_parent t = Some (se_id x))" if "t \<in> set ss" for t
    using reached[OF that] that by (auto simp: children_of_def)
  ultimately show ?thesis unfolding search_state_def by blast
qed

lemma search_ends:
  "distinct (map se_id ss) \<Longrightarrow> search_state ss stack ordered \<Longrightarrow>
    \<exists>out. order_sections ss stack ordered = Some out \<and> search_state ss [] out"
proof (induction "length ss - length ordered" arbitrary: stack ordered rule: less_induct)
  case less
  show ?case
  proof (cases stack)
    case (Cons s rest)
    have "card (set (ordered @ stack)) \<le> card (set ss)"
      using less.prems(2) by (intro card_mono) (auto simp: search_state_def)
    then have "length (ordered @ stack) \<le> length ss"
      using less.prems(2) card_length[of ss] by (simp add: search_state_def distinct_card del: set_append)
    then have "length ss - length (ordered @ [s]) < length ss - length ordered" using Cons by simp
    from less.hyps[OF this less.prems(1) search_step[OF less.prems(1)]] less.prems(2) Cons show ?thesis by simp
  qed (use less.prems in simp)
qed

lemma parents_first_acyclic:
  "distinct (map se_id xs) \<Longrightarrow> parents_first {} xs \<Longrightarrow> acyclic (parent_of xs)"
proof (induction xs rule: rev_induct)
  case (snoc t xs)
  have IH: "acyclic (parent_of xs)" using snoc by (simp add: parents_first_append)
  have inside: "se_parent s = Some p \<Longrightarrow> p \<in> se_id ` set xs" if "s \<in> set (xs @ [t])" for s p
    using that snoc.prems(2) by (auto simp: parents_first_append dest!: split_list split: option.splits)
  have "(x, t) \<notin> parent_of (xs @ [t])" for x
    using inside[of x] snoc.prems(1) by (auto simp: parent_of_def)
  then have sub: "parent_of (xs @ [t]) \<subseteq> parent_of xs \<union> {t} \<times> set xs"
    using snoc.prems(1) by (auto simp: parent_of_def)
  have "y \<noteq> t \<and> (x \<noteq> t \<longrightarrow> (x, y) \<in> (parent_of xs)\<^sup>+)" if "(x, y) \<in> (parent_of (xs @ [t]))\<^sup>+" for x y
    using that
  proof (induction rule: trancl_induct)
    case (step y z)
    then show ?case using sub \<open>\<And>x. (x, t) \<notin> parent_of (xs @ [t])\<close> by (blast intro: trancl_into_trancl)
  qed (use sub \<open>\<And>x. (x, t) \<notin> parent_of (xs @ [t])\<close> in blast)
  then show ?case using IH unfolding acyclic_def by metis
qed (simp add: parent_of_def acyclic_def)

lemma acyclic_reached:
  assumes a: "acyclic (parent_of ss)" and p: "\<forall>s \<in> set ss. \<forall>p. se_parent s = Some p \<longrightarrow> p \<in> se_id ` set ss"
    and s: "search_state ss [] out"
  shows "set out = set ss"
proof -
  have "finite (parent_of ss)" by (rule finite_subset[of _ "set ss \<times> set ss"]) (auto simp: parent_of_def)
  then have wf: "wf ((parent_of ss)\<inverse>)" using a by (rule finite_acyclic_wf_converse)
  have "t \<in> set ss \<longrightarrow> t \<in> set out" for t
    using wf
  proof (induction t rule: wf_induct_rule)
    case (less t)
    show ?case
    proof
      assume t: "t \<in> set ss"
      show "t \<in> set out"
      proof (cases "se_parent t")
        case (Some q)
        then obtain s where "s \<in> set ss" "q = se_id s" using p t by blast
        then show ?thesis using less[of s] Some t s by (auto simp: parent_of_def search_state_def)
      qed (use t s in \<open>auto simp: search_state_def\<close>)
    qed
  qed
  then show ?thesis using s by (auto simp: search_state_def)
qed

section \<open>Well-formed documents\<close>

definition well_structured :: "doc \<Rightarrow> bool" where
  "well_structured d \<longleftrightarrow>
    (let ss = dc_sections d in
     distinct (map se_id ss) \<and> distinct (map se_ordinal ss) \<and>
     distinct (map pg_id (concat (map se_passages ss))) \<and>
     (\<forall>s \<in> set ss. distinct (map pg_ordinal (se_passages s))) \<and>
     (\<forall>s \<in> set ss. pred_option (\<lambda>p. p \<in> se_id ` set ss) (se_parent s)) \<and>
     acyclic (parent_of ss))"

lemma check_passages_Inr:
  "check_passages ids ordinals ps = Inr ids' \<longleftrightarrow>
    distinct (map pg_id ps) \<and> set ids \<inter> pg_id ` set ps = {} \<and>
    distinct (map pg_ordinal ps) \<and> set ordinals \<inter> pg_ordinal ` set ps = {} \<and> ids' = rev (map pg_id ps) @ ids"
  by (induction ps arbitrary: ids ordinals) (auto simp: res_simps)

lemma check_sections_Inr:
  "check_sections ids ss = Inr () \<longleftrightarrow>
    distinct (map pg_id (concat (map se_passages ss))) \<and> set ids \<inter> pg_id ` set (concat (map se_passages ss)) = {} \<and>
    (\<forall>s \<in> set ss. distinct (map pg_ordinal (se_passages s)))"
proof (induction ss arbitrary: ids)
  case (Cons s ss)
  define A B where "A = pg_id ` set (se_passages s)" and "B = pg_id ` set (concat (map se_passages ss))"
  have e: "(A \<union> set ids) \<inter> B = {} \<longleftrightarrow> A \<inter> B = {} \<and> set ids \<inter> B = {}"
    "set ids \<inter> (A \<union> B) = {} \<longleftrightarrow> set ids \<inter> A = {} \<and> set ids \<inter> B = {}" by blast+
  have "check_sections ids (s # ss) = Inr () \<longleftrightarrow>
      distinct (map pg_id (se_passages s)) \<and> set ids \<inter> A = {} \<and> distinct (map pg_ordinal (se_passages s)) \<and>
      check_sections (rev (map pg_id (se_passages s)) @ ids) ss = Inr ()"
    by (auto simp: res_simps check_passages_Inr A_def)
  also have "check_sections (rev (map pg_id (se_passages s)) @ ids) ss = Inr () \<longleftrightarrow>
      distinct (map pg_id (concat (map se_passages ss))) \<and> (A \<union> set ids) \<inter> B = {} \<and>
      (\<forall>s \<in> set ss. distinct (map pg_ordinal (se_passages s)))"
    unfolding Cons.IH by (simp only: A_def B_def set_append set_rev set_map)
  also have "(distinct (map pg_id (se_passages s)) \<and> set ids \<inter> A = {} \<and> distinct (map pg_ordinal (se_passages s)) \<and>
      distinct (map pg_id (concat (map se_passages ss))) \<and> (A \<union> set ids) \<inter> B = {} \<and>
      (\<forall>s \<in> set ss. distinct (map pg_ordinal (se_passages s)))) \<longleftrightarrow>
      (distinct (map pg_id (se_passages s)) \<and> distinct (map pg_id (concat (map se_passages ss))) \<and> A \<inter> B = {}) \<and>
      set ids \<inter> (A \<union> B) = {} \<and> (\<forall>x \<in> set (s # ss). distinct (map pg_ordinal (se_passages x)))"
    unfolding e list.set ball_simps by (rule iffI; elim conjE; intro conjI; assumption)
  finally show ?case by (simp add: A_def B_def image_Un)
qed simp

lemma parent_known: "pred_option (\<lambda>p. p \<in> S) x \<longleftrightarrow> (\<forall>p. x = Some p \<longrightarrow> p \<in> S)"
  by (cases x) auto

text \<open>What the search yields for a document that passed the first checks.\<close>

lemma ordered_sections:
  assumes d: "distinct (map se_id ss)"
  obtains out where "order_sections ss (pop_order (roots_of ss)) [] = Some out" "search_state ss [] out"
    "out = concat (map (subtree ss) (pop_order (roots_of ss)))"
    "\<forall>s \<in> set out. subtree ss s = s # concat (map (subtree ss) (pop_order (children_of ss s)))"
proof -
  obtain out where o: "order_sections ss (pop_order (roots_of ss)) [] = Some out" "search_state ss [] out"
    using search_ends[OF d search_start[OF d]] by blast
  have "out = concat (map (subtree ss) (pop_order (roots_of ss)))" using order_sections_subtrees[OF o(1)] by simp
  moreover have "\<forall>s \<in> set out. subtree ss s = s # concat (map (subtree ss) (pop_order (children_of ss s)))"
    using subtree_steps[OF o(1)] by (metis DiffI empty_iff list.set(1))
  ultimately show ?thesis using that o by blast
qed

lemma length_reached:
  assumes "distinct (map se_id ss)" "search_state ss [] out"
  shows "length out = length ss \<longleftrightarrow> set out = set ss"
proof -
  have "distinct out" "set out \<subseteq> set ss" "distinct ss" using assms by (auto simp: search_state_def distinct_map)
  then show ?thesis
    by (metis card_subset_eq distinct_card finite_set)
qed

lemma reached_iff_acyclic:
  assumes d: "distinct (map se_id ss)" and s: "search_state ss [] out"
    and p: "\<forall>s \<in> set ss. \<forall>p. se_parent s = Some p \<longrightarrow> p \<in> se_id ` set ss"
  shows "length out = length ss \<longleftrightarrow> acyclic (parent_of ss)"
proof
  assume "length out = length ss"
  then have o: "set out = set ss" using length_reached[OF d s] by blast
  have "distinct (map se_id out)" using s d o by (simp add: search_state_def distinct_map)
  then have "acyclic (parent_of out)" using s by (intro parents_first_acyclic) (auto simp: search_state_def)
  moreover have "parent_of out = parent_of ss" using o by (simp add: parent_of_def)
  ultimately show "acyclic (parent_of ss)" by simp
next
  assume "acyclic (parent_of ss)"
  from acyclic_reached[OF this p s] show "length out = length ss" using length_reached[OF d s] by blast
qed

lemma structure_checks_Inr:
  "bindE (check (distinct (map se_id ss) \<and> distinct (map se_ordinal ss)) e) (\<lambda>_.
    bindE (check_sections [] ss) (\<lambda>_.
    check (list_all (\<lambda>s. case se_parent s of None \<Rightarrow> True | Some p \<Rightarrow> p \<in> set (map se_id ss)) ss) e')) = Inr () \<longleftrightarrow>
   distinct (map se_id ss) \<and> distinct (map se_ordinal ss) \<and>
   distinct (map pg_id (concat (map se_passages ss))) \<and> (\<forall>s \<in> set ss. distinct (map pg_ordinal (se_passages s))) \<and>
   (\<forall>s \<in> set ss. \<forall>p. se_parent s = Some p \<longrightarrow> p \<in> se_id ` set ss)"
proof -
  have "(case se_parent s of None \<Rightarrow> True | Some p \<Rightarrow> p \<in> set (map se_id ss)) \<longleftrightarrow>
      (\<forall>p. se_parent s = Some p \<longrightarrow> p \<in> se_id ` set ss)" for s
    by (cases "se_parent s") auto
  then have "list_all (\<lambda>s. case se_parent s of None \<Rightarrow> True | Some p \<Rightarrow> p \<in> set (map se_id ss)) ss \<longleftrightarrow>
      (\<forall>s \<in> set ss. \<forall>p. se_parent s = Some p \<longrightarrow> p \<in> se_id ` set ss)" unfolding list_all_iff by blast
  then show ?thesis
    unfolding bindE_Inr_iff check_Inr_iff by (simp add: check_sections_Inr del: map_concat)
qed

lemma validated_cases:
  obtains (refused) e where "validated_parent_first d = Some (Inl e)" "\<not> well_structured d"
  | (ordered) out where "validated_parent_first d = Some (Inr out)" "well_structured d"
      "search_state (dc_sections d) [] out" "set out = set (dc_sections d)"
      "out = concat (map (subtree (dc_sections d)) (pop_order (roots_of (dc_sections d))))"
      "\<forall>s \<in> set out. subtree (dc_sections d) s =
        s # concat (map (subtree (dc_sections d)) (pop_order (children_of (dc_sections d) s)))"
proof -
  define ss where "ss = dc_sections d"
  define checks where "checks =
    bindE (check (distinct (map se_id ss) \<and> distinct (map se_ordinal ss)) (structure_error ''duplicate_sections'')) (\<lambda>_.
    bindE (check_sections [] ss) (\<lambda>_.
    check (list_all (\<lambda>s. case se_parent s of None \<Rightarrow> True | Some p \<Rightarrow> p \<in> set (map se_id ss)) ss)
      (structure_error ''missing_parent'')))"
  have ws: "well_structured d \<longleftrightarrow> checks = Inr () \<and> acyclic (parent_of ss)"
    unfolding checks_def structure_checks_Inr well_structured_def Let_def parent_known ss_def[symmetric] by blast
  have v: "validated_parent_first d = (case checks of Inl e \<Rightarrow> Some (Inl e)
      | Inr _ \<Rightarrow> map_option (\<lambda>ordered. bindE (check (length ordered = length ss) (structure_error ''cyclic_parent'')) (\<lambda>_. Inr ordered))
          (order_sections ss (pop_order (roots_of ss)) []))"
    unfolding validated_parent_first_def Let_def checks_def ss_def ..
  show thesis
  proof (cases checks)
    case (Inl e)
    then show ?thesis using refused v ws by auto
  next
    case (Inr u)
    then have ok: "checks = Inr ()" by simp
    then have d: "distinct (map se_id ss)" and p: "\<forall>s \<in> set ss. \<forall>p. se_parent s = Some p \<longrightarrow> p \<in> se_id ` set ss"
      unfolding checks_def structure_checks_Inr by blast+
    obtain out where o: "order_sections ss (pop_order (roots_of ss)) [] = Some out" "search_state ss [] out"
      "out = concat (map (subtree ss) (pop_order (roots_of ss)))"
      "\<forall>s \<in> set out. subtree ss s = s # concat (map (subtree ss) (pop_order (children_of ss s)))"
      using ordered_sections[OF d] by blast
    note all = reached_iff_acyclic[OF d o(2) p] length_reached[OF d o(2)]
    show ?thesis
    proof (cases "acyclic (parent_of ss)")
      case True
      then have "length out = length ss" using all by blast
      then have "validated_parent_first d = Some (Inr out)" by (simp add: v ok o(1))
      then show ?thesis using ordered[of out, folded ss_def] True ok ws o(2-4) all by blast
    next
      case False
      then have "length out \<noteq> length ss" using all by blast
      then have "validated_parent_first d = Some (Inl (structure_error ''cyclic_parent''))" by (simp add: v ok o(1))
      then show ?thesis using refused False ws by blast
    qed
  qed
qed

lemma validate_Inr_iff: "validate_document_structure d = Inr () \<longleftrightarrow> well_structured d"
proof (cases d rule: validated_cases)
  case (refused e)
  then show ?thesis by (simp add: validate_document_structure_def)
next
  case (ordered out)
  from ordered(1,2) show ?thesis by (simp add: validate_document_structure_def)
qed

lemma by_ordinal:
  assumes "distinct (map se_ordinal xs)"
  shows "pop_order xs = sort_key se_ordinal xs"
proof (rule map_sorted_distinct_set_unique[where f = se_ordinal])
  show "sorted (map se_ordinal (pop_order xs))"
    using sorted_pop_order[of xs] unfolding sorted_map by (rule sorted_wrt_mono_rel[rotated]) (auto simp: section_order_key_def)
  have "mset (pop_order xs) = mset (sort_key se_ordinal xs)" by (simp add: pop_order_def)
  then show "distinct (map se_ordinal (pop_order xs))" using assms
    by (metis distinct_map distinct_pop_order set_pop_order)
qed (use assms in \<open>auto simp: distinct_map\<close>)

lemma parents_first_nth:
  "parents_first seen ss \<Longrightarrow> i < length ss \<Longrightarrow> se_parent (ss ! i) = Some p \<Longrightarrow>
    p \<in> seen \<or> (\<exists>j < i. se_id (ss ! j) = p)"
proof (induction ss arbitrary: seen i)
  case (Cons s ss)
  show ?case
  proof (cases i)
    case (Suc k)
    with Cons.IH[of "insert (se_id s) seen" k] Cons.prems have "p = se_id s \<or> p \<in> seen \<or> (\<exists>j < k. se_id (ss ! j) = p)" by auto
    then show ?thesis using Suc by (metis Suc_mono nth_Cons_0 nth_Cons_Suc zero_less_Suc)
  qed (use Cons.prems in auto)
qed simp

section \<open>Properties\<close>

text \<open>
  C30: the check of a document returns for every document, and it accepts exactly the well-structured ones: identifiers
  and ordinals of sections, and of passages, are unique, each parent is a section of the document, and
  no chain of parents is a cycle.
\<close>

theorem structure_check_exact:
  "\<exists>r. validated_parent_first d = Some r \<and> (isOk r \<longleftrightarrow> well_structured d) \<and>
    (isOk (validate_document_structure d) \<longleftrightarrow> well_structured d)"
proof (cases d rule: validated_cases)
  case (refused e)
  then show ?thesis by (simp add: validate_document_structure_def)
next
  case (ordered out)
  from ordered(1,2) show ?thesis by (simp add: validate_document_structure_def)
qed

text \<open>
  C31: the sections of an accepted document are listed parents first. The list has each section of the document
  once, every parent before its children, and it is the depth-first order of the forest, siblings by
  ordinal: the subtrees of the roots one after the other, each its section followed by the subtrees of
  its children.
\<close>

theorem sections_parents_first:
  assumes "document_sections_parent_first d = Some (Inr ss)"
  shows "mset ss = mset (dc_sections d) \<and>
    (\<forall>i < length ss. \<forall>p. se_parent (ss ! i) = Some p \<longrightarrow> (\<exists>j < i. se_id (ss ! j) = p)) \<and>
    (\<exists>sub. ss = concat (map sub (sort_key se_ordinal (roots_of (dc_sections d)))) \<and>
      (\<forall>s \<in> set ss. sub s = s # concat (map sub (sort_key se_ordinal (children_of (dc_sections d) s)))))"
proof (cases d rule: validated_cases)
  case (refused e)
  then show ?thesis using assms by (simp add: document_sections_parent_first_def)
next
  case (ordered out)
  have o: "out = ss" using assms ordered(1) by (simp add: document_sections_parent_first_def)
  have d: "distinct (map se_id (dc_sections d))" "distinct (map se_ordinal (dc_sections d))"
    using ordered(2) by (simp_all add: well_structured_def Let_def)
  have s: "distinct ss" "parents_first {} ss" "set ss = set (dc_sections d)"
    using ordered(3,4) unfolding o search_state_def by auto
  have "distinct (dc_sections d)" using d by (auto simp: distinct_map)
  with s have m: "mset ss = mset (dc_sections d)" by (simp add: set_eq_iff_mset_eq_distinct)
  have part: "pop_order (filter P (dc_sections d)) = sort_key se_ordinal (filter P (dc_sections d))" for P
    using d(2) by (intro by_ordinal) (simp add: distinct_map_filter)
  show ?thesis
  proof (intro conjI)
    show "\<forall>i < length ss. \<forall>p. se_parent (ss ! i) = Some p \<longrightarrow> (\<exists>j < i. se_id (ss ! j) = p)"
      using parents_first_nth[OF s(2)] by blast
    show "\<exists>sub. ss = concat (map sub (sort_key se_ordinal (roots_of (dc_sections d)))) \<and>
        (\<forall>s \<in> set ss. sub s = s # concat (map sub (sort_key se_ordinal (children_of (dc_sections d) s))))"
      using ordered(5,6) unfolding o roots_of_def children_of_def part by blast
  qed (rule m)
qed

section \<open>Witnesses\<close>

definition sample_section :: "uuid \<Rightarrow> int \<Rightarrow> uuid option \<Rightarrow> doc_section" where
  "sample_section u n p = \<lparr>se_id = u, se_document = 9, se_ordinal = n, se_title = ''S'', se_level = 1, se_parent = p, se_passages = []\<rparr>"

definition sample_doc :: doc where
  "sample_doc = \<lparr>dc_id = 9, dc_artifact = 8, dc_title = ''D'', dc_parser_name = ''p'', dc_parser_version = ''1'',
    dc_sections = [sample_section 2 0 (Some 1), sample_section 1 1 None, sample_section 3 2 (Some 2)],
    dc_figures = [], dc_tables = [], dc_equations = [], dc_normalized_at = Aware 0 0\<rparr>"

theorem sections_parents_first_witness:
  "\<exists>ss. document_sections_parent_first sample_doc = Some (Inr ss) \<and> map se_id ss = [1, 2, 3] \<and>
    mset ss = mset (dc_sections sample_doc)"
proof -
  have "document_sections_parent_first sample_doc =
      Some (Inr [sample_section 1 1 None, sample_section 2 0 (Some 1), sample_section 3 2 (Some 2)])"
    by (simp add: document_sections_parent_first_def validated_parent_first_def sample_doc_def sample_section_def
        roots_of_def children_of_def pop_order_def)
  with sections_parents_first[OF this] show ?thesis by (simp add: sample_section_def)
qed

end
