(* ===== verification/ResearchCatalog.thy ===== *)
theory ResearchCatalog imports Documents ArtifactStore JsonBuckets begin

text \<open>
  \<open>infrastructure/storage/json_repository.py\<close>: the catalogue of artifacts, of documents with their
  manifests (\<open>domain/manifest.py\<close>), and of the links that say which document represents a work
  (\<open>domain/work_documents.py\<close>). Fields that Python would accept with any type are read with the type the
  program writes; on another one the model raises.
\<close>

section \<open>Records\<close>

record manifest =
  mf_id :: pystr
  mf_kind :: pystr
  mf_title :: pystr
  mf_metadata :: "(pystr \<times> json) list"
  mf_available :: "(pystr \<times> bool) list"
  mf_structure :: "(pystr \<times> int) list"
  mf_tokens :: "(pystr \<times> int) list"

definition manifest_to_dict :: "manifest \<Rightarrow> json" where
  "manifest_to_dict m = JObj
    [(''id'', JStr (mf_id m)),
     (''kind'', JStr (mf_kind m)),
     (''title'', JStr (mf_title m)),
     (''metadata'', JObj (mf_metadata m)),
     (''available'', JObj (map (\<lambda>(k, b). (k, JBool b)) (mf_available m))),
     (''structure'', JObj (map (\<lambda>(k, n). (k, JInt n)) (mf_structure m))),
     (''tokens'', JObj (map (\<lambda>(k, n). (k, JInt n)) (mf_tokens m)))]"

definition estimate_tokens :: "pystr \<Rightarrow> int" where
  "estimate_tokens s = (if s = [] then 0 else max 1 ((int (char_count s) + 3) div 4))"

definition build_document_manifest :: "doc \<Rightarrow> artifact \<Rightarrow> manifest" where
  "build_document_manifest d a =
    (let passages = concat (map se_passages (dc_sections d));
         full_text = join [CHR 0x0A] (map pg_text passages) in
     \<lparr>mf_id = ''doc:'' @ uuid_str (dc_id d), mf_kind = ''document'', mf_title = dc_title d,
      mf_metadata =
        [(''artifact_id'', JStr (uuid_str (ar_id a))), (''sha256'', JStr (ar_sha256 a)),
         (''media_type'', JStr (ar_media_type a)), (''size_bytes'', JInt (ar_size a)),
         (''parser'', JStr (dc_parser_name d @ ''@'' @ dc_parser_version d))],
      mf_available =
        [(''metadata'', True), (''summary'', False), (''claims'', False), (''evidence'', False), (''full_text'', True)],
      mf_structure = [(''sections'', int (length (dc_sections d))), (''passages'', int (length passages))],
      mf_tokens = [(''manifest'', 160), (''full_text'', estimate_tokens full_text)]\<rparr>)"

record document_link =
  lk_id :: uuid
  lk_work :: uuid
  lk_artifact :: uuid
  lk_document :: uuid
  lk_linked_at :: datetime

section \<open>Artifacts and links as JSON\<close>

text \<open>\<open>PurePosixPath(s).as_posix()\<close>.\<close>

definition posix_path :: "pystr \<Rightarrow> pystr" where
  "posix_path s =
    (let root = (if \<not> prefix ''/'' s then []
                 else if prefix ''//'' s \<and> \<not> prefix ''///'' s then ''//'' else ''/'');
         parts = filter (\<lambda>x. x \<noteq> [] \<and> x \<noteq> ''.'') (split_on (CHR ''/'') s) in
     if root = [] \<and> parts = [] then ''.'' else root @ join ''/'' parts)"

definition artifact_to_dict :: "artifact \<Rightarrow> json" where
  "artifact_to_dict a = JObj
    [(''artifact_id'', JStr (uuid_str (ar_id a))),
     (''sha256'', JStr (ar_sha256 a)),
     (''size_bytes'', JInt (ar_size a)),
     (''media_type'', JStr (ar_media_type a)),
     (''storage_key'', JStr (ar_storage_key a)),
     (''original_name'', jopt JStr (ar_original_name a)),
     (''acquired_at'', JTime (ar_acquired_at a)),
     (''source_uri'', jopt JStr (ar_source_uri a))]"

definition artifact_from_dict :: "coercions \<Rightarrow> json \<Rightarrow> exc + artifact" where
  "artifact_from_dict K raw =
    bindE (bindE (jitem raw ''artifact_id'') juuid) (\<lambda>aid.
    bindE (bindE (jitem raw ''sha256'') jstr) (\<lambda>sha256.
    bindE (bindE (jitem raw ''size_bytes'') (as_int K)) (\<lambda>nbytes.
    bindE (bindE (jitem raw ''media_type'') jstr) (\<lambda>media.
    bindE (bindE (jitem raw ''storage_key'') jstr) (\<lambda>key.
    bindE (jopt_str (jget raw ''original_name'')) (\<lambda>name.
    bindE (bindE (jitem raw ''acquired_at'') jtime) (\<lambda>acquired.
    bindE (jopt_str (jget raw ''source_uri'')) (\<lambda>source.
    mk_artifact \<lparr>ar_id = aid, ar_sha256 = sha256, ar_size = nbytes, ar_media_type = media, ar_storage_key = posix_path key,
      ar_original_name = name, ar_acquired_at = acquired, ar_source_uri = source\<rparr>))))))))"

definition link_to_dict :: "document_link \<Rightarrow> json" where
  "link_to_dict l = JObj
    [(''link_id'', JStr (uuid_str (lk_id l))),
     (''work_id'', JStr (uuid_str (lk_work l))),
     (''artifact_id'', JStr (uuid_str (lk_artifact l))),
     (''document_id'', JStr (uuid_str (lk_document l))),
     (''linked_at'', JTime (lk_linked_at l))]"

definition link_from_dict :: "json \<Rightarrow> exc + document_link" where
  "link_from_dict raw =
    bindE (bindE (jitem raw ''link_id'') juuid) (\<lambda>lid.
    bindE (bindE (jitem raw ''work_id'') juuid) (\<lambda>wid.
    bindE (bindE (jitem raw ''artifact_id'') juuid) (\<lambda>aid.
    bindE (bindE (jitem raw ''document_id'') juuid) (\<lambda>did.
    bindE (bindE (jitem raw ''linked_at'') jtime) (\<lambda>linked.
    Inr \<lparr>lk_id = lid, lk_work = wid, lk_artifact = aid, lk_document = did, lk_linked_at = linked\<rparr>)))))"

text \<open>\<open>left[field] == right[field]\<close> for each field in turn, as \<open>all\<close> evaluates it.\<close>

fun same_fields :: "json \<Rightarrow> json \<Rightarrow> pystr list \<Rightarrow> exc + bool" where
  "same_fields left right [] = Inr True"
| "same_fields left right (f # fs) =
    bindE (jitem left f) (\<lambda>x. bindE (jitem right f) (\<lambda>y.
    if json_eq x y then same_fields left right fs else Inr False))"

definition same_link :: "json \<Rightarrow> json \<Rightarrow> exc + bool" where
  "same_link left right = same_fields left right [''link_id'', ''work_id'', ''artifact_id'', ''document_id'']"

section \<open>Documents as JSON\<close>

definition passage_to_dict :: "passage \<Rightarrow> json" where
  "passage_to_dict p = JObj
    [(''passage_id'', JStr (uuid_str (pg_id p))),
     (''ordinal'', JInt (pg_ordinal p)),
     (''text'', JStr (pg_text p)),
     (''char_start'', JInt (pg_start p)),
     (''char_end'', JInt (pg_end p))]"

definition section_to_dict :: "doc_section \<Rightarrow> json" where
  "section_to_dict s = JObj
    [(''section_id'', JStr (uuid_str (se_id s))),
     (''ordinal'', JInt (se_ordinal s)),
     (''title'', JStr (se_title s)),
     (''level'', JInt (se_level s)),
     (''parent_section_id'', jopt (\<lambda>u. JStr (uuid_str u)) (se_parent s)),
     (''passages'', JList (map passage_to_dict (se_passages s)))]"

definition figure_to_dict :: "figure \<Rightarrow> json" where
  "figure_to_dict f = JObj
    [(''figure_id'', JStr (uuid_str (fg_id f))),
     (''ordinal'', JInt (fg_ordinal f)),
     (''page_number'', jopt JInt (fg_page f)),
     (''label'', jopt JStr (fg_label f)),
     (''caption'', jopt JStr (fg_caption f)),
     (''figure_type'', JStr (fg_type f))]"

definition table_to_dict :: "doc_table \<Rightarrow> json" where
  "table_to_dict t = JObj
    [(''table_id'', JStr (uuid_str (tb_id t))),
     (''ordinal'', JInt (tb_ordinal t)),
     (''page_number'', jopt JInt (tb_page t)),
     (''label'', jopt JStr (tb_label t)),
     (''caption'', jopt JStr (tb_caption t)),
     (''row_count'', jopt JInt (tb_rows t)),
     (''column_count'', jopt JInt (tb_columns t))]"

definition equation_to_dict :: "equation \<Rightarrow> json" where
  "equation_to_dict e = JObj
    [(''equation_id'', JStr (uuid_str (eq_id e))),
     (''ordinal'', JInt (eq_ordinal e)),
     (''page_number'', jopt JInt (eq_page e)),
     (''label'', jopt JStr (eq_label e)),
     (''source_text'', jopt JStr (eq_source e))]"

definition document_to_dict :: "doc \<Rightarrow> json" where
  "document_to_dict d = JObj
    [(''document_id'', JStr (uuid_str (dc_id d))),
     (''artifact_id'', JStr (uuid_str (dc_artifact d))),
     (''title'', JStr (dc_title d)),
     (''parser_name'', JStr (dc_parser_name d)),
     (''parser_version'', JStr (dc_parser_version d)),
     (''normalized_at'', JTime (dc_normalized_at d)),
     (''sections'', JList (map section_to_dict (dc_sections d))),
     (''figures'', JList (map figure_to_dict (dc_figures d))),
     (''tables'', JList (map table_to_dict (dc_tables d))),
     (''equations'', JList (map equation_to_dict (dc_equations d)))]"

definition passage_from_dict :: "coercions \<Rightarrow> uuid \<Rightarrow> uuid \<Rightarrow> json \<Rightarrow> exc + passage" where
  "passage_from_dict K did sid raw =
    bindE (bindE (jitem raw ''passage_id'') juuid) (\<lambda>pid.
    bindE (bindE (jitem raw ''ordinal'') (as_int K)) (\<lambda>ordinal.
    bindE (bindE (jitem raw ''text'') jstr) (\<lambda>contents.
    bindE (bindE (jitem raw ''char_start'') (as_int K)) (\<lambda>first.
    bindE (bindE (jitem raw ''char_end'') (as_int K)) (\<lambda>last.
    mk_passage \<lparr>pg_id = pid, pg_document = did, pg_section = sid, pg_ordinal = ordinal, pg_text = contents,
      pg_start = first, pg_end = last\<rparr>)))))"

definition section_from_dict :: "coercions \<Rightarrow> uuid \<Rightarrow> json \<Rightarrow> exc + doc_section" where
  "section_from_dict K did raw =
    bindE (bindE (jitem raw ''section_id'') juuid) (\<lambda>sid.
    bindE (bindE (bindE (jitem raw ''passages'') (as_list K)) (mapM (passage_from_dict K did sid))) (\<lambda>passages.
    bindE (bindE (jitem raw ''ordinal'') (as_int K)) (\<lambda>ordinal.
    bindE (bindE (jitem raw ''title'') jstr) (\<lambda>title.
    bindE (bindE (jitem raw ''level'') (as_int K)) (\<lambda>level.
    bindE (case jget raw ''parent_section_id'' of
             None \<Rightarrow> Inr None
           | Some v \<Rightarrow> if truthy v then mapE Some (juuid v) else Inr None) (\<lambda>parent.
    mk_section \<lparr>se_id = sid, se_document = did, se_ordinal = ordinal, se_title = title, se_level = level,
      se_parent = parent, se_passages = passages\<rparr>))))))"

definition figure_from_dict :: "coercions \<Rightarrow> uuid \<Rightarrow> json \<Rightarrow> exc + figure" where
  "figure_from_dict K did raw =
    bindE (bindE (jitem raw ''figure_id'') juuid) (\<lambda>fid.
    bindE (bindE (jitem raw ''ordinal'') (as_int K)) (\<lambda>ordinal.
    bindE (jopt_int (jget raw ''page_number'')) (\<lambda>page.
    bindE (jopt_text (jget raw ''label'')) (\<lambda>label.
    bindE (jopt_text (jget raw ''caption'')) (\<lambda>caption.
    bindE (case jget raw ''figure_type'' of None \<Rightarrow> Inr ''unknown'' | Some v \<Rightarrow> jtext v) (\<lambda>kind.
    mk_figure \<lparr>fg_id = fid, fg_document = did, fg_ordinal = ordinal, fg_page = page, fg_label = label,
      fg_caption = caption, fg_type = kind\<rparr>))))))"

definition table_from_dict :: "coercions \<Rightarrow> uuid \<Rightarrow> json \<Rightarrow> exc + doc_table" where
  "table_from_dict K did raw =
    bindE (bindE (jitem raw ''table_id'') juuid) (\<lambda>tid.
    bindE (bindE (jitem raw ''ordinal'') (as_int K)) (\<lambda>ordinal.
    bindE (jopt_int (jget raw ''page_number'')) (\<lambda>page.
    bindE (jopt_text (jget raw ''label'')) (\<lambda>label.
    bindE (jopt_text (jget raw ''caption'')) (\<lambda>caption.
    bindE (jopt_int (jget raw ''row_count'')) (\<lambda>rows.
    bindE (jopt_int (jget raw ''column_count'')) (\<lambda>columns.
    mk_table \<lparr>tb_id = tid, tb_document = did, tb_ordinal = ordinal, tb_page = page, tb_label = label,
      tb_caption = caption, tb_rows = rows, tb_columns = columns\<rparr>)))))))"

definition equation_from_dict :: "coercions \<Rightarrow> uuid \<Rightarrow> json \<Rightarrow> exc + equation" where
  "equation_from_dict K did raw =
    bindE (bindE (jitem raw ''equation_id'') juuid) (\<lambda>eid.
    bindE (bindE (jitem raw ''ordinal'') (as_int K)) (\<lambda>ordinal.
    bindE (jopt_int (jget raw ''page_number'')) (\<lambda>page.
    bindE (jopt_text (jget raw ''label'')) (\<lambda>label.
    bindE (jopt_text (jget raw ''source_text'')) (\<lambda>source.
    mk_equation \<lparr>eq_id = eid, eq_document = did, eq_ordinal = ordinal, eq_page = page, eq_label = label,
      eq_source = source\<rparr>)))))"

text \<open>\<open>for item in raw.get(key, [])\<close>.\<close>

definition items_from :: "coercions \<Rightarrow> json \<Rightarrow> pystr \<Rightarrow> (json \<Rightarrow> exc + 'a) \<Rightarrow> exc + 'a list" where
  "items_from K raw key parse =
    bindE (as_list K (case jget raw key of None \<Rightarrow> JList [] | Some v \<Rightarrow> v)) (mapM parse)"

definition document_from_dict :: "coercions \<Rightarrow> json \<Rightarrow> exc + doc" where
  "document_from_dict K raw =
    bindE (bindE (jitem raw ''document_id'') juuid) (\<lambda>did.
    bindE (bindE (bindE (jitem raw ''sections'') (as_list K)) (mapM (section_from_dict K did))) (\<lambda>sections.
    bindE (bindE (jitem raw ''artifact_id'') juuid) (\<lambda>aid.
    bindE (bindE (jitem raw ''title'') jstr) (\<lambda>title.
    bindE (bindE (jitem raw ''parser_name'') jtext) (\<lambda>pname.
    bindE (bindE (jitem raw ''parser_version'') jtext) (\<lambda>pversion.
    bindE (items_from K raw ''figures'' (figure_from_dict K did)) (\<lambda>figures.
    bindE (items_from K raw ''tables'' (table_from_dict K did)) (\<lambda>tables.
    bindE (items_from K raw ''equations'' (equation_from_dict K did)) (\<lambda>equations.
    bindE (bindE (jitem raw ''normalized_at'') jtime) (\<lambda>normalized.
    bindE (mk_document \<lparr>dc_id = did, dc_artifact = aid, dc_title = title, dc_parser_name = pname,
      dc_parser_version = pversion, dc_sections = sections, dc_figures = figures, dc_tables = tables,
      dc_equations = equations, dc_normalized_at = normalized\<rparr>) (\<lambda>d.
    bindE (validate_document_structure d) (\<lambda>_. Inr d))))))))))))"

section \<open>The repository\<close>

definition empty_research :: json_file where
  "empty_research = write_buckets
    [(''schema_version'', JInt 1), (''artifacts'', JObj []), (''documents'', JObj []), (''work_document_links'', JObj [])]"

definition init_research :: "json_file \<Rightarrow> json_file" where
  "init_research f = (if f = Missing then empty_research else f)"

definition object_at :: "json \<Rightarrow> pystr \<Rightarrow> bool" where
  "object_at j key = (case jget j key of None \<Rightarrow> False | Some b \<Rightarrow> is_object b)"

definition read_research :: "json_file \<Rightarrow> exc + (pystr \<times> json) list" where
  "read_research f =
    (case f of
       Missing \<Rightarrow> Inl (RuntimeError ''unable to read Tarkka catalog'')
     | Malformed \<Rightarrow> Inl (RuntimeError ''unable to read Tarkka catalog'')
     | Document j \<Rightarrow>
         bindE (check (is_object j) (RuntimeError ''invalid Tarkka catalog: root must be a JSON object'')) (\<lambda>_.
         bindE (check (json_is_one (jget j ''schema_version''))
                  (RuntimeError ''unsupported Tarkka catalog schema version'')) (\<lambda>_.
         bindE (check (object_at j ''artifacts'' \<and> object_at j ''documents'')
                  (RuntimeError ''invalid Tarkka catalog: artifacts/documents must be JSON objects'')) (\<lambda>_.
         let data = (if jget j ''work_document_links'' = None then jset (entries j) ''work_document_links'' (JObj [])
                     else entries j) in
         bindE (check (object_at (JObj data) ''work_document_links'')
                  (RuntimeError ''invalid Tarkka catalog: work_document_links must be a JSON object'')) (\<lambda>_.
         Inr data)))))"

definition save_artifact :: "json_file \<Rightarrow> artifact \<Rightarrow> exc + json_file" where
  "save_artifact f a =
    mapE (\<lambda>data. write_buckets (put_entry data ''artifacts'' (uuid_str (ar_id a)) (artifact_to_dict a))) (read_research f)"

definition save_document :: "json_file \<Rightarrow> doc \<Rightarrow> manifest \<Rightarrow> exc + json_file" where
  "save_document f d m =
    bindE (validate_document_structure d) (\<lambda>_.
    mapE (\<lambda>data. write_buckets (put_entry data ''documents'' (uuid_str (dc_id d))
        (JObj [(''document'', document_to_dict d), (''manifest'', manifest_to_dict m)])))
      (read_research f))"

text \<open>\<open>self._read()[name].get(key)\<close>, and what the reader makes of a payload that is not empty.\<close>

definition get_entry :: "json_file \<Rightarrow> pystr \<Rightarrow> uuid \<Rightarrow> (json \<Rightarrow> exc + 'a) \<Rightarrow> exc + 'a option" where
  "get_entry f name u parse =
    bindE (read_research f) (\<lambda>data.
    case map_of (json_bucket data name) (uuid_str u) of
      None \<Rightarrow> Inr None
    | Some payload \<Rightarrow> if truthy payload then mapE Some (parse payload) else Inr None)"

definition get_artifact :: "coercions \<Rightarrow> json_file \<Rightarrow> uuid \<Rightarrow> exc + artifact option" where
  "get_artifact K f u = get_entry f ''artifacts'' u (artifact_from_dict K)"

definition get_document :: "coercions \<Rightarrow> json_file \<Rightarrow> uuid \<Rightarrow> exc + doc option" where
  "get_document K f u = get_entry f ''documents'' u (\<lambda>payload. bindE (jitem payload ''document'') (document_from_dict K))"

fun jitems :: "json \<Rightarrow> exc + (pystr \<times> json) list" where
  "jitems (JObj kvs) = Inr kvs"
| "jitems _ = Inl (OtherError ''AttributeError'' ''object has no attribute items'')"

definition int_values :: "coercions \<Rightarrow> json \<Rightarrow> exc + (pystr \<times> int) list" where
  "int_values K j = bindE (jitems j) (mapM (\<lambda>(k, v). mapE (Pair k) (as_int K v)))"

definition manifest_from_dict :: "coercions \<Rightarrow> json \<Rightarrow> exc + manifest" where
  "manifest_from_dict K raw =
    bindE (bindE (jitem raw ''id'') jstr) (\<lambda>mid.
    bindE (bindE (jitem raw ''kind'') jstr) (\<lambda>kind.
    bindE (bindE (jitem raw ''title'') jstr) (\<lambda>title.
    bindE (bindE (jitem raw ''metadata'') (as_dict K)) (\<lambda>metadata.
    bindE (bindE (jitem raw ''available'') jitems) (\<lambda>available.
    bindE (bindE (jitem raw ''structure'') (int_values K)) (\<lambda>structure.
    bindE (bindE (jitem raw ''tokens'') (int_values K)) (\<lambda>tokens.
    Inr \<lparr>mf_id = mid, mf_kind = kind, mf_title = title, mf_metadata = metadata,
      mf_available = map (\<lambda>(k, v). (k, truthy v)) available, mf_structure = structure, mf_tokens = tokens\<rparr>)))))))"

definition get_manifest :: "coercions \<Rightarrow> json_file \<Rightarrow> uuid \<Rightarrow> exc + manifest option" where
  "get_manifest K f u = get_entry f ''documents'' u (\<lambda>payload. bindE (jitem payload ''manifest'') (manifest_from_dict K))"

definition save_work_document_link :: "json_file \<Rightarrow> document_link \<Rightarrow> exc + json_file" where
  "save_work_document_link f l =
    bindE (read_research f) (\<lambda>data.
    bindE (check (map_of (json_bucket data ''artifacts'') (uuid_str (lk_artifact l)) \<noteq> None)
             (ValueError (''artifact not found for work document link: '' @ uuid_str (lk_artifact l)))) (\<lambda>_.
    case map_of (json_bucket data ''documents'') (uuid_str (lk_document l)) of
      None \<Rightarrow> Inl (ValueError (''document not found for work document link: '' @ uuid_str (lk_document l)))
    | Some stored \<Rightarrow>
        bindE (bindE (jitem stored ''document'') (\<lambda>d. jitem d ''artifact_id'')) (\<lambda>aid.
        bindE (check (aid = JStr (uuid_str (lk_artifact l)))
                 (ValueError ''work document link artifact does not match document artifact'')) (\<lambda>_.
        let key = uuid_str (lk_id l); links = json_bucket data ''work_document_links'' in
        case bucket_get links key of
          Some existing \<Rightarrow>
            bindE (same_link existing (link_to_dict l)) (\<lambda>same.
            bindE (check same (ValueError (''conflicting work document link: '' @ uuid_str (lk_id l)))) (\<lambda>_. Inr f))
        | None \<Rightarrow> Inr (write_buckets (put_entry data ''work_document_links'' key (link_to_dict l)))))))"

definition list_links :: "json_file \<Rightarrow> (document_link \<Rightarrow> bool) \<Rightarrow> exc + document_link list" where
  "list_links f wanted =
    bindE (read_research f) (\<lambda>data.
    mapE (\<lambda>links. sort_key (\<lambda>l. uuid_str (lk_id l)) (filter wanted links))
      (mapM (\<lambda>(k, raw). link_from_dict raw) (json_bucket data ''work_document_links'')))"

definition list_work_document_links :: "json_file \<Rightarrow> uuid \<Rightarrow> exc + document_link list" where
  "list_work_document_links f u = list_links f (\<lambda>l. lk_work l = u)"

definition list_document_work_links :: "json_file \<Rightarrow> uuid \<Rightarrow> exc + document_link list" where
  "list_document_work_links f u = list_links f (\<lambda>l. lk_document l = u)"

section \<open>The catalogue the document stands for\<close>

record research_catalog =
  rc_artifacts :: "pystr \<Rightarrow> artifact option"
  rc_documents :: "pystr \<Rightarrow> (doc \<times> manifest) option"
  rc_links :: "pystr \<Rightarrow> document_link option"

definition no_research :: research_catalog where
  "no_research = \<lparr>rc_artifacts = Map.empty, rc_documents = Map.empty, rc_links = Map.empty\<rparr>"

definition artifact_entry :: "coercions \<Rightarrow> json \<Rightarrow> artifact \<Rightarrow> bool" where
  "artifact_entry K j a \<longleftrightarrow> truthy j \<and> artifact_from_dict K j = Inr a"

definition document_entry :: "coercions \<Rightarrow> json \<Rightarrow> doc \<times> manifest \<Rightarrow> bool" where
  "document_entry K j p \<longleftrightarrow>
    (\<exists>dj mj. jget j ''document'' = Some dj \<and> jget j ''manifest'' = Some mj \<and> is_object j \<and>
      document_from_dict K dj = Inr (fst p) \<and> manifest_from_dict K mj = Inr (snd p) \<and>
      jget dj ''artifact_id'' = Some (JStr (uuid_str (dc_artifact (fst p)))))"

definition link_entry :: "json \<Rightarrow> document_link \<Rightarrow> bool" where
  "link_entry j l \<longleftrightarrow> j = link_to_dict l"

definition research_holds :: "coercions \<Rightarrow> json_file \<Rightarrow> research_catalog \<Rightarrow> bool" where
  "research_holds K f C \<longleftrightarrow> (\<exists>data. read_research f = Inr data \<and>
    json_is_one (map_of data ''schema_version'') \<and>
    (\<forall>name \<in> {''artifacts'', ''documents'', ''work_document_links''}. \<exists>b. map_of data name = Some (JObj b)) \<and>
    holds_entries (artifact_entry K) (json_bucket data ''artifacts'') (rc_artifacts C) \<and>
    holds_entries (document_entry K) (json_bucket data ''documents'') (rc_documents C) \<and>
    holds_entries link_entry (json_bucket data ''work_document_links'') (rc_links C))"

section \<open>Records read back\<close>

definition artifact_valid :: "artifact \<Rightarrow> bool" where
  "artifact_valid a \<longleftrightarrow> mk_artifact a = Inr a \<and> posix_path (ar_storage_key a) = ar_storage_key a"

text \<open>A document whose parts went through their constructors.\<close>

definition doc_valid :: "doc \<Rightarrow> bool" where
  "doc_valid d \<longleftrightarrow> mk_document d = Inr d \<and>
    list_all (\<lambda>s. mk_section s = Inr s \<and> list_all (\<lambda>p. mk_passage p = Inr p) (se_passages s)) (dc_sections d) \<and>
    list_all (\<lambda>f. mk_figure f = Inr f) (dc_figures d) \<and>
    list_all (\<lambda>t. mk_table t = Inr t) (dc_tables d) \<and>
    list_all (\<lambda>e. mk_equation e = Inr e) (dc_equations d)"

lemma uuid_str_filled [simp]: "uuid_str u \<noteq> []"
  by (simp add: uuid_str_def Let_def)

lemma artifact_from_to_dict: "artifact_valid a \<Longrightarrow> artifact_from_dict K (artifact_to_dict a) = Inr a"
  by (cases a) (simp add: artifact_valid_def artifact_from_dict_def artifact_to_dict_def jitem_def)

lemma link_from_to_dict [simp]: "link_from_dict (link_to_dict l) = Inr l"
  by (cases l) (simp add: link_from_dict_def link_to_dict_def jitem_def)

lemma passage_from_to_dict:
  "mk_passage p = Inr p \<Longrightarrow> pg_document p = did \<Longrightarrow> pg_section p = sid \<Longrightarrow>
    passage_from_dict K did sid (passage_to_dict p) = Inr p"
  by (cases p) (simp add: passage_from_dict_def passage_to_dict_def jitem_def)

lemma parent_from_to_dict [simp]:
  "(case Some (jopt (\<lambda>u. JStr (uuid_str u)) p) of None \<Rightarrow> Inr None
    | Some v \<Rightarrow> if truthy v then mapE Some (juuid v) else Inr None) = Inr p"
  by (cases p) (simp_all add: jopt_def)

lemma section_from_to_dict:
  assumes "mk_section s = Inr s" "list_all (\<lambda>p. mk_passage p = Inr p) (se_passages s)" "se_document s = did"
  shows "section_from_dict K did (section_to_dict s) = Inr s"
proof -
  have "mapM (passage_from_dict K did (se_id s)) (map passage_to_dict (se_passages s)) = Inr (se_passages s)"
    using assms by (intro mapM_map_id passage_from_to_dict) (auto simp: mk_section_def res_simps list_all_iff)
  then show ?thesis using assms(1,3) parent_from_to_dict[of "se_parent s"]
    by (cases s) (simp add: section_from_dict_def section_to_dict_def jitem_def)
qed

lemma figure_from_to_dict:
  "mk_figure f = Inr f \<Longrightarrow> fg_document f = did \<Longrightarrow> figure_from_dict K did (figure_to_dict f) = Inr f"
  by (cases f) (simp add: figure_from_dict_def figure_to_dict_def jitem_def)

lemma table_from_to_dict:
  "mk_table t = Inr t \<Longrightarrow> tb_document t = did \<Longrightarrow> table_from_dict K did (table_to_dict t) = Inr t"
  by (cases t) (simp add: table_from_dict_def table_to_dict_def jitem_def)

lemma equation_from_to_dict:
  "mk_equation e = Inr e \<Longrightarrow> eq_document e = did \<Longrightarrow> equation_from_dict K did (equation_to_dict e) = Inr e"
  by (cases e) (simp add: equation_from_dict_def equation_to_dict_def jitem_def)

lemma document_from_to_dict:
  assumes "doc_valid d" "well_structured d"
  shows "document_from_dict K (document_to_dict d) = Inr d"
proof -
  have o: "list_all (\<lambda>s. se_document s = dc_id d) (dc_sections d)" "list_all (\<lambda>f. fg_document f = dc_id d) (dc_figures d)"
    "list_all (\<lambda>t. tb_document t = dc_id d) (dc_tables d)" "list_all (\<lambda>e. eq_document e = dc_id d) (dc_equations d)"
    using assms(1) by (auto simp: doc_valid_def mk_document_def res_simps)
  have "mapM (section_from_dict K (dc_id d)) (map section_to_dict (dc_sections d)) = Inr (dc_sections d)"
    using assms(1) o(1) by (intro mapM_map_id section_from_to_dict) (auto simp: doc_valid_def list_all_iff)
  moreover have "mapM (figure_from_dict K (dc_id d)) (map figure_to_dict (dc_figures d)) = Inr (dc_figures d)"
    using assms(1) o(2) by (intro mapM_map_id figure_from_to_dict) (auto simp: doc_valid_def list_all_iff)
  moreover have "mapM (table_from_dict K (dc_id d)) (map table_to_dict (dc_tables d)) = Inr (dc_tables d)"
    using assms(1) o(3) by (intro mapM_map_id table_from_to_dict) (auto simp: doc_valid_def list_all_iff)
  moreover have "mapM (equation_from_dict K (dc_id d)) (map equation_to_dict (dc_equations d)) = Inr (dc_equations d)"
    using assms(1) o(4) by (intro mapM_map_id equation_from_to_dict) (auto simp: doc_valid_def list_all_iff)
  moreover have "mk_document d = Inr d" "validate_document_structure d = Inr ()"
    using assms by (simp_all add: doc_valid_def validate_Inr_iff)
  ultimately show ?thesis
    by (cases d) (simp add: document_from_dict_def document_to_dict_def items_from_def jitem_def)
qed

lemma manifest_from_to_dict: "manifest_from_dict K (manifest_to_dict m) = Inr m"
proof -
  have "mapM (\<lambda>(k, v). mapE (Pair k) (as_int K v)) (map (\<lambda>(k, n). (k, JInt n)) xs) = Inr xs"
    for xs :: "(pystr \<times> int) list"
    by (induction xs) auto
  moreover have "map (\<lambda>(k, v). (k, truthy v)) (map (\<lambda>(k, b). (k, JBool b)) xs) = xs"
    for xs :: "(pystr \<times> bool) list"
    by (induction xs) auto
  ultimately show ?thesis
    by (cases m) (simp add: manifest_from_dict_def manifest_to_dict_def int_values_def jitem_def)
qed

section \<open>Writing and reading the catalogue\<close>

text \<open>What the operations promise.\<close>

definition spec_save_link :: "research_catalog \<Rightarrow> document_link \<Rightarrow> research_catalog option" where
  "spec_save_link C l =
    (if rc_artifacts C (uuid_str (lk_artifact l)) = None then None
     else case rc_documents C (uuid_str (lk_document l)) of
       None \<Rightarrow> None
     | Some (d, _) \<Rightarrow>
         if dc_artifact d \<noteq> lk_artifact l then None
         else case rc_links C (uuid_str (lk_id l)) of
           Some old \<Rightarrow> if old\<lparr>lk_linked_at := lk_linked_at l\<rparr> = l then Some C else None
         | None \<Rightarrow> Some (C\<lparr>rc_links := (rc_links C)(uuid_str (lk_id l) \<mapsto> l)\<rparr>))"

definition research_data :: "coercions \<Rightarrow> (pystr \<times> json) list \<Rightarrow> research_catalog \<Rightarrow> bool" where
  "research_data K data C \<longleftrightarrow>
    json_is_one (map_of data ''schema_version'') \<and>
    (\<forall>name \<in> {''artifacts'', ''documents'', ''work_document_links''}. \<exists>b. map_of data name = Some (JObj b)) \<and>
    holds_entries (artifact_entry K) (json_bucket data ''artifacts'') (rc_artifacts C) \<and>
    holds_entries (document_entry K) (json_bucket data ''documents'') (rc_documents C) \<and>
    holds_entries link_entry (json_bucket data ''work_document_links'') (rc_links C)"

lemma research_holds_data: "research_holds K f C \<longleftrightarrow> (\<exists>data. read_research f = Inr data \<and> research_data K data C)"
  by (simp add: research_holds_def research_data_def)

lemma read_write_research:
  assumes "research_data K data C"
  shows "research_holds K (write_buckets data) C"
proof -
  let ?d = "map (\<lambda>(k, v). (k, sort_bucket v)) data"
  obtain a b c where m: "map_of data ''artifacts'' = Some (JObj a)" "map_of data ''documents'' = Some (JObj b)"
      "map_of data ''work_document_links'' = Some (JObj c)"
    using assms by (auto simp: research_data_def)
  note kept = bucket_written[OF m(1)] bucket_written[OF m(2)] bucket_written[OF m(3)]
  have h: "research_data K ?d C"
    unfolding research_data_def kept
    by (intro conjI entries_sort one_written) (use assms m in \<open>auto simp: research_data_def map_of_written\<close>)
  moreover have "read_research (write_buckets data) = Inr ?d"
    using m assms one_written[of data "''schema_version''"]
    by (simp add: read_research_def write_buckets_def research_data_def object_at_def map_of_written)
  ultimately show ?thesis unfolding research_holds_data by blast
qed

lemma init_research_holds: "research_holds K (init_research Missing) no_research"
  unfolding init_research_def empty_research_def
  by (simp, rule read_write_research) (simp add: research_data_def json_is_one_def json_bucket_def no_research_def)

lemma saves_artifact:
  assumes "research_holds K f C" "artifact_valid a"
  shows "\<exists>f'. save_artifact f a = Inr f' \<and>
    research_holds K f' (C\<lparr>rc_artifacts := (rc_artifacts C)(uuid_str (ar_id a) \<mapsto> a)\<rparr>)"
proof -
  obtain data where d: "read_research f = Inr data" "research_data K data C" using assms(1) by (auto simp: research_holds_data)
  have "artifact_entry K (artifact_to_dict a) a"
    using artifact_from_to_dict[OF assms(2)] by (simp add: artifact_entry_def artifact_to_dict_def)
  then have "holds_entries (artifact_entry K)
      (jset (json_bucket data ''artifacts'') (uuid_str (ar_id a)) (artifact_to_dict a)) ((rc_artifacts C)(uuid_str (ar_id a) \<mapsto> a))"
    using d(2) by (intro entries_put) (simp add: research_data_def)
  then have "research_data K (put_entry data ''artifacts'' (uuid_str (ar_id a)) (artifact_to_dict a))
      (C\<lparr>rc_artifacts := (rc_artifacts C)(uuid_str (ar_id a) \<mapsto> a)\<rparr>)"
    using d(2) by (auto simp: research_data_def put_entry_def json_bucket_def)
  from read_write_research[OF this] d(1) show ?thesis by (simp add: save_artifact_def)
qed

lemma saves_document:
  assumes "research_holds K f C" "doc_valid d" "well_structured d"
  shows "\<exists>f'. save_document f d m = Inr f' \<and>
    research_holds K f' (C\<lparr>rc_documents := (rc_documents C)(uuid_str (dc_id d) \<mapsto> (d, m))\<rparr>)"
proof -
  let ?j = "JObj [(''document'', document_to_dict d), (''manifest'', manifest_to_dict m)]"
  obtain data where r: "read_research f = Inr data" "research_data K data C" using assms(1) by (auto simp: research_holds_data)
  have "document_entry K ?j (d, m)"
    using document_from_to_dict[OF assms(2,3)] manifest_from_to_dict
    by (simp add: document_entry_def) (simp add: document_to_dict_def)
  then have "holds_entries (document_entry K) (jset (json_bucket data ''documents'') (uuid_str (dc_id d)) ?j)
      ((rc_documents C)(uuid_str (dc_id d) \<mapsto> (d, m)))"
    using r(2) by (intro entries_put) (simp add: research_data_def)
  then have "research_data K (put_entry data ''documents'' (uuid_str (dc_id d)) ?j)
      (C\<lparr>rc_documents := (rc_documents C)(uuid_str (dc_id d) \<mapsto> (d, m))\<rparr>)"
    using r(2) by (auto simp: research_data_def put_entry_def json_bucket_def)
  from read_write_research[OF this] r(1) show ?thesis
    using assms(3) by (simp add: save_document_def validate_Inr_iff[symmetric])
qed

lemma refuses_document: "\<not> well_structured d \<Longrightarrow> \<exists>e. save_document f d m = Inl e"
  using validate_Inr_iff[of d] by (cases "validate_document_structure d") (auto simp: save_document_def)

lemma same_link_iff: "same_link (link_to_dict a) (link_to_dict b) = Inr (a\<lparr>lk_linked_at := lk_linked_at b\<rparr> = b)"
  by (cases a; cases b) (simp add: same_link_def link_to_dict_def jitem_def uuid_str_inject)

lemma saves_link:
  assumes "research_holds K f C"
  shows "case spec_save_link C l of
      None \<Rightarrow> \<exists>e. save_work_document_link f l = Inl e
    | Some C' \<Rightarrow> \<exists>f'. save_work_document_link f l = Inr f' \<and> research_holds K f' C'"
proof -
  obtain data where r: "read_research f = Inr data" "research_data K data C" using assms by (auto simp: research_holds_data)
  have e: "holds_entries (artifact_entry K) (json_bucket data ''artifacts'') (rc_artifacts C)"
    "holds_entries (document_entry K) (json_bucket data ''documents'') (rc_documents C)"
    "holds_entries link_entry (json_bucket data ''work_document_links'') (rc_links C)"
    using r(2) by (simp_all add: research_data_def)
  show ?thesis
  proof (cases "rc_artifacts C (uuid_str (lk_artifact l))")
    case None
    then show ?thesis using r(1) entries_get(1)[OF e(1) None] by (simp add: spec_save_link_def save_work_document_link_def)
  next
    case (Some a)
    note a = entries_get(2)[OF e(1) Some]
    show ?thesis
    proof (cases "rc_documents C (uuid_str (lk_document l))")
      case None
      then show ?thesis using r(1) Some a entries_get(1)[OF e(2) None]
        by (auto simp: spec_save_link_def save_work_document_link_def)
    next
      case (Some p)
      obtain d m where p: "p = (d, m)" by fastforce
      obtain j dj where j: "map_of (json_bucket data ''documents'') (uuid_str (lk_document l)) = Some j"
          "jget j ''document'' = Some dj" "jget dj ''artifact_id'' = Some (JStr (uuid_str (dc_artifact d)))"
        using entries_get(2)[OF e(2) Some] p by (auto simp: document_entry_def)
      let ?key = "uuid_str (lk_id l)" and ?links = "json_bucket data ''work_document_links''"
      show ?thesis
      proof (cases "rc_links C ?key")
        case None
        have "holds_entries link_entry (jset ?links ?key (link_to_dict l)) ((rc_links C)(?key \<mapsto> l))"
          by (intro entries_put[OF e(3)]) (simp add: link_entry_def)
        then have "research_data K (put_entry data ''work_document_links'' ?key (link_to_dict l))
            (C\<lparr>rc_links := (rc_links C)(?key \<mapsto> l)\<rparr>)"
          using r(2) by (auto simp: research_data_def put_entry_def json_bucket_def)
        note put = read_write_research[OF this]
        have "bucket_get ?links ?key = None" using entries_get(1)[OF e(3) None] by (simp add: bucket_get_def)
        then show ?thesis using r(1) a j p put None \<open>rc_artifacts C _ = _\<close> Some
          by (auto simp: spec_save_link_def save_work_document_link_def jitem_def uuid_str_inject)
      next
        case old: (Some old)
        have "bucket_get ?links ?key = Some (link_to_dict old)"
          using entries_get(2)[OF e(3) old] by (auto simp: link_entry_def bucket_get_def link_to_dict_def)
        then show ?thesis using r(1) a j p assms old \<open>rc_artifacts C _ = _\<close> Some
          by (auto simp: spec_save_link_def save_work_document_link_def jitem_def uuid_str_inject same_link_iff)
      qed
    qed
  qed
qed

lemma get_artifact_holds:
  assumes "research_holds K f C"
  shows "get_artifact K f u = Inr (rc_artifacts C (uuid_str u))"
proof -
  obtain data where d: "read_research f = Inr data" "research_data K data C" using assms by (auto simp: research_holds_data)
  then have e: "holds_entries (artifact_entry K) (json_bucket data ''artifacts'') (rc_artifacts C)" by (simp add: research_data_def)
  show ?thesis using d(1) entries_get[OF e, of "uuid_str u"]
    by (cases "rc_artifacts C (uuid_str u)") (auto simp: get_artifact_def get_entry_def artifact_entry_def)
qed

lemma document_payload:
  assumes "research_holds K f C"
  obtains (absent) "rc_documents C (uuid_str u) = None" "get_entry f ''documents'' u parse = Inr None"
  | (stored) j d m where "rc_documents C (uuid_str u) = Some (d, m)" "document_entry K j (d, m)"
      "get_entry f ''documents'' u parse = mapE Some (parse j)"
proof -
  obtain data where d: "read_research f = Inr data" "research_data K data C" using assms by (auto simp: research_holds_data)
  then have e: "holds_entries (document_entry K) (json_bucket data ''documents'') (rc_documents C)" by (simp add: research_data_def)
  show thesis
  proof (cases "rc_documents C (uuid_str u)")
    case None
    then show ?thesis using absent d(1) entries_get(1)[OF e None] by (simp add: get_entry_def)
  next
    case (Some p)
    obtain x y where p: "p = (x, y)" by fastforce
    obtain j where j: "map_of (json_bucket data ''documents'') (uuid_str u) = Some j" "document_entry K j (x, y)"
      using entries_get(2)[OF e Some] p by blast
    then have "truthy j" using truthy_object[of j "''document''"] by (auto simp: document_entry_def)
    then show ?thesis using stored[of x y j] Some p j d(1) by (simp add: get_entry_def)
  qed
qed

lemma get_document_holds:
  assumes "research_holds K f C"
  shows "get_document K f u = Inr (map_option fst (rc_documents C (uuid_str u)))"
  by (cases rule: document_payload[OF assms, of u "\<lambda>payload. bindE (jitem payload ''document'') (document_from_dict K)"])
    (auto simp: get_document_def document_entry_def jitem_def)

lemma get_manifest_holds:
  assumes "research_holds K f C"
  shows "get_manifest K f u = Inr (map_option snd (rc_documents C (uuid_str u)))"
  by (cases rule: document_payload[OF assms, of u "\<lambda>payload. bindE (jitem payload ''manifest'') (manifest_from_dict K)"])
    (auto simp: get_manifest_def document_entry_def jitem_def)

lemma list_links_holds:
  assumes "research_holds K f C"
  shows "\<exists>ls. list_links f wanted = Inr ls \<and> set ls = {l \<in> ran (rc_links C). wanted l}"
proof -
  obtain data where d: "read_research f = Inr data" "research_data K data C" using assms by (auto simp: research_holds_data)
  then have e: "holds_entries link_entry (json_bucket data ''work_document_links'') (rc_links C)" by (simp add: research_data_def)
  obtain xs where "mapM (\<lambda>(k, raw). link_from_dict raw) (json_bucket data ''work_document_links'') = Inr (map (\<lambda>l. l) xs)"
      "set xs = ran (rc_links C)"
    using entries_collect[OF e, of "\<lambda>(k, raw). link_from_dict raw" "\<lambda>l. l"] by (auto simp: link_entry_def)
  then show ?thesis using d(1) by (auto simp: list_links_def)
qed

section \<open>The links of a document, as an interface\<close>

text \<open>\<open>ports/work_documents.py\<close>, as the resolution of citations uses it.\<close>

locale link_store =
  fixes links_of :: "'s \<Rightarrow> uuid \<Rightarrow> exc + document_link list" and holds :: "'s \<Rightarrow> research_catalog \<Rightarrow> bool"
  assumes lists_links: "holds s C \<Longrightarrow>
    \<exists>ls. links_of s u = Inr ls \<and> set ls = {l \<in> ran (rc_links C). lk_document l = u}"
begin

text \<open>The works a document is known to represent.\<close>

lemma linked_works:
  "holds s C \<Longrightarrow> \<exists>ls. links_of s u = Inr ls \<and> lk_work ` set ls = {w. \<exists>l \<in> ran (rc_links C). lk_document l = u \<and> lk_work l = w}"
  using lists_links[of s C u] by auto

end

interpretation json_links: link_store list_document_work_links "research_holds K" for K
  by unfold_locales (simp add: list_document_work_links_def list_links_holds)

section \<open>Histories of the catalogue\<close>

datatype research_call = SaveArtifact artifact | SaveDocument doc manifest | SaveLink document_link

text \<open>A call that raises leaves the file as it was.\<close>

fun research_call_on :: "json_file \<Rightarrow> research_call \<Rightarrow> exc + json_file" where
  "research_call_on f (SaveArtifact a) = save_artifact f a"
| "research_call_on f (SaveDocument d m) = save_document f d m"
| "research_call_on f (SaveLink l) = save_work_document_link f l"

definition research_run :: "json_file \<Rightarrow> research_call list \<Rightarrow> json_file" where
  "research_run = foldl (\<lambda>f c. case research_call_on f c of Inl _ \<Rightarrow> f | Inr f' \<Rightarrow> f')"

fun spec_research :: "research_catalog \<Rightarrow> research_call \<Rightarrow> research_catalog" where
  "spec_research C (SaveArtifact a) = C\<lparr>rc_artifacts := (rc_artifacts C)(uuid_str (ar_id a) \<mapsto> a)\<rparr>"
| "spec_research C (SaveDocument d m) =
    (if well_structured d then C\<lparr>rc_documents := (rc_documents C)(uuid_str (dc_id d) \<mapsto> (d, m))\<rparr> else C)"
| "spec_research C (SaveLink l) = (case spec_save_link C l of None \<Rightarrow> C | Some C' \<Rightarrow> C')"

fun call_valid :: "research_call \<Rightarrow> bool" where
  "call_valid (SaveArtifact a) = artifact_valid a"
| "call_valid (SaveDocument d m) = doc_valid d"
| "call_valid (SaveLink l) = True"

lemma research_call_holds:
  assumes "research_holds K f C" "call_valid c"
  shows "research_holds K (case research_call_on f c of Inl _ \<Rightarrow> f | Inr f' \<Rightarrow> f') (spec_research C c)"
proof (cases c)
  case (SaveArtifact a)
  then show ?thesis using saves_artifact[OF assms(1)] assms(2) by fastforce
next
  case (SaveDocument d m)
  then show ?thesis using saves_document[OF assms(1), of d m] refuses_document[of d f m] assms by fastforce
next
  case (SaveLink l)
  then show ?thesis using saves_link[OF assms(1), of l] assms(1) by (auto split: option.splits)
qed

lemma research_run_holds:
  "research_holds K f C \<Longrightarrow> list_all call_valid calls \<Longrightarrow>
    research_holds K (research_run f calls) (foldl spec_research C calls)"
  by (induction calls arbitrary: f C) (simp_all add: research_run_def research_call_holds)

text \<open>What every history keeps: links under their own keys, of artifacts and documents that are there.\<close>

definition links_ok :: "research_catalog \<Rightarrow> bool" where
  "links_ok C \<longleftrightarrow> (\<forall>k l. rc_links C k = Some l \<longrightarrow> k = uuid_str (lk_id l) \<and>
    rc_artifacts C (uuid_str (lk_artifact l)) \<noteq> None \<and> rc_documents C (uuid_str (lk_document l)) \<noteq> None)"

lemma spec_save_link_Some:
  "spec_save_link C l = Some C' \<Longrightarrow> rc_artifacts C (uuid_str (lk_artifact l)) \<noteq> None \<and>
    rc_documents C (uuid_str (lk_document l)) \<noteq> None \<and>
    (C' = C \<or> rc_links C (uuid_str (lk_id l)) = None \<and> C' = C\<lparr>rc_links := (rc_links C)(uuid_str (lk_id l) \<mapsto> l)\<rparr>)"
  by (auto simp: spec_save_link_def split: if_splits option.splits prod.splits)

lemma spec_research_ok: "links_ok C \<Longrightarrow> links_ok (spec_research C c) \<and> rc_links C \<subseteq>\<^sub>m rc_links (spec_research C c)"
proof (cases c)
  case (SaveLink l)
  assume "links_ok C"
  then show ?thesis using SaveLink spec_save_link_Some[of C l]
    by (cases "spec_save_link C l") (auto simp: links_ok_def map_le_def split: if_splits)
qed (auto simp: links_ok_def)

lemma spec_run_ok: "links_ok C \<Longrightarrow> links_ok (foldl spec_research C cs) \<and> rc_links C \<subseteq>\<^sub>m rc_links (foldl spec_research C cs)"
proof (induction cs arbitrary: C)
  case (Cons c cs)
  then show ?case using spec_research_ok[of C c] map_le_trans by fastforce
qed simp

lemma no_links: "links_ok no_research"
  by (simp add: links_ok_def no_research_def)

lemma call_accepted:
  assumes "research_holds K f C" "call_valid c"
  shows "isOk (research_call_on f c) \<longleftrightarrow>
    (case c of SaveArtifact a \<Rightarrow> True | SaveDocument d m \<Rightarrow> well_structured d | SaveLink l \<Rightarrow> spec_save_link C l \<noteq> None)"
proof (cases c)
  case (SaveArtifact a)
  then show ?thesis using saves_artifact[OF assms(1)] assms(2) by (auto simp: isOk_iff)
next
  case (SaveDocument d m)
  then show ?thesis using saves_document[OF assms(1), of d m] refuses_document[of d f m] assms
    by (cases "well_structured d") (auto simp: isOk_iff)
next
  case (SaveLink l)
  then show ?thesis using saves_link[OF assms(1), of l] by (auto simp: isOk_iff split: option.splits)
qed

section \<open>Properties\<close>

text \<open>
  C32: the catalogue implements three maps. After any history of saves, a save is accepted exactly when
  the maps say so (a document if it is well structured; a link if its artifact and its document are
  there, belong together, and no other link has its identifier), and artifacts, documents, manifests and
  the links of a document read back as the maps hold them, with no exception.
\<close>

theorem research_catalog_refines:
  assumes "research_holds K f C" and "list_all call_valid calls" and "call_valid c"
  shows "\<exists>C' f' ls. C' = foldl spec_research C calls \<and> f' = research_run f calls \<and> research_holds K f' C' \<and>
    (isOk (research_call_on f' c) \<longleftrightarrow>
      (case c of SaveArtifact a \<Rightarrow> True | SaveDocument d m \<Rightarrow> well_structured d | SaveLink l \<Rightarrow> spec_save_link C' l \<noteq> None)) \<and>
    get_artifact K f' u = Inr (rc_artifacts C' (uuid_str u)) \<and>
    get_document K f' u = Inr (map_option fst (rc_documents C' (uuid_str u))) \<and>
    get_manifest K f' u = Inr (map_option snd (rc_documents C' (uuid_str u))) \<and>
    list_document_work_links f' u = Inr ls \<and> set ls = {l \<in> ran (rc_links C'). lk_document l = u}"
proof -
  have h: "research_holds K (research_run f calls) (foldl spec_research C calls)"
    by (rule research_run_holds[OF assms(1,2)])
  obtain ls where "list_document_work_links (research_run f calls) u = Inr ls"
      "set ls = {l \<in> ran (rc_links (foldl spec_research C calls)). lk_document l = u}"
    using json_links.lists_links[OF h] by blast
  then show ?thesis
    using h call_accepted[OF h assms(3)] get_artifact_holds[OF h] get_document_holds[OF h] get_manifest_holds[OF h] by blast
qed

text \<open>
  C33: links last. A link between a work and a document that was stored is listed unchanged, with the time
  it was first written, after any further history, and every link that is listed is one of an artifact
  and a document that read back.
\<close>

theorem document_links_stay:
  assumes "research_holds K f C" and "links_ok C" and "list_all call_valid calls"
    and "list_document_work_links f u = Inr ls"
  shows "\<exists>ls'. list_document_work_links (research_run f calls) u = Inr ls' \<and> set ls \<subseteq> set ls' \<and>
    (\<forall>l \<in> set ls'. \<exists>a d. get_artifact K (research_run f calls) (lk_artifact l) = Inr (Some a) \<and>
      get_document K (research_run f calls) u = Inr (Some d))"
proof -
  let ?f = "research_run f calls" and ?C = "foldl spec_research C calls"
  have h: "research_holds K ?f ?C" by (rule research_run_holds[OF assms(1,3)])
  have ok: "links_ok ?C" "rc_links C \<subseteq>\<^sub>m rc_links ?C" using spec_run_ok[OF assms(2)] by blast+
  obtain ls' where l: "list_document_work_links ?f u = Inr ls'" "set ls' = {l \<in> ran (rc_links ?C). lk_document l = u}"
    using json_links.lists_links[OF h] by blast
  have "set ls = {l \<in> ran (rc_links C). lk_document l = u}"
    using json_links.lists_links[OF assms(1), of u] assms(4) by auto
  moreover have "ran (rc_links C) \<subseteq> ran (rc_links ?C)"
  proof
    fix l assume "l \<in> ran (rc_links C)"
    then obtain k where "rc_links C k = Some l" by (auto simp: ran_def)
    then have "rc_links ?C k = Some l" using ok(2) unfolding map_le_def by (metis domI)
    then show "l \<in> ran (rc_links ?C)" by (rule ranI)
  qed
  ultimately have "set ls \<subseteq> set ls'" using l(2) by blast
  moreover have "\<exists>a d. get_artifact K ?f (lk_artifact l) = Inr (Some a) \<and> get_document K ?f u = Inr (Some d)"
    if "l \<in> set ls'" for l
  proof -
    have "l \<in> ran (rc_links ?C)" "lk_document l = u" using that l(2) by blast+
    then obtain k where k: "rc_links ?C k = Some l" "lk_document l = u" by (auto simp: ran_def)
    then obtain a p where "rc_artifacts ?C (uuid_str (lk_artifact l)) = Some a" "rc_documents ?C (uuid_str u) = Some p"
      using ok(1) unfolding links_ok_def by blast
    then show ?thesis using get_artifact_holds[OF h] get_document_holds[OF h] by simp
  qed
  ultimately show ?thesis using l(1) by blast
qed

section \<open>Witnesses\<close>

definition sample_artifact :: artifact where
  "sample_artifact = \<lparr>ar_id = 8, ar_sha256 = replicate 64 (CHR ''a''), ar_size = 1, ar_media_type = ''text/plain'',
    ar_storage_key = ''sha256/aa/aa'', ar_original_name = None, ar_acquired_at = Aware 0 0, ar_source_uri = None\<rparr>"

definition sample_link :: document_link where
  "sample_link = \<lparr>lk_id = 5, lk_work = 4, lk_artifact = 8, lk_document = 9, lk_linked_at = Aware 0 0\<rparr>"

definition sample_calls :: "research_call list" where
  "sample_calls = [SaveArtifact sample_artifact, SaveDocument sample_doc (build_document_manifest sample_doc sample_artifact),
    SaveLink sample_link]"

lemma sample_calls_valid: "list_all call_valid sample_calls" "well_structured sample_doc"
proof -
  have "posix_path ''sha256/aa/aa'' = ''sha256/aa/aa''" "\<not> blank ''p''" "\<not> blank ''1''" by code_simp+
  moreover have "is_lower_sha256 (replicate 64 (CHR ''a''))" by code_simp
  ultimately show "list_all call_valid sample_calls"
    by (simp add: sample_calls_def artifact_valid_def sample_artifact_def mk_artifact_def doc_valid_def sample_doc_def
        mk_document_def artifact_contract_def sample_section_def mk_section_def)
  have "validate_document_structure sample_doc = Inr ()"
    by (simp add: validate_document_structure_def validated_parent_first_def sample_doc_def sample_section_def
        roots_of_def children_of_def pop_order_def)
  then show "well_structured sample_doc" by (simp add: validate_Inr_iff)
qed

lemma sample_history:
  "foldl spec_research no_research sample_calls =
    \<lparr>rc_artifacts = [uuid_str 8 \<mapsto> sample_artifact],
     rc_documents = [uuid_str 9 \<mapsto> (sample_doc, build_document_manifest sample_doc sample_artifact)],
     rc_links = [uuid_str 5 \<mapsto> sample_link]\<rparr>"
  using sample_calls_valid(2)
  by (simp add: sample_calls_def no_research_def spec_save_link_def sample_link_def)
    (simp add: sample_artifact_def sample_doc_def)

theorem research_catalog_refines_witness:
  "get_document no_coercions (research_run (init_research Missing) sample_calls) 9 = Inr (Some sample_doc)"
  using research_catalog_refines[OF init_research_holds sample_calls_valid(1), of "SaveLink sample_link" no_coercions 9]
  by (simp add: sample_history)

theorem document_links_stay_witness:
  "\<exists>ls. list_document_work_links (research_run (research_run (init_research Missing) sample_calls) sample_calls) 9 = Inr ls \<and>
    sample_link \<in> set ls"
proof -
  let ?f = "research_run (init_research Missing) sample_calls" and ?C = "foldl spec_research no_research sample_calls"
  have h: "research_holds no_coercions ?f ?C" by (rule research_run_holds[OF init_research_holds sample_calls_valid(1)])
  obtain ls where "list_document_work_links ?f 9 = Inr ls" "set ls = {l \<in> ran (rc_links ?C). lk_document l = 9}"
    using json_links.lists_links[OF h] by blast
  then have "sample_link \<in> set ls" by (simp add: sample_history sample_link_def)
  obtain ls' where "list_document_work_links (research_run ?f sample_calls) 9 = Inr ls'" "set ls \<subseteq> set ls'"
    using document_links_stay[OF h conjunct1[OF spec_run_ok[OF no_links]] sample_calls_valid(1) \<open>_ = Inr ls\<close>] by blast
  with \<open>sample_link \<in> set ls\<close> show ?thesis by blast
qed

end
