(* ===== verification/CitationResolution.thy ===== *)
theory CitationResolution imports CitationStore ResearchCatalog WorkCatalog begin

text \<open>
  \<open>application/citation_resolution.py\<close>: the references of a document are resolved to works through exact
  identifiers, and become relations of the work the document represents. The service runs on the
  catalogue of citations, which it changes, and reads the catalogue of works and the links between
  documents and works. It goes on from reference to reference, so what it has stored stays when a later
  one raises. The clock is a stream of times, read once for every record it makes.
\<close>

section \<open>The catalogue of citations, as an interface\<close>

text \<open>\<open>ports/citations.py\<close>, as this service uses it.\<close>

record 'c citation_ops =
  cs_get_resolution :: "'c \<Rightarrow> uuid \<Rightarrow> exc + resolution option"
  cs_save_resolution :: "'c \<Rightarrow> resolution \<Rightarrow> exc + 'c"
  cs_list_references :: "'c \<Rightarrow> uuid \<Rightarrow> int \<Rightarrow> int option \<Rightarrow> exc + reference list"
  cs_count_references :: "'c \<Rightarrow> uuid \<Rightarrow> exc + int"
  cs_get_or_create_relation :: "'c \<Rightarrow> work_relation \<Rightarrow> exc + work_relation \<times> 'c"

definition json_citations :: "coercions \<Rightarrow> json_file citation_ops" where
  "json_citations K = \<lparr>cs_get_resolution = get_resolution K, cs_save_resolution = save_resolution K,
    cs_list_references = list_references K, cs_count_references = count_references K,
    cs_get_or_create_relation = get_or_create_relation K\<rparr>"

text \<open>When a resolution may be stored over the one that is there.\<close>

definition may_replace :: "resolution \<Rightarrow> resolution \<Rightarrow> bool" where
  "may_replace e r \<longleftrightarrow> rs_id e = rs_id r \<and>
    (rs_status e = RESOLVED \<longrightarrow> rs_status r = RESOLVED \<and> rs_work r = rs_work e)"

definition stored_resolution :: "catalog \<Rightarrow> uuid \<Rightarrow> resolution option" where
  "stored_resolution D u = find (\<lambda>r. rs_reference r = u) (ct_resolutions D)"

definition stored_relation :: "catalog \<Rightarrow> uuid \<Rightarrow> work_relation option" where
  "stored_relation D u = find (\<lambda>w. wr_id w = u) (ct_relations D)"

definition page_valid :: "int \<Rightarrow> int option \<Rightarrow> bool" where
  "page_valid offset limit \<longleftrightarrow> 0 \<le> offset \<and> (case limit of None \<Rightarrow> True | Some n \<Rightarrow> 0 \<le> n)"

text \<open>A write of one resolution, or of one relation, and nothing else.\<close>

definition puts_resolution :: "resolution \<Rightarrow> catalog \<Rightarrow> catalog \<Rightarrow> bool" where
  "puts_resolution r D D' \<longleftrightarrow> stored_resolution D' = (stored_resolution D)(rs_reference r \<mapsto> r) \<and>
    stored_relation D' = stored_relation D \<and> ct_references D' = ct_references D"

definition puts_relation :: "work_relation \<Rightarrow> catalog \<Rightarrow> catalog \<Rightarrow> bool" where
  "puts_relation w D D' \<longleftrightarrow> stored_relation D' = (stored_relation D)(wr_id w \<mapsto> w) \<and>
    stored_resolution D' = stored_resolution D \<and> ct_references D' = ct_references D"

definition references_page :: "catalog \<Rightarrow> uuid \<Rightarrow> int \<Rightarrow> int option \<Rightarrow> reference list" where
  "references_page D document offset limit =
    (if limit = Some 0 then []
     else sorted_page reference_sort_key offset limit (filter (\<lambda>r. rf_document r = document) (ct_references D)))"

locale citation_port =
  fixes cs :: "'c citation_ops" and holds :: "'c \<Rightarrow> catalog \<Rightarrow> bool"
  assumes gets_resolution: "holds c D \<Longrightarrow> cs_get_resolution cs c u = Inr (stored_resolution D u)"
    and saves_resolution: "holds c D \<Longrightarrow> mk_resolution r = Inr r \<Longrightarrow>
      pred_option (\<lambda>e. may_replace e r) (stored_resolution D (rs_reference r)) \<Longrightarrow>
      \<exists>c' D'. cs_save_resolution cs c r = Inr c' \<and> holds c' D' \<and> puts_resolution r D D'"
    and refuses_resolution: "holds c D \<Longrightarrow> mk_resolution r = Inr r \<Longrightarrow> stored_resolution D (rs_reference r) = Some e \<Longrightarrow>
      \<not> may_replace e r \<Longrightarrow> \<exists>m. cs_save_resolution cs c r = Inl (citation_conflict m)"
    and lists_references: "holds c D \<Longrightarrow> page_valid offset limit \<Longrightarrow>
      cs_list_references cs c document offset limit = Inr (references_page D document offset limit)"
    and counts_references: "holds c D \<Longrightarrow>
      cs_count_references cs c document = Inr (int (length (filter (\<lambda>r. rf_document r = document) (ct_references D))))"
    and new_relation: "holds c D \<Longrightarrow> mk_work_relation w = Inr w \<Longrightarrow> stored_relation D (wr_id w) = None \<Longrightarrow>
      \<exists>c' D'. cs_get_or_create_relation cs c w = Inr (w, c') \<and> holds c' D' \<and> puts_relation w D D'"
    and old_relation: "holds c D \<Longrightarrow> mk_work_relation w = Inr w \<Longrightarrow> stored_relation D (wr_id w) = Some w' \<Longrightarrow>
      cs_get_or_create_relation cs c w =
        (if relation_identity w' = relation_identity w then Inr (w', c)
         else Inl (citation_conflict ''conflicting relation for stable ID''))"
    and valid_references: "holds c D \<Longrightarrow> distinct (map rf_id (ct_references D))"

section \<open>The JSON catalogue keeps the interface\<close>

lemma jopt_str_eq: "json_eq (jopt JStr x) (jopt JStr y) \<longleftrightarrow> x = y"
  by (cases x; cases y) (auto simp: jopt_def)

lemma jopt_uuid_eq: "json_eq (jopt (\<lambda>u. JStr (uuid_str u)) x) (jopt (\<lambda>u. JStr (uuid_str u)) y) \<longleftrightarrow> x = y"
  by (cases x; cases y) (auto simp: jopt_def)

lemma uuid_list_eq: "json_eq (JList (map (\<lambda>u. JStr (uuid_str u)) us)) (JList (map (\<lambda>u. JStr (uuid_str u)) vs)) \<longleftrightarrow> us = vs"
proof -
  have "length us = length vs \<Longrightarrow>
      list_all (\<lambda>(x, y). json_eq x y) (zip (map (\<lambda>u. JStr (uuid_str u)) us) (map (\<lambda>u. JStr (uuid_str u)) vs)) \<longleftrightarrow> us = vs"
    by (induction us vs rule: list_induct2) auto
  then show ?thesis by auto
qed

lemma resolution_json_eq: "json_eq (resolution_to_dict e) (resolution_to_dict s) \<longleftrightarrow> e = s"
proof -
  have "resolution_status_value a = resolution_status_value b \<longleftrightarrow> a = b" for a b
    by (cases a; cases b) simp_all
  then show ?thesis
    by (cases e; cases s) (auto simp: resolution_to_dict_def jopt_str_eq jopt_uuid_eq uuid_list_eq simp del: json_eq.simps(2))
qed

lemma find_put_record:
  assumes d: "distinct (map key xs)"
  shows "find (\<lambda>x. key x = k) (put_record key v xs) = (if k = key v then Some v else find (\<lambda>x. key x = k) xs)"
proof -
  let ?ys = "put_record key v xs"
  have s: "set ?ys = insert v {x \<in> set xs. key x \<noteq> key v}"
    by (auto simp: put_record_def set_replace_by image_iff)
  have "distinct (map key (if key v \<in> key ` set xs then replace_by key v xs else xs @ [v]))" using d by simp
  then have d': "distinct (map key ?ys)" by (simp add: put_record_def distinct_map)
  show ?thesis
  proof (cases "k = key v")
    case True
    then show ?thesis using find_key_distinct[OF d', of v] s by simp
  next
    case False
    show ?thesis
    proof (cases "find (\<lambda>x. key x = k) xs")
      case None
      then have "find (\<lambda>x. key x = k) ?ys = None" using s False by (auto simp: find_None_iff)
      then show ?thesis using None False by simp
    next
      case (Some x)
      then have "x \<in> set ?ys" "key x = k" using s False find_Some_mem[OF Some] by auto
      then show ?thesis using find_key_distinct[OF d', of x] False Some by simp
    qed
  qed
qed

lemma put_resolution_record:
  assumes "catalog_in data D"
  shows "puts_resolution r D (D\<lparr>ct_resolutions := put_record rs_key r (ct_resolutions D)\<rparr>)"
proof -
  have "distinct (map rs_key (ct_resolutions D))" using assms by (simp add: catalog_in_def records_in_def)
  from find_put_record[OF this, of "uuid_str _" r] show ?thesis
    by (auto simp: puts_resolution_def stored_resolution_def stored_relation_def rs_key_def)
qed

lemma put_relation_record:
  assumes "catalog_in data D"
  shows "puts_relation w D (D\<lparr>ct_relations := put_record wr_key w (ct_relations D)\<rparr>)"
proof -
  have "distinct (map wr_key (ct_relations D))" using assms by (simp add: catalog_in_def records_in_def)
  from find_put_record[OF this, of "uuid_str _" w] show ?thesis
    by (auto simp: puts_relation_def stored_resolution_def stored_relation_def wr_key_def)
qed

lemma save_resolution_catalog:
  assumes "holds_catalog f D" "mk_resolution r = Inr r"
  shows "pred_option (\<lambda>e. may_replace e r) (stored_resolution D (rs_reference r)) \<Longrightarrow>
      \<exists>f' D'. save_resolution K f r = Inr f' \<and> holds_catalog f' D' \<and> puts_resolution r D D'"
    and "stored_resolution D (rs_reference r) = Some e \<Longrightarrow> \<not> may_replace e r \<Longrightarrow>
      \<exists>m. save_resolution K f r = Inl (citation_conflict m)"
proof -
  obtain data where d: "read_citations K f = Inr data" "catalog_in data D" using read_catalog[OF assms(1)] .
  have b: "records_in data ''resolutions'' rs_key resolution_to_dict mk_resolution (ct_resolutions D)"
    using d(2) by (simp add: catalog_in_def)
  have get: "map_of (json_bucket data ''resolutions'') (uuid_str (rs_reference r)) =
      map_option resolution_to_dict (stored_resolution D (rs_reference r))"
    using records_get[OF b, of "uuid_str (rs_reference r)"] by (simp add: rs_key_def stored_resolution_def)
  have put: "holds_catalog (write_sorted data ''resolutions''
      (jset (json_bucket data ''resolutions'') (uuid_str (rs_reference r)) (resolution_to_dict r)))
      (D\<lparr>ct_resolutions := put_record rs_key r (ct_resolutions D)\<rparr>)"
    using catalog_put(4)[OF d(2) assms(2)] by (auto simp: write_sorted_def set_bucket_def rs_key_def holds_catalog_def)
  have parsed: "resolution_from_dict K (resolution_to_dict e) = Inr e" if "stored_resolution D (rs_reference r) = Some e" for e
    using b find_Some_mem[OF that[unfolded stored_resolution_def]] by (intro resolution_from_to_dict) (auto simp: records_in_def)
  note puts = put_resolution_record[OF d(2), of r]
  show "\<exists>f' D'. save_resolution K f r = Inr f' \<and> holds_catalog f' D' \<and> puts_resolution r D D'"
    if "pred_option (\<lambda>e. may_replace e r) (stored_resolution D (rs_reference r))"
  proof (cases "stored_resolution D (rs_reference r)")
    case None
    then have "save_resolution K f r = Inr (write_sorted data ''resolutions''
        (jset (json_bucket data ''resolutions'') (uuid_str (rs_reference r)) (resolution_to_dict r)))"
      using d(1) get by (simp add: save_resolution_def)
    then show ?thesis using put puts by blast
  next
    case (Some e)
    show ?thesis
    proof (cases "e = r")
      case True
      then have "save_resolution K f r = Inr f" "puts_resolution r D D"
        using d(1) get Some by (auto simp: save_resolution_def resolution_json_eq puts_resolution_def)
      then show ?thesis using assms(1) by blast
    next
      case False
      then have "save_resolution K f r = Inr (write_sorted data ''resolutions''
          (jset (json_bucket data ''resolutions'') (uuid_str (rs_reference r)) (resolution_to_dict r)))"
        using d(1) get that parsed[OF Some] Some
        by (auto simp: save_resolution_def Let_def resolution_json_eq may_replace_def validate_resolution_transition_def)
      then show ?thesis using put puts by blast
    qed
  qed
  show "\<exists>m. save_resolution K f r = Inl (citation_conflict m)"
    if e: "stored_resolution D (rs_reference r) = Some e" "\<not> may_replace e r"
  proof -
    have "e \<noteq> r" using e(2) by (auto simp: may_replace_def)
    then show ?thesis using d(1) get e parsed[OF e(1)]
      by (auto simp: save_resolution_def Let_def resolution_json_eq may_replace_def validate_resolution_transition_def check_def)
  qed
qed

lemma relation_catalog:
  assumes "holds_catalog f D" "mk_work_relation w = Inr w"
  shows "stored_relation D (wr_id w) = None \<Longrightarrow>
      \<exists>f' D'. get_or_create_relation K f w = Inr (w, f') \<and> holds_catalog f' D' \<and> puts_relation w D D'"
    and "stored_relation D (wr_id w) = Some e \<Longrightarrow>
      get_or_create_relation K f w = (if relation_identity e = relation_identity w then Inr (e, f)
        else Inl (citation_conflict ''conflicting relation for stable ID''))"
proof -
  obtain data where d: "read_citations K f = Inr data" "catalog_in data D" using read_catalog[OF assms(1)] .
  have b: "records_in data ''relations'' wr_key work_relation_to_dict mk_work_relation (ct_relations D)"
    using d(2) by (simp add: catalog_in_def)
  have get: "map_of (json_bucket data ''relations'') (uuid_str (wr_id w)) = map_option work_relation_to_dict (stored_relation D (wr_id w))"
    using records_get[OF b, of "uuid_str (wr_id w)"] by (simp add: wr_key_def stored_relation_def)
  show "\<exists>f' D'. get_or_create_relation K f w = Inr (w, f') \<and> holds_catalog f' D' \<and> puts_relation w D D'"
    if "stored_relation D (wr_id w) = None"
    using that d(1) get catalog_put(5)[OF d(2) assms(2)] put_relation_record[OF d(2), of w]
    by (auto simp: get_or_create_relation_def write_sorted_def set_bucket_def wr_key_def holds_catalog_def)
  show "get_or_create_relation K f w = (if relation_identity e = relation_identity w then Inr (e, f)
        else Inl (citation_conflict ''conflicting relation for stable ID''))"
    if "stored_relation D (wr_id w) = Some e"
  proof -
    have "work_relation_from_dict (work_relation_to_dict e) = Inr e"
      using b find_Some_mem[OF that[unfolded stored_relation_def]] by (intro work_relation_from_to_dict) (auto simp: records_in_def)
    then show ?thesis using that d(1) get by (simp add: get_or_create_relation_def check_def)
  qed
qed

lemma references_catalog:
  assumes "holds_catalog f D"
  shows "page_valid offset limit \<Longrightarrow> list_references K f document offset limit = Inr (references_page D document offset limit)"
    and "count_references K f document = Inr (int (length (filter (\<lambda>r. rf_document r = document) (ct_references D))))"
proof -
  obtain data where d: "read_citations K f = Inr data" "catalog_in data D" using read_catalog[OF assms] .
  then have b: "records_in data (bucket_name References) rf_key reference_to_dict mk_reference (ct_references D)"
    by (simp add: catalog_in_def)
  let ?rs = "filter (\<lambda>r. rf_document r = document) (ct_references D)"
  have m: "matching K f References (item_is ''document_id'' document) = Inr (map reference_to_dict ?rs)"
    by (rule matching_records[OF d(1) b]) (simp add: item_is_def reference_to_dict_def jitem_def)
  have "mapM (reference_from_dict K) (map reference_to_dict ?rs) = Inr ?rs"
    using mapM_put[of ?rs "reference_from_dict K" reference_to_dict "\<lambda>r. r"] b reference_from_to_dict
    by (simp add: records_in_def)
  then show "page_valid offset limit \<Longrightarrow> list_references K f document offset limit = Inr (references_page D document offset limit)"
    using m by (simp add: list_references_def validate_page_def page_valid_def references_page_def)
  show "count_references K f document = Inr (int (length ?rs))"
    using m by (simp add: count_references_def)
qed

interpretation json_port: citation_port "json_citations K" holds_catalog for K
proof (unfold_locales, goal_cases)
  case (1 c D u)
  then show ?case by (simp add: json_citations_def get_resolution_catalog stored_resolution_def)
next
  case (2 c D r)
  then show ?case using save_resolution_catalog(1)[OF 2(1,2)] by (simp add: json_citations_def)
next
  case (3 c D r e)
  then show ?case using save_resolution_catalog(2)[OF 3(1,2)] by (simp add: json_citations_def)
next
  case (4 c D offset limit document)
  then show ?case by (simp add: json_citations_def references_catalog)
next
  case (5 c D document)
  then show ?case by (simp add: json_citations_def references_catalog)
next
  case (6 c D w)
  then show ?case using relation_catalog(1)[OF 6(1,2)] by (simp add: json_citations_def)
next
  case (7 c D w w')
  then show ?case using relation_catalog(2)[OF 7(1,2)] by (simp add: json_citations_def)
next
  case (8 c D)
  then have "distinct (map rf_key (ct_references D))" by (auto simp: holds_catalog_def catalog_in_def records_in_def)
  then show ?case by (simp add: distinct_map inj_on_def rf_key_def)
qed

section \<open>One reference\<close>

definition resolver_name :: pystr where
  "resolver_name = ''canonical-identifiers-v1''"

definition resolution_id :: "uuid \<Rightarrow> uuid" where
  "resolution_id u = uuid5 NAMESPACE_URL (''tarkka:citation-resolution:'' @ uuid_str u)"

definition normalized_identifier :: "pystr \<Rightarrow> pystr \<Rightarrow> (pystr \<times> pystr) option" where
  "normalized_identifier scheme value =
    (let s = lower (strip scheme); v = strip value in
     if s = ''doi'' then map_option (Pair ''doi'') (try_normalize_doi (JStr v))
     else if s = ''arxiv'' then map_option (Pair ''arxiv'') (try_normalize_arxiv_id (JStr v))
     else Some (s, v))"

text \<open>The loop of \<open>_matched_work_ids\<close>; the set is a list without repetition.\<close>

fun matched_work_ids :: "'s work_ops \<Rightarrow> 's \<Rightarrow> (pystr \<times> pystr) list \<Rightarrow> uuid list \<Rightarrow> exc + uuid list" where
  "matched_work_ids W s [] matched = Inr (sort_key uuid_str matched)"
| "matched_work_ids W s ((raw_scheme, raw_value) # ids) matched =
    (case normalized_identifier raw_scheme raw_value of
       None \<Rightarrow> matched_work_ids W s ids matched
     | Some (scheme, value) \<Rightarrow>
         bindE (op_find_work W s scheme value) (\<lambda>found.
         matched_work_ids W s ids (case found of None \<Rightarrow> matched | Some w \<Rightarrow> List.insert (wo_id w) matched)))"

definition resolution_for :: "reference \<Rightarrow> uuid list \<Rightarrow> datetime \<Rightarrow> resolution" where
  "resolution_for ref ids now =
    \<lparr>rs_id = resolution_id (rf_id ref), rs_reference = rf_id ref,
     rs_status = (if length ids = 1 then RESOLVED else if 1 < length ids then AMBIGUOUS else UNRESOLVED),
     rs_work = (if length ids = 1 then Some (ids ! 0) else None),
     rs_candidates = (if 1 < length ids then ids else []),
     rs_resolver = Some resolver_name, rs_observation = rf_observation ref, rs_resolved_at = now\<rparr>"

definition same_resolution :: "resolution \<Rightarrow> resolution \<Rightarrow> bool" where
  "same_resolution left right \<longleftrightarrow>
    rs_id left = rs_id right \<and> rs_reference left = rs_reference right \<and> rs_status left = rs_status right \<and>
    rs_work left = rs_work right \<and> rs_candidates left = rs_candidates right \<and>
    rs_resolver left = rs_resolver right \<and> rs_observation left = rs_observation right"

type_synonym 'c citing_state = "'c \<times> nat"

definition resolve_reference ::
  "'c citation_ops \<Rightarrow> 's work_ops \<Rightarrow> 's \<Rightarrow> (nat \<Rightarrow> datetime) \<Rightarrow> 'c citing_state \<Rightarrow> reference \<Rightarrow>
    (exc + resolution) \<times> 'c citing_state" where
  "resolve_reference cs W s clock st ref =
    (let (c, n) = st in
     case matched_work_ids W s (rf_identifiers ref) [] of
       Inl e \<Rightarrow> (Inl e, st)
     | Inr ids \<Rightarrow>
     case mk_resolution (resolution_for ref ids (clock n)) of
       Inl e \<Rightarrow> (Inl e, (c, Suc n))
     | Inr r \<Rightarrow>
         (case cs_get_resolution cs c (rf_id ref) of
            Inl e \<Rightarrow> (Inl e, (c, Suc n))
          | Inr existing \<Rightarrow>
              (case existing of
                 Some old \<Rightarrow>
                   if same_resolution old r then (Inr old, (c, Suc n))
                   else (case cs_save_resolution cs c r of Inl e \<Rightarrow> (Inl e, (c, Suc n)) | Inr c' \<Rightarrow> (Inr r, (c', Suc n)))
               | None \<Rightarrow>
                   (case cs_save_resolution cs c r of Inl e \<Rightarrow> (Inl e, (c, Suc n)) | Inr c' \<Rightarrow> (Inr r, (c', Suc n))))))"

section \<open>A document\<close>

definition cites_relation :: "uuid \<Rightarrow> reference \<Rightarrow> uuid \<Rightarrow> datetime \<Rightarrow> work_relation" where
  "cites_relation citing ref cited now =
    \<lparr>wr_id = uuid5 NAMESPACE_URL
       (''tarkka:cites:'' @ uuid_str citing @ '':'' @ uuid_str (rf_id ref) @ '':'' @ uuid_str cited),
     wr_subject = citing, wr_object = cited, wr_kind = CITES, wr_basis = NATIVE,
     wr_observation = rf_observation ref, wr_document = Some (rf_document ref), wr_reference = Some (rf_id ref),
     wr_created_at = now\<rparr>"

definition store_cites ::
  "'c citation_ops \<Rightarrow> (nat \<Rightarrow> datetime) \<Rightarrow> 'c citing_state \<Rightarrow> uuid \<Rightarrow> reference \<Rightarrow> uuid \<Rightarrow>
    (exc + work_relation) \<times> 'c citing_state" where
  "store_cites cs clock st citing ref cited =
    (let (c, n) = st in
     case bindE (mk_work_relation (cites_relation citing ref cited (clock n))) (cs_get_or_create_relation cs c) of
       Inl e \<Rightarrow> (Inl e, (c, Suc n))
     | Inr (w, c') \<Rightarrow> (Inr w, (c', Suc n)))"

text \<open>\<open>_citing_work_id\<close>: the works of the links of the document, if there is a repository of links.\<close>

definition citing_work_id ::
  "'s work_ops \<Rightarrow> 's \<Rightarrow> (uuid \<Rightarrow> exc + document_link list) option \<Rightarrow> uuid \<Rightarrow> uuid option \<Rightarrow> exc + uuid option" where
  "citing_work_id W s links document explicit =
    (case explicit of
       Some u \<Rightarrow>
         bindE (op_get_work W s u) (\<lambda>found.
         bindE (check (found \<noteq> None) (ValueError (''citing work not found: '' @ uuid_str u))) (\<lambda>_.
         bindE (case links of None \<Rightarrow> Inr [] | Some lookup \<Rightarrow> mapE (map lk_work) (lookup document)) (\<lambda>linked.
         bindE (check (linked = [] \<or> u \<in> set linked)
                  (ValueError ''explicit citing work is not linked to the source document'')) (\<lambda>_.
         Inr (Some u)))))
     | None \<Rightarrow>
         (case links of
            None \<Rightarrow> Inr None
          | Some lookup \<Rightarrow>
              bindE (mapE (uniq \<circ> map lk_work) (lookup document)) (\<lambda>candidates.
              bindE (check (length candidates \<le> 1)
                       (OtherError ''AmbiguousCitingWorkError''
                         ''document has multiple canonical Work links; specify citing_work_id explicitly'')) (\<lambda>_.
              case candidates of
                [] \<Rightarrow> Inr None
              | inferred # _ \<Rightarrow>
                  bindE (op_get_work W s inferred) (\<lambda>found.
                  bindE (check (found \<noteq> None) (ValueError (''citing work not found: '' @ uuid_str inferred))) (\<lambda>_.
                  Inr (Some inferred)))))))"

record citing_result =
  cr_resolutions :: "resolution list"
  cr_relations :: "work_relation list"
  cr_citing :: "uuid option"
  cr_total :: int

text \<open>The end of the body of the loop: a relation, unless a work is missing on either side.\<close>

definition cite_resolved ::
  "'c citation_ops \<Rightarrow> (nat \<Rightarrow> datetime) \<Rightarrow> uuid option \<Rightarrow> 'c citing_state \<Rightarrow> reference \<Rightarrow> resolution \<Rightarrow>
    (exc + work_relation list) \<times> 'c citing_state" where
  "cite_resolved cs clock citing st ref r =
    (case (citing, rs_work r) of
       (Some a, Some b) \<Rightarrow> (case store_cites cs clock st a ref b of (x, st') \<Rightarrow> (mapE (\<lambda>w. [w]) x, st'))
     | _ \<Rightarrow> (Inr [], st))"

text \<open>The loop over the references.\<close>

fun resolve_references ::
  "'c citation_ops \<Rightarrow> 's work_ops \<Rightarrow> 's \<Rightarrow> (nat \<Rightarrow> datetime) \<Rightarrow> uuid option \<Rightarrow> 'c citing_state \<Rightarrow> reference list \<Rightarrow>
    (exc + resolution list \<times> work_relation list) \<times> 'c citing_state" where
  "resolve_references cs W s clock citing st [] = (Inr ([], []), st)"
| "resolve_references cs W s clock citing st (ref # refs) =
    (case resolve_reference cs W s clock st ref of
       (Inl e, st1) \<Rightarrow> (Inl e, st1)
     | (Inr r, st1) \<Rightarrow>
         (case cite_resolved cs clock citing st1 ref r of
            (Inl e, st2) \<Rightarrow> (Inl e, st2)
          | (Inr ws, st2) \<Rightarrow>
              (case resolve_references cs W s clock citing st2 refs of
                 (Inl e, st3) \<Rightarrow> (Inl e, st3)
               | (Inr (rs, ws'), st3) \<Rightarrow> (Inr (r # rs, ws @ ws'), st3))))"

definition resolve_document ::
  "'c citation_ops \<Rightarrow> 's work_ops \<Rightarrow> 's \<Rightarrow> (uuid \<Rightarrow> exc + document_link list) option \<Rightarrow> (nat \<Rightarrow> datetime) \<Rightarrow>
    'c citing_state \<Rightarrow> uuid \<Rightarrow> uuid option \<Rightarrow> int \<Rightarrow> int option \<Rightarrow> (exc + citing_result) \<times> 'c citing_state" where
  "resolve_document cs W s links clock st document explicit offset limit =
    (case bindE (check (0 \<le> offset \<and> (case limit of None \<Rightarrow> True | Some n \<Rightarrow> 0 \<le> n))
               (ValueError ''citation resolution offset and limit must be non-negative'')) (\<lambda>_.
          bindE (citing_work_id W s links document explicit) (\<lambda>citing.
          mapE (Pair citing) (cs_list_references cs (fst st) document offset limit))) of
       Inl e \<Rightarrow> (Inl e, st)
     | Inr (citing, refs) \<Rightarrow>
         (case resolve_references cs W s clock citing st refs of
            (Inl e, st') \<Rightarrow> (Inl e, st')
          | (Inr (rs, ws), st') \<Rightarrow>
              (mapE (\<lambda>total. \<lparr>cr_resolutions = rs, cr_relations = ws, cr_citing = citing, cr_total = total\<rparr>)
                (cs_count_references cs (fst st') document), st')))"

section \<open>What the service does, over its interfaces\<close>

text \<open>The works the identifiers of a reference name.\<close>

definition works_named :: "work_catalog \<Rightarrow> (pystr \<times> pystr) list \<Rightarrow> uuid set" where
  "works_named C ids = {wo_id w | w. \<exists>(rs, rv) \<in> set ids. \<exists>scheme value.
    normalized_identifier rs rv = Some (scheme, value) \<and> spec_find C scheme value = Some w}"

lemma works_named_simps [simp]:
  "works_named C [] = {}"
  "works_named C ((rs, rv) # ids) = (case normalized_identifier rs rv of
      None \<Rightarrow> {} | Some (scheme, value) \<Rightarrow> (case spec_find C scheme value of None \<Rightarrow> {} | Some w \<Rightarrow> {wo_id w})) \<union> works_named C ids"
  by (auto simp: works_named_def split: option.splits) blast+

lemma finite_works_named [simp]: "finite (works_named C ids)"
  by (induction ids) (auto split: option.splits)

lemma mk_resolution_for: "distinct ids \<Longrightarrow> mk_resolution (resolution_for ref ids now) = Inr (resolution_for ref ids now)"
proof -
  have "\<not> blank resolver_name" by code_simp
  then show "distinct ids \<Longrightarrow> ?thesis"
    by (auto simp: mk_resolution_def resolution_for_def optional_not_blank_def)
qed

lemma mk_cites: "mk_work_relation (cites_relation a ref b now) = Inr (cites_relation a ref b now)"
  by (simp add: mk_work_relation_def cites_relation_def)

lemma same_refl: "same_resolution r r"
  by (simp add: same_resolution_def)

text \<open>The works a reference names, as the service finds them.\<close>

definition named_ids :: "'s work_ops \<Rightarrow> 's \<Rightarrow> reference \<Rightarrow> uuid list" where
  "named_ids W s ref = (case matched_work_ids W s (rf_identifiers ref) [] of Inl _ \<Rightarrow> [] | Inr ids \<Rightarrow> ids)"

text \<open>What every call keeps: relations and resolved citations are never changed.\<close>

definition citing_kept :: "catalog \<Rightarrow> catalog \<Rightarrow> bool" where
  "citing_kept D D' \<longleftrightarrow> stored_relation D \<subseteq>\<^sub>m stored_relation D' \<and> ct_references D' = ct_references D \<and>
    (\<forall>u old. stored_resolution D u = Some old \<longrightarrow> (\<exists>r. stored_resolution D' u = Some r \<and> settled old r))"

lemma citing_kept_refl: "citing_kept D D"
  by (simp add: citing_kept_def settled_refl)

lemma citing_kept_trans: "citing_kept D D' \<Longrightarrow> citing_kept D' D'' \<Longrightarrow> citing_kept D D''"
  unfolding citing_kept_def by (metis map_le_trans settled_trans)

lemma stored_reference: "stored_resolution D u = Some r \<Longrightarrow> rs_reference r = u"
  by (auto simp: stored_resolution_def dest: find_Some_mem)

lemma kept_put_resolution:
  assumes "puts_resolution r D D'" "pred_option (\<lambda>old. may_replace old r) (stored_resolution D (rs_reference r))"
  shows "citing_kept D D'"
proof -
  have "\<exists>x. stored_resolution D' u = Some x \<and> settled old x" if "stored_resolution D u = Some old" for u old
    using that assms stored_reference[OF that] settled_refl
    by (cases "u = rs_reference r") (auto simp: puts_resolution_def may_replace_def settled_def)
  then show ?thesis using assms(1) by (simp add: citing_kept_def puts_resolution_def)
qed

lemma kept_put_relation:
  "puts_relation w D D' \<Longrightarrow> stored_relation D (wr_id w) = None \<Longrightarrow> citing_kept D D'"
  by (auto simp: puts_relation_def citing_kept_def map_le_def settled_refl)

definition citing_conflict :: "exc \<Rightarrow> bool" where
  "citing_conflict e \<longleftrightarrow> (\<exists>m. e = citation_conflict m)"

text \<open>A resolution, and a relation, that is stored and is the one the reference has; times do not matter.\<close>

definition resolved_as :: "uuid list \<Rightarrow> catalog \<Rightarrow> reference \<Rightarrow> resolution \<Rightarrow> bool" where
  "resolved_as ids D ref r \<longleftrightarrow>
    stored_resolution D (rf_id ref) = Some r \<and> same_resolution r (resolution_for ref ids (rs_resolved_at r))"

definition cited_as :: "catalog \<Rightarrow> uuid \<times> reference \<times> uuid \<Rightarrow> work_relation \<Rightarrow> bool" where
  "cited_as D = (\<lambda>(a, ref, b) w. stored_relation D (wr_id w) = Some w \<and>
    relation_identity w = relation_identity (cites_relation a ref b (wr_created_at w)))"

lemma same_resolution_time: "same_resolution r (resolution_for ref ids t) \<longleftrightarrow> same_resolution r (resolution_for ref ids t')"
  by (simp add: same_resolution_def resolution_for_def)

lemma cites_identity: "relation_identity (cites_relation a ref b t) = relation_identity (cites_relation a ref b t')"
  by (simp add: relation_identity_def cites_relation_def)

lemma identity_id: "relation_identity v = relation_identity w \<Longrightarrow> wr_id v = wr_id w"
  by (cases v; cases w) (simp add: relation_identity_def)

text \<open>The citations that a list of resolutions gives.\<close>

definition citation_of :: "uuid option \<Rightarrow> reference \<Rightarrow> resolution \<Rightarrow> (uuid \<times> reference \<times> uuid) list" where
  "citation_of citing ref r = (case (citing, rs_work r) of (Some a, Some b) \<Rightarrow> [(a, ref, b)] | _ \<Rightarrow> [])"

fun citations_of :: "uuid option \<Rightarrow> reference list \<Rightarrow> resolution list \<Rightarrow> (uuid \<times> reference \<times> uuid) list" where
  "citations_of citing (ref # refs) (r # rs) = citation_of citing ref r @ citations_of citing refs rs"
| "citations_of citing _ _ = []"

lemma no_citation:
  "citing = None \<or> rs_work r = None \<Longrightarrow> citation_of citing ref r = [] \<and> cite_resolved cs clock citing st ref r = (Inr [], st)"
  by (auto simp: citation_of_def cite_resolved_def split: option.splits)

lemma page_distinct: "distinct (map rf_id (ct_references D)) \<Longrightarrow> distinct (map rf_id (references_page D document offset limit))"
proof -
  assume d: "distinct (map rf_id (ct_references D))"
  have "distinct (map rf_id (sort_key reference_sort_key (filter P (ct_references D))))" for P
    using d by (simp add: distinct_map inj_on_def)
  then show ?thesis
    by (auto simp: references_page_def sorted_page_def drop_map[symmetric] take_map[symmetric] split: option.splits)
qed

text \<open>The work a document stands for: the one named, if the links allow it, or else the only one linked.\<close>

definition document_works :: "research_catalog \<Rightarrow> uuid \<Rightarrow> uuid set" where
  "document_works R document = {w. \<exists>l \<in> ran (rc_links R). lk_document l = document \<and> lk_work l = w}"

fun spec_citing :: "work_catalog \<Rightarrow> uuid set \<Rightarrow> uuid option \<Rightarrow> uuid option option" where
  "spec_citing C linked (Some u) =
    (if wc_works C (uuid_str u) \<noteq> None \<and> (linked = {} \<or> u \<in> linked) then Some (Some u) else None)"
| "spec_citing C linked None =
    (if linked = {} then Some None
     else if is_singleton linked \<and> wc_works C (uuid_str (the_elem linked)) \<noteq> None then Some (Some (the_elem linked))
     else None)"

text \<open>What a pass over references leaves in the catalogue.\<close>

definition passes :: "(reference \<Rightarrow> uuid list) \<Rightarrow> uuid option \<Rightarrow> reference list \<Rightarrow> catalog \<Rightarrow> resolution list \<times> work_relation list \<Rightarrow> bool" where
  "passes ids citing refs D = (\<lambda>(rs, ws). list_all2 (\<lambda>ref r. resolved_as (ids ref) D ref r) refs rs \<and>
    list_all2 (cited_as D) (citations_of citing refs rs) ws)"

lemma cited_grows: "cited_as D x w \<Longrightarrow> citing_kept D D' \<Longrightarrow> cited_as D' x w"
  by (auto simp: cited_as_def citing_kept_def map_le_def split: prod.splits) (metis domI)

lemma cited_all_grows: "list_all2 (cited_as D) xs ws \<Longrightarrow> citing_kept D D' \<Longrightarrow> list_all2 (cited_as D') xs ws"
  by (erule list_all2_mono) (rule cited_grows)

locale resolution_service =
  works: work_store W works_at idle + cites: citation_port cs cites_at + links: link_store links_of links_at
  for W :: "'s work_ops" and works_at :: "'s \<Rightarrow> work_catalog \<Rightarrow> bool" and idle :: "'s \<Rightarrow> bool"
    and cs :: "'c citation_ops" and cites_at :: "'c \<Rightarrow> catalog \<Rightarrow> bool"
    and links_of :: "'l \<Rightarrow> uuid \<Rightarrow> exc + document_link list" and links_at :: "'l \<Rightarrow> research_catalog \<Rightarrow> bool"
begin

lemma matched_works:
  assumes "works_at s C" "distinct matched"
  shows "\<exists>ids'. matched_work_ids W s ids matched = Inr ids' \<and> distinct ids' \<and> sorted (map uuid_str ids') \<and>
    set ids' = set matched \<union> works_named C ids"
  using assms(2)
proof (induction ids arbitrary: matched)
  case Nil
  then show ?case by simp
next
  case (Cons p ids)
  obtain rs rv where p: "p = (rs, rv)" by fastforce
  show ?case
  proof (cases "normalized_identifier rs rv")
    case None
    then show ?thesis using Cons.IH[OF Cons.prems] p by simp
  next
    case (Some q)
    obtain scheme v where q: "q = (scheme, v)" by fastforce
    note found = works.finds[OF assms(1), of scheme v]
    show ?thesis
    proof (cases "spec_find C scheme v")
      case None
      then show ?thesis using Cons.IH[OF Cons.prems] p q Some found by simp
    next
      case hit: (Some w)
      have "distinct (List.insert (wo_id w) matched)" using Cons.prems by simp
      from Cons.IH[OF this] show ?thesis using p q Some found hit by auto
    qed
  qed
qed

lemma named_works:
  assumes "works_at s C"
  shows "matched_work_ids W s (rf_identifiers ref) [] = Inr (named_ids W s ref)" "distinct (named_ids W s ref)"
    "sorted (map uuid_str (named_ids W s ref))" "set (named_ids W s ref) = works_named C (rf_identifiers ref)"
proof -
  obtain ids where "matched_work_ids W s (rf_identifiers ref) [] = Inr ids" "distinct ids" "sorted (map uuid_str ids)"
      "set ids = works_named C (rf_identifiers ref)"
    using matched_works[OF assms, of "[]" "rf_identifiers ref"] by (simp del: sorted_map) blast
  then show "matched_work_ids W s (rf_identifiers ref) [] = Inr (named_ids W s ref)" "distinct (named_ids W s ref)"
    "sorted (map uuid_str (named_ids W s ref))" "set (named_ids W s ref) = works_named C (rf_identifiers ref)"
    by (simp_all only: named_ids_def sum.case)
qed

text \<open>Every way one reference ends.\<close>

lemma resolve_reference_cases:
  assumes w: "works_at s C" and c: "cites_at c D"
  obtains (same) old where "stored_resolution D (rf_id ref) = Some old"
      "same_resolution old (resolution_for ref (named_ids W s ref) (clock n))"
      "resolve_reference cs W s clock (c, n) ref = (Inr old, (c, Suc n))"
  | (stored) c' D' where "pred_option (\<lambda>old. \<not> same_resolution old (resolution_for ref (named_ids W s ref) (clock n)) \<and>
        may_replace old (resolution_for ref (named_ids W s ref) (clock n))) (stored_resolution D (rf_id ref))"
      "resolve_reference cs W s clock (c, n) ref = (Inr (resolution_for ref (named_ids W s ref) (clock n)), (c', Suc n))"
      "cites_at c' D'" "puts_resolution (resolution_for ref (named_ids W s ref) (clock n)) D D'"
  | (refused) old m where "stored_resolution D (rf_id ref) = Some old"
      "\<not> may_replace old (resolution_for ref (named_ids W s ref) (clock n))"
      "resolve_reference cs W s clock (c, n) ref = (Inl (citation_conflict m), (c, Suc n))"
proof -
  let ?r = "resolution_for ref (named_ids W s ref) (clock n)"
  note mk = mk_resolution_for[OF named_works(2)[OF w], of ref ref "clock n"]
  have rid: "rs_reference ?r = rf_id ref" by (simp add: resolution_for_def)
  have run: "resolve_reference cs W s clock (c, n) ref =
      (case stored_resolution D (rf_id ref) of
         Some old \<Rightarrow> if same_resolution old ?r then (Inr old, (c, Suc n))
           else (case cs_save_resolution cs c ?r of Inl e \<Rightarrow> (Inl e, (c, Suc n)) | Inr c' \<Rightarrow> (Inr ?r, (c', Suc n)))
       | None \<Rightarrow> (case cs_save_resolution cs c ?r of Inl e \<Rightarrow> (Inl e, (c, Suc n)) | Inr c' \<Rightarrow> (Inr ?r, (c', Suc n))))"
    by (simp add: resolve_reference_def named_works(1)[OF w] mk cites.gets_resolution[OF c])
  show thesis
  proof (cases "stored_resolution D (rf_id ref)")
    case None
    then obtain c' D' where "cs_save_resolution cs c ?r = Inr c'" "cites_at c' D'" "puts_resolution ?r D D'"
      using cites.saves_resolution[OF c mk] rid by auto
    then show ?thesis using stored run None by simp
  next
    case (Some old)
    show ?thesis
    proof (cases "same_resolution old ?r")
      case True
      then show ?thesis using same run Some by simp
    next
      case False
      show ?thesis
      proof (cases "may_replace old ?r")
        case True
        then obtain c' D' where "cs_save_resolution cs c ?r = Inr c'" "cites_at c' D'" "puts_resolution ?r D D'"
          using cites.saves_resolution[OF c mk] rid Some by auto
        then show ?thesis using stored run Some False True by simp
      next
        case diff: False
        then obtain m where "cs_save_resolution cs c ?r = Inl (citation_conflict m)"
          using cites.refuses_resolution[OF c mk] rid Some by auto
        then show ?thesis using refused run Some False diff by simp
      qed
    qed
  qed
qed

lemma resolve_reference_keeps:
  assumes w: "works_at s C" and c: "cites_at c D" and run: "resolve_reference cs W s clock (c, n) ref = (res, (c', n'))"
  shows "\<exists>D'. cites_at c' D' \<and> citing_kept D D' \<and> (\<forall>u. u \<noteq> rf_id ref \<longrightarrow> stored_resolution D' u = stored_resolution D u) \<and>
    (\<forall>r. res = Inr r \<longrightarrow> resolved_as (named_ids W s ref) D' ref r) \<and> (\<forall>e. res = Inl e \<longrightarrow> citing_conflict e)"
proof (rule resolve_reference_cases[OF w c, of ref clock n], goal_cases)
  case same: (1 old)
  have "resolved_as (named_ids W s ref) D ref old"
    using same(1,2) same_resolution_time by (simp add: resolved_as_def) blast
  then show ?case using same(3) run c citing_kept_refl by auto
next
  case stored: (2 c1 D')
  let ?r = "resolution_for ref (named_ids W s ref) (clock n)"
  have rid: "rs_reference ?r = rf_id ref" "rs_resolved_at ?r = clock n" by (simp_all add: resolution_for_def)
  have "citing_kept D D'"
    by (rule kept_put_resolution[OF stored(4)]) (use stored(1) rid in \<open>auto simp: option.pred_set\<close>)
  moreover have "resolved_as (named_ids W s ref) D' ref ?r"
    using stored(4) rid by (simp add: resolved_as_def puts_resolution_def same_refl)
  ultimately show ?case using stored(2-4) run rid by (auto simp: puts_resolution_def)
next
  case refused: (3 old m)
  then show ?case using run c citing_kept_refl by (auto simp: citing_conflict_def)
qed

lemma resolve_reference_again:
  assumes w: "works_at s C" and c: "cites_at c D" and r: "resolved_as (named_ids W s ref) D ref r"
  shows "resolve_reference cs W s clock (c, n) ref = (Inr r, (c, Suc n))"
proof -
  have "same_resolution r (resolution_for ref (named_ids W s ref) (clock n))"
    using r same_resolution_time unfolding resolved_as_def by blast
  moreover have "stored_resolution D (rf_id ref) = Some r" using r by (simp add: resolved_as_def)
  ultimately show ?thesis
    using mk_resolution_for[OF named_works(2)[OF w], of ref ref "clock n"]
    by (simp add: resolve_reference_def named_works(1)[OF w] cites.gets_resolution[OF c])
qed

lemma store_cites_keeps:
  assumes c: "cites_at c D" and run: "store_cites cs clock (c, n) a ref b = (res, (c', n'))"
  shows "\<exists>D'. cites_at c' D' \<and> citing_kept D D' \<and> stored_resolution D' = stored_resolution D \<and>
    (\<forall>w. res = Inr w \<longrightarrow> cited_as D' (a, ref, b) w) \<and> (\<forall>e. res = Inl e \<longrightarrow> citing_conflict e)"
proof -
  let ?w = "cites_relation a ref b (clock n)"
  show ?thesis
  proof (cases "stored_relation D (wr_id ?w)")
    case None
    then obtain c1 D' where d: "cs_get_or_create_relation cs c ?w = Inr (?w, c1)" "cites_at c1 D'" "puts_relation ?w D D'"
      using cites.new_relation[OF c mk_cites] by blast
    have "cited_as D' (a, ref, b) ?w"
      using d(3) by (simp add: cited_as_def puts_relation_def cites_relation_def)
    then show ?thesis using d run kept_put_relation[OF d(3) None]
      by (auto simp: store_cites_def mk_cites puts_relation_def)
  next
    case (Some old)
    have "wr_id old = wr_id ?w" using find_Some_mem[OF Some[unfolded stored_relation_def]] by simp
    then have "cited_as D (a, ref, b) old" if "relation_identity old = relation_identity ?w"
      using that Some cites_identity[of a ref b "clock n"] by (simp add: cited_as_def)
    then show ?thesis using run c citing_kept_refl cites.old_relation[OF c mk_cites Some]
      by (auto simp: store_cites_def mk_cites citing_conflict_def split: if_splits)
  qed
qed

lemma store_cites_again:
  assumes c: "cites_at c D" and w: "cited_as D (a, ref, b) w"
  shows "store_cites cs clock (c, n) a ref b = (Inr w, (c, Suc n))"
proof -
  let ?w = "cites_relation a ref b (clock n)"
  have i: "relation_identity w = relation_identity ?w"
    using w cites_identity unfolding cited_as_def by auto
  then have "stored_relation D (wr_id ?w) = Some w" using w identity_id[OF i] by (simp add: cited_as_def)
  from cites.old_relation[OF c mk_cites this] i show ?thesis by (simp add: store_cites_def mk_cites)
qed

lemma cite_resolved_keeps:
  assumes c: "cites_at c D" and run: "cite_resolved cs clock citing (c, n) ref r = (x, (c', n'))"
  shows "\<exists>D'. cites_at c' D' \<and> citing_kept D D' \<and> stored_resolution D' = stored_resolution D \<and>
    (\<forall>ws. x = Inr ws \<longrightarrow> list_all2 (cited_as D') (citation_of citing ref r) ws) \<and> (\<forall>e. x = Inl e \<longrightarrow> citing_conflict e)"
proof (cases "citing = None \<or> rs_work r = None")
  case True
  then show ?thesis using no_citation[OF True, of ref cs clock "(c, n)"] run c citing_kept_refl by auto
next
  case False
  then obtain a b where ab: "citing = Some a" "rs_work r = Some b" by auto
  obtain y c2 n2 where y: "store_cites cs clock (c, n) a ref b = (y, (c2, n2))" by (metis prod_cases3)
  from store_cites_keeps[OF c y] show ?thesis
    using run ab y by (cases y) (auto simp: cite_resolved_def citation_of_def)
qed

lemma cite_resolved_again:
  assumes "cites_at c D" "list_all2 (cited_as D) (citation_of citing ref r) ws"
  shows "\<exists>m. cite_resolved cs clock citing (c, n) ref r = (Inr ws, (c, m))"
proof (cases "citing = None \<or> rs_work r = None")
  case True
  then show ?thesis using no_citation[OF True, of ref cs clock "(c, n)"] assms(2) by simp
next
  case False
  then obtain a b where ab: "citing = Some a" "rs_work r = Some b" by auto
  then obtain v where "ws = [v]" "cited_as D (a, ref, b) v" using assms(2) by (auto simp: citation_of_def list_all2_Cons1)
  then show ?thesis using store_cites_again[OF assms(1)] ab by (simp add: cite_resolved_def)
qed

text \<open>The loop.\<close>

lemma passes_Cons:
  assumes "resolved_as (ids ref) D ref r" "list_all2 (cited_as D) (citation_of citing ref r) ws" "passes ids citing refs D (rs, ws')"
  shows "passes ids citing (ref # refs) D (r # rs, ws @ ws')"
  using assms by (auto simp: passes_def intro: list_all2_appendI)

lemma resolve_references_keeps:
  assumes w: "works_at s C"
  shows "cites_at c D \<Longrightarrow> distinct (map rf_id refs) \<Longrightarrow>
    resolve_references cs W s clock citing (c, n) refs = (res, (c', n')) \<Longrightarrow>
    \<exists>D'. cites_at c' D' \<and> citing_kept D D' \<and>
      (\<forall>u. u \<notin> rf_id ` set refs \<longrightarrow> stored_resolution D' u = stored_resolution D u) \<and>
      (\<forall>out. res = Inr out \<longrightarrow> passes (named_ids W s) citing refs D' out) \<and> (\<forall>e. res = Inl e \<longrightarrow> citing_conflict e)"
proof (induction refs arbitrary: c D n res c' n')
  case Nil
  then show ?case using citing_kept_refl by (auto simp: passes_def)
next
  case (Cons ref refs)
  obtain r1 c1 n1 where step: "resolve_reference cs W s clock (c, n) ref = (r1, (c1, n1))" by (metis prod_cases3)
  obtain D1 where D1: "cites_at c1 D1" "citing_kept D D1"
      "\<And>u. u \<noteq> rf_id ref \<Longrightarrow> stored_resolution D1 u = stored_resolution D u"
      "\<And>r. r1 = Inr r \<Longrightarrow> resolved_as (named_ids W s ref) D1 ref r" "\<And>e. r1 = Inl e \<Longrightarrow> citing_conflict e"
    using resolve_reference_keeps[OF w Cons.prems(1) step] by blast
  show ?case
  proof (cases r1)
    case (Inl e)
    then show ?thesis using Cons.prems(3) step D1 by auto
  next
    case (Inr r)
    obtain x c2 n2 where cite: "cite_resolved cs clock citing (c1, n1) ref r = (x, (c2, n2))" by (metis prod_cases3)
    obtain D2 where D2: "cites_at c2 D2" "citing_kept D1 D2" "stored_resolution D2 = stored_resolution D1"
        "\<And>ws. x = Inr ws \<Longrightarrow> list_all2 (cited_as D2) (citation_of citing ref r) ws" "\<And>e. x = Inl e \<Longrightarrow> citing_conflict e"
      using cite_resolved_keeps[OF D1(1) cite] by blast
    note kept = citing_kept_trans[OF D1(2) D2(2)]
    show ?thesis
    proof (cases x)
      case xl: (Inl e)
      then show ?thesis using Cons.prems(3) step Inr cite D1(3) D2(1,3,5) kept by auto
    next
      case xr: (Inr ws)
      obtain y c3 n3 where y: "resolve_references cs W s clock citing (c2, n2) refs = (y, (c3, n3))" by (metis prod_cases3)
      obtain D3 where D3: "cites_at c3 D3" "citing_kept D2 D3"
          "\<And>u. u \<notin> rf_id ` set refs \<Longrightarrow> stored_resolution D3 u = stored_resolution D2 u"
          "\<And>out. y = Inr out \<Longrightarrow> passes (named_ids W s) citing refs D3 out" "\<And>e. y = Inl e \<Longrightarrow> citing_conflict e"
        using Cons.IH[OF D2(1) _ y] Cons.prems(2) by auto
      have res: "c' = c3" "res = (case y of Inl e \<Rightarrow> Inl e | Inr (rs, ws') \<Rightarrow> Inr (r # rs, ws @ ws'))"
        using Cons.prems(3) step Inr cite xr y by (auto split: sum.splits)
      have "resolved_as (named_ids W s ref) D3 ref r"
        using D1(4)[OF Inr] D2(3) D3(3) Cons.prems(2) by (simp add: resolved_as_def)
      note passed = passes_Cons[of "named_ids W s", OF this cited_all_grows[OF D2(4)[OF xr] D3(2)]]
      have "passes (named_ids W s) citing (ref # refs) D3 out" if "res = Inr out" for out
        using that res(2) passed D3(4) by (auto split: sum.splits prod.splits)
      moreover have "citing_conflict e" if "res = Inl e" for e
        using that res(2) D3(5) by (auto split: sum.splits prod.splits)
      moreover have "stored_resolution D3 u = stored_resolution D u" if "u \<notin> rf_id ` set (ref # refs)" for u
        using that D3(3) D2(3) D1(3) by simp
      ultimately show ?thesis using D3(1) citing_kept_trans[OF kept D3(2)] res(1) by blast
    qed
  qed
qed

lemma resolve_references_again:
  assumes w: "works_at s C" and c: "cites_at c D"
  shows "passes (named_ids W s) citing refs D (rs, ws) \<Longrightarrow>
    \<exists>m. resolve_references cs W s clock citing (c, n) refs = (Inr (rs, ws), (c, m))"
proof (induction refs arbitrary: rs ws n)
  case Nil
  then show ?case by (simp add: passes_def)
next
  case (Cons ref refs)
  obtain r rs' where rs: "rs = r # rs'" "resolved_as (named_ids W s ref) D ref r"
      "list_all2 (\<lambda>ref r. resolved_as (named_ids W s ref) D ref r) refs rs'"
    using Cons.prems by (auto simp: passes_def list_all2_Cons1)
  obtain vs ws' where ws: "ws = vs @ ws'" "list_all2 (cited_as D) (citation_of citing ref r) vs"
      "list_all2 (cited_as D) (citations_of citing refs rs') ws'"
    using Cons.prems rs(1) by (auto simp: passes_def list_all2_append1)
  obtain m where m: "cite_resolved cs clock citing (c, Suc n) ref r = (Inr vs, (c, m))"
    using cite_resolved_again[OF c ws(2)] by blast
  have "passes (named_ids W s) citing refs D (rs', ws')" using rs(3) ws(3) by (simp add: passes_def)
  from Cons.IH[OF this, of m] show ?case
    using resolve_reference_again[OF w c rs(2)] m rs(1) ws(1) by auto
qed

lemma citing_decided:
  assumes w: "works_at s C" and l: "links_at l R"
  shows "case citing_work_id W s (Some (links_of l)) document explicit of
      Inl _ \<Rightarrow> spec_citing C (document_works R document) explicit = None
    | Inr x \<Rightarrow> spec_citing C (document_works R document) explicit = Some x"
proof -
  obtain ls where ls: "links_of l document = Inr ls" "lk_work ` set ls = document_works R document"
    using links.linked_works[OF l, of document] unfolding document_works_def by blast
  show ?thesis
  proof (cases explicit)
    case (Some u)
    then show ?thesis using ls by (auto simp: citing_work_id_def works.gets[OF w] check_def)
  next
    case None
    have u: "set (uniq (map lk_work ls)) = document_works R document" "distinct (uniq (map lk_work ls))" using ls(2) by simp_all
    show ?thesis
    proof (cases "uniq (map lk_work ls)")
      case Nil
      then show ?thesis using u None ls(1) by (simp add: citing_work_id_def check_def)
    next
      case (Cons a as')
      show ?thesis
      proof (cases as')
        case Nil
        then have "document_works R document = {a}" using u Cons by simp
        then show ?thesis using Cons Nil None ls(1) by (simp add: citing_work_id_def works.gets[OF w] check_def)
      next
        case more: (Cons b bs)
        then have "document_works R document \<noteq> {}" "\<not> is_singleton (document_works R document)"
          using u Cons by (auto simp: is_singleton_def)
        then show ?thesis using Cons more None ls(1) by (simp add: citing_work_id_def check_def)
      qed
    qed
  qed
qed

text \<open>The whole call.\<close>

lemma document_resolved:
  assumes w: "works_at s C" and c: "cites_at c D" and l: "links_at l R"
    and run: "resolve_document cs W s (Some (links_of l)) clock (c, n) document explicit offset limit = (out, (c', n'))"
  shows "\<exists>D'. cites_at c' D' \<and> citing_kept D D' \<and>
    (case out of
       Inl e \<Rightarrow> \<not> page_valid offset limit \<or> spec_citing C (document_works R document) explicit = None \<or> citing_conflict e
     | Inr x \<Rightarrow> page_valid offset limit \<and> spec_citing C (document_works R document) explicit = Some (cr_citing x) \<and>
         passes (named_ids W s) (cr_citing x) (references_page D document offset limit) D' (cr_resolutions x, cr_relations x) \<and>
         cr_total x = int (length (filter (\<lambda>r. rf_document r = document) (ct_references D))) \<and>
         (\<exists>m. resolve_document cs W s (Some (links_of l)) clock (c', n') document explicit offset limit = (Inr x, (c', m))))"
proof -
  let ?citing = "citing_work_id W s (Some (links_of l)) document explicit"
  let ?spec = "spec_citing C (document_works R document) explicit" and ?page = "references_page D document offset limit"
  let ?doc = "\<lambda>st. resolve_document cs W s (Some (links_of l)) clock st document explicit offset limit"
  note decided = citing_decided[OF w l, of document explicit]
  have same_page: "references_page D' document offset limit = ?page" if "citing_kept D D'" for D'
    using that by (simp add: references_page_def citing_kept_def)
  show ?thesis
  proof (cases "page_valid offset limit \<and> ?spec \<noteq> None")
    case False
    have "\<exists>e. ?doc (c, n) = (Inl e, (c, n))"
      using decided False unfolding resolve_document_def page_valid_def[symmetric]
      by (cases "page_valid offset limit"; cases ?citing) (auto simp: check_def)
    then show ?thesis using run False c citing_kept_refl by auto
  next
    case True
    then obtain x where x: "?citing = Inr x" "?spec = Some x" using decided by (cases ?citing) auto
    have doc: "?doc (d, k) = (case resolve_references cs W s clock x (d, k) ?page of
        (Inl e, st') \<Rightarrow> (Inl e, st')
      | (Inr (rs, ws), st') \<Rightarrow> (mapE (\<lambda>total. \<lparr>cr_resolutions = rs, cr_relations = ws, cr_citing = x, cr_total = total\<rparr>)
          (cs_count_references cs (fst st') document), st'))" if "cites_at d E" "citing_kept D E" for d k E
      using x(1) True cites.lists_references[OF that(1)] same_page[OF that(2)]
      unfolding resolve_document_def page_valid_def[symmetric] by (simp add: check_def)
    obtain y c1 n1 where y: "resolve_references cs W s clock x (c, n) ?page = (y, (c1, n1))" by (metis prod_cases3)
    obtain D1 where D1: "cites_at c1 D1" "citing_kept D D1" "\<And>out. y = Inr out \<Longrightarrow> passes (named_ids W s) x ?page D1 out"
        "\<And>e. y = Inl e \<Longrightarrow> citing_conflict e"
      using resolve_references_keeps[OF w c page_distinct[OF cites.valid_references[OF c]] y] by blast
    show ?thesis
    proof (cases y)
      case (Inl e)
      then show ?thesis using run doc[OF c citing_kept_refl] y D1 by auto
    next
      case (Inr p)
      obtain rs ws where p: "p = (rs, ws)" by fastforce
      let ?total = "int (length (filter (\<lambda>r. rf_document r = document) (ct_references D)))"
      have total: "cs_count_references cs c1 document = Inr ?total"
        using cites.counts_references[OF D1(1)] D1(2) by (simp add: citing_kept_def)
      then have out: "out = Inr \<lparr>cr_resolutions = rs, cr_relations = ws, cr_citing = x, cr_total = ?total\<rparr>" "c' = c1" "n' = n1"
        using run doc[OF c citing_kept_refl] y Inr p by auto
      have passed: "passes (named_ids W s) x ?page D1 (rs, ws)" using D1(3) Inr p by blast
      obtain m where "resolve_references cs W s clock x (c1, n1) ?page = (Inr (rs, ws), (c1, m))"
        using resolve_references_again[OF w D1(1) passed] by blast
      then have "?doc (c1, n1) = (out, (c1, m))" using doc[OF D1(1,2)] total out by simp
      then show ?thesis using D1(1,2) passed out True x(2) by auto
    qed
  qed
qed

end

section \<open>The service on the JSON catalogues\<close>

interpretation json_service: resolution_service "json_works K" "works_hold K" "\<lambda>r. rp_transaction r = None"
    "json_citations K" holds_catalog list_document_work_links "research_holds K" for K
  by unfold_locales

text \<open>What the works say of a reference: one work resolves it, several make it ambiguous and are its candidates in
  the order of their ids, none leaves it unresolved.\<close>

definition decides :: "work_catalog \<Rightarrow> reference \<Rightarrow> resolution \<Rightarrow> bool" where
  "decides C ref r \<longleftrightarrow> (let U = works_named C (rf_identifiers ref) in
    rs_id r = resolution_id (rf_id ref) \<and> rs_reference r = rf_id ref \<and>
    rs_status r = (if card U = 0 then UNRESOLVED else if card U = 1 then RESOLVED else AMBIGUOUS) \<and>
    set_option (rs_work r) = (if card U = 1 then U else {}) \<and>
    set (rs_candidates r) = (if 1 < card U then U else {}) \<and>
    distinct (rs_candidates r) \<and> sorted (map uuid_str (rs_candidates r)) \<and>
    rs_resolver r = Some resolver_name \<and> rs_observation r = rf_observation ref)"

definition cites_exactly :: "uuid \<times> reference \<times> uuid \<Rightarrow> work_relation \<Rightarrow> bool" where
  "cites_exactly = (\<lambda>(a, ref, b) w. wr_subject w = a \<and> wr_object w = b \<and> wr_kind w = CITES \<and> wr_basis w = NATIVE \<and>
    wr_observation w = rf_observation ref \<and> wr_document w = Some (rf_document ref) \<and> wr_reference w = Some (rf_id ref))"

definition resolved_all :: "work_catalog \<Rightarrow> uuid option \<Rightarrow> reference list \<Rightarrow> catalog \<Rightarrow> citing_result \<Rightarrow> bool" where
  "resolved_all C citing refs D x \<longleftrightarrow>
    list_all2 (\<lambda>ref r. decides C ref r \<and> stored_resolution D (rf_id ref) = Some r) refs (cr_resolutions x) \<and>
    list_all2 (\<lambda>c w. cites_exactly c w \<and> stored_relation D (wr_id w) = Some w)
      (citations_of citing refs (cr_resolutions x)) (cr_relations x)"

lemma same_resolution_iff: "same_resolution e r \<longleftrightarrow> e = r\<lparr>rs_resolved_at := rs_resolved_at e\<rparr>"
  by (cases e; cases r) (auto simp: same_resolution_def)

lemma decides_time: "decides C ref (r\<lparr>rs_resolved_at := t\<rparr>) = decides C ref r"
  by (simp add: decides_def)

lemma decides_resolution_for:
  assumes "distinct ids" "sorted (map uuid_str ids)" "set ids = works_named C (rf_identifiers ref)"
  shows "decides C ref (resolution_for ref ids t)"
proof -
  have "card (works_named C (rf_identifiers ref)) = length ids" using distinct_card[OF assms(1)] assms(3) by simp
  then show ?thesis
    using assms by (cases ids; cases "tl ids") (auto simp: decides_def resolution_for_def)
qed

lemma decides_found:
  assumes "works_hold K r C"
  shows "decides C ref (resolution_for ref (named_ids (json_works K) r ref) t)"
  by (rule decides_resolution_for) (use json_service.named_works(2-4)[OF assms] in blast)+

lemma decides_resolved: "works_hold K r C \<Longrightarrow> resolved_as (named_ids (json_works K) r ref) D ref x \<Longrightarrow> decides C ref x"
  unfolding resolved_as_def same_resolution_iff using decides_found decides_time by metis

lemma cited_exactly: "cited_as D c w \<Longrightarrow> cites_exactly c w \<and> stored_relation D (wr_id w) = Some w"
  by (cases c; cases w) (auto simp: cited_as_def cites_exactly_def relation_identity_def cites_relation_def)

lemma passes_resolved:
  assumes "works_hold K r C" "passes (named_ids (json_works K) r) citing refs D (cr_resolutions x, cr_relations x)"
  shows "resolved_all C citing refs D x"
  using assms(2) decides_resolved[OF assms(1)] cited_exactly unfolding resolved_all_def passes_def
  by (auto simp: resolved_as_def elim!: list_all2_mono)

lemma reference_outcome:
  assumes "works_hold K r C" "holds_catalog f D" "new = resolution_for ref (named_ids (json_works K) r ref) (clock n)"
  shows "let out = resolve_reference (json_citations K) (json_works K) r clock (f, n) ref;
         writes = \<exists>f' D'. out = (Inr new, (f', Suc n)) \<and> holds_catalog f' D' \<and> puts_resolution new D D'
     in case stored_resolution D (rf_id ref) of
       None \<Rightarrow> writes
     | Some e \<Rightarrow>
         if same_resolution e new then out = (Inr e, (f, Suc n))
         else if rs_id e = rs_id new \<and> (rs_status e = RESOLVED \<longrightarrow> rs_status new = RESOLVED \<and> rs_work new = rs_work e)
         then writes
         else \<exists>m. out = (Inl (citation_conflict m), (f, Suc n))"
proof (rule json_service.resolve_reference_cases[OF assms(1,2), where ref = ref and clock = clock and n = n,
      folded assms(3)], goal_cases)
  case (1 old)
  then show ?case by simp
next
  case (2 f' D')
  then show ?case by (cases "stored_resolution D (rf_id ref)") (auto simp: may_replace_def)
next
  case (3 old m)
  have "\<not> same_resolution old new" using 3(2) by (auto simp: may_replace_def same_resolution_def)
  then show ?case using 3 unfolding Let_def may_replace_def by auto
qed

text \<open>
  C35: what resolving one reference does. The works its identifiers name, normalised, decide the
  resolution: one work resolves it, several make it ambiguous and are listed in the order of their ids,
  none leaves it unresolved. A resolution that is there and says the same is returned, with its own time,
  and nothing is written; a new one is stored if the one that is there may be replaced, and nothing else
  of the catalogue changes; a resolved citation that would change is refused, and stays.
\<close>

theorem reference_resolution_exact:
  assumes "works_hold K r C" "holds_catalog f D"
  shows "\<exists>new. decides C ref new \<and> rs_resolved_at new = clock n \<and>
    (let out = resolve_reference (json_citations K) (json_works K) r clock (f, n) ref;
         writes = \<exists>f' D'. out = (Inr new, (f', Suc n)) \<and> holds_catalog f' D' \<and> puts_resolution new D D'
     in case stored_resolution D (rf_id ref) of
       None \<Rightarrow> writes
     | Some e \<Rightarrow>
         if e = new\<lparr>rs_resolved_at := rs_resolved_at e\<rparr> then out = (Inr e, (f, Suc n))
         else if rs_id e = rs_id new \<and> (rs_status e = RESOLVED \<longrightarrow> rs_status new = RESOLVED \<and> rs_work new = rs_work e)
         then writes
         else \<exists>m. out = (Inl (citation_conflict m), (f, Suc n)))"
proof -
  let ?new = "resolution_for ref (named_ids (json_works K) r ref) (clock n)"
  have "rs_resolved_at ?new = clock n" by (simp add: resolution_for_def)
  with decides_found[OF assms(1)] reference_outcome[OF assms refl, where ref = ref and clock = clock and n = n] show ?thesis
    unfolding same_resolution_iff by blast
qed

text \<open>
  C34: what resolving the references of a document does. Whatever the outcome, every relation stays as it
  was and no resolved citation changes. It raises only on a bad page, when the citing work cannot be
  decided from the works and the links of the document, or on a conflict with what is stored. Otherwise
  the page has one resolution for every reference, each stored and what the works say, and, when there
  is a citing work, one stored relation for every resolved reference, in their order; and the same call
  again returns the same and writes nothing.
\<close>

theorem document_resolution:
  assumes "works_hold K r C" "holds_catalog f D" "research_holds K g R"
    and "resolve_document (json_citations K) (json_works K) r (Some (list_document_work_links g)) clock (f, n)
      document explicit offset limit = (out, (f', n'))"
  shows "\<exists>D'. holds_catalog f' D' \<and> citing_kept D D' \<and>
    (case out of
       Inl e \<Rightarrow> \<not> page_valid offset limit \<or> spec_citing C (document_works R document) explicit = None \<or> citing_conflict e
     | Inr x \<Rightarrow> page_valid offset limit \<and> spec_citing C (document_works R document) explicit = Some (cr_citing x) \<and>
         resolved_all C (cr_citing x) (references_page D document offset limit) D' x \<and>
         cr_total x = int (length (filter (\<lambda>r. rf_document r = document) (ct_references D))) \<and>
         (\<exists>m. resolve_document (json_citations K) (json_works K) r (Some (list_document_work_links g)) clock (f', n')
            document explicit offset limit = (Inr x, (f', m))))"
  using json_service.document_resolved[OF assms] passes_resolved[OF assms(1)] by (cases out) fastforce+

section \<open>A concrete document\<close>

definition sample_reference :: reference where
  "sample_reference = \<lparr>rf_id = 7, rf_document = 9, rf_ordinal = 0, rf_raw_text = ''T'',
    rf_identifiers = [(''doi'', ''10.1234/ab.c'')], rf_title = None, rf_authors = [], rf_year = None, rf_anchor = None,
    rf_observation = None\<rparr>"

abbreviation sample_time :: "nat \<Rightarrow> datetime" where
  "sample_time n \<equiv> Aware (int n) 0"

lemma sample_references:
  "\<exists>f. holds_catalog f (no_records\<lparr>ct_references := [sample_reference]\<rparr>)"
proof -
  have mk: "mk_reference sample_reference = Inr sample_reference"
    by (simp add: mk_reference_def sample_reference_def optional_not_blank_def sample_texts_filled)
  obtain data where "catalog_in data no_records" using holds_empty by (auto simp: holds_catalog_def)
  from catalog_put(1)[OF this mk] show ?thesis by (auto simp: holds_catalog_def put_record_def)
qed

lemma sample_named: "spec_find C ''doi'' ''10.1234/ab.c'' = Some (sample_work u) \<Longrightarrow> works_named C (rf_identifiers sample_reference) = {u}"
  by (simp add: sample_reference_def normalized_identifier_def sample_texts sample_strip try_normalize_doi_def
      sample_canonical_doi sample_texts_filled Let_def del: lower.simps) (simp add: sample_work_def)

lemma sample_ids:
  assumes "works_hold no_coercions r C" "spec_find C ''doi'' ''10.1234/ab.c'' = Some (sample_work 1)"
  shows "named_ids (json_works no_coercions) r sample_reference = [1]"
proof -
  have n: "distinct (named_ids (json_works no_coercions) r sample_reference)"
      "set (named_ids (json_works no_coercions) r sample_reference) = {1}"
    using json_service.named_works(2,4)[OF assms(1), of sample_reference] sample_named[OF assms(2)] by simp_all
  show ?thesis
  proof (cases "named_ids (json_works no_coercions) r sample_reference")
    case (Cons x xs)
    then show ?thesis using n by (cases xs) auto
  qed (use n in simp)
qed

theorem reference_resolution_exact_witness:
  "\<exists>r f x f'. resolve_reference (json_citations no_coercions) (json_works no_coercions) r sample_time (f, 0) sample_reference =
    (Inr x, (f', 1)) \<and> rs_status x = RESOLVED \<and> rs_work x = Some 1"
proof -
  obtain r C where r: "works_hold no_coercions r C" "spec_find C ''doi'' ''10.1234/ab.c'' = Some (sample_work 1)"
    using sample_two_works by blast
  obtain f where f: "holds_catalog f (no_records\<lparr>ct_references := [sample_reference]\<rparr>)" using sample_references by blast
  obtain new f' where new: "decides C sample_reference new"
      "resolve_reference (json_citations no_coercions) (json_works no_coercions) r sample_time (f, 0) sample_reference = (Inr new, (f', 1))"
    using reference_resolution_exact[OF r(1) f, of sample_reference sample_time 0] by (auto simp: Let_def stored_resolution_def)
  have "rs_status new = RESOLVED" "set_option (rs_work new) = {1}"
    using new(1) sample_named[OF r(2)] by (simp_all add: decides_def)
  then show ?thesis using new(2) by (cases "rs_work new") auto
qed

text \<open>The document of the reference stands for the second work.\<close>

definition citing_calls :: "research_call list" where
  "citing_calls = [SaveArtifact sample_artifact, SaveDocument sample_doc (build_document_manifest sample_doc sample_artifact),
    SaveLink (sample_link\<lparr>lk_work := 2\<rparr>)]"

lemma citing_catalog:
  "\<exists>g R. research_holds no_coercions g R \<and> document_works R 9 = {2}"
proof -
  have "list_all call_valid citing_calls" using sample_calls_valid(1) by (simp add: citing_calls_def sample_calls_def)
  note h = research_run_holds[OF init_research_holds this, of no_coercions]
  have "rc_links (foldl spec_research no_research citing_calls) = [uuid_str 5 \<mapsto> sample_link\<lparr>lk_work := 2\<rparr>]"
    using sample_calls_valid(2)
    by (simp add: citing_calls_def no_research_def spec_save_link_def sample_link_def)
      (simp add: sample_artifact_def sample_doc_def)
  then have "document_works (foldl spec_research no_research citing_calls) 9 = {2}"
    by (simp add: document_works_def sample_link_def)
  with h show ?thesis by blast
qed

lemma sample_page: "references_page (no_records\<lparr>ct_references := [sample_reference]\<rparr>) 9 0 None = [sample_reference]"
  by (simp add: references_page_def sorted_page_def) (simp add: sample_reference_def)

theorem document_resolution_witness:
  "\<exists>r g f f' x n m. resolve_document (json_citations no_coercions) (json_works no_coercions) r
      (Some (list_document_work_links g)) sample_time (f, 0) 9 None 0 None = (Inr x, (f', n)) \<and>
    cr_citing x = Some 2 \<and> cr_total x = 1 \<and>
    resolve_document (json_citations no_coercions) (json_works no_coercions) r
      (Some (list_document_work_links g)) sample_time (f', n) 9 None 0 None = (Inr x, (f', m))"
proof -
  let ?K = no_coercions and ?D = "no_records\<lparr>ct_references := [sample_reference]\<rparr>"
  let ?new = "resolution_for sample_reference [1] (sample_time 0)" and ?w = "cites_relation 2 sample_reference 1 (sample_time 1)"
  obtain r C where r: "works_hold ?K r C" "spec_find C ''doi'' ''10.1234/ab.c'' = Some (sample_work 1)"
      "spec_find C ''crossref'' ''1'' = Some (sample_work 2)" "works_valid C" using sample_two_works by blast
  obtain f where f: "holds_catalog f ?D" using sample_references by blast
  obtain g R where g: "research_holds ?K g R" "document_works R 9 = {2}" using citing_catalog by blast
  have "\<exists>k. wc_works C k = Some (sample_work 2)" using r(3) by (auto simp: spec_find_def split: option.splits)
  then obtain k where k: "wc_works C k = Some (sample_work 2)" ..
  have "wo_id (sample_work 2) = 2" by (simp add: sample_work_def)
  then have two: "wc_works C (uuid_str 2) = Some (sample_work 2)"
    using r(4) k unfolding works_valid_def catalog_ok_def by metis
  obtain f1 D1 where f1: "resolve_reference (json_citations ?K) (json_works ?K) r sample_time (f, 0) sample_reference = (Inr ?new, (f1, 1))"
      "holds_catalog f1 D1" "puts_resolution ?new ?D D1"
    by (rule json_service.resolve_reference_cases[OF r(1) f, where ref = sample_reference and clock = sample_time and n = 0])
      (auto simp: stored_resolution_def sample_ids[OF r(1,2)])
  have "stored_relation D1 (wr_id ?w) = None"
    using f1(3) by (simp add: puts_resolution_def) (simp add: stored_relation_def)
  then obtain f2 D2 where f2: "cs_get_or_create_relation (json_citations ?K) f1 ?w = Inr (?w, f2)" "holds_catalog f2 D2" "puts_relation ?w D1 D2"
    using json_port.new_relation[OF f1(2) mk_cites] by blast
  have total: "cs_count_references (json_citations ?K) f2 9 = Inr 1"
    using json_port.counts_references[OF f2(2), where document = 9] f1(3) f2(3)
    by (simp add: puts_relation_def puts_resolution_def) (simp add: sample_reference_def)
  have citing: "citing_work_id (json_works ?K) r (Some (list_document_work_links g)) 9 None = Inr (Some 2)"
    using json_service.citing_decided[OF r(1) g(1), of 9 None] g(2) two by (auto split: sum.splits)
  have cite: "cite_resolved (json_citations ?K) sample_time (Some 2) (f1, 1) sample_reference ?new = (Inr [?w], (f2, 2))"
    by (simp add: cite_resolved_def resolution_for_def store_cites_def mk_cites) (use f2(1) in simp)
  have run: "resolve_document (json_citations ?K) (json_works ?K) r (Some (list_document_work_links g)) sample_time (f, 0) 9 None 0 None =
      (Inr \<lparr>cr_resolutions = [?new], cr_relations = [?w], cr_citing = Some 2, cr_total = 1\<rparr>, (f2, 2))"
    using f1(1) cite citing total json_port.lists_references[OF f, where offset = 0 and limit = None and document = 9] sample_page
    by (simp add: resolve_document_def check_def page_valid_def)
  from document_resolution[OF r(1) f g(1) run]
  obtain m where again: "resolve_document (json_citations ?K) (json_works ?K) r (Some (list_document_work_links g)) sample_time (f2, 2) 9 None 0 None =
      (Inr \<lparr>cr_resolutions = [?new], cr_relations = [?w], cr_citing = Some 2, cr_total = 1\<rparr>, (f2, m))" by auto
  show ?thesis
    by (intro exI conjI) (rule run, simp, simp, rule again)
qed

end
