(* ===== verification/Spec2Isabelle.thy ===== *)
theory Spec2Isabelle imports HttpUriSafe CrawlPolicy ScenarioCrawl Jobs ContextWallets CitationTraversal WorkCatalog ResearchCatalog CitationResolution begin

text \<open>
  A model of the crawling core of Tarkka (\<open>src/src/tarkka\<close>): the part of the program that decides which
  URIs may be fetched, fetches them under a budget, survives interruptions, and stores what it got.

  The program and its parts. A crawl is a \<^emph>\<open>checkpoint\<close> of targets (\<open>domain/traversal.py\<close>) worked off
  under an acquisition policy (\<open>domain/resource_acquisition.py\<close>). One step of it
  (\<open>application/recursive_crawl.py\<close>) asks the gate whether a queued target may be fetched: the technical
  policy, the robots file of the authority (\<open>domain/robots_rules.py\<close>, cached by
  \<open>infrastructure/storage/json_robots_cache.py\<close> and refreshed by \<open>application/robots_refresh.py\<close> through the
  bounded fetch of \<open>application/http_policy_fetch.py\<close>) and the rights decision
  (\<open>application/crawl_eligibility.py\<close>). A target that is ready is acquired by
  \<open>application/http_acquisition.py\<close>, which charges every request to a durable checkpoint before it makes
  it, follows redirects one at a time under the policy, and commits its outputs (an artifact of
  \<open>infrastructure/storage/local_artifacts.py\<close> and an observation of
  \<open>infrastructure/storage/json_source_observation_repository.py\<close>) between a FINALIZING and a COMPLETED
  checkpoint.

  The theories, bottom up.

  \<^item> \<^theory_text>\<open>Prelude\<close>: exceptions as values of a sum type, \<open>bindE\<close>, lists updated by key, the collection
    \<open>res_simps\<close>. \<^theory_text>\<open>Stores\<close>: the locales \<open>store_laws\<close> and \<open>keyed_store\<close>, the contract of the program's keyed
    stores. \<^theory_text>\<open>Effects\<close>: stateful programs with exceptions and their weakest preconditions.

  \<^item> \<^theory_text>\<open>PyStr\<close>, \<^theory_text>\<open>PyHash\<close>, \<^theory_text>\<open>PyIp\<close>, \<^theory_text>\<open>PyUrl\<close>, \<^theory_text>\<open>PyData\<close>: what the source uses of Python's library:
    text as UTF-8 bytes, SHA-1 and SHA-256 over 32-bit words and the identifiers of \<open>uuid5\<close> as 128-bit
    words, addresses and their blocks, URIs, floats, instants and JSON documents.

  \<^item> \<^theory_text>\<open>HttpUri\<close> and \<^theory_text>\<open>HttpUriSafe\<close> (\<open>domain/http_observations.py\<close>): normalisation and the redaction of
    credentials. \<^theory_text>\<open>HttpResponses\<close>: responses, snapshots and the observations made of them.

  \<^item> \<^theory_text>\<open>ResourcePolicy\<close>, \<^theory_text>\<open>Traversal\<close>, \<^theory_text>\<open>TraversalStore\<close>, \<^theory_text>\<open>PolicyRequests\<close>: the policy and the budget, the
    life cycle of targets as the step relation \<open>tstep\<close> with its reachable checkpoints, the catalogue of
    checkpoints, and the charges that belong to no target.

  \<^item> \<^theory_text>\<open>RobotsRules\<close>, \<^theory_text>\<open>RobotsCache\<close>, \<^theory_text>\<open>CrawlPolicy\<close>: robots files, their cache, and the decisions that
    combine them with the policy and with rights.

  \<^item> \<^theory_text>\<open>PolicyFinalization\<close>, \<^theory_text>\<open>ArtifactStore\<close>, \<^theory_text>\<open>ObservationStore\<close>: the journal of policy fetches, artifacts,
    observations and resource links.

  \<^item> \<^theory_text>\<open>HttpPorts\<close>: what the services are given (resolver, transport, stores, clock, sleeper) as the record
    \<open>ports\<close> of functions on an arbitrary outside world that may raise; every effect of a run is noted in
    a trace. \<^theory_text>\<open>HttpAcquisition\<close>, \<^theory_text>\<open>HttpPolicyFetch\<close>, \<^theory_text>\<open>RobotsRefresh\<close>, \<^theory_text>\<open>RecursiveCrawl\<close>: the services.

  \<^item> \<^theory_text>\<open>Framing\<close>, \<^theory_text>\<open>CrawlSafety\<close>: a run in the middle of another, and what a whole crawl step does.
    \<^theory_text>\<open>Runs\<close>: the locale \<open>run_relation\<close>, for relations that every call of a port keeps and that hence every
    service keeps. \<^theory_text>\<open>Deployment\<close>: the services on the local stores, an interpretation of that locale.

  \<^item> \<^theory_text>\<open>PyCoerce\<close>: Python's conversions of decoded JSON and the documents whose records are kept in the
    order of their keys. \<^theory_text>\<open>Jobs\<close> (\<open>application/scale.py\<close>, \<open>storage/json_job_store.py\<close>): quotas, and jobs that
    workers claim. \<^theory_text>\<open>ContextWallets\<close> (\<open>application/context_wallet.py\<close>,
    \<open>storage/json_context_wallet_store.py\<close>): budgets of tokens that are spent once per operation key. Both
    stores are refined to lists of records, and their services to runs of interleaved calls.

  \<^item> \<^theory_text>\<open>Citations\<close> (\<open>domain/citations.py\<close>), \<^theory_text>\<open>CitationStore\<close>
    (\<open>storage/json_citation_repository.py\<close>), \<^theory_text>\<open>CitationTraversal\<close> (\<open>application/citation_traversal.py\<close>):
    bibliographic records, their catalogue as five lists of records that only grow, and the bounded walk
    over relations, proved once against the contract of the listings (locale \<open>relation_index\<close>) and
    interpreted on the catalogue.

  \<^item> \<^theory_text>\<open>Identifiers\<close> (\<open>domain/identifiers.py\<close>): canonical DOIs and arXiv identifiers, character by
    character. \<^theory_text>\<open>Works\<close> (\<open>storage/json_work_repository.py\<close> and the records it stores): the catalogue of
    works as three maps, with transactions; the locale \<open>work_store\<close> is the contract of its port
    (\<open>ports/works.py\<close>), interpreted on the JSON repository. \<^theory_text>\<open>WorkCatalog\<close> (\<open>application/identity.py\<close>,
    \<open>application/works.py\<close>): records grouped by identity, batches of candidates made works, and their
    enrichment, proved against that contract. Random identifiers and the clock are streams of values.

  \<^item> \<^theory_text>\<open>JsonBuckets\<close>: documents with several buckets of records, as relations between JSON and maps.
    \<^theory_text>\<open>Documents\<close> (\<open>domain/models.py\<close>, \<open>domain/source_artifacts.py\<close>, \<open>domain/document_structure.py\<close>):
    documents, and the search that checks that their sections form a forest and orders them; its loop is a
    partial function that is shown to return on every document. \<^theory_text>\<open>ResearchCatalog\<close>
    (\<open>storage/json_repository.py\<close>, \<open>domain/manifest.py\<close>, \<open>domain/work_documents.py\<close>): artifacts, documents
    and the links to works, refined to three maps; the locale \<open>link_store\<close> is what the resolution of
    citations needs of it.

  \<^item> \<^theory_text>\<open>CitationResolution\<close> (\<open>application/citation_resolution.py\<close>, \<open>ports/citations.py\<close>): the references
    of a document resolved to works and stored as relations. The locale \<open>citation_port\<close> is the contract of
    the catalogue of citations, interpreted on \<^theory_text>\<open>CitationStore\<close>; the locale \<open>resolution_service\<close> joins it to
    \<open>work_store\<close> and \<open>link_store\<close>, and the service is proved there once.

  \<^item> \<^theory_text>\<open>Scenario\<close>, \<^theory_text>\<open>ScenarioCrawl\<close>: concrete runs at which the properties of the services are applied.

  What the lemmas show. Well-formedness and bounds of every reachable checkpoint, and the edges of a
  target's life cycle; that no credential reaches a durable URI and that scope and address checks refuse
  what they must (SSRF); that the greedy robots matcher agrees with a declarative semantics; that stores
  return what was saved, the JSON cache refines a map that refuses older entries, and artifacts never
  change; that identifiers and records stay with the work they were given to; and, for arbitrary behaviour of the network and the stores, that each request of a run is
  permitted, charged in advance, bounded and paced, that each way a run ends tells exactly what is
  durable, and that on the local stores the files hold what the run reports.

  Bounds and termination. The redirect loops are total functions with the measure
  \<open>max_redirects - length chain\<close>; the text functions recurse on the length of what is left. One
  loop, the search of \<open>Documents\<close>, is a partial function. No fuel is used. Identifiers are 128-bit and hashes 32-bit words with wrap-around; Python's integers are \<open>int\<close>.

  Modelling decisions. A constructor \<open>mk_X\<close> is \<open>X.__post_init__\<close> on a raw record, and
  \<open>dataclasses.replace\<close> runs it again. Type checks of the source (\<open>isinstance\<close>) are discharged by the types
  of the model. Floats are their finite rational values or the infinities and NaN; rounding is not
  modelled. Instants are microseconds with an offset; overflow of \<open>datetime\<close> is not modelled. A JSON file
  is absent, malformed or a document; the lock and the atomic replacement of a file are one step, so
  concurrent processes appear as interleavings of whole operations. Hashes are opaque in proofs.

  Not modelled: sockets, TLS and DNS (parameters of the model), the parsers of XML, HTML, EPUB and PDF
  and the adapters of remote services, PostgreSQL, language models and embeddings, proof bundles, and
  the command line, HTTP and MCP front ends; streaming files into the artifact store (\<open>put_file\<close>,
  \<open>open_reader\<close>).
\<close>

end
